(* ===== verification/Prelude.thy ===== *)
theory Prelude
  imports Main "HOL-Library.Word"
begin

unbundle bit_operations_syntax

text \<open>
  Shared vocabulary of the development: the C integer types the sources use
  (\<open>cpu_core.h\<close>, \<open>stdint.h\<close>) as words of their width, and the generic facts on words that several
  components need. The sources write register values in octal; the theories
  write the same constants in hexadecimal and give the octal form in a comment
  where the two are not obviously the same.
\<close>

section \<open>Machine integers\<close>

type_synonym u8 = "8 word"      \<comment> \<open>\<open>uint8_t\<close>, \<open>byte\<close>\<close>
type_synonym u16 = "16 word"    \<comment> \<open>\<open>uint16_t\<close>, \<open>word\<close>\<close>
type_synonym u32 = "32 word"    \<comment> \<open>\<open>uint32_t\<close>, \<open>unsigned\<close>\<close>

section \<open>Words\<close>

lemma unat_and_mask_lt: "n < LENGTH('a) \<Longrightarrow> unat (w AND mask n :: 'a::len word) < 2 ^ n"
  by (simp add: unsigned_take_bit_eq flip: take_bit_eq_mask)

lemma and_and_not_same [simp]: "(x AND NOT m) AND m = (0 :: 'a::len word)"
  by (simp add: and.assoc)

lemma and_not_and_same [simp]: "(x AND m) AND NOT m = (0 :: 'a::len word)"
  by (simp add: and.assoc)

lemma unat_lt_exp_iff: "unat (w :: 'a::len word) < 2 ^ n \<longleftrightarrow> (\<forall>m \<ge> n. \<not> bit w m)"
proof
  assume "unat w < 2 ^ n"
  then have "take_bit n w = w"
    by (simp add: word_unat_eq_iff unsigned_take_bit_eq take_bit_nat_eq_self)
  then show "\<forall>m \<ge> n. \<not> bit w m"
    by (metis bit_take_bit_iff not_le)
next
  assume "\<forall>m \<ge> n. \<not> bit w m"
  then have "take_bit n w = w"
    by (auto intro!: bit_word_eqI simp: bit_take_bit_iff) (meson not_le)
  then have "unat w = take_bit n (unat w)"
    by (metis unsigned_take_bit_eq)
  then show "unat w < 2 ^ n"
    by (metis take_bit_nat_less_exp)
qed

text \<open>A masked merge: the bits of \<open>m\<close> from \<open>new\<close>, the others from \<open>old\<close>.\<close>

definition merge_bits :: "'a::len word \<Rightarrow> 'a word \<Rightarrow> 'a word \<Rightarrow> 'a word" where
  "merge_bits old new m = (old AND NOT m) OR (new AND m)"

lemma merge_bits_inside [simp]: "merge_bits old new m AND m = new AND m"
  by (simp add: merge_bits_def and.assoc bit.conj_disj_distrib2)

lemma merge_bits_outside [simp]: "merge_bits old new m AND NOT m = old AND NOT m"
  by (simp add: merge_bits_def and.assoc bit.conj_disj_distrib2)

lemma merge_bits_zero [simp]: "merge_bits old new 0 = old"
  by (simp add: merge_bits_def)

lemma bit_merge_bits: "bit (merge_bits old new m) n = (if bit m n then bit new n else bit old n)"
  by (cases "n < LENGTH('a)")
    (auto simp: merge_bits_def bit_simps dest: bit_imp_le_length)

lemma merge_bits_idem [simp]: "merge_bits (merge_bits old new m) new m = merge_bits old new m"
  by (rule bit_word_eqI) (simp add: bit_merge_bits)

text \<open>Bit positions of a numeral, one at a time: makes facts on constant masks computable.\<close>

lemma less_16_cases: "(\<forall>n < (16::nat). P n) \<longleftrightarrow>
    P 0 \<and> P 1 \<and> P 2 \<and> P 3 \<and> P 4 \<and> P 5 \<and> P 6 \<and> P 7 \<and>
    P 8 \<and> P 9 \<and> P 10 \<and> P 11 \<and> P 12 \<and> P 13 \<and> P 14 \<and> P 15"
  by (simp add: numeral_eq_Suc All_less_Suc) blast

lemma word16_eq_iff:
  "(x :: u16) = y \<longleftrightarrow>
    bit x 0 = bit y 0 \<and> bit x 1 = bit y 1 \<and> bit x 2 = bit y 2 \<and> bit x 3 = bit y 3 \<and>
    bit x 4 = bit y 4 \<and> bit x 5 = bit y 5 \<and> bit x 6 = bit y 6 \<and> bit x 7 = bit y 7 \<and>
    bit x 8 = bit y 8 \<and> bit x 9 = bit y 9 \<and> bit x 10 = bit y 10 \<and> bit x 11 = bit y 11 \<and>
    bit x 12 = bit y 12 \<and> bit x 13 = bit y 13 \<and> bit x 14 = bit y 14 \<and> bit x 15 = bit y 15"
proof -
  have "x = y \<longleftrightarrow> (\<forall>n < 16. bit x n = bit y n)"
    by (auto simp: bit_eq_iff bit_imp_le_length)
  then show ?thesis
    by (simp only: less_16_cases)
qed

lemma less_8_cases: "(\<forall>n < (8::nat). P n) \<longleftrightarrow> P 0 \<and> P 1 \<and> P 2 \<and> P 3 \<and> P 4 \<and> P 5 \<and> P 6 \<and> P 7"
  by (simp add: numeral_eq_Suc All_less_Suc) blast

lemma word8_eq_iff:
  "(x :: u8) = y \<longleftrightarrow> bit x 0 = bit y 0 \<and> bit x 1 = bit y 1 \<and> bit x 2 = bit y 2 \<and> bit x 3 = bit y 3 \<and>
    bit x 4 = bit y 4 \<and> bit x 5 = bit y 5 \<and> bit x 6 = bit y 6 \<and> bit x 7 = bit y 7"
proof -
  have "x = y \<longleftrightarrow> (\<forall>n < 8. bit x n = bit y n)"
    by (auto simp: bit_eq_iff bit_imp_le_length)
  then show ?thesis by (simp only: less_8_cases)
qed

end
