(* ===== verification/KT11D.thy ===== *)
theory KT11D
  imports Prelude
begin

unbundle bit_operations_syntax

text \<open>
  The KT11-D memory management unit of the PDP-11/34: \<open>kt11d.h\<close> and \<open>kt11d.c\<close>
  under \<open>10.02_devices/2_src/cpu34\<close>. The struct \<open>KT11D\<close> is the record \<open>kt11d\<close>, its
  arrays of 16 are functions on \<open>nat\<close> (the bounds of every index are proved in
  \<open>KT11D_Props\<close>). The \<open>unsigned\<close> members that only ever hold 0 or 1 are \<open>bool\<close>; the
  \<open>unsigned\<close> members that hold a two-bit mode field are kept as a 16-bit word like
  the PSW they are cut from. A function that takes the MMU by pointer returns it
  updated; \<open>None\<close> is the C result 1 (\<open>aborted\<close>) of \<open>kt11d_relocate\<close> and the C result 0
  (\<open>not mine\<close>) of the register accesses. The \<open>trace\<close> calls are not modelled.
\<close>

section \<open>Constants of the header\<close>

definition KT11D_READ :: u8 where "KT11D_READ = 1"
definition KT11D_WRITE :: u8 where "KT11D_WRITE = 2"
definition KT11D_SPACE_KERNEL :: nat where "KT11D_SPACE_KERNEL = 0"
definition KT11D_SPACE_USER :: nat where "KT11D_SPACE_USER = 8"
definition KT11D_MODE_KERNEL :: u16 where "KT11D_MODE_KERNEL = 0"
definition KT11D_MODE_USER :: u16 where "KT11D_MODE_USER = 3"
definition KT11D_MMR0_ABORT_NONRESIDENT :: u16 where
  "KT11D_MMR0_ABORT_NONRESIDENT = 0x8000"  \<comment> \<open>0100000\<close>
definition KT11D_MMR0_ABORT_LENGTH :: u16 where
  "KT11D_MMR0_ABORT_LENGTH = 0x4000"  \<comment> \<open>0040000\<close>
definition KT11D_MMR0_ABORT_READONLY :: u16 where
  "KT11D_MMR0_ABORT_READONLY = 0x2000"  \<comment> \<open>0020000\<close>
definition KT11D_MMR0_ABORTS :: u16 where
  "KT11D_MMR0_ABORTS = 0xE000"  \<comment> \<open>0160000\<close>
definition KT11D_MMR0_MAINT :: u16 where
  "KT11D_MMR0_MAINT = 0x0100"  \<comment> \<open>0000400\<close>
definition KT11D_MMR0_MODE :: u16 where
  "KT11D_MMR0_MODE = 0x0060"  \<comment> \<open>0000140\<close>
definition KT11D_MMR0_PAGE :: u16 where
  "KT11D_MMR0_PAGE = 0x000E"  \<comment> \<open>0000016\<close>
definition KT11D_MMR0_ENABLE :: u16 where
  "KT11D_MMR0_ENABLE = 0x0001"
definition KT11D_MMR0_WRITABLE :: u16 where
  "KT11D_MMR0_WRITABLE = 0xE101"  \<comment> \<open>0160401\<close>
definition KT11D_PDR_WRITABLE :: u16 where
  "KT11D_PDR_WRITABLE = 0x7F4E"  \<comment> \<open>0077516\<close>
definition KT11D_PDR_W :: u16 where
  "KT11D_PDR_W = 0x0040"  \<comment> \<open>0000100\<close>
definition KT11D_PDR_ED :: u16 where
  "KT11D_PDR_ED = 0x0008"  \<comment> \<open>0000010\<close>
definition KT11D_PAR_WRITABLE :: u16 where
  "KT11D_PAR_WRITABLE = 0x0FFF"  \<comment> \<open>0007777\<close>
definition KT11D_ABORT_VECTOR :: u16 where
  "KT11D_ABORT_VECTOR = 0x00A8"  \<comment> \<open>0250\<close>

lemmas kt11d_consts =
  KT11D_READ_def KT11D_WRITE_def KT11D_SPACE_KERNEL_def KT11D_SPACE_USER_def
  KT11D_MODE_KERNEL_def KT11D_MODE_USER_def KT11D_MMR0_ABORT_NONRESIDENT_def
  KT11D_MMR0_ABORT_LENGTH_def KT11D_MMR0_ABORT_READONLY_def KT11D_MMR0_ABORTS_def
  KT11D_MMR0_MAINT_def KT11D_MMR0_MODE_def KT11D_MMR0_PAGE_def KT11D_MMR0_ENABLE_def
  KT11D_MMR0_WRITABLE_def KT11D_PDR_WRITABLE_def KT11D_PDR_W_def KT11D_PDR_ED_def
  KT11D_PAR_WRITABLE_def KT11D_ABORT_VECTOR_def

text \<open>The enum \<open>ACF_*\<close> of \<open>kt11d.c\<close> and the two field extractors.\<close>

datatype acf = ACF_NONRESIDENT | ACF_READONLY | ACF_UNUSED | ACF_READWRITE

definition PDR_ACF :: "u16 \<Rightarrow> acf" where
  "PDR_ACF w = (let v = drop_bit 1 w AND 3 in
     if v = 0 then ACF_NONRESIDENT else if v = 1 then ACF_READONLY
     else if v = 2 then ACF_UNUSED else ACF_READWRITE)"

definition PDR_PLF :: "u16 \<Rightarrow> u32" where
  "PDR_PLF w = ucast (drop_bit 8 w AND 0x7F)"

section \<open>State\<close>

record kt11d_page =
  base :: u32       \<comment> \<open>(PAF<<6) - (page<<13)\<close>
  blk_lo :: u8      \<comment> \<open>lowest block number inside the page\<close>
  blk_span :: u8    \<comment> \<open>highest legal block number - blk_lo\<close>
  deny :: u8        \<comment> \<open>bit-OR of the accesses which abort\<close>
  pdr_idx :: u8     \<comment> \<open>index into pdr[], to set the W bit\<close>

record kt11d =
  mmr0 :: u16
  mmr1 :: u16
  mmr2 :: u16
  par :: "nat \<Rightarrow> u16"
  pdr :: "nat \<Rightarrow> u16"
  page :: "nat \<Rightarrow> kt11d_page"
  enabled :: bool
  space :: nat
  prev_space :: nat
  mode :: u16
  prev_mode :: u16
  access_space :: nat
  access_mode :: u16
  access_illegal :: bool
  frozen :: bool
  maint :: bool
  dest_ref :: bool
  mmr1_count :: nat

section \<open>Operations\<close>

definition kt11d_is_own_register :: "u32 \<Rightarrow> bool" where
  "kt11d_is_own_register pa =
    (if pa < 0x3F4C0 then False              \<comment> \<open>0772300: all of memory, the common case\<close>
     else pa \<le> 0x3F4CF                       \<comment> \<open>kernel PDR 772300..772317\<close>
       \<or> (0x3F4E0 \<le> pa \<and> pa \<le> 0x3F4EF)       \<comment> \<open>kernel PAR 772340..772357\<close>
       \<or> (0x3FF7A \<le> pa \<and> pa \<le> 0x3FF7F)       \<comment> \<open>MMR0..MMR2 777572..777577\<close>
       \<or> (0x3FF80 \<le> pa \<and> pa \<le> 0x3FF8F)       \<comment> \<open>user PDR   777600..777617\<close>
       \<or> (0x3FFA0 \<le> pa \<and> pa \<le> 0x3FFAF))"     \<comment> \<open>user PAR   777640..777657\<close>

definition kt11d_set_access :: "kt11d \<Rightarrow> nat \<Rightarrow> u16 \<Rightarrow> kt11d" where
  "kt11d_set_access m sp md = m\<lparr>access_space := sp, access_mode := md,
     access_illegal := (md \<noteq> KT11D_MODE_KERNEL \<and> md \<noteq> KT11D_MODE_USER)\<rparr>"

definition kt11d_unrelocated :: "u16 \<Rightarrow> u32" where
  "kt11d_unrelocated va =
    (if va AND 0xE000 = 0xE000 then ucast va OR 0x30000 else ucast va)"

text \<open>The derived descriptor of one PAR/PDR pair.\<close>

definition kt11d_descriptor :: "u16 \<Rightarrow> u16 \<Rightarrow> nat \<Rightarrow> kt11d_page" where
  "kt11d_descriptor pa_r pd_r idx =
    (let pg = idx mod 8; plf = PDR_PLF pd_r in
     \<lparr> base = push_bit 6 (ucast (pa_r AND KT11D_PAR_WRITABLE)) - push_bit 13 (of_nat pg),
       blk_lo = (if pd_r AND KT11D_PDR_ED \<noteq> 0 then ucast plf else 0),
       blk_span = (if pd_r AND KT11D_PDR_ED \<noteq> 0 then ucast (0x7F - plf) else ucast plf),
       deny = (case PDR_ACF pd_r of
                 ACF_READWRITE \<Rightarrow> 0
               | ACF_READONLY \<Rightarrow> KT11D_WRITE
               | _ \<Rightarrow> KT11D_READ OR KT11D_WRITE),
       pdr_idx = of_nat idx \<rparr>)"

definition kt11d_rebuild :: "kt11d \<Rightarrow> nat \<Rightarrow> kt11d" where
  "kt11d_rebuild m idx =
    m\<lparr>page := (page m)(idx := kt11d_descriptor (par m idx) (pdr m idx) idx)\<rparr>"

definition kt11d_rebuild_all :: "kt11d \<Rightarrow> kt11d" where
  "kt11d_rebuild_all m =
    fold (\<lambda>i m. kt11d_rebuild m i) [0..<16]
      (m\<lparr>enabled := (mmr0 m AND KT11D_MMR0_ENABLE \<noteq> 0),
         frozen := (mmr0 m AND KT11D_MMR0_ABORTS \<noteq> 0),
         maint := (mmr0 m AND KT11D_MMR0_MAINT \<noteq> 0)\<rparr>)"

text \<open>\<open>memset(mmu, 0, sizeof(*mmu))\<close> followed by the assignments of \<open>kt11d_reset\<close>.\<close>

definition kt11d_zero :: kt11d where
  "kt11d_zero = \<lparr> mmr0 = 0, mmr1 = 0, mmr2 = 0, par = (\<lambda>_. 0), pdr = (\<lambda>_. 0),
     page = (\<lambda>_. \<lparr> base = 0, blk_lo = 0, blk_span = 0, deny = 0, pdr_idx = 0 \<rparr>),
     enabled = False, space = 0, prev_space = 0, mode = 0, prev_mode = 0,
     access_space = 0, access_mode = 0, access_illegal = False, frozen = False,
     maint = False, dest_ref = False, mmr1_count = 0 \<rparr>"

definition kt11d_reset :: "kt11d \<Rightarrow> kt11d" where
  "kt11d_reset m =
    kt11d_rebuild_all
      (kt11d_set_access
        (kt11d_zero\<lparr>space := KT11D_SPACE_KERNEL, prev_space := KT11D_SPACE_KERNEL\<rparr>)
        KT11D_SPACE_KERNEL KT11D_MODE_KERNEL)"

definition kt11d_init :: "kt11d \<Rightarrow> kt11d" where
  "kt11d_init m = kt11d_rebuild_all (m\<lparr>mmr0 := 0, mmr1 := 0, mmr2 := 0, mmr1_count := 0\<rparr>)"

definition kt11d_set_modes :: "kt11d \<Rightarrow> u16 \<Rightarrow> kt11d" where
  "kt11d_set_modes m psw =
    (let md = drop_bit 14 psw AND 3; pm = drop_bit 12 psw AND 3;
         sp = (if md = KT11D_MODE_KERNEL then KT11D_SPACE_KERNEL else KT11D_SPACE_USER);
         psp = (if pm = KT11D_MODE_KERNEL then KT11D_SPACE_KERNEL else KT11D_SPACE_USER)
     in kt11d_set_access (m\<lparr>mode := md, prev_mode := pm, space := sp, prev_space := psp\<rparr>) sp md)"

text \<open>The block number of a virtual address, and the one unsigned compare that covers
  both expansion directions.\<close>

definition va_page :: "u16 \<Rightarrow> nat" where
  "va_page va = unat (drop_bit 13 va)"

definition va_block :: "u16 \<Rightarrow> u32" where
  "va_block va = ucast (drop_bit 6 va AND 0x7F)"

definition outside_page :: "kt11d_page \<Rightarrow> u16 \<Rightarrow> bool" where
  "outside_page p va \<longleftrightarrow> va_block va - ucast (blk_lo p) > ucast (blk_span p)"

definition kt11d_abort :: "kt11d \<Rightarrow> u16 \<Rightarrow> nat \<Rightarrow> u8 \<Rightarrow> kt11d" where
  "kt11d_abort m va sp acc =
    (let idx = sp + va_page va;
         bits1 = (case PDR_ACF (pdr m idx) of
                    ACF_READWRITE \<Rightarrow> 0
                  | ACF_READONLY \<Rightarrow>
                      (if acc AND KT11D_WRITE \<noteq> 0 then KT11D_MMR0_ABORT_READONLY else 0)
                  | _ \<Rightarrow> KT11D_MMR0_ABORT_NONRESIDENT);
         bits = (if outside_page (page m idx) va
                 then bits1 OR KT11D_MMR0_ABORT_LENGTH else bits1)
     in if \<not> frozen m
        then m\<lparr>mmr0 := (mmr0 m AND NOT (KT11D_MMR0_MODE OR KT11D_MMR0_PAGE)) OR bits
                        OR push_bit 5 (access_mode m) OR push_bit 1 (of_nat (va_page va)),
               frozen := True\<rparr>
        else m)"

definition kt11d_abort_mode :: "kt11d \<Rightarrow> u16 \<Rightarrow> kt11d" where
  "kt11d_abort_mode m va =
    (if \<not> frozen m
     then m\<lparr>mmr0 := (mmr0 m AND NOT (KT11D_MMR0_MODE OR KT11D_MMR0_PAGE))
                     OR KT11D_MMR0_ABORT_NONRESIDENT
                     OR push_bit 5 (access_mode m) OR push_bit 1 (of_nat (va_page va)),
            frozen := True\<rparr>
     else m)"

text \<open>The load of MMR0<6:1> that every relocated reference makes unless frozen.\<close>

definition mmr0_track :: "kt11d \<Rightarrow> u16 \<Rightarrow> kt11d" where
  "mmr0_track m va =
    (if \<not> frozen m
     then m\<lparr>mmr0 := (mmr0 m AND NOT (KT11D_MMR0_MODE OR KT11D_MMR0_PAGE))
                     OR push_bit 5 (access_mode m) OR push_bit 1 (drop_bit 13 va)\<rparr>
     else m)"

definition kt11d_relocate :: "kt11d \<Rightarrow> u16 \<Rightarrow> nat \<Rightarrow> u8 \<Rightarrow> kt11d \<times> u32 option" where
  "kt11d_relocate m va sp acc =
    (if \<not> enabled m \<and> \<not> (maint m \<and> dest_ref m) then (m, Some (kt11d_unrelocated va))
     else if access_illegal m then (kt11d_abort_mode m va, None)
     else
       let m1 = mmr0_track m va;
           p = page m1 (sp + va_page va)
       in if deny p AND acc \<noteq> 0 then (kt11d_abort m1 va sp acc, None)
          else if outside_page p va then (kt11d_abort m1 va sp acc, None)
          else
            let pa = (base p + ucast va) AND 0x3FFFF;
                i = unat (pdr_idx p)
            in (if acc AND KT11D_WRITE \<noteq> 0 \<and> \<not> kt11d_is_own_register pa
                then m1\<lparr>pdr := (pdr m1)(i := pdr m1 i OR KT11D_PDR_W)\<rparr> else m1,
                Some pa))"

definition kt11d_instruction_start :: "kt11d \<Rightarrow> kt11d" where
  "kt11d_instruction_start m = (if frozen m then m else m\<lparr>mmr1 := 0, mmr1_count := 0\<rparr>)"

definition kt11d_instruction_fetched :: "kt11d \<Rightarrow> u16 \<Rightarrow> kt11d" where
  "kt11d_instruction_fetched m pc = (if frozen m then m else m\<lparr>mmr2 := pc\<rparr>)"

definition mmr1_entry :: "nat \<Rightarrow> int \<Rightarrow> u16" where
  "mmr1_entry reg amount = push_bit 3 (word_of_int amount AND 0x1F) OR (of_nat reg AND 7)"

definition kt11d_log_register :: "kt11d \<Rightarrow> nat \<Rightarrow> int \<Rightarrow> kt11d" where
  "kt11d_log_register m reg amount =
    (if frozen m \<or> reg = 7 \<or> mmr1_count m \<ge> 2 then m
     else
       let entry = mmr1_entry reg amount
       in m\<lparr>mmr1 := (if mmr1_count m = 0 then entry else mmr1 m OR push_bit 8 entry),
            mmr1_count := mmr1_count m + 1\<rparr>)"

section \<open>Register decode\<close>

text \<open>The pointer that \<open>lookup\<close> returns names one of the register images.\<close>

datatype mmu_reg = MMR0 | MMR1 | MMR2 | PDR nat | PAR nat

definition reg_index :: "u32 \<Rightarrow> u32 \<Rightarrow> nat" where
  "reg_index pa first = unat (drop_bit 1 (pa - first))"

definition lookup :: "u32 \<Rightarrow> (mmu_reg \<times> u16) option" where
  "lookup pa =
    (if \<not> kt11d_is_own_register pa then None
     else if pa = 0x3FF7A then Some (MMR0, KT11D_MMR0_WRITABLE)   \<comment> \<open>777572\<close>
     else if pa = 0x3FF7C then Some (MMR1, 0)                     \<comment> \<open>777574\<close>
     else if pa = 0x3FF7E then Some (MMR2, 0)                     \<comment> \<open>777576\<close>
     else if 0x3F4C0 \<le> pa \<and> pa \<le> 0x3F4CE                        \<comment> \<open>772300..772316\<close>
       then Some (PDR (KT11D_SPACE_KERNEL + reg_index pa 0x3F4C0), KT11D_PDR_WRITABLE)
     else if 0x3F4E0 \<le> pa \<and> pa \<le> 0x3F4EE                        \<comment> \<open>772340..772356\<close>
       then Some (PAR (KT11D_SPACE_KERNEL + reg_index pa 0x3F4E0), KT11D_PAR_WRITABLE)
     else if 0x3FF80 \<le> pa \<and> pa \<le> 0x3FF8E                        \<comment> \<open>777600..777616\<close>
       then Some (PDR (KT11D_SPACE_USER + reg_index pa 0x3FF80), KT11D_PDR_WRITABLE)
     else if 0x3FFA0 \<le> pa \<and> pa \<le> 0x3FFAE                        \<comment> \<open>777640..777656\<close>
       then Some (PAR (KT11D_SPACE_USER + reg_index pa 0x3FFA0), KT11D_PAR_WRITABLE)
     else None)"

fun mmu_get :: "kt11d \<Rightarrow> mmu_reg \<Rightarrow> u16" where
  "mmu_get m MMR0 = mmr0 m"
| "mmu_get m MMR1 = mmr1 m"
| "mmu_get m MMR2 = mmr2 m"
| "mmu_get m (PDR i) = pdr m i"
| "mmu_get m (PAR i) = par m i"

fun mmu_put :: "kt11d \<Rightarrow> mmu_reg \<Rightarrow> u16 \<Rightarrow> kt11d" where
  "mmu_put m MMR0 w = m\<lparr>mmr0 := w\<rparr>"
| "mmu_put m MMR1 w = m\<lparr>mmr1 := w\<rparr>"
| "mmu_put m MMR2 w = m\<lparr>mmr2 := w\<rparr>"
| "mmu_put m (PDR i) w = m\<lparr>pdr := (pdr m)(i := w)\<rparr>"
| "mmu_put m (PAR i) w = m\<lparr>par := (par m)(i := w)\<rparr>"

definition kt11d_read_reg :: "kt11d \<Rightarrow> u32 \<Rightarrow> u16 option" where
  "kt11d_read_reg m pa = map_option (\<lambda>(reg, wm). mmu_get m reg) (lookup pa)"

text \<open>Writing a PAR or a PDR clears the "page was written into" flag of the pair.\<close>

definition clear_W_rebuild :: "kt11d \<Rightarrow> nat \<Rightarrow> kt11d" where
  "clear_W_rebuild m i =
    kt11d_rebuild (m\<lparr>pdr := (pdr m)(i := pdr m i AND NOT KT11D_PDR_W)\<rparr>) i"

definition kt11d_write_reg :: "kt11d \<Rightarrow> u32 \<Rightarrow> u16 \<Rightarrow> u16 \<Rightarrow> kt11d option" where
  "kt11d_write_reg m pa w msk =
    (case lookup pa of
       None \<Rightarrow> None
     | Some (reg, wm) \<Rightarrow>
         let m1 = mmu_put m reg (merge_bits (mmu_get m reg) w (msk AND wm))
         in Some (case reg of
                    PDR i \<Rightarrow> clear_W_rebuild m1 i
                  | PAR i \<Rightarrow> clear_W_rebuild m1 i
                  | _ \<Rightarrow> kt11d_rebuild_all m1))"

end
