(* ===== verification/KT11D_Lemmas.thy ===== *)
theory KT11D_Lemmas
  imports KT11D
begin

unbundle bit_operations_syntax

text \<open>
  The lemmas about the KT11-D model. \<open>coherent\<close> is the contract the comment of
  \<open>kt11d_rebuild\<close> names (the derived \<open>page[]\<close> and the hot-path flags agree with
  the raw registers); \<open>mmu_ok\<close> adds what \<open>kt11d_set_modes\<close> and \<open>kt11d_set_access\<close>
  keep about modes and spaces. The first group reads the bit fields of the
  raw registers as arithmetic, the second relates the precomputed descriptors to
  the raw pair, the third shows that every operation keeps \<open>mmu_ok\<close>, the fourth
  covers the abort freeze, the register decode, the undo log in MMR1 and the
  cause an abort records.
\<close>

section \<open>Coherence of the derived descriptors\<close>

definition coherent :: "kt11d \<Rightarrow> bool" where
  "coherent m \<longleftrightarrow>
     (\<forall>i < 16. page m i = kt11d_descriptor (par m i) (pdr m i) i) \<and>
     enabled m = (mmr0 m AND KT11D_MMR0_ENABLE \<noteq> 0) \<and>
     frozen m = (mmr0 m AND KT11D_MMR0_ABORTS \<noteq> 0) \<and>
     maint m = (mmr0 m AND KT11D_MMR0_MAINT \<noteq> 0)"

lemma and_NOT_W_descriptor: "kt11d_descriptor p (w AND NOT KT11D_PDR_W) i = kt11d_descriptor p w i"
proof -
  have a: "drop_bit 1 (w AND NOT KT11D_PDR_W) AND 3 = drop_bit 1 w AND 3"
    by (simp add: word16_eq_iff bit_simps KT11D_PDR_W_def)
  have b: "drop_bit 8 (w AND NOT KT11D_PDR_W) AND 0x7F = drop_bit 8 w AND 0x7F"
    by (simp add: word16_eq_iff bit_simps KT11D_PDR_W_def)
  have c: "(w AND NOT KT11D_PDR_W) AND KT11D_PDR_ED = w AND KT11D_PDR_ED"
    by (simp add: word16_eq_iff bit_simps KT11D_PDR_W_def KT11D_PDR_ED_def)
  show ?thesis
    by (simp only: kt11d_descriptor_def PDR_ACF_def PDR_PLF_def a b c)
qed

lemma rebuild_all_fields:
  "kt11d_rebuild_all m = m\<lparr>enabled := (mmr0 m AND KT11D_MMR0_ENABLE \<noteq> 0),
         frozen := (mmr0 m AND KT11D_MMR0_ABORTS \<noteq> 0),
         maint := (mmr0 m AND KT11D_MMR0_MAINT \<noteq> 0),
         page := (\<lambda>i. if i < 16 then kt11d_descriptor (par m i) (pdr m i) i else page m i)\<rparr>"
proof -
  have *: "fold (\<lambda>i m. kt11d_rebuild m i) [0..<n] m' = 
     m'\<lparr>page := (\<lambda>i. if i < n then kt11d_descriptor (par m' i) (pdr m' i) i else page m' i)\<rparr>" for n m'
    by (induction n) (auto simp: kt11d_rebuild_def fun_eq_iff)
  show ?thesis unfolding kt11d_rebuild_all_def * by (simp cong: if_cong)
qed



lemma blk_nat: "unat (va_block va) = unat va div 64 mod 128"
proof -
  have "va_block va = ucast (va div 64 mod 128)"
    using take_bit_eq_mod[of 7 "va div 64"]
    by (simp add: va_block_def drop_bit_eq_div take_bit_eq_mask mask_eq_exp_minus_1)
  then show ?thesis
    by (simp add: unsigned_ucast_eq take_bit_eq_mod unat_div_distrib unat_mod_distrib)
qed
lemma plf_nat: "unat (PDR_PLF w) = unat w div 256 mod 128"
proof -
  have "PDR_PLF w = ucast (w div 256 mod 128)"
    using take_bit_eq_mod[of 7 "w div 256"]
    by (simp add: PDR_PLF_def drop_bit_eq_div take_bit_eq_mask mask_eq_exp_minus_1)
  then show ?thesis
    by (simp add: unsigned_ucast_eq take_bit_eq_mod unat_div_distrib unat_mod_distrib)
qed
lemma page_nat: "va_page va = unat va div 8192"
  by (simp add: va_page_def drop_bit_eq_div unat_div_distrib)
lemma page_lt: "va_page va < 8"
  using unsigned_less[of va] by (simp add: page_nat div_less_iff_less_mult)

lemma ed_nat: "w AND KT11D_PDR_ED \<noteq> 0 \<longleftrightarrow> odd (unat w div 8)"
proof -
  have "w AND KT11D_PDR_ED \<noteq> 0 \<longleftrightarrow> bit w 3"
    by (simp add: word16_eq_iff bit_simps KT11D_PDR_ED_def)
  also have "\<dots> \<longleftrightarrow> bit (unat w) 3"
    by (simp add: bit_unsigned_iff)
  also have "\<dots> \<longleftrightarrow> odd (unat w div 8)"
    by (simp add: bit_iff_odd)
  finally show ?thesis .
qed
lemma acf_nat: "PDR_ACF w = (let v = unat w div 2 mod 4 in
   if v = 0 then ACF_NONRESIDENT else if v = 1 then ACF_READONLY
     else if v = 2 then ACF_UNUSED else ACF_READWRITE)"
proof -
  have "drop_bit 1 w AND 3 = w div 2 mod 4"
    using take_bit_eq_mod[of 2 "w div 2"]
    by (simp add: drop_bit_eq_div take_bit_eq_mask mask_eq_exp_minus_1)
  then have eq: "unat (drop_bit 1 w AND 3) = unat w div 2 mod 4"
    by (simp add: unat_div_distrib unat_mod_distrib)
  have "drop_bit 1 w AND 3 = 0 \<longleftrightarrow> unat w div 2 mod 4 = 0"
    "drop_bit 1 w AND 3 = 1 \<longleftrightarrow> unat w div 2 mod 4 = 1"
    "drop_bit 1 w AND 3 = 2 \<longleftrightarrow> unat w div 2 mod 4 = 2"
    by (simp_all only: eq[symmetric] word_unat_eq_iff) simp_all
  then show ?thesis by (simp only: PDR_ACF_def Let_def)
qed
text \<open>The two access kinds the CPU passes.\<close>

definition acc_ok :: "u8 \<Rightarrow> bool" where "acc_ok a \<longleftrightarrow> a = KT11D_READ \<or> a = KT11D_WRITE"

definition page_permits :: "u16 \<Rightarrow> u8 \<Rightarrow> u16 \<Rightarrow> bool" where
  "page_permits d acc va \<longleftrightarrow>
     (let acf = unat d div 2 mod 4; ed = odd (unat d div 8); plf = unat d div 256 mod 128;
          blk = unat va div 64 mod 128 in
      (acf = 3 \<or> acf = 1 \<and> acc = KT11D_READ) \<and>
      (if ed then plf \<le> blk else blk \<le> plf))"

lemma unat_ucast_u8: "x < 256 \<Longrightarrow> unat (ucast (of_nat x :: u8) :: u32) = x"
  by (simp add: unsigned_ucast_eq unsigned_of_nat take_bit_eq_mod)

lemma descriptor_blk:
  assumes "q = kt11d_descriptor p d i"
  shows "unat (ucast (blk_lo q) :: u32) = (if odd (unat d div 8) then unat d div 256 mod 128 else 0)"
    and "unat (ucast (blk_span q) :: u32) =
      (if odd (unat d div 8) then 127 - unat d div 256 mod 128 else unat d div 256 mod 128)"
proof -
  have lt: "unat (PDR_PLF d) < 128" by (simp add: plf_nat)
  have sub: "unat (0x7F - PDR_PLF d) = 127 - unat (PDR_PLF d)"
    using lt by (simp add: unat_sub word_le_nat_alt)
  have uc: "unat (ucast (ucast x :: u8) :: u32) = unat x" if "unat x < 256" for x :: u32
    using that by (simp add: unsigned_ucast_eq take_bit_eq_mod unat_mod_distrib)
  show "unat (ucast (blk_lo q) :: u32) = (if odd (unat d div 8) then unat d div 256 mod 128 else 0)"
    using lt by (simp add: assms kt11d_descriptor_def Let_def ed_nat uc plf_nat)
  show "unat (ucast (blk_span q) :: u32) =
      (if odd (unat d div 8) then 127 - unat d div 256 mod 128 else unat d div 256 mod 128)"
    using lt sub by (simp add: assms kt11d_descriptor_def Let_def ed_nat uc plf_nat)
qed

lemma wrap_compare:
  fixes blk lo span :: u32
  assumes "unat blk < 128" "unat lo \<le> 127" "unat span \<le> 127 - unat lo"
  shows "blk - lo > span \<longleftrightarrow> \<not> (unat lo \<le> unat blk \<and> unat blk \<le> unat lo + unat span)"
proof (cases "unat lo \<le> unat blk")
  case True
  then have "unat (blk - lo) = unat blk - unat lo" by (simp add: unat_sub word_le_nat_alt)
  then show ?thesis using True by (simp add: word_less_nat_alt) arith
next
  case False
  then have "unat (blk - lo) = 4294967296 + unat blk - unat lo"
    using assms by (simp add: unat_sub_if_size word_size)
  then show ?thesis using False assms by (simp add: word_less_nat_alt)
qed

lemma outside_page_nat:
  "outside_page (kt11d_descriptor p d i) va \<longleftrightarrow>
    \<not> (if odd (unat d div 8) then unat d div 256 mod 128 \<le> unat va div 64 mod 128
       else unat va div 64 mod 128 \<le> unat d div 256 mod 128)"
proof -
  note b = descriptor_blk[OF refl, of p d i]
  have l: "unat d div 256 mod 128 < 128" "unat va div 64 mod 128 < 128" by simp_all
  show ?thesis
    unfolding outside_page_def
    using l by (subst wrap_compare) (auto simp: b blk_nat)
qed

lemma deny_nat:
  assumes "acc_ok acc"
  shows "deny (kt11d_descriptor p d i) AND acc \<noteq> 0 \<longleftrightarrow>
    \<not> (unat d div 2 mod 4 = 3 \<or> unat d div 2 mod 4 = 1 \<and> acc = KT11D_READ)"
proof -
  have "unat d div 2 mod 4 < 4" by simp
  then consider "unat d div 2 mod 4 = 0" | "unat d div 2 mod 4 = 1" | "unat d div 2 mod 4 = 2"
    | "unat d div 2 mod 4 = 3" by linarith
  then show ?thesis
    using assms by cases (auto simp: acc_ok_def kt11d_descriptor_def acf_nat Let_def KT11D_READ_def KT11D_WRITE_def)
qed

lemma pa_nat:
  assumes "i mod 8 = va_page va"
  shows "unat ((base (kt11d_descriptor p d i) + ucast va) AND 0x3FFFF) =
    (unat p mod 4096 * 64 + unat va mod 8192) mod 262144"
proof -
  have P: "ucast (p AND KT11D_PAR_WRITABLE) = (of_nat (unat p mod 4096) :: u32)"
  proof -
    have "p AND KT11D_PAR_WRITABLE = p mod 4096"
      using take_bit_eq_mod[of 12 p]
      by (simp add: take_bit_eq_mask mask_eq_exp_minus_1 KT11D_PAR_WRITABLE_def)
    then show ?thesis
      by (simp add: word_unat_eq_iff unsigned_ucast_eq unat_mod_distrib unsigned_of_nat)
  qed
  have V: "(ucast va :: u32) = of_nat (8192 * va_page va + unat va mod 8192)"
    by (simp add: page_nat mult_div_mod_eq word_unat_eq_iff unsigned_ucast_eq unsigned_of_nat del: of_nat_add of_nat_mult)
  have "base (kt11d_descriptor p d i) + ucast va =
     of_nat (64 * (unat p mod 4096) + unat va mod 8192)"
    by (simp add: kt11d_descriptor_def Let_def P V push_bit_eq_mult assms)
  then have "unat (base (kt11d_descriptor p d i) + ucast va) = 64 * (unat p mod 4096) + unat va mod 8192"
    by (simp add: unsigned_of_nat take_bit_eq_mod del: of_nat_add of_nat_mult)
  moreover have "x AND 0x3FFFF = take_bit 18 x" for x :: u32
    by (simp add: take_bit_eq_mask mask_eq_exp_minus_1)
  ultimately show ?thesis
    by (simp add: take_bit_eq_mod unat_mod_distrib mult.commute)
qed

section \<open>Translation against the raw registers\<close>

text \<open>What a PAR/PDR pair means, read off the raw registers as the handbook does.\<close>

definition spec_translate :: "kt11d \<Rightarrow> u16 \<Rightarrow> nat \<Rightarrow> u8 \<Rightarrow> nat option" where
  "spec_translate m va sp acc =
    (let i = sp + unat va div 8192 in
     if page_permits (pdr m i) acc va
     then Some ((unat (par m i) mod 4096 * 64 + unat va mod 8192) mod 262144)
     else None)"

lemma track_fields [simp]:
  "page (mmr0_track m va) = page m" "par (mmr0_track m va) = par m" "pdr (mmr0_track m va) = pdr m"
  "enabled (mmr0_track m va) = enabled m" "maint (mmr0_track m va) = maint m"
  "frozen (mmr0_track m va) = frozen m" "mmr1 (mmr0_track m va) = mmr1 m" "mmr2 (mmr0_track m va) = mmr2 m"
  "access_mode (mmr0_track m va) = access_mode m"  "access_illegal (mmr0_track m va) = access_illegal m" 
  by (simp_all add: mmr0_track_def)

lemma relocate_refines:
  assumes "coherent m" "enabled m \<or> maint m \<and> dest_ref m" "\<not> access_illegal m" "sp = 0 \<or> sp = 8" "acc_ok acc"
  shows "map_option unat (snd (kt11d_relocate m va sp acc)) = spec_translate m va sp acc"
proof -
  let ?i = "sp + va_page va"
  have i: "?i < 16" "?i mod 8 = va_page va"
    using assms(4) page_lt[of va] by auto
  have pg: "page m ?i = kt11d_descriptor (par m ?i) (pdr m ?i) ?i"
    using assms(1) i by (simp add: coherent_def)
  show ?thesis
    using assms(2,3)
    by (auto simp: kt11d_relocate_def spec_translate_def Let_def pg page_nat[symmetric]
        deny_nat[OF assms(5)] outside_page_nat page_permits_def pa_nat[OF i(2)])
qed

lemma descriptor_OR_W [simp]: "kt11d_descriptor p (w OR KT11D_PDR_W) i = kt11d_descriptor p w i"
proof -
  have "(w OR KT11D_PDR_W) AND NOT KT11D_PDR_W = w AND NOT KT11D_PDR_W"
    by (simp add: word16_eq_iff bit_simps KT11D_PDR_W_def)
  then show ?thesis by (metis and_NOT_W_descriptor)
qed

section \<open>The invariant\<close>

definition space_of :: "u16 \<Rightarrow> nat" where
  "space_of md = (if md = KT11D_MODE_KERNEL then KT11D_SPACE_KERNEL else KT11D_SPACE_USER)"

definition mmu_ok :: "kt11d \<Rightarrow> bool" where
  "mmu_ok m \<longleftrightarrow> coherent m \<and>
     mode m \<le> 3 \<and> prev_mode m \<le> 3 \<and> access_mode m \<le> 3 \<and>
     space m = space_of (mode m) \<and> prev_space m = space_of (prev_mode m) \<and>
     access_space m = space_of (access_mode m) \<and>
     access_illegal m = (access_mode m \<noteq> KT11D_MODE_KERNEL \<and> access_mode m \<noteq> KT11D_MODE_USER) \<and>
     mmr1_count m \<le> 2"

lemma le3_bits: "(md :: u16) \<le> 3 \<Longrightarrow> md = 0 \<or> md = 1 \<or> md = 2 \<or> md = 3"
  by (simp add: word_le_nat_alt word_unat_eq_iff) arith

lemma page_word_cases: "va_page va = 0 \<or> va_page va = 1 \<or> va_page va = 2 \<or> va_page va = 3 \<or>
  va_page va = 4 \<or> va_page va = 5 \<or> va_page va = 6 \<or> va_page va = 7"
  using page_lt[of va] by arith

lemma drop13_cases: "drop_bit 13 va = (of_nat (va_page va) :: u16)"
  by (simp add: va_page_def)

text \<open>The mode and page fields never spill into the control bits of MMR0.\<close>

lemma mmr0_fields_control:
  fixes w x :: u16
  assumes "md \<le> 3" and "k \<le> 7" and "c AND 0x6E = 0"
  shows "((w AND NOT (KT11D_MMR0_MODE OR KT11D_MMR0_PAGE)) OR x OR push_bit 5 md OR push_bit 1 (of_nat k)) AND c
    = (w OR x) AND c"
proof -
  have *: "(push_bit 5 md OR push_bit 1 (of_nat k)) AND NOT 0x6E = (0 :: u16)"
  proof -
    have "k = 0 \<or> k = 1 \<or> k = 2 \<or> k = 3 \<or> k = 4 \<or> k = 5 \<or> k = 6 \<or> k = 7" using assms(2) by arith
    then show ?thesis using le3_bits[OF assms(1)] by (elim disjE) simp_all
  qed
  show ?thesis
  proof (rule bit_word_eqI)
    fix n assume "n < LENGTH(16)"
    have a: "bit ((push_bit 5 md OR push_bit 1 (of_nat k)) AND NOT 0x6E) n = False" by (simp only: *) simp
    have b: "bit (c AND 0x6E) n = False" by (simp only: assms(3)) simp
    have c: "KT11D_MMR0_MODE OR KT11D_MMR0_PAGE = 0x6E" by (simp add: KT11D_MMR0_MODE_def KT11D_MMR0_PAGE_def)
    show "bit (((w AND NOT (KT11D_MMR0_MODE OR KT11D_MMR0_PAGE)) OR x OR push_bit 5 md OR push_bit 1 (of_nat k)) AND c) n
      = bit ((w OR x) AND c) n"
      unfolding c using a b \<open>n < LENGTH(16)\<close>
      by (simp only: bit_and_iff bit_or_iff bit_not_iff) auto
  qed
qed

lemmas mmr0_track_control = mmr0_fields_control[where x = 0, simplified]

lemma mmu_ok_track: "mmu_ok m \<Longrightarrow> mmu_ok (mmr0_track m va)"
  using page_lt[of va]
  by (auto simp: mmu_ok_def coherent_def mmr0_track_def drop13_cases mmr0_track_control
      KT11D_MMR0_ENABLE_def KT11D_MMR0_MAINT_def KT11D_MMR0_ABORTS_def)

lemma mmu_ok_set_W: "mmu_ok m \<Longrightarrow> mmu_ok (m\<lparr>pdr := (pdr m)(i := pdr m i OR KT11D_PDR_W)\<rparr>)"
  by (auto simp: mmu_ok_def coherent_def)

lemma mmu_ok_abort_gen:
  assumes ok: "mmu_ok m" and "\<not> frozen m" "x AND 0x0101 = 0" "x AND KT11D_MMR0_ABORTS \<noteq> 0"
  shows "mmu_ok (m\<lparr>mmr0 := (mmr0 m AND NOT (KT11D_MMR0_MODE OR KT11D_MMR0_PAGE)) OR x
           OR push_bit 5 (access_mode m) OR push_bit 1 (of_nat (va_page va)), frozen := True\<rparr>)"
proof -
  have "access_mode m \<le> 3" "va_page va \<le> 7" using ok page_lt[of va] by (auto simp: mmu_ok_def)
  note f = mmr0_fields_control[OF this]
  have x: "x AND KT11D_MMR0_ENABLE = 0" "x AND KT11D_MMR0_MAINT = 0"
    using arg_cong[OF assms(3), of "\<lambda>v. v AND 1"] arg_cong[OF assms(3), of "\<lambda>v. v AND 0x100"]
    by (simp_all add: and.assoc KT11D_MMR0_ENABLE_def KT11D_MMR0_MAINT_def)
  have e: "mmr0 m AND KT11D_MMR0_ABORTS = 0" using ok assms(2) by (simp add: mmu_ok_def coherent_def)
  let ?n = "(mmr0 m AND NOT (KT11D_MMR0_MODE OR KT11D_MMR0_PAGE)) OR x
           OR push_bit 5 (access_mode m) OR push_bit 1 (of_nat (va_page va))"
  have "?n AND KT11D_MMR0_ENABLE = mmr0 m AND KT11D_MMR0_ENABLE"
    "?n AND KT11D_MMR0_MAINT = mmr0 m AND KT11D_MMR0_MAINT"
    "?n AND KT11D_MMR0_ABORTS = x AND KT11D_MMR0_ABORTS"
    using x e by (subst f; simp add: bit.conj_disj_distrib2 kt11d_consts)+
  then show ?thesis
    using ok assms(4) unfolding mmu_ok_def coherent_def by simp
qed

lemma mmu_ok_abort_mode: "mmu_ok m \<Longrightarrow> mmu_ok (kt11d_abort_mode m va)"
  using mmu_ok_abort_gen[of m KT11D_MMR0_ABORT_NONRESIDENT va]
  by (simp add: kt11d_abort_mode_def KT11D_MMR0_ABORT_NONRESIDENT_def KT11D_MMR0_ABORTS_def)

definition abort_bits :: "kt11d \<Rightarrow> u16 \<Rightarrow> nat \<Rightarrow> u8 \<Rightarrow> u16" where
  "abort_bits m va sp acc =
    (let idx = sp + va_page va;
         bits1 = (case PDR_ACF (pdr m idx) of
                    ACF_READWRITE \<Rightarrow> 0
                  | ACF_READONLY \<Rightarrow>
                      (if acc AND KT11D_WRITE \<noteq> 0 then KT11D_MMR0_ABORT_READONLY else 0)
                  | _ \<Rightarrow> KT11D_MMR0_ABORT_NONRESIDENT)
     in if outside_page (page m idx) va then bits1 OR KT11D_MMR0_ABORT_LENGTH else bits1)"

lemma kt11d_abort_eq: "kt11d_abort m va sp acc =
  (if frozen m then m else m\<lparr>mmr0 := (mmr0 m AND NOT (KT11D_MMR0_MODE OR KT11D_MMR0_PAGE))
     OR abort_bits m va sp acc OR push_bit 5 (access_mode m) OR push_bit 1 (of_nat (va_page va)),
     frozen := True\<rparr>)"
  by (simp add: kt11d_abort_def abort_bits_def Let_def)

lemma abort_bits_ctl: "abort_bits m va sp acc AND 0x0101 = 0"
  by (auto simp: abort_bits_def Let_def kt11d_consts split: acf.split)

lemma abort_bits_nonzero:
  assumes "mmu_ok m" "sp = 0 \<or> sp = 8" "acc_ok acc"
    and "deny (page m (sp + va_page va)) AND acc \<noteq> 0 \<or> outside_page (page m (sp + va_page va)) va"
  shows "abort_bits m va sp acc AND KT11D_MMR0_ABORTS \<noteq> 0"
proof -
  let ?i = "sp + va_page va"
  have "?i < 16" using assms(2) page_lt[of va] by auto
  then have pg: "page m ?i = kt11d_descriptor (par m ?i) (pdr m ?i) ?i"
    using assms(1) by (simp add: mmu_ok_def coherent_def)
  show ?thesis
    using assms(3,4)
    by (cases "PDR_ACF (pdr m ?i)")
      (auto simp: abort_bits_def Let_def pg kt11d_descriptor_def acc_ok_def kt11d_consts)
qed

lemma mmu_ok_abort:
  assumes "mmu_ok m" "sp = 0 \<or> sp = 8" "acc_ok acc"
    and "deny (page m (sp + va_page va)) AND acc \<noteq> 0 \<or> outside_page (page m (sp + va_page va)) va"
  shows "mmu_ok (kt11d_abort m va sp acc)"
  using mmu_ok_abort_gen[OF assms(1) _ abort_bits_ctl abort_bits_nonzero[OF assms]] assms(1)
  by (simp add: kt11d_abort_eq)

lemma mmu_ok_relocate:
  assumes "mmu_ok m" "sp = 0 \<or> sp = 8" "acc_ok acc"
  shows "mmu_ok (fst (kt11d_relocate m va sp acc))"
proof -
  have t: "mmu_ok (mmr0_track m va)" using assms(1) by (rule mmu_ok_track)
  note a = mmu_ok_abort[OF t assms(2,3)]
  show ?thesis
    using assms(1) t mmu_ok_set_W[OF t] mmu_ok_abort_mode[OF assms(1)]
    by (auto simp: kt11d_relocate_def Let_def intro!: a)
qed

lemma mmu_ok_set_access:
  "mmu_ok m \<Longrightarrow> md \<le> 3 \<Longrightarrow> sp = space_of md \<Longrightarrow> mmu_ok (kt11d_set_access m sp md)"
  by (auto simp: mmu_ok_def coherent_def kt11d_set_access_def)

lemma and3_le: "(x :: u16) AND 3 \<le> 3"
  by (simp add: word_and_le1)

lemma mmu_ok_set_modes: "mmu_ok m \<Longrightarrow> mmu_ok (kt11d_set_modes m psw)"
  by (auto simp: mmu_ok_def coherent_def kt11d_set_modes_def kt11d_set_access_def Let_def
      space_of_def and3_le)

lemma mmu_ok_instruction_start: "mmu_ok m \<Longrightarrow> mmu_ok (kt11d_instruction_start m)"
  by (auto simp: mmu_ok_def coherent_def kt11d_instruction_start_def)

lemma mmu_ok_instruction_fetched: "mmu_ok m \<Longrightarrow> mmu_ok (kt11d_instruction_fetched m pc)"
  by (auto simp: mmu_ok_def coherent_def kt11d_instruction_fetched_def)

lemma mmu_ok_log_register: "mmu_ok m \<Longrightarrow> mmu_ok (kt11d_log_register m r a)"
  by (auto simp: mmu_ok_def coherent_def kt11d_log_register_def Let_def)

lemma mmu_ok_dest_ref: "mmu_ok m \<Longrightarrow> mmu_ok (m\<lparr>dest_ref := d\<rparr>)"
  by (simp add: mmu_ok_def coherent_def)

lemma mmu_ok_rebuild_all:
  "mode m \<le> 3 \<Longrightarrow> prev_mode m \<le> 3 \<Longrightarrow> access_mode m \<le> 3 \<Longrightarrow>
     space m = space_of (mode m) \<Longrightarrow> prev_space m = space_of (prev_mode m) \<Longrightarrow>
     access_space m = space_of (access_mode m) \<Longrightarrow>
     access_illegal m = (access_mode m \<noteq> KT11D_MODE_KERNEL \<and> access_mode m \<noteq> KT11D_MODE_USER) \<Longrightarrow>
     mmr1_count m \<le> 2 \<Longrightarrow> mmu_ok (kt11d_rebuild_all m)"
  by (simp add: rebuild_all_fields mmu_ok_def coherent_def)

lemma mmu_ok_init: "mmu_ok m \<Longrightarrow> mmu_ok (kt11d_init m)"
  unfolding kt11d_init_def by (rule mmu_ok_rebuild_all) (simp_all add: mmu_ok_def)

lemma mmu_ok_reset: "mmu_ok (kt11d_reset m)"
  unfolding kt11d_reset_def
  by (rule mmu_ok_rebuild_all) (simp_all add: kt11d_zero_def kt11d_set_access_def space_of_def kt11d_consts)

lemma clear_W_rebuild_eq:
  "clear_W_rebuild m i = m\<lparr>pdr := (pdr m)(i := pdr m i AND NOT KT11D_PDR_W),
     page := (page m)(i := kt11d_descriptor (par m i) (pdr m i) i)\<rparr>"
  by (simp add: clear_W_rebuild_def kt11d_rebuild_def and_NOT_W_descriptor)


lemma mmu_ok_clear_W_PDR: "mmu_ok m \<Longrightarrow> mmu_ok (clear_W_rebuild (m\<lparr>pdr := (pdr m)(i := v)\<rparr>) i)"
  by (simp add: clear_W_rebuild_eq mmu_ok_def coherent_def and_NOT_W_descriptor)

lemma mmu_ok_clear_W_PAR: "mmu_ok m \<Longrightarrow> mmu_ok (clear_W_rebuild (m\<lparr>par := (par m)(i := v)\<rparr>) i)"
  by (simp add: clear_W_rebuild_eq mmu_ok_def coherent_def and_NOT_W_descriptor)

lemma mmu_ok_rebuild_mmr:
  "mmu_ok m \<Longrightarrow> mmu_ok (kt11d_rebuild_all (m\<lparr>mmr0 := v\<rparr>))"
  "mmu_ok m \<Longrightarrow> mmu_ok (kt11d_rebuild_all (m\<lparr>mmr1 := v\<rparr>))"
  "mmu_ok m \<Longrightarrow> mmu_ok (kt11d_rebuild_all (m\<lparr>mmr2 := v\<rparr>))"
  by (rule mmu_ok_rebuild_all; simp add: mmu_ok_def)+

lemma mmu_ok_write_reg:
  assumes "mmu_ok m" "kt11d_write_reg m pa w msk = Some m'"
  shows "mmu_ok m'"
proof -
  obtain reg wm where l: "lookup pa = Some (reg, wm)"
    using assms(2) by (auto simp: kt11d_write_reg_def split: option.splits)
  show ?thesis
    using assms l
    by (cases reg) (simp_all add: kt11d_write_reg_def Let_def, auto simp: mmu_ok_clear_W_PDR
        mmu_ok_clear_W_PAR mmu_ok_rebuild_mmr)
qed
section \<open>Runs of the MMU\<close>

text \<open>Every way the CPU core drives the MMU, as one datatype.\<close>

datatype mmu_op =
    Relocate u16 u8
  | WriteReg u32 u16 u16
  | SetModes u16
  | AccessKernel | AccessPrev | AccessCurrent
  | InstrStart | InstrFetched u16
  | LogRegister nat int
  | DestRef bool
  | Init | Reset

fun mmu_apply :: "mmu_op \<Rightarrow> kt11d \<Rightarrow> kt11d" where
  "mmu_apply (Relocate va acc) m = fst (kt11d_relocate m va (access_space m) acc)"
| "mmu_apply (WriteReg pa w msk) m = (case kt11d_write_reg m pa w msk of None \<Rightarrow> m | Some m' \<Rightarrow> m')"
| "mmu_apply (SetModes w) m = kt11d_set_modes m w"
| "mmu_apply AccessKernel m = kt11d_set_access m KT11D_SPACE_KERNEL KT11D_MODE_KERNEL"
| "mmu_apply AccessPrev m = kt11d_set_access m (prev_space m) (prev_mode m)"
| "mmu_apply AccessCurrent m = kt11d_set_access m (space m) (mode m)"
| "mmu_apply InstrStart m = kt11d_instruction_start m"
| "mmu_apply (InstrFetched pc) m = kt11d_instruction_fetched m pc"
| "mmu_apply (LogRegister r a) m = kt11d_log_register m r a"
| "mmu_apply (DestRef d) m = m\<lparr>dest_ref := d\<rparr>"
| "mmu_apply Init m = kt11d_init m"
| "mmu_apply Reset m = kt11d_reset m"

fun mmu_op_ok :: "mmu_op \<Rightarrow> bool" where
  "mmu_op_ok (Relocate va acc) = acc_ok acc"
| "mmu_op_ok _ = True"

lemma space_of_cases: "space_of md = 0 \<or> space_of md = 8"
  by (simp add: space_of_def kt11d_consts)

lemma mmu_ok_access_space: "mmu_ok m \<Longrightarrow> access_space m = 0 \<or> access_space m = 8"
  using space_of_cases by (simp add: mmu_ok_def)

lemma mmu_ok_apply: "mmu_ok m \<Longrightarrow> mmu_op_ok op \<Longrightarrow> mmu_ok (mmu_apply op m)"
proof (cases op)
  case (Relocate va acc)
  assume "mmu_ok m" "mmu_op_ok op"
  then show ?thesis using Relocate by (simp add: mmu_ok_relocate mmu_ok_access_space)
next
  case (WriteReg pa w msk)
  assume "mmu_ok m"
  then show ?thesis using WriteReg by (auto split: option.split intro: mmu_ok_write_reg)
next
  case AccessKernel
  assume "mmu_ok m"
  then show ?thesis using AccessKernel by (simp add: mmu_ok_set_access space_of_def kt11d_consts)
next
  case AccessPrev
  assume ok: "mmu_ok m"
  then have "prev_mode m \<le> 3" "prev_space m = space_of (prev_mode m)" by (simp_all add: mmu_ok_def)
  then show ?thesis using AccessPrev ok by (simp add: mmu_ok_set_access)
next
  case AccessCurrent
  assume ok: "mmu_ok m"
  then have "mode m \<le> 3" "space m = space_of (mode m)" by (simp_all add: mmu_ok_def)
  then show ?thesis using AccessCurrent ok by (simp add: mmu_ok_set_access)
qed (simp_all add: mmu_ok_set_modes mmu_ok_instruction_start mmu_ok_instruction_fetched
    mmu_ok_log_register mmu_ok_dest_ref mmu_ok_init mmu_ok_reset)

definition mmu_run :: "mmu_op list \<Rightarrow> kt11d \<Rightarrow> kt11d" where
  "mmu_run ops m = fold mmu_apply ops m"

lemma mmu_ok_run: "mmu_ok m \<Longrightarrow> list_all mmu_op_ok ops \<Longrightarrow> mmu_ok (mmu_run ops m)"
  unfolding mmu_run_def by (induction ops arbitrary: m) (simp_all add: mmu_ok_apply)

fun thaws :: "mmu_op \<Rightarrow> bool" where
  "thaws (WriteReg pa w msk) = (pa = 0x3FF7A)"
| "thaws Init = True"
| "thaws Reset = True"
| "thaws _ = False"

lemma lookup_MMR0: "lookup pa = Some (MMR0, wm) \<Longrightarrow> pa = 0x3FF7A"
  by (auto simp: lookup_def split: if_splits)

lemma lookup_MMR_mask: "lookup pa = Some (reg, wm) \<Longrightarrow> reg = MMR1 \<or> reg = MMR2 \<Longrightarrow> wm = 0"
  by (auto simp: lookup_def split: if_splits)

definition mmr012 :: "kt11d \<Rightarrow> u16 \<times> u16 \<times> u16" where
  "mmr012 m = (mmr0 m, mmr1 m, mmr2 m)"

lemma frozen_apply:
  assumes "frozen m" "mmu_ok m" "\<not> thaws op"
  shows "mmr012 (mmu_apply op m) = mmr012 m \<and> frozen (mmu_apply op m)"
proof (cases op)
  case (Relocate va acc)
  then show ?thesis using assms
    by (auto simp: mmr012_def kt11d_relocate_def kt11d_abort_eq kt11d_abort_mode_def mmr0_track_def Let_def)
next
  case (WriteReg pa w msk)
  have fr: "frozen m = (mmr0 m AND KT11D_MMR0_ABORTS \<noteq> 0)" using assms(2) by (simp add: mmu_ok_def coherent_def)
  show ?thesis
  proof (cases "lookup pa")
    case None then show ?thesis using assms WriteReg by (simp add: kt11d_write_reg_def)
  next
    case (Some rw)
    obtain reg wm where rw: "rw = (reg, wm)" by (cases rw)
    show ?thesis
      using assms WriteReg Some fr lookup_MMR_mask[OF Some[unfolded rw]] lookup_MMR0[of pa wm] unfolding rw
      by (cases reg) (auto simp: kt11d_write_reg_def Let_def mmr012_def clear_W_rebuild_eq rebuild_all_fields)
  qed
qed (use assms in \<open>simp_all add: mmr012_def kt11d_set_modes_def kt11d_set_access_def Let_def
    kt11d_instruction_start_def kt11d_instruction_fetched_def kt11d_log_register_def\<close>)

lemma frozen_run:
  "frozen m \<Longrightarrow> mmu_ok m \<Longrightarrow> list_all mmu_op_ok ops \<Longrightarrow> list_all (\<lambda>op. \<not> thaws op) ops
    \<Longrightarrow> mmr012 (mmu_run ops m) = mmr012 m \<and> frozen (mmu_run ops m)"
  unfolding mmu_run_def
  by (induction ops arbitrary: m) (auto simp: frozen_apply mmu_ok_apply)


text \<open>Decode.\<close>

lemma unat_and_not_1: "unat (pa AND NOT 1 :: u32) = unat pa div 2 * 2"
proof -
  have "pa AND NOT 1 = push_bit 1 (drop_bit 1 pa)"
    by (rule bit_word_eqI) (auto simp: bit_simps bit_push_bit_iff bit_drop_bit_eq simp del: push_bit_Suc push_bit_of_1)
  also have "\<dots> = (pa div 2) * 2"
    by (simp add: push_bit_eq_mult drop_bit_eq_div)
  finally show ?thesis
    using unsigned_less[where ?'a = nat, of pa]
    by (simp add: unat_word_ariths unat_div_distrib)
qed

lemmas decode_nat = word_le_nat_alt word_less_nat_alt word_unat_eq_iff[where 'a = 32]

lemma own_register_nat:
  "kt11d_is_own_register pa \<longleftrightarrow> (let n = unat pa in
     (0x3F4C0 \<le> n \<and> n \<le> 0x3F4CF) \<or> (0x3F4E0 \<le> n \<and> n \<le> 0x3F4EF) \<or> (0x3FF7A \<le> n \<and> n \<le> 0x3FF7F)
     \<or> (0x3FF80 \<le> n \<and> n \<le> 0x3FF8F) \<or> (0x3FFA0 \<le> n \<and> n \<le> 0x3FFAF))"
  by (simp add: kt11d_is_own_register_def decode_nat Let_def)

lemma lookup_None_nat:
  "lookup pa = None \<longleftrightarrow> (let n = unat pa in \<not>
     ((0x3F4C0 \<le> n \<and> n \<le> 0x3F4CE) \<or> (0x3F4E0 \<le> n \<and> n \<le> 0x3F4EE) \<or> n = 0x3FF7A \<or> n = 0x3FF7C \<or> n = 0x3FF7E
     \<or> (0x3FF80 \<le> n \<and> n \<le> 0x3FF8E) \<or> (0x3FFA0 \<le> n \<and> n \<le> 0x3FFAE)))"
  by (simp add: lookup_def own_register_nat decode_nat Let_def)

lemma decode_agrees: "kt11d_is_own_register pa \<longleftrightarrow> lookup (pa AND NOT 1) \<noteq> None"
proof -
  define k where "k = unat pa div 2"
  have n: "unat pa = 2 * k \<or> unat pa = 2 * k + 1" by (auto simp: k_def)
  have m: "unat (pa AND NOT 1) = 2 * k" by (simp only: unat_and_not_1 k_def mult.commute)
  show ?thesis
    unfolding own_register_nat lookup_None_nat m Let_def using n
    by (elim disjE) (simp_all, presburger+)
qed

fun reg_addr :: "mmu_reg \<Rightarrow> u32" where
  "reg_addr MMR0 = 0x3FF7A"
| "reg_addr MMR1 = 0x3FF7C"
| "reg_addr MMR2 = 0x3FF7E"
| "reg_addr (PDR i) = (if i < 8 then 0x3F4C0 + 2 * of_nat i else 0x3FF80 + 2 * of_nat (i - 8))"
| "reg_addr (PAR i) = (if i < 8 then 0x3F4E0 + 2 * of_nat i else 0x3FFA0 + 2 * of_nat (i - 8))"

fun reg_mask :: "mmu_reg \<Rightarrow> u16" where
  "reg_mask MMR0 = KT11D_MMR0_WRITABLE"
| "reg_mask (PDR i) = KT11D_PDR_WRITABLE"
| "reg_mask (PAR i) = KT11D_PAR_WRITABLE"
| "reg_mask _ = 0"

fun reg_valid :: "mmu_reg \<Rightarrow> bool" where
  "reg_valid (PDR i) = (i < 16)"
| "reg_valid (PAR i) = (i < 16)"
| "reg_valid _ = True"


lemma nat_lt_16: "i < (16::nat) \<Longrightarrow> P 0 \<Longrightarrow> P 1 \<Longrightarrow> P 2 \<Longrightarrow> P 3 \<Longrightarrow> P 4 \<Longrightarrow> P 5 \<Longrightarrow>
    P 6 \<Longrightarrow> P 7 \<Longrightarrow> P 8 \<Longrightarrow> P 9 \<Longrightarrow> P 10 \<Longrightarrow> P 11 \<Longrightarrow> P 12 \<Longrightarrow> P 13 \<Longrightarrow> P 14 \<Longrightarrow> P 15 \<Longrightarrow> P i"
  using less_16_cases[of P] by blast

lemma lookup_complete: "reg_valid reg \<Longrightarrow> lookup (reg_addr reg) = Some (reg, reg_mask reg)"
proof (cases reg)
  case (PDR i)
  assume "reg_valid reg"
  with PDR have "i < 16" by simp
  then have "lookup (reg_addr (PDR i)) = Some (PDR i, reg_mask (PDR i))"
    by (rule nat_lt_16) (simp_all add: lookup_def kt11d_is_own_register_def reg_index_def kt11d_consts)
  then show ?thesis using PDR by simp
next
  case (PAR i)
  assume "reg_valid reg"
  with PAR have "i < 16" by simp
  then have "lookup (reg_addr (PAR i)) = Some (PAR i, reg_mask (PAR i))"
    by (rule nat_lt_16) (simp_all add: lookup_def kt11d_is_own_register_def reg_index_def kt11d_consts)
  then show ?thesis using PAR by simp
qed (simp_all add: lookup_def kt11d_is_own_register_def kt11d_consts)

lemma lookup_even_addr:
  assumes "lookup pa \<noteq> None" "even (unat pa)"
  shows "\<exists>reg. reg_valid reg \<and> pa = reg_addr reg"
proof -
  obtain k where n: "unat pa = 2 * k" using assms(2) by (auto elim: evenE)
  then have pa: "pa = of_nat (2 * k)" by (metis of_nat_unat ucast_id)
  from assms(1) consider "0x1FA60 \<le> k \<and> k < 0x1FA68" | "0x1FA70 \<le> k \<and> k < 0x1FA78" | "k = 0x1FFBD"
    | "k = 0x1FFBE" | "k = 0x1FFBF" | "0x1FFC0 \<le> k \<and> k < 0x1FFC8" | "0x1FFD0 \<le> k \<and> k < 0x1FFD8"
    by (simp add: lookup_None_nat n Let_def del: not_None_eq) linarith
  then show ?thesis
  proof cases
    case 1 then show ?thesis by (intro exI[of _ "PDR (k - 0x1FA60)"]) (auto simp: pa of_nat_diff)
  next
    case 2 then show ?thesis by (intro exI[of _ "PAR (k - 0x1FA70)"]) (auto simp: pa of_nat_diff)
  next
    case 3 then show ?thesis by (intro exI[of _ MMR0]) (simp add: pa)
  next
    case 4 then show ?thesis by (intro exI[of _ MMR1]) (simp add: pa)
  next
    case 5 then show ?thesis by (intro exI[of _ MMR2]) (simp add: pa)
  next
    case 6 then show ?thesis by (intro exI[of _ "PDR (k - 0x1FFC0 + 8)"]) (auto simp: pa of_nat_diff)
  next
    case 7 then show ?thesis by (intro exI[of _ "PAR (k - 0x1FFD0 + 8)"]) (auto simp: pa of_nat_diff)
  qed
qed

lemma lookup_even:
  assumes "even (unat pa)"
  shows "lookup pa = Some (reg, wm) \<longleftrightarrow> reg_valid reg \<and> pa = reg_addr reg \<and> wm = reg_mask reg"
proof
  assume l: "lookup pa = Some (reg, wm)"
  then obtain r where "reg_valid r" "pa = reg_addr r" using lookup_even_addr[of pa] assms by auto
  then show "reg_valid reg \<and> pa = reg_addr reg \<and> wm = reg_mask reg"
    using l lookup_complete[of r] by auto
qed (simp add: lookup_complete)

text \<open>Writing and reading back.\<close>

definition written_value :: "kt11d \<Rightarrow> mmu_reg \<Rightarrow> u16 \<Rightarrow> u16 \<Rightarrow> u16" where
  "written_value m reg w msk =
    (let v = merge_bits (mmu_get m reg) w (msk AND reg_mask reg) in
     case reg of PDR i \<Rightarrow> v AND NOT KT11D_PDR_W | _ \<Rightarrow> v)"

lemma write_reg_get:
  assumes "kt11d_write_reg m pa w msk = Some m'" "lookup pa = Some (reg, reg_mask reg)"
  shows "mmu_get m' reg = written_value m reg w msk"
  using assms
  by (cases reg) (auto simp: kt11d_write_reg_def written_value_def Let_def clear_W_rebuild_eq rebuild_all_fields)

lemma write_reg_frame:
  assumes "kt11d_write_reg m pa w msk = Some m'" "lookup pa = Some (reg, reg_mask reg)" "other \<noteq> reg"
  shows "mmu_get m' other = (case (reg, other) of
     (PAR i, PDR j) \<Rightarrow> if i = j then mmu_get m other AND NOT KT11D_PDR_W else mmu_get m other
   | _ \<Rightarrow> mmu_get m other)"
  using assms
  by (cases reg; cases other) (auto simp: kt11d_write_reg_def Let_def clear_W_rebuild_eq rebuild_all_fields)

lemma read_reg_reg_addr: "reg_valid reg \<Longrightarrow> kt11d_read_reg m (reg_addr reg) = Some (mmu_get m reg)"
  by (simp add: kt11d_read_reg_def lookup_complete)

text \<open>MMR1: the undo log.\<close>

definition mmr1_reg :: "u16 \<Rightarrow> nat" where "mmr1_reg e = unat (e AND 7)"
definition mmr1_amount :: "u16 \<Rightarrow> int" where
  "mmr1_amount e = (let a = uint (drop_bit 3 e AND 0x1F) in if a \<ge> 16 then a - 32 else a)"

lemma amount_cases: "-2 \<le> (a::int) \<Longrightarrow> a \<le> 2 \<Longrightarrow> a \<noteq> 0 \<Longrightarrow> a = -2 \<or> a = -1 \<or> a = 1 \<or> a = 2" by arith
lemma reg_cases: "r < (7::nat) \<Longrightarrow> r = 0 \<or> r = 1 \<or> r = 2 \<or> r = 3 \<or> r = 4 \<or> r = 5 \<or> r = 6" by arith

lemma mmr1_entry_decode:
  assumes "r < 7" "-2 \<le> a" "a \<le> 2" "a \<noteq> 0"
  shows "mmr1_reg (mmr1_entry r a) = r" "mmr1_amount (mmr1_entry r a) = a"
    "mmr1_entry r a AND 0xFF00 = 0"
  using reg_cases[OF assms(1)] amount_cases[OF assms(2-4)]
  by (elim disjE; simp add: mmr1_reg_def mmr1_amount_def mmr1_entry_def)+

text \<open>What the abort handler does: subtract the logged amounts.\<close>

definition mmr1_undo :: "kt11d \<Rightarrow> (nat \<Rightarrow> u16) \<Rightarrow> (nat \<Rightarrow> u16)" where
  "mmr1_undo m rs =
    (let e1 = mmr1 m AND 0xFF; e2 = drop_bit 8 (mmr1 m);
         rs1 = (if e2 = 0 then rs else rs(mmr1_reg e2 := rs (mmr1_reg e2) - word_of_int (mmr1_amount e2)))
     in if e1 = 0 then rs1 else rs1(mmr1_reg e1 := rs1 (mmr1_reg e1) - word_of_int (mmr1_amount e1)))"
lemma bit16_high: "16 \<le> n \<Longrightarrow> \<not> bit (x :: u16) n"
  using bit_imp_le_length[of x n] by auto

lemma mmr1_bytes:
  fixes e1 e2 :: u16
  assumes "e1 AND 0xFF00 = 0" "e2 AND 0xFF00 = 0"
  shows "(e1 OR push_bit 8 e2) AND 0xFF = e1" "drop_bit 8 (e1 OR push_bit 8 e2) = e2"
    "e1 AND 0xFF = e1" "drop_bit 8 e1 = 0"
  using assms by (simp_all add: word16_eq_iff bit_simps bit16_high)

lemma mmr1_entry_nonzero: assumes "r < 7" "-2 \<le> a" "a \<le> 2" "a \<noteq> 0" shows "mmr1_entry r a \<noteq> 0"
  using reg_cases[OF assms(1)] amount_cases[OF assms(2-4)]
  by (elim disjE; simp add: mmr1_entry_def)

lemma mmr1_undo_two:
  assumes "\<not> frozen m" "r1 < 7" "-2 \<le> a1" "a1 \<le> 2" "a1 \<noteq> 0" "r2 < 7" "-2 \<le> a2" "a2 \<le> 2" "a2 \<noteq> 0"
  shows "mmr1_undo (kt11d_log_register (kt11d_log_register (kt11d_instruction_start m) r1 a1) r2 a2)
     ((\<lambda>rs. rs(r2 := rs r2 + word_of_int a2)) (rs(r1 := rs r1 + word_of_int a1))) = rs"
proof -
  note d1 = mmr1_entry_decode[OF assms(2-5)] and d2 = mmr1_entry_decode[OF assms(6-9)]
  note z = mmr1_entry_nonzero[OF assms(2-5)] mmr1_entry_nonzero[OF assms(6-9)]
  let ?m = "kt11d_log_register (kt11d_log_register (kt11d_instruction_start m) r1 a1) r2 a2"
  have "mmr1 ?m = mmr1_entry r1 a1 OR push_bit 8 (mmr1_entry r2 a2)"
    using assms by (simp add: kt11d_log_register_def kt11d_instruction_start_def Let_def)
  then show ?thesis
    unfolding mmr1_undo_def Let_def
    by (simp only: mmr1_bytes[OF d1(3) d2(3)] d1(1,2) d2(1,2) z if_False) (simp add: fun_eq_iff)
qed
lemma mmr1_undo_one:
  assumes "\<not> frozen m" "r1 < 7" "-2 \<le> a1" "a1 \<le> 2" "a1 \<noteq> 0"
  shows "mmr1_undo (kt11d_log_register (kt11d_instruction_start m) r1 a1)
     (rs(r1 := rs r1 + word_of_int a1)) = rs"
proof -
  note d1 = mmr1_entry_decode[OF assms(2-5)] and z = mmr1_entry_nonzero[OF assms(2-5)]
  have "mmr1 (kt11d_log_register (kt11d_instruction_start m) r1 a1) = mmr1_entry r1 a1"
    using assms by (simp add: kt11d_log_register_def kt11d_instruction_start_def Let_def)
  then show ?thesis
    by (simp add: mmr1_undo_def Let_def mmr1_bytes[OF d1(3) d1(3)] d1 z fun_eq_iff)
qed

text \<open>What an abort records.\<close>

lemma mmr0_fields_value:
  fixes w x :: u16
  assumes "md \<le> 3" and "k \<le> 7" and "x AND 0x6E = 0"
  defines "v \<equiv> (w AND NOT (KT11D_MMR0_MODE OR KT11D_MMR0_PAGE)) OR x OR push_bit 5 md OR push_bit 1 (of_nat k)"
  shows "v AND KT11D_MMR0_MODE = push_bit 5 md" "v AND KT11D_MMR0_PAGE = push_bit 1 (of_nat k)"
proof -
  have xm: "x AND KT11D_MMR0_MODE = 0" "x AND KT11D_MMR0_PAGE = 0"
    using arg_cong[OF assms(3), of "\<lambda>v. v AND 0x60"] arg_cong[OF assms(3), of "\<lambda>v. v AND 0xE"]
    by (simp_all add: and.assoc KT11D_MMR0_MODE_def KT11D_MMR0_PAGE_def)
  have wm: "(w AND NOT (KT11D_MMR0_MODE OR KT11D_MMR0_PAGE)) AND KT11D_MMR0_MODE = 0"
    "(w AND NOT (KT11D_MMR0_MODE OR KT11D_MMR0_PAGE)) AND KT11D_MMR0_PAGE = 0"
    by (simp_all add: and.assoc KT11D_MMR0_MODE_def KT11D_MMR0_PAGE_def)
  have kc: "k = 0 \<or> k = 1 \<or> k = 2 \<or> k = 3 \<or> k = 4 \<or> k = 5 \<or> k = 6 \<or> k = 7" using assms(2) by arith
  have f: "push_bit 5 md AND KT11D_MMR0_MODE = push_bit 5 md" "push_bit 5 md AND KT11D_MMR0_PAGE = 0"
    "push_bit 1 (of_nat k) AND KT11D_MMR0_MODE = 0" "push_bit 1 (of_nat k) AND KT11D_MMR0_PAGE = push_bit 1 (of_nat k)"
    using le3_bits[OF assms(1)] kc by (elim disjE; simp add: KT11D_MMR0_MODE_def KT11D_MMR0_PAGE_def)+
  show "v AND KT11D_MMR0_MODE = push_bit 5 md"
    unfolding v_def by (simp only: bit.conj_disj_distrib2 xm wm f) simp
  show "v AND KT11D_MMR0_PAGE = push_bit 1 (of_nat k)"
    unfolding v_def by (simp only: bit.conj_disj_distrib2 xm wm f) simp
qed

definition in_range :: "u16 \<Rightarrow> u16 \<Rightarrow> bool" where
  "in_range d va \<longleftrightarrow> (let plf = unat d div 256 mod 128; blk = unat va div 64 mod 128 in
     if odd (unat d div 8) then plf \<le> blk else blk \<le> plf)"

lemma abort_bits_nat:
  assumes "mmu_ok m" "sp = 0 \<or> sp = 8" "acc_ok acc"
  shows "abort_bits m va sp acc =
    (let d = pdr m (sp + va_page va); acf = unat d div 2 mod 4 in
      (if acf = 0 \<or> acf = 2 then KT11D_MMR0_ABORT_NONRESIDENT else 0) OR
      (if acf = 1 \<and> acc = KT11D_WRITE then KT11D_MMR0_ABORT_READONLY else 0) OR
      (if in_range d va then 0 else KT11D_MMR0_ABORT_LENGTH))"
proof -
  let ?i = "sp + va_page va"
  have "?i < 16" using assms(2) page_lt[of va] by auto
  then have pg: "page m ?i = kt11d_descriptor (par m ?i) (pdr m ?i) ?i"
    using assms(1) by (simp add: mmu_ok_def coherent_def)
  have "unat (pdr m ?i) div 2 mod 4 < 4" by simp
  then have c: "unat (pdr m ?i) div 2 mod 4 = 0 \<or> unat (pdr m ?i) div 2 mod 4 = 1 \<or>
     unat (pdr m ?i) div 2 mod 4 = 2 \<or> unat (pdr m ?i) div 2 mod 4 = 3" by linarith
  show ?thesis
    using c assms(3)
    by (elim disjE) (auto simp: abort_bits_def Let_def pg outside_page_nat in_range_def acf_nat acc_ok_def
       kt11d_consts)
qed

definition relocating :: "kt11d \<Rightarrow> bool" where
  "relocating m \<longleftrightarrow> (enabled m \<or> maint m \<and> dest_ref m)"

lemma abort_mmr0:
  assumes "mmu_ok m" "relocating m" "\<not> access_illegal m" "\<not> frozen m" "acc_ok acc"
    and "kt11d_relocate m va (access_space m) acc = (m', None)"
  shows "mmr0 m' = (mmr0 m AND NOT (KT11D_MMR0_MODE OR KT11D_MMR0_PAGE)) OR abort_bits m va (access_space m) acc
     OR push_bit 5 (access_mode m) OR push_bit 1 (of_nat (va_page va))" (is ?A)
   and "frozen m'"
proof -
  let ?M = "KT11D_MMR0_MODE OR KT11D_MMR0_PAGE"
  have t: "mmr0 (mmr0_track m va) AND NOT ?M = mmr0 m AND NOT ?M"
  proof -
    have M: "?M = 0x6E" by (simp add: KT11D_MMR0_MODE_def KT11D_MMR0_PAGE_def)
    have am: "access_mode m \<le> 3" using assms(1) by (simp add: mmu_ok_def)
    have "push_bit 5 (access_mode m) AND NOT 0x6E = 0"
      using le3_bits[OF am] by (elim disjE) simp_all
    moreover have "push_bit 1 (drop_bit 13 va) AND NOT 0x6E = 0"
      unfolding drop13_cases using page_word_cases[of va] by (elim disjE) simp_all
    moreover have "mmr0 (mmr0_track m va) =
       (mmr0 m AND NOT 0x6E) OR push_bit 5 (access_mode m) OR push_bit 1 (drop_bit 13 va)"
      unfolding M[symmetric] using assms(4) by (simp only: mmr0_track_def) simp
    ultimately show ?thesis
      unfolding M by (simp only: bit.conj_disj_distrib2 and.assoc and.idem or.right_neutral)
  qed
  have b: "abort_bits (mmr0_track m va) va sp acc = abort_bits m va sp acc" for sp
    by (simp add: abort_bits_def)
  have "m' = kt11d_abort (mmr0_track m va) va (access_space m) acc"
    using assms(2,3,6) by (simp add: kt11d_relocate_def relocating_def Let_def split: if_splits)
  moreover have f: "\<not> frozen (mmr0_track m va)" using assms(4) by simp
  moreover have "mmr0 (x\<lparr>mmr0 := v, frozen := True\<rparr>) = v" "frozen (x\<lparr>mmr0 := v, frozen := True\<rparr>)"
    for x :: kt11d and v by simp_all
  ultimately show ?A "frozen m'"
    by (simp_all only: kt11d_abort_eq t b if_False track_fields)
qed

lemma abort_report:
  assumes "mmu_ok m" "relocating m" "\<not> access_illegal m" "\<not> frozen m" "acc_ok acc"
    and "kt11d_relocate m va (access_space m) acc = (m', None)"
  defines "d \<equiv> pdr m (access_space m + unat va div 8192)"
  shows "(mmr0 m' AND KT11D_MMR0_ABORT_NONRESIDENT \<noteq> 0 \<longleftrightarrow> unat d div 2 mod 4 = 0 \<or> unat d div 2 mod 4 = 2)"
    and "(mmr0 m' AND KT11D_MMR0_ABORT_READONLY \<noteq> 0 \<longleftrightarrow> unat d div 2 mod 4 = 1 \<and> acc = KT11D_WRITE)"
    and "(mmr0 m' AND KT11D_MMR0_ABORT_LENGTH \<noteq> 0 \<longleftrightarrow> \<not> in_range d va)"
    and "mmr0 m' AND KT11D_MMR0_MODE = push_bit 5 (access_mode m)"
    and "mmr0 m' AND KT11D_MMR0_PAGE = push_bit 1 (of_nat (unat va div 8192))"
proof -
  note a = abort_mmr0[OF assms(1-6)]
  note am = mmu_ok_access_space[OF assms(1)]
  have le: "access_mode m \<le> 3" "va_page va \<le> 7" using assms(1) page_lt[of va] by (auto simp: mmu_ok_def)
  have z: "mmr0 m AND KT11D_MMR0_ABORTS = 0" using assms(1,4) by (simp add: mmu_ok_def coherent_def)
  have z': "mmr0 m AND KT11D_MMR0_ABORT_NONRESIDENT = 0" "mmr0 m AND KT11D_MMR0_ABORT_READONLY = 0"
      "mmr0 m AND KT11D_MMR0_ABORT_LENGTH = 0"
    using arg_cong[OF z, of "\<lambda>v. v AND 0x8000"] arg_cong[OF z, of "\<lambda>v. v AND 0x4000"] arg_cong[OF z, of "\<lambda>v. v AND 0x2000"]
    by (simp_all add: and.assoc kt11d_consts)
  have c: "KT11D_MMR0_ABORT_NONRESIDENT AND 0x6E = 0" "KT11D_MMR0_ABORT_READONLY AND 0x6E = 0"
     "KT11D_MMR0_ABORT_LENGTH AND 0x6E = 0"
    by (simp_all add: kt11d_consts)
  note bits = abort_bits_nat[OF assms(1) am assms(5), of va, unfolded page_nat, folded d_def]
  have x: "abort_bits m va (access_space m) acc AND 0x6E = 0"
    by (auto simp: bits Let_def kt11d_consts)
  show "mmr0 m' AND KT11D_MMR0_MODE = push_bit 5 (access_mode m)"
    "mmr0 m' AND KT11D_MMR0_PAGE = push_bit 1 (of_nat (unat va div 8192))"
    unfolding a(1) by (simp_all only: mmr0_fields_value[OF le x] flip: page_nat)
  let ?ab = "abort_bits m va (access_space m) acc"
  have e: "mmr0 m' AND KT11D_MMR0_ABORT_NONRESIDENT = ?ab AND KT11D_MMR0_ABORT_NONRESIDENT"
     "mmr0 m' AND KT11D_MMR0_ABORT_READONLY = ?ab AND KT11D_MMR0_ABORT_READONLY"
     "mmr0 m' AND KT11D_MMR0_ABORT_LENGTH = ?ab AND KT11D_MMR0_ABORT_LENGTH"
    unfolding a(1) mmr0_fields_control[OF le c(1)] mmr0_fields_control[OF le c(2)]
      mmr0_fields_control[OF le c(3)]
    by (simp_all only: bit.conj_disj_distrib2 z' or.left_neutral)
  show "(mmr0 m' AND KT11D_MMR0_ABORT_NONRESIDENT \<noteq> 0 \<longleftrightarrow> unat d div 2 mod 4 = 0 \<or> unat d div 2 mod 4 = 2)"
    unfolding e bits Let_def by (simp add: kt11d_consts)
  show "(mmr0 m' AND KT11D_MMR0_ABORT_READONLY \<noteq> 0 \<longleftrightarrow> unat d div 2 mod 4 = 1 \<and> acc = KT11D_WRITE)"
    unfolding e bits Let_def by (simp add: kt11d_consts)
  show "(mmr0 m' AND KT11D_MMR0_ABORT_LENGTH \<noteq> 0 \<longleftrightarrow> \<not> in_range d va)"
    unfolding e bits Let_def by (simp add: kt11d_consts)
qed

end
