(* ===== verification/KT11D_Props.thy ===== *)
theory KT11D_Props
  imports KT11D_Lemmas
begin

unbundle bit_operations_syntax

text \<open>
  The properties of the KT11-D model, each with a witness on a concrete MMU: the
  power-up state with one kernel page mapped and relocation switched on by
  register writes.
\<close>

section \<open>A concrete MMU for the witnesses\<close>

text \<open>KIPDR0 = 77506 (whole page, read/write), KIPDR1 = 402 (blocks 0..1, read only),
  KIPAR0 = 2, then MMR0 = 1.\<close>

definition demo_ops :: "mmu_op list" where
  "demo_ops = [Reset, WriteReg 0x3F4C0 0x7F46 0xFFFF, WriteReg 0x3F4C2 0x0102 0xFFFF,
     WriteReg 0x3F4E0 2 0xFFFF, WriteReg 0x3FF7A 1 0xFFFF]"

definition demo_mmu :: kt11d where
  "demo_mmu = mmu_run demo_ops kt11d_zero"

lemma demo_mmu_ok: "mmu_ok demo_mmu"
proof -
  have "demo_mmu = mmu_run (tl demo_ops) (kt11d_reset kt11d_zero)"
    by (simp add: demo_mmu_def demo_ops_def mmu_run_def)
  moreover have "list_all mmu_op_ok (tl demo_ops)" by (simp add: demo_ops_def)
  ultimately show ?thesis using mmu_ok_run[OF mmu_ok_reset[of kt11d_zero]] by metis
qed

lemma demo_lookup:
  "lookup 0x3F4C0 = Some (PDR 0, KT11D_PDR_WRITABLE)" "lookup 0x3F4C2 = Some (PDR 1, KT11D_PDR_WRITABLE)"
  "lookup 0x3F4E0 = Some (PAR 0, KT11D_PAR_WRITABLE)" "lookup 0x3FF7A = Some (MMR0, KT11D_MMR0_WRITABLE)"
  by (simp_all add: lookup_def kt11d_is_own_register_def reg_index_def kt11d_consts)

lemma demo_fields:
  "mmr0 demo_mmu = 1" "enabled demo_mmu" "\<not> frozen demo_mmu" "\<not> maint demo_mmu" "\<not> access_illegal demo_mmu"
  "access_space demo_mmu = 0" "access_mode demo_mmu = 0"
  "par demo_mmu 0 = 2" "pdr demo_mmu 0 = 0x7F06" "pdr demo_mmu (Suc 0) = 0x0102" "mmr1 demo_mmu = 0" "mmr2 demo_mmu = 0"
  by (simp_all add: demo_mmu_def demo_ops_def mmu_run_def kt11d_write_reg_def demo_lookup Let_def
      clear_W_rebuild_eq rebuild_all_fields merge_bits_def kt11d_reset_def kt11d_zero_def
      kt11d_set_access_def kt11d_consts)

section \<open>Properties\<close>

text \<open>C1. While relocation is on and the mode exists, the hot path with its precomputed
  descriptors refuses and translates exactly as the raw PAR/PDR pair of the addressed page
  says: the access is allowed when the ACF permits it and the block lies on the legal side
  of the page length, and the physical address is \<open>PAF * 64\<close> plus the displacement, cut to
  18 bits.\<close>

theorem relocate_refines_raw_registers:
  assumes "mmu_ok m" "relocating m" "\<not> access_illegal m" "acc_ok acc"
  shows "map_option unat (snd (kt11d_relocate m va (access_space m) acc))
       = spec_translate m va (access_space m) acc"
  using assms mmu_ok_access_space[OF assms(1)]
  by (intro relocate_refines) (auto simp: mmu_ok_def relocating_def)

theorem relocate_refines_raw_registers_witness:
  "map_option unat (snd (kt11d_relocate demo_mmu 0x0105 (access_space demo_mmu) KT11D_WRITE)) = Some 0x185
   \<and> map_option unat (snd (kt11d_relocate demo_mmu 0x2105 (access_space demo_mmu) KT11D_READ)) = None"
proof -
  have h: "relocating demo_mmu" "\<not> access_illegal demo_mmu" "acc_ok KT11D_WRITE" "acc_ok KT11D_READ"
    by (simp_all add: relocating_def demo_fields acc_ok_def)
  note r = relocate_refines_raw_registers[OF demo_mmu_ok h(1,2)]
  show ?thesis
    unfolding r[OF h(3)] r[OF h(4)]
    by (simp add: spec_translate_def page_permits_def demo_fields Let_def kt11d_consts)
qed

text \<open>C2. Coherence contract: after any sequence of the operations the CPU core performs on
  the MMU, from any start through \<open>kt11d_reset\<close>, every derived descriptor equals the one its
  raw pair defines, the hot-path flags equal their MMR0 bits, and modes, spaces and the
  illegal-mode flag agree.\<close>

theorem mmu_invariant_reachable:
  assumes "list_all mmu_op_ok ops"
  shows "mmu_ok (mmu_run ops (kt11d_reset m0))"
  using mmu_ok_run[OF mmu_ok_reset assms] .

theorem mmu_invariant_reachable_witness:
  "mmu_ok (mmu_run [SetModes 0xF000, WriteReg 0x3FF80 0x7F06 0xFFFF, WriteReg 0x3FF7A 1 0xFFFF,
     Relocate 0x0100 KT11D_WRITE, Relocate 0x4000 KT11D_READ] (kt11d_reset kt11d_zero))"
  by (rule mmu_invariant_reachable) (simp add: acc_ok_def)

text \<open>C3. Abort freeze: once an abort has been recorded, nothing but a write to MMR0, a bus
  INIT or a power-up changes MMR0, MMR1 or MMR2, whatever references, mode changes,
  instruction starts and register logs follow.\<close>

theorem abort_freezes_status:
  assumes "mmu_ok m" "frozen m" "list_all mmu_op_ok ops" "list_all (\<lambda>op. \<not> thaws op) ops"
  shows "mmr0 (mmu_run ops m) = mmr0 m \<and> mmr1 (mmu_run ops m) = mmr1 m \<and>
     mmr2 (mmu_run ops m) = mmr2 m \<and> frozen (mmu_run ops m)"
  using frozen_run[OF assms(2,1,3,4)] by (simp add: mmr012_def)

theorem abort_freezes_status_witness:
  "let m = fst (kt11d_relocate demo_mmu 0x2000 0 KT11D_WRITE);
       ops = [InstrStart, InstrFetched 0x42, LogRegister 1 2, Relocate 0x0100 KT11D_WRITE, SetModes 0xC000]
   in mmr0 (mmu_run ops m) = mmr0 m \<and> mmr2 (mmu_run ops m) = 0 \<and> frozen (mmu_run ops m)"
proof -
  define m where "m = fst (kt11d_relocate demo_mmu 0x2000 0 KT11D_WRITE)"
  define ops where "ops = [InstrStart, InstrFetched 0x42, LogRegister 1 2, Relocate 0x0100 KT11D_WRITE, SetModes 0xC000]"
  have pg: "page demo_mmu (Suc 0) = kt11d_descriptor (par demo_mmu (Suc 0)) 0x0102 (Suc 0)"
    using demo_mmu_ok by (simp add: mmu_ok_def coherent_def demo_fields)
  have f: "frozen m" "mmr2 m = 0"
    by (simp_all add: m_def kt11d_relocate_def demo_fields Let_def va_page_def pg kt11d_abort_eq
        kt11d_descriptor_def PDR_ACF_def kt11d_consts)
  have ok: "mmu_ok m" unfolding m_def by (rule mmu_ok_relocate[OF demo_mmu_ok]) (simp_all add: acc_ok_def)
  have "list_all mmu_op_ok ops" "list_all (\<lambda>op. \<not> thaws op) ops" by (simp_all add: ops_def acc_ok_def)
  from abort_freezes_status[OF ok f(1) this] f show ?thesis
    unfolding m_def[symmetric] ops_def[symmetric] Let_def by simp
qed

text \<open>C4. What an abort records: with no abort pending, a refused reference sets exactly the
  MMR0 cause bits the raw PDR justifies (non-resident, read-only write, page length), loads the
  mode and the page of the reference into MMR0<6:5> and MMR0<3:1>, and freezes.\<close>

theorem abort_records_cause:
  assumes "mmu_ok m" "relocating m" "\<not> access_illegal m" "\<not> frozen m" "acc_ok acc"
    and "kt11d_relocate m va (access_space m) acc = (m', None)"
  shows "let d = pdr m (access_space m + unat va div 8192); acf = unat d div 2 mod 4 in
     (mmr0 m' AND KT11D_MMR0_ABORT_NONRESIDENT \<noteq> 0 \<longleftrightarrow> acf = 0 \<or> acf = 2) \<and>
     (mmr0 m' AND KT11D_MMR0_ABORT_READONLY \<noteq> 0 \<longleftrightarrow> acf = 1 \<and> acc = KT11D_WRITE) \<and>
     (mmr0 m' AND KT11D_MMR0_ABORT_LENGTH \<noteq> 0 \<longleftrightarrow> \<not> in_range d va) \<and>
     mmr0 m' AND KT11D_MMR0_MODE = push_bit 5 (access_mode m) \<and>
     mmr0 m' AND KT11D_MMR0_PAGE = push_bit 1 (of_nat (unat va div 8192)) \<and> frozen m'"
  using abort_report[OF assms] abort_mmr0(2)[OF assms] by (simp add: Let_def)

theorem abort_records_cause_witness:
  "mmr0 (fst (kt11d_relocate demo_mmu 0x2105 0 KT11D_WRITE)) AND KT11D_MMR0_ABORT_READONLY \<noteq> 0 \<and>
   mmr0 (fst (kt11d_relocate demo_mmu 0x2105 0 KT11D_WRITE)) AND KT11D_MMR0_ABORT_LENGTH \<noteq> 0 \<and>
   mmr0 (fst (kt11d_relocate demo_mmu 0x2105 0 KT11D_WRITE)) AND KT11D_MMR0_ABORT_NONRESIDENT = 0 \<and>
   mmr0 (fst (kt11d_relocate demo_mmu 0x2105 0 KT11D_WRITE)) AND KT11D_MMR0_PAGE = 2"
proof -
  obtain m' r where e: "kt11d_relocate demo_mmu 0x2105 0 KT11D_WRITE = (m', r)" by (cases "kt11d_relocate demo_mmu 0x2105 0 KT11D_WRITE")
  have pg: "page demo_mmu (Suc 0) = kt11d_descriptor (par demo_mmu (Suc 0)) 0x0102 (Suc 0)"
    using demo_mmu_ok by (simp add: mmu_ok_def coherent_def demo_fields)
  have "snd (kt11d_relocate demo_mmu 0x2105 0 KT11D_WRITE) = None"
    by (simp add: kt11d_relocate_def demo_fields Let_def va_page_def pg
        kt11d_descriptor_def PDR_ACF_def kt11d_consts)
  with e have e': "kt11d_relocate demo_mmu 0x2105 (access_space demo_mmu) KT11D_WRITE = (m', None)"
    by (simp add: demo_fields)
  have h: "relocating demo_mmu" "\<not> access_illegal demo_mmu" "\<not> frozen demo_mmu" "acc_ok KT11D_WRITE"
    by (simp_all add: relocating_def demo_fields acc_ok_def)
  from abort_records_cause[OF demo_mmu_ok h e'] show ?thesis
    by (simp add: e demo_fields Let_def in_range_def)
qed

text \<open>The gate predicate \<open>kt11d_is_own_register\<close> and the register decode cannot drift apart:
  a byte address passes the gate exactly when the word it belongs to decodes to a register, the
  decode yields only registers inside the arrays, and each register has exactly one word address.\<close>

theorem register_decode_agrees:
  "(kt11d_is_own_register pa \<longleftrightarrow> lookup (pa AND NOT 1) \<noteq> None) \<and>
   (lookup (pa AND NOT 1) = Some (reg, wm) \<longleftrightarrow>
      reg_valid reg \<and> pa AND NOT 1 = reg_addr reg \<and> wm = reg_mask reg)"
proof -
  have "even (unat (pa AND NOT 1))" by (simp only: unat_and_not_1) simp
  then show ?thesis using decode_agrees[of pa] lookup_even by blast
qed

text \<open>C6. Register write and read back: after a write through any byte mask, the register reads
  as its old value with exactly the masked writable bits replaced (the W flag of a PDR cleared),
  and no other register changes, except that writing a PAR clears the W flag of its PDR.\<close>

theorem register_write_read:
  assumes "reg_valid reg" "reg_valid other" "other \<noteq> reg"
    and "kt11d_write_reg m (reg_addr reg) w msk = Some m'"
  shows "kt11d_read_reg m' (reg_addr reg) = Some (written_value m reg w msk) \<and>
    kt11d_read_reg m' (reg_addr other) = Some (case (reg, other) of
       (PAR i, PDR j) \<Rightarrow> if i = j then mmu_get m other AND NOT KT11D_PDR_W else mmu_get m other
     | _ \<Rightarrow> mmu_get m other)"
  using write_reg_get[OF assms(4) lookup_complete[OF assms(1)]]
    write_reg_frame[OF assms(4) lookup_complete[OF assms(1)] assms(3)]
  by (simp_all add: read_reg_reg_addr assms(1,2))

theorem register_write_read_witness:
  "\<exists>m'. kt11d_write_reg demo_mmu (reg_addr (PAR 0)) 0xABCD 0xFF00 = Some m' \<and>
     kt11d_read_reg m' (reg_addr (PAR 0)) = Some 0x0B02 \<and>
     kt11d_read_reg m' (reg_addr (PDR 1)) = Some 0x0102"
proof -
  have "\<exists>m'. kt11d_write_reg demo_mmu (reg_addr (PAR 0)) 0xABCD 0xFF00 = Some m'"
    by (simp add: kt11d_write_reg_def demo_lookup Let_def)
  then obtain m' where m': "kt11d_write_reg demo_mmu (reg_addr (PAR 0)) 0xABCD 0xFF00 = Some m'" ..
  have v: "reg_valid (PAR 0)" "reg_valid (PDR 1)" "PDR 1 \<noteq> PAR 0" by simp_all
  show ?thesis
    using register_write_read[OF v m'] m'
    by (simp add: written_value_def demo_fields merge_bits_def kt11d_consts)
qed

text \<open>C7. The MMR1 log undoes an instruction: for any two autoincrements or autodecrements of
  registers 0 to 6 logged since the instruction started, subtracting the amounts MMR1 records
  restores the register file, and the PC is never logged.\<close>

theorem mmr1_log_undoes:
  assumes "\<not> frozen m" "r1 < 7" "-2 \<le> a1" "a1 \<le> 2" "a1 \<noteq> 0" "r2 < 7" "-2 \<le> a2" "a2 \<le> 2" "a2 \<noteq> 0"
  shows "mmr1_undo (kt11d_log_register (kt11d_log_register (kt11d_instruction_start m) r1 a1) r2 a2)
           ((\<lambda>rs. rs(r2 := rs r2 + word_of_int a2)) (rs(r1 := rs r1 + word_of_int a1))) = rs \<and>
         mmr1_undo (kt11d_log_register (kt11d_log_register (kt11d_instruction_start m) r1 a1) 7 a2)
           (rs(r1 := rs r1 + word_of_int a1)) = rs"
proof -
  have "kt11d_log_register x 7 a2 = x" for x by (simp add: kt11d_log_register_def)
  then show ?thesis using mmr1_undo_two[OF assms] mmr1_undo_one[OF assms(1-5)] by simp
qed

theorem mmr1_log_undoes_witness:
  "mmr1_undo (kt11d_log_register (kt11d_log_register (kt11d_instruction_start demo_mmu) 3 2) 5 (-1))
     ((\<lambda>rs. rs(5 := rs 5 + word_of_int (-1))) ((\<lambda>_. 0x100)(3 := 0x100 + word_of_int 2))) = (\<lambda>_. 0x100)"
  using mmr1_log_undoes[OF demo_fields(3), of 3 2 5 "-1" "\<lambda>_. 0x100"] by simp

text \<open>What a reference may change: the physical address fits 18 bits; a read changes no PAR
  or PDR; a write sets the W flag of the PDR of the addressed page and changes no other bit, and
  sets nothing when it addresses one of the MMU's own registers.\<close>

theorem reference_effects:
  assumes "mmu_ok m" "relocating m"
    and "kt11d_relocate m va (access_space m) acc = (m', Some pa)"
  shows "pa \<le> 0x3FFFF \<and> par m' = par m \<and> access_space m + va_page va < 16 \<and>
     pdr m' = (if acc AND KT11D_WRITE \<noteq> 0 \<and> \<not> kt11d_is_own_register pa
       then (pdr m)(access_space m + va_page va := pdr m (access_space m + va_page va) OR KT11D_PDR_W)
       else pdr m)"
proof -
  let ?i = "access_space m + va_page va"
  have i: "?i < 16" using mmu_ok_access_space[OF assms(1)] page_lt[of va] by auto
  have "page m ?i = kt11d_descriptor (par m ?i) (pdr m ?i) ?i"
    using assms(1) i by (simp add: mmu_ok_def coherent_def)
  then have idx: "unat (pdr_idx (page m ?i)) = ?i"
    using i by (simp add: kt11d_descriptor_def Let_def unsigned_of_nat take_bit_eq_mod del: of_nat_add)
  show ?thesis
    using assms(2,3) i
    by (auto simp: kt11d_relocate_def relocating_def Let_def idx word_and_le1 split: if_splits)
qed

theorem reference_effects_witness:
  "pdr (fst (kt11d_relocate demo_mmu 0x0105 (access_space demo_mmu) KT11D_WRITE)) 0 = 0x7F46 \<and>
   pdr (fst (kt11d_relocate demo_mmu 0x0105 (access_space demo_mmu) KT11D_WRITE)) 1 = 0x0102"
proof -
  have pg: "page demo_mmu 0 = kt11d_descriptor (par demo_mmu 0) 0x7F06 0"
    using demo_mmu_ok by (simp add: mmu_ok_def coherent_def demo_fields)
  have "snd (kt11d_relocate demo_mmu 0x0105 (access_space demo_mmu) KT11D_WRITE) = Some 0x185"
    by (simp add: kt11d_relocate_def demo_fields Let_def va_page_def pg
        kt11d_descriptor_def PDR_ACF_def PDR_PLF_def outside_page_def va_block_def kt11d_consts)
  then obtain m' where m': "kt11d_relocate demo_mmu 0x0105 (access_space demo_mmu) KT11D_WRITE = (m', Some 0x185)"
    by (cases "kt11d_relocate demo_mmu 0x0105 (access_space demo_mmu) KT11D_WRITE") auto
  have r: "relocating demo_mmu" by (simp add: relocating_def demo_fields)
  from reference_effects[OF demo_mmu_ok r m'] show ?thesis
    unfolding m' by (simp add: demo_fields va_page_def kt11d_is_own_register_def kt11d_consts)
qed

end
