(* ===== verification/CpuBus.thy ===== *)
theory CpuBus
  imports Prelude
begin

unbundle bit_operations_syntax

text \<open>
  What \<open>cpu_core.h\<close> and \<open>cpu_bus_adapter.h\<close> give the CPU cores: the word and byte
  macros, and the contract with the bus adapter. A core knows nothing of the bus
  but the six \<open>unibone_*\<close> functions, so they are a record of functions over an
  abstract bus state \<open>'x\<close>, and every operation of a core that uses the bus takes
  that record. In the program the functions are implemented in C++ (\<open>cpu.cpp\<close>), by way of
  the bus firmware or directly on the emulated memory.
\<close>

section \<open>Macros of \<open>cpu_core.h\<close>\<close>

definition SETMASK :: "u16 \<Rightarrow> u16 \<Rightarrow> u16 \<Rightarrow> u16" where
  "SETMASK l r m = (l AND NOT m) OR (r AND m)"

definition WD :: "u16 \<Rightarrow> u16 \<Rightarrow> u16" where
  "WD hi lo = push_bit 8 hi OR lo"

section \<open>The bus adapter contract\<close>

text \<open>A transfer answers \<open>None\<close> or \<open>False\<close> for the C result 0, a bus timeout.\<close>

record 'x bus_ops =
  unibone_dati :: "u32 \<Rightarrow> 'x \<Rightarrow> u32 option \<times> 'x"
  unibone_dato :: "u32 \<Rightarrow> u16 \<Rightarrow> 'x \<Rightarrow> bool \<times> 'x"
  unibone_datob :: "u32 \<Rightarrow> u16 \<Rightarrow> 'x \<Rightarrow> bool \<times> 'x"
  unibone_grant_interrupts :: "'x \<Rightarrow> 'x"
  unibone_prioritylevelchange :: "u8 \<Rightarrow> 'x \<Rightarrow> 'x"
  unibone_bus_init :: "'x \<Rightarrow> 'x"

end
