(* ===== verification/KD11EA.thy ===== *)
theory KD11EA
  imports KT11D CpuBus
begin

unbundle bit_operations_syntax

text \<open>
  State, bus cycles and operand handling of the PDP-11/34 core: \<open>kd11ea.h\<close> and the
  first half of \<open>kd11ea.c\<close> under \<open>10.02_devices/2_src/cpu34\<close>. The struct \<open>KD11EA\<close> is
  the record \<open>kd11ea\<close>; \<open>mach\<close> adds the locals of \<open>step()\<close> that live across its
  labels, the bus state, and a flag that stands for the \<open>assert(0)\<close> in \<open>addrop\<close>.
  A C function that returns 1 on a failed bus cycle returns a pair whose first
  component is \<open>True\<close> then. The tracing calls and the mutex are not modelled: the
  interrupt flag is only read and written at the instruction boundary.
\<close>

section \<open>State\<close>

datatype cpu_state = STATE_HALTED | STATE_RUNNING | STATE_WAITING

definition PSW_PR :: u16 where "PSW_PR = 0x00E0"     \<comment> \<open>0340\<close>
definition PSW_T :: u16 where "PSW_T = 0x0010"       \<comment> \<open>020\<close>
definition PSW_N :: u16 where "PSW_N = 0x0008"
definition PSW_Z :: u16 where "PSW_Z = 0x0004"
definition PSW_V :: u16 where "PSW_V = 0x0002"
definition PSW_C :: u16 where "PSW_C = 0x0001"
definition PSW_MASK :: u16 where "PSW_MASK = 0xF0FF" \<comment> \<open>0170377\<close>
definition TRAP_STACK :: u32 where "TRAP_STACK = 1"
definition TRAP_PWR :: u32 where "TRAP_PWR = 2"

lemmas psw_consts = PSW_PR_def PSW_T_def PSW_N_def PSW_Z_def PSW_V_def PSW_C_def PSW_MASK_def

record kd11ea =
  regs :: "nat \<Rightarrow> u16"          \<comment> \<open>\<open>r[16]\<close>\<close>
  breg :: u16                  \<comment> \<open>\<open>b\<close>: B register before BUT JSRJMP\<close>
  ba :: u16
  bdata :: u16
  ir :: u16
  psw :: u16
  stackpointer :: "nat \<Rightarrow> u16"  \<comment> \<open>indexed by KD11EA_SP_KERNEL = 0, KD11EA_SP_USER = 1\<close>
  traps :: u32
  be :: nat
  run_state :: cpu_state       \<comment> \<open>\<open>state\<close>\<close>
  trap_vector :: u16
  autoinc_reg :: int
  autoinc_amount :: int
  mmu :: kt11d
  external_intr :: bool
  external_intrvec :: u16
  sw :: u16

record 'x mach = kd11ea +
  oldpsw :: u16
  inhov :: bool
  in_trap :: bool
  assert_failed :: bool
  env :: 'x

definition kernel_psw :: "u16 \<Rightarrow> bool" where
  "kernel_psw w \<longleftrightarrow> drop_bit 14 w AND 3 = KT11D_MODE_KERNEL"

definition IS_KERNEL :: "('x, 'z) mach_scheme \<Rightarrow> bool" where
  "IS_KERNEL s \<longleftrightarrow> kernel_psw (psw s)"

definition SP_index :: "u16 \<Rightarrow> nat" where
  "SP_index w = (if kernel_psw w then 0 else 1)"

definition kd11ea_set_psw :: "'x bus_ops \<Rightarrow> u16 \<Rightarrow> 'x mach \<Rightarrow> 'x mach" where
  "kd11ea_set_psw bus np s =
    (let oldsp = SP_index (psw s); np' = np AND PSW_MASK; newsp = SP_index np';
         s1 = (if oldsp \<noteq> newsp then
                 let sps = (stackpointer s)(oldsp := regs s 6)
                 in s\<lparr>stackpointer := sps, regs := (regs s)(6 := sps newsp)\<rparr>
               else s)
     in s1\<lparr>psw := np', mmu := kt11d_set_modes (mmu s1) np',
           env := unibone_prioritylevelchange bus (ucast (drop_bit 5 np' AND 7)) (env s1)\<rparr>)"

definition sgn_w :: "u16 \<Rightarrow> u16" where
  "sgn_w w = drop_bit 15 w AND 1"

definition sxt :: "u8 \<Rightarrow> u16" where
  "sxt x = scast x"

section \<open>Reset, interrupts and power fail\<close>

definition kd11ea_reset :: "'x mach \<Rightarrow> 'x mach" where
  "kd11ea_reset s = s\<lparr>traps := 0, mmu := kt11d_init (mmu s)\<rparr>"

definition kd11ea_power_reset :: "'x bus_ops \<Rightarrow> 'x mach \<Rightarrow> 'x mach" where
  "kd11ea_power_reset bus s =
    (let s1 = kd11ea_reset s;
         s2 = s1\<lparr>external_intr := False, mmu := kt11d_reset (mmu s1),
                 stackpointer := (stackpointer s1)(0 := 0, 1 := 0),
                 trap_vector := 4, autoinc_reg := -1\<rparr>
     in kd11ea_set_psw bus 0 s2)"

definition kd11ea_setintr :: "u16 \<Rightarrow> 'x mach \<Rightarrow> 'x mach" where
  "kd11ea_setintr vec s = s\<lparr>external_intr := True, external_intrvec := vec\<rparr>"

definition kd11ea_pwrfail_trap :: "'x mach \<Rightarrow> 'x mach" where
  "kd11ea_pwrfail_trap s = s\<lparr>traps := traps s OR TRAP_PWR\<rparr>"

section \<open>Bus cycles\<close>

definition autoinc_pending :: "nat \<Rightarrow> int \<Rightarrow> 'x mach \<Rightarrow> 'x mach" where
  "autoinc_pending r amount s = s\<lparr>autoinc_reg := int r, autoinc_amount := amount\<rparr>"

definition autoinc_commit :: "'x mach \<Rightarrow> 'x mach" where
  "autoinc_commit s = s\<lparr>autoinc_reg := -1\<rparr>"

definition autoinc_undo :: "'x mach \<Rightarrow> 'x mach" where
  "autoinc_undo s =
    (if autoinc_reg s \<ge> 0 then
       let r = nat (autoinc_reg s)
       in s\<lparr>regs := (regs s)(r := regs s r - word_of_int (autoinc_amount s)), autoinc_reg := -1\<rparr>
     else s)"

text \<open>The labels \<open>ok:\<close>, \<open>be:\<close> and \<open>abort:\<close> that \<open>dati\<close> and \<open>dato\<close> share.\<close>

definition cycle_ok :: "'x mach \<Rightarrow> bool \<times> 'x mach" where
  "cycle_ok s = (False, autoinc_commit (s\<lparr>be := 0\<rparr>))"

definition cycle_fail :: "u16 \<Rightarrow> 'x mach \<Rightarrow> bool \<times> 'x mach" where
  "cycle_fail vec s = (True, autoinc_undo (s\<lparr>trap_vector := vec, be := Suc (be s)\<rparr>))"

definition odd_addr :: "'n::len word \<Rightarrow> bool" where
  "odd_addr a \<longleftrightarrow> a AND 1 \<noteq> 0"

text \<open>The registers inside the CPU, decoded on the physical address.\<close>

definition dati_internal :: "u32 \<Rightarrow> 'x mach \<Rightarrow> u16 option" where
  "dati_internal pa s =
    (if pa < 0x3E000 then None                                    \<comment> \<open>0760000\<close>
     else case kt11d_read_reg (mmu s) (pa AND NOT 1) of
       Some w \<Rightarrow> Some w
     | None \<Rightarrow>
         if pa = 0x3FF78 \<or> pa = 0x3FF79 then Some (sw s)            \<comment> \<open>777570\<close>
         else if pa = 0x3FFFE \<or> pa = 0x3FFFF then Some (psw s AND PSW_MASK)  \<comment> \<open>777776\<close>
         else if pa = 0x3FF67 then Some 0                           \<comment> \<open>777547\<close>
         else None)"

definition dati :: "'x bus_ops \<Rightarrow> bool \<Rightarrow> 'x mach \<Rightarrow> bool \<times> 'x mach" where
  "dati bus b s =
    (if \<not> b \<and> odd_addr (ba s) then cycle_fail 4 s
     else case kt11d_relocate (mmu s) (ba s) (access_space (mmu s)) KT11D_READ of
       (m, None) \<Rightarrow> cycle_fail KT11D_ABORT_VECTOR (s\<lparr>mmu := m\<rparr>)
     | (m, Some pa) \<Rightarrow>
         (case dati_internal pa (s\<lparr>mmu := m\<rparr>) of
            Some w \<Rightarrow> cycle_ok (s\<lparr>mmu := m, bdata := w\<rparr>)
          | None \<Rightarrow>
              (case unibone_dati bus (pa AND NOT 1) (env s) of
                 (None, e) \<Rightarrow> cycle_fail 4 (s\<lparr>mmu := m, env := e\<rparr>)
               | (Some d, e) \<Rightarrow> cycle_ok (s\<lparr>mmu := m, env := e, bdata := ucast d\<rparr>))))"

definition dato_mask :: "bool \<Rightarrow> u32 \<Rightarrow> u16" where
  "dato_mask b pa = (if b then (if odd_addr pa then 0xFF00 else 0x00FF) else 0xFFFF)"

definition dato_internal :: "'x bus_ops \<Rightarrow> bool \<Rightarrow> u32 \<Rightarrow> 'x mach \<Rightarrow> 'x mach option" where
  "dato_internal bus b pa s =
    (if pa < 0x3E000 then None
     else case kt11d_write_reg (mmu s) (pa AND NOT 1) (bdata s) (dato_mask b pa) of
       Some m \<Rightarrow> Some (s\<lparr>mmu := m\<rparr>)
     | None \<Rightarrow>
         if pa = 0x3FF78 \<or> pa = 0x3FF79 then Some s
         else if pa = 0x3FFFE \<or> pa = 0x3FFFF then
           let msk = dato_mask b pa AND NOT PSW_T
           in Some (kd11ea_set_psw bus ((psw s AND NOT msk) OR (bdata s AND msk)) s)
         else None)"

definition dato :: "'x bus_ops \<Rightarrow> bool \<Rightarrow> 'x mach \<Rightarrow> bool \<times> 'x mach" where
  "dato bus b s =
    (if \<not> b \<and> odd_addr (ba s) then cycle_fail 4 s
     else case kt11d_relocate (mmu s) (ba s) (access_space (mmu s)) KT11D_WRITE of
       (m, None) \<Rightarrow> cycle_fail KT11D_ABORT_VECTOR (s\<lparr>mmu := m\<rparr>)
     | (m, Some pa) \<Rightarrow>
         (case dato_internal bus b pa (s\<lparr>mmu := m\<rparr>) of
            Some s' \<Rightarrow> cycle_ok s'
          | None \<Rightarrow>
              (case (if b then unibone_datob bus pa (bdata s) (env s)
                     else unibone_dato bus (pa AND NOT 1) (bdata s) (env s)) of
                 (False, e) \<Rightarrow> cycle_fail 4 (s\<lparr>mmu := m, env := e\<rparr>)
               | (True, e) \<Rightarrow> cycle_ok (s\<lparr>mmu := m, env := e\<rparr>))))"

section \<open>Operands\<close>

definition set_dest_ref :: "bool \<Rightarrow> 'x mach \<Rightarrow> 'x mach" where
  "set_dest_ref d s = s\<lparr>mmu := (mmu s)\<lparr>dest_ref := d\<rparr>\<rparr>"

definition set_reg :: "nat \<Rightarrow> u16 \<Rightarrow> 'x mach \<Rightarrow> 'x mach" where
  "set_reg r v s = s\<lparr>regs := (regs s)(r := v)\<rparr>"

text \<open>The step of an autoincrement or autodecrement: 1 for a byte operand, 2 for a word
  operand, for SP and PC, and for the deferred modes.\<close>

definition addr_step :: "nat \<Rightarrow> bool \<Rightarrow> int" where
  "addr_step m b = (if \<not> b \<or> m mod 8 \<ge> 6 \<or> odd (m div 8) then 2 else 1)"

text \<open>The \<open>switch(m&6)\<close> of \<open>addrop\<close> for the modes 2 to 7.\<close>

definition addrop_base :: "'x bus_ops \<Rightarrow> nat \<Rightarrow> bool \<Rightarrow> 'x mach \<Rightarrow> bool \<times> 'x mach" where
  "addrop_base bus m b s =
    (let r = m mod 8; ai = addr_step m b in
     if m div 16 = 1 then
       let a = regs s r; v = a + word_of_int ai;
           s1 = autoinc_pending r ai (set_reg r v (s\<lparr>ba := a, breg := v\<rparr>))
       in (False, s1\<lparr>mmu := kt11d_log_register (mmu s1) r ai\<rparr>)
     else if m div 16 = 2 then
       let a = regs s r - word_of_int ai;
           s1 = s\<lparr>ba := a, breg := a,
                  traps := (if r = 6 \<and> IS_KERNEL s \<and> a AND NOT 0xFF = 0
                            then traps s OR TRAP_STACK else traps s)\<rparr>;
           s2 = set_reg r a s1
       in (False, s2\<lparr>mmu := kt11d_log_register (mmu s2) r (- ai)\<rparr>)
     else
       let s1 = set_reg 7 (regs s 7 + 2) (s\<lparr>ba := regs s 7\<rparr>) in
       (case dati bus False s1 of
          (True, s2) \<Rightarrow> (True, s2)
        | (False, s2) \<Rightarrow>
            let v = bdata s2 + regs s2 r in (False, s2\<lparr>ba := v, breg := v\<rparr>)))"

definition addrop :: "'x bus_ops \<Rightarrow> nat \<Rightarrow> bool \<Rightarrow> 'x mach \<Rightarrow> bool \<times> 'x mach" where
  "addrop bus m b s =
    (if m div 8 = 0 then (False, s\<lparr>assert_failed := True\<rparr>)
     else
       let s0 = autoinc_commit s; dest = dest_ref (mmu s0); s1 = set_dest_ref False s0 in
       if m div 8 = 1 then
         let v = regs s1 (m mod 8) in (False, set_dest_ref dest (s1\<lparr>ba := v, breg := v\<rparr>))
       else
         (case addrop_base bus m b s1 of
            (True, s2) \<Rightarrow> (True, s2)
          | (False, s2) \<Rightarrow>
              if odd (m div 8) then
                (case dati bus False s2 of
                   (True, s3) \<Rightarrow> (True, s3)
                 | (False, s3) \<Rightarrow>
                     (False, set_dest_ref dest (s3\<lparr>ba := bdata s3, breg := bdata s3\<rparr>)))
              else (False, set_dest_ref dest s2)))"

definition fetchop_ext :: "nat \<Rightarrow> bool \<Rightarrow> 'x mach \<Rightarrow> 'x mach" where
  "fetchop_ext t b s = (if b then set_reg t (sxt (ucast (regs s t))) s else s)"

definition fetchop :: "'x bus_ops \<Rightarrow> nat \<Rightarrow> nat \<Rightarrow> bool \<Rightarrow> 'x mach \<Rightarrow> bool \<times> 'x mach" where
  "fetchop bus t m b s =
    (if m div 8 = 0 then (False, fetchop_ext t b (set_reg t (regs s (m mod 8)) s))
     else case dati bus b s of
       (True, s1) \<Rightarrow> (True, s1)
     | (False, s1) \<Rightarrow>
         (False, fetchop_ext t b
            (set_reg t (if b \<and> odd_addr (ba s1) then drop_bit 8 (bdata s1) else bdata s1) s1)))"

definition readop :: "'x bus_ops \<Rightarrow> nat \<Rightarrow> nat \<Rightarrow> bool \<Rightarrow> 'x mach \<Rightarrow> bool \<times> 'x mach" where
  "readop bus t m b s =
    (case addrop bus m b (set_dest_ref (t = 9) s) of
       (True, s1) \<Rightarrow> (True, s1)
     | (False, s1) \<Rightarrow> fetchop bus t m b s1)"

definition addrdest :: "'x bus_ops \<Rightarrow> nat \<Rightarrow> bool \<Rightarrow> 'x mach \<Rightarrow> bool \<times> 'x mach" where
  "addrdest bus m b s = addrop bus m b (set_dest_ref True s)"

definition writedest :: "'x bus_ops \<Rightarrow> u16 \<Rightarrow> bool \<Rightarrow> 'x mach \<Rightarrow> bool \<times> 'x mach" where
  "writedest bus v b s =
    (let s1 = set_dest_ref True s; d = unat (ir s1 AND 7) in
     if ir s1 AND 0x38 = 0 then
       (False, set_reg d (if b then SETMASK (regs s1 d) v 0xFF else v) s1)
     else
       dato bus b (s1\<lparr>bdata := (if odd_addr (ba s1) then push_bit 8 v else v)\<rparr>))"

definition setnz :: "u16 \<Rightarrow> 'x mach \<Rightarrow> 'x mach" where
  "setnz w s =
    (let p0 = psw s AND NOT (PSW_N OR PSW_Z);
         p1 = (if w AND 0x8000 \<noteq> 0 then p0 OR PSW_N else p0);
         p2 = (if w = 0 then p1 OR PSW_Z else p1)
     in s\<lparr>psw := p2\<rparr>)"

end
