(* ===== verification/KD11EA_Exec.thy ===== *)
theory KD11EA_Exec
  imports KD11EA "HOL-Library.Signed_Division"
begin

unbundle bit_operations_syntax

text \<open>
  The instructions of \<open>step()\<close> in \<open>kd11ea.c\<close>, one definition per case of its switches.
  The labels a case jumps to are the values of \<open>exit_to\<close>: \<open>goto service\<close>,
  \<open>TRAP(v)\<close>, \<open>goto be\<close>, and the plain \<open>return\<close>. \<open>ri:\<close> is \<open>GoTrap 8\<close> (vector 010) and
  \<open>ill:\<close> is \<open>GoTrap 4\<close>. The local \<open>uint b\<close> is a 32-bit word, cut to 16 bits where the C
  passes it as a \<open>word\<close>.
\<close>

section \<open>Control flow\<close>

datatype exit_to = GoService | GoTrap u16 | GoBe | GoReturn

definition svc :: "'x mach \<Rightarrow> exit_to \<times> 'x mach" where
  "svc s = (GoService, s)"

text \<open>\<open>if(...) goto be;\<close> around a bus cycle.\<close>

definition try_be :: "bool \<times> 'x mach \<Rightarrow> ('x mach \<Rightarrow> exit_to \<times> 'x mach) \<Rightarrow> exit_to \<times> 'x mach" where
  "try_be p k = (if fst p then (GoBe, snd p) else k (snd p))"

section \<open>The macros of \<open>step()\<close>\<close>

definition psw_clr :: "u16 \<Rightarrow> 'x mach \<Rightarrow> 'x mach" where
  "psw_clr m s = s\<lparr>psw := psw s AND NOT m\<rparr>"

definition psw_set :: "u16 \<Rightarrow> 'x mach \<Rightarrow> 'x mach" where
  "psw_set m s = s\<lparr>psw := psw s OR m\<rparr>"

definition psw_set_if :: "bool \<Rightarrow> u16 \<Rightarrow> 'x mach \<Rightarrow> 'x mach" where
  "psw_set_if c m s = (if c then psw_set m s else s)"

abbreviation "CLC \<equiv> psw_clr PSW_C"
abbreviation "CLV \<equiv> psw_clr PSW_V"
abbreviation "CLCV \<equiv> psw_clr (PSW_V OR PSW_C)"

definition ISSET :: "u16 \<Rightarrow> 'x mach \<Rightarrow> bool" where
  "ISSET f s \<longleftrightarrow> psw s AND f \<noteq> 0"

definition src_field :: "'x mach \<Rightarrow> nat" where
  "src_field s = unat (drop_bit 6 (ir s) AND 0x3F)"

definition dst_field :: "'x mach \<Rightarrow> nat" where
  "dst_field s = unat (ir s AND 0x3F)"

definition reg_field :: "'x mach \<Rightarrow> nat" where
  "reg_field s = unat (drop_bit 6 (ir s) AND 7)"

definition rd_operand :: "'x bus_ops \<Rightarrow> nat \<Rightarrow> nat \<Rightarrow> bool \<Rightarrow> 'x mach \<Rightarrow> bool \<times> 'x mach" where
  "rd_operand bus t m by s =
    (if m div 8 = 0 then (False, snd (fetchop bus t m by s)) else readop bus t m by s)"

definition RD_B :: "'x bus_ops \<Rightarrow> bool \<Rightarrow> 'x mach \<Rightarrow> ('x mach \<Rightarrow> exit_to \<times> 'x mach) \<Rightarrow> exit_to \<times> 'x mach" where
  "RD_B bus by s k =
    try_be (rd_operand bus 8 (src_field s) by s)
      (\<lambda>s. try_be (rd_operand bus 9 (dst_field s) by s) k)"

definition RD_U :: "'x bus_ops \<Rightarrow> bool \<Rightarrow> 'x mach \<Rightarrow> ('x mach \<Rightarrow> exit_to \<times> 'x mach) \<Rightarrow> exit_to \<times> 'x mach" where
  "RD_U bus by s k =
    try_be (rd_operand bus 9 (dst_field s) by s) (\<lambda>s. k (set_reg 8 (regs s 9) s))"

definition WR :: "'x bus_ops \<Rightarrow> u32 \<Rightarrow> bool \<Rightarrow> 'x mach \<Rightarrow> exit_to \<times> 'x mach" where
  "WR bus b by s = try_be (writedest bus (ucast b) by s) svc"

definition NZ :: "u32 \<Rightarrow> 'x mach \<Rightarrow> 'x mach" where
  "NZ b s = setnz (ucast b) s"

definition BXT :: "bool \<Rightarrow> u32 \<Rightarrow> u32" where
  "BXT by b = (if by then ucast (sxt (ucast b)) else b)"

definition neg16 :: "u16 \<Rightarrow> bool" where
  "neg16 w \<longleftrightarrow> sgn_w w \<noteq> 0"

definition PUSH :: "'x mach \<Rightarrow> 'x mach" where
  "PUSH s =
    (let s1 = set_dest_ref False (set_reg 6 (regs s 6 - 2) s)
     in if \<not> inhov s1 \<and> IS_KERNEL s1 \<and> regs s1 6 AND NOT 0xFF = 0
        then s1\<lparr>traps := traps s1 OR TRAP_STACK\<rparr> else s1)"

definition OUT :: "'x bus_ops \<Rightarrow> u16 \<Rightarrow> u16 \<Rightarrow> 'x mach \<Rightarrow> bool \<times> 'x mach" where
  "OUT bus a d s = dato bus False (s\<lparr>ba := a, bdata := d\<rparr>)"

text \<open>\<open>BA = SP; POP\<close>\<close>

definition BA_SP_POP :: "'x mach \<Rightarrow> 'x mach" where
  "BA_SP_POP s = autoinc_pending 6 2 (set_reg 6 (regs s 6 + 2) (s\<lparr>ba := regs s 6\<rparr>))"

definition SPACE_KERNEL :: "'x mach \<Rightarrow> 'x mach" where
  "SPACE_KERNEL s = s\<lparr>mmu := kt11d_set_access (mmu s) KT11D_SPACE_KERNEL KT11D_MODE_KERNEL\<rparr>"
definition SPACE_PREV :: "'x mach \<Rightarrow> 'x mach" where
  "SPACE_PREV s = s\<lparr>mmu := kt11d_set_access (mmu s) (prev_space (mmu s)) (prev_mode (mmu s))\<rparr>"
definition SPACE_RESTORE :: "'x mach \<Rightarrow> 'x mach" where
  "SPACE_RESTORE s = s\<lparr>mmu := kt11d_set_access (mmu s) (space (mmu s)) (mode (mmu s))\<rparr>"

section \<open>Double operand instructions\<close>

definition op_mov :: "'x bus_ops \<Rightarrow> bool \<Rightarrow> 'x mach \<Rightarrow> exit_to \<times> 'x mach" where
  "op_mov bus by s = RD_B bus by s (\<lambda>s.
     let s1 = NZ (ucast (regs s 8)) (CLV s); dm = dst_field s1 div 8; df = dst_field s1 mod 8 in
     if dm = 0 then svc (set_reg df (regs s1 8) s1)
     else try_be (writedest bus (regs s1 8) by s1) svc)"

definition op_cmp :: "'x bus_ops \<Rightarrow> bool \<Rightarrow> 'x mach \<Rightarrow> exit_to \<times> 'x mach" where
  "op_cmp bus by s = RD_B bus by s (\<lambda>s.
     let s1 = CLCV s; SR = regs s1 8; DR = regs s1 9;
         b0 = ucast SR + ucast (NOT DR) + 1 :: u32;
         s2 = psw_set_if (b0 AND 0x10000 = 0) PSW_C s1;
         b = BXT by b0;
         s3 = psw_set_if (neg16 ((SR XOR DR) AND NOT (DR XOR ucast b))) PSW_V s2
     in svc (NZ b s3))"

definition op_bit :: "'x bus_ops \<Rightarrow> bool \<Rightarrow> 'x mach \<Rightarrow> exit_to \<times> 'x mach" where
  "op_bit bus by s = RD_B bus by s (\<lambda>s.
     let s1 = CLV s; b = ucast (regs s1 9 AND regs s1 8) :: u32 in svc (NZ b s1))"

definition op_bic :: "'x bus_ops \<Rightarrow> bool \<Rightarrow> 'x mach \<Rightarrow> exit_to \<times> 'x mach" where
  "op_bic bus by s = RD_B bus by s (\<lambda>s.
     let s1 = CLV s; b = ucast (regs s1 9 AND NOT (regs s1 8)) :: u32 in WR bus b by (NZ b s1))"

definition op_bis :: "'x bus_ops \<Rightarrow> bool \<Rightarrow> 'x mach \<Rightarrow> exit_to \<times> 'x mach" where
  "op_bis bus by s = RD_B bus by s (\<lambda>s.
     let s1 = CLV s; b = ucast (regs s1 9 OR regs s1 8) :: u32 in WR bus b by (NZ b s1))"

definition op_add :: "'x bus_ops \<Rightarrow> 'x mach \<Rightarrow> exit_to \<times> 'x mach" where
  "op_add bus s = RD_B bus False s (\<lambda>s.
     let s1 = CLCV s; SR = regs s1 8; DR = regs s1 9;
         b = ucast SR + ucast DR :: u32;
         s2 = psw_set_if (b AND 0x10000 \<noteq> 0) PSW_C s1;
         s3 = psw_set_if (neg16 (NOT (SR XOR DR) AND (DR XOR ucast b))) PSW_V s2
     in WR bus b False (NZ b s3))"

definition op_sub :: "'x bus_ops \<Rightarrow> 'x mach \<Rightarrow> exit_to \<times> 'x mach" where
  "op_sub bus s = RD_B bus False s (\<lambda>s.
     let s1 = CLCV s; SR = regs s1 8; DR = regs s1 9;
         b = ucast DR + ucast (NOT SR) + 1 :: u32;
         s2 = psw_set_if (b AND 0x10000 = 0) PSW_C s1;
         s3 = psw_set_if (neg16 ((SR XOR DR) AND (DR XOR ucast b))) PSW_V s2
     in WR bus b False (NZ b s3))"

section \<open>Extended instruction set\<close>

definition op_mul :: "'x bus_ops \<Rightarrow> bool \<Rightarrow> 'x mach \<Rightarrow> exit_to \<times> 'x mach" where
  "op_mul bus by s = RD_U bus by s (\<lambda>s.
     let reg = reg_field s;
         s1 = psw_clr (PSW_N OR PSW_Z OR PSW_V OR PSW_C) s;
         prod = sint (regs s1 9) * sint (regs s1 reg);
         s2 = psw_set_if (prod < -32768 \<or> prod > 32767) PSW_C s1;
         s3 = psw_set_if (prod = 0) PSW_Z s2;
         s4 = psw_set_if (prod < 0) PSW_N s3
     in svc (if odd reg then set_reg reg (word_of_int prod) s4
             else set_reg reg (word_of_int (prod div 65536))
                    (set_reg (reg + 1) (word_of_int prod) s4)))"

definition op_div :: "'x bus_ops \<Rightarrow> bool \<Rightarrow> 'x mach \<Rightarrow> exit_to \<times> 'x mach" where
  "op_div bus by s = RD_U bus by s (\<lambda>s.
     let reg = reg_field s; reg1 = (if odd reg then reg else reg + 1);
         s1 = psw_clr (PSW_N OR PSW_Z OR PSW_V OR PSW_C) s;
         dv = sint (regs s1 9);
         prod = sint (ucast (regs s1 reg1) OR push_bit 16 (ucast (regs s1 reg)) :: u32)
     in svc (if regs s1 9 = 0 then psw_set PSW_V (psw_set PSW_C s1)
             else if prod = - 2147483648 \<and> dv = -1 then psw_set PSW_Z (psw_set PSW_V s1)
             else
               let quot = prod sdiv dv; rm = prod smod dv;
                   s2 = (if quot < -32768 \<or> quot > 32767 then psw_set PSW_V s1
                         else set_reg reg1 (word_of_int rm) (set_reg reg (word_of_int quot) s1));
                   s3 = psw_set_if (neg16 (word_of_int quot)) PSW_N s2
               in psw_set_if ((word_of_int quot :: u16) = 0) PSW_Z s3))"

text \<open>The loop of \<open>ASH\<close> to the left, one bit per turn, over \<open>b\<close> and the PSW.\<close>

fun ash_left :: "nat \<Rightarrow> u32 \<Rightarrow> u16 \<Rightarrow> u32 \<times> u16" where
  "ash_left 0 b p = (b, p)"
| "ash_left (Suc n) b p =
    (let p1 = (if b AND 0x8000 \<noteq> 0 then p OR PSW_C else p AND NOT PSW_C);
         b1 = push_bit 1 b;
         p2 = (if (b XOR b1) AND 0x8000 \<noteq> 0 then p1 OR PSW_V else p1)
     in ash_left n b1 p2)"

definition ash_right :: "nat \<Rightarrow> u32 \<Rightarrow> 'x mach \<Rightarrow> u32 \<times> 'x mach" where
  "ash_right sh b s =
    (let msk = (if neg16 (ucast b) then 0xFFFF else 0 :: u16) in
     if sh \<ge> 17 then
       (ucast msk, NZ (ucast msk) (if msk \<noteq> 0 then psw_set PSW_C s else CLC s))
     else
       let s1 = (if b AND push_bit (sh - 1) 1 \<noteq> 0 then psw_set PSW_C s else CLC s);
           b1 = (drop_bit sh b OR ucast (push_bit (16 - sh) msk)) AND 0xFFFF
       in (b1, psw_set_if (b1 AND 0x8000 \<noteq> 0) PSW_N (NZ b1 s1)))"

definition op_ash :: "'x bus_ops \<Rightarrow> bool \<Rightarrow> 'x mach \<Rightarrow> exit_to \<times> 'x mach" where
  "op_ash bus by s = RD_U bus by s (\<lambda>s.
     let reg = reg_field s;
         s1 = psw_clr (PSW_N OR PSW_Z OR PSW_V) s;
         b = ucast (regs s1 reg) :: u32;
         sh = unat (regs s1 9 AND 0x3F);
         (b', s2) =
           (if regs s1 9 AND 0x20 \<noteq> 0 then ash_right (64 - sh) b s1
            else if sh = 0 then (b, NZ b s1)
            else if sh \<ge> 17 then
              (0, psw_set PSW_Z (CLC (psw_set_if (b AND 0xFFFF \<noteq> 0) PSW_V s1)))
            else
              let (b1, p1) = ash_left sh b (psw s1) in (b1, NZ b1 (s1\<lparr>psw := p1\<rparr>)))
     in svc (set_reg reg (ucast b') s2))"

fun ashc_left :: "nat \<Rightarrow> u32 \<Rightarrow> u16 \<Rightarrow> u32 \<times> u16" where
  "ashc_left 0 v p = (v, p)"
| "ashc_left (Suc n) v p =
    (let p1 = (if v AND 0x80000000 \<noteq> 0 then p OR PSW_C else p AND NOT PSW_C);
         v1 = push_bit 1 v;
         p2 = (if (v XOR v1) AND 0x80000000 \<noteq> 0 then p1 OR PSW_V else p1)
     in ashc_left n v1 p2)"

definition ashc_right :: "nat \<Rightarrow> u32 \<Rightarrow> 'x mach \<Rightarrow> u32 \<times> 'x mach" where
  "ashc_right sh v s =
    (let msk = (if v AND 0x80000000 \<noteq> 0 then 0xFFFFFFFF else 0 :: u32) in
     if sh \<ge> 32 then (msk, if msk \<noteq> 0 then psw_set PSW_C s else CLC s)
     else (drop_bit sh v OR push_bit (32 - sh) msk,
           if v AND push_bit (sh - 1) 1 \<noteq> 0 then psw_set PSW_C s else CLC s))"

definition op_ashc :: "'x bus_ops \<Rightarrow> bool \<Rightarrow> 'x mach \<Rightarrow> exit_to \<times> 'x mach" where
  "op_ashc bus by s = RD_U bus by s (\<lambda>s.
     let reg = reg_field s; reg1 = (if odd reg then reg else reg + 1);
         s1 = psw_clr (PSW_N OR PSW_Z OR PSW_V) s;
         v = push_bit 16 (ucast (regs s1 reg)) OR ucast (regs s1 reg1) :: u32;
         sh = unat (regs s1 9 AND 0x3F);
         (v', s2) =
           (if regs s1 9 AND 0x20 \<noteq> 0 then ashc_right (64 - sh) v s1
            else let (v1, p1) = ashc_left sh v (psw s1) in (v1, s1\<lparr>psw := p1\<rparr>));
         s3 = psw_set_if (v' AND 0x80000000 \<noteq> 0) PSW_N (psw_set_if (v' = 0) PSW_Z s2)
     in svc (if odd reg then set_reg reg (ucast v') s3
             else set_reg (reg + 1) (ucast v') (set_reg reg (ucast (drop_bit 16 v')) s3)))"

definition op_xor :: "'x bus_ops \<Rightarrow> bool \<Rightarrow> 'x mach \<Rightarrow> exit_to \<times> 'x mach" where
  "op_xor bus by s = RD_U bus by s (\<lambda>s.
     let reg = reg_field s;
         s1 = psw_clr (PSW_N OR PSW_Z OR PSW_V) s;
         b = ucast (regs s1 9 XOR regs s1 reg) :: u32;
         s2 = psw_set_if (neg16 (ucast b)) PSW_N s1
     in WR bus b by (NZ b s2))"

definition op_sob :: "'x mach \<Rightarrow> exit_to \<times> 'x mach" where
  "op_sob s =
    (let reg = reg_field s; v = regs s reg - 1; s1 = set_reg reg v s
     in svc (if v \<noteq> 0 then set_reg 7 (regs s1 7 - push_bit 1 (ir s1 AND 0x3F)) s1 else s1))"

definition exec_eis :: "'x bus_ops \<Rightarrow> bool \<Rightarrow> 'x mach \<Rightarrow> exit_to \<times> 'x mach" where
  "exec_eis bus by s =
    (let op = ir s AND 0xFE00 in                    \<comment> \<open>0177000\<close>
     if op = 0x7000 then op_mul bus by s             \<comment> \<open>0070000\<close>
     else if op = 0x7200 then op_div bus by s        \<comment> \<open>0071000\<close>
     else if op = 0x7400 then op_ash bus by s        \<comment> \<open>0072000\<close>
     else if op = 0x7600 then op_ashc bus by s       \<comment> \<open>0073000\<close>
     else if op = 0x7800 then op_xor bus by s        \<comment> \<open>0074000\<close>
     else if op = 0x7E00 then op_sob s               \<comment> \<open>0077000\<close>
     else (GoTrap 8, s))"

end
