(* ===== verification/KD11EA_Step.thy ===== *)
theory KD11EA_Step
  imports KD11EA_Exec
begin

unbundle bit_operations_syntax

text \<open>
  The rest of \<open>step()\<close>: single operand, PSW, inter-mode, subroutine, branch and
  operate instructions, the decode that dispatches them in the order of the
  switches, the trap sequence with the labels \<open>trap:\<close>, \<open>service:\<close> and \<open>be:\<close>, and the
  driver \<open>kd11ea_condstep\<close>. The jumps between the three labels form a loop that the
  code does not bound; it runs on fuel, and \<open>None\<close> means that the fuel did not reach a
  \<open>return\<close>.
\<close>

section \<open>Single operand instructions\<close>

definition op_clr :: "'x bus_ops \<Rightarrow> bool \<Rightarrow> 'x mach \<Rightarrow> exit_to \<times> 'x mach" where
  "op_clr bus by s = RD_U bus by s (\<lambda>s. WR bus 0 by (NZ 0 (CLCV s)))"

definition op_com :: "'x bus_ops \<Rightarrow> bool \<Rightarrow> 'x mach \<Rightarrow> exit_to \<times> 'x mach" where
  "op_com bus by s = RD_U bus by s (\<lambda>s.
     let s1 = psw_set PSW_C (CLV s); b = ucast (NOT (regs s1 8)) :: u32 in WR bus b by (NZ b s1))"

definition op_inc :: "'x bus_ops \<Rightarrow> bool \<Rightarrow> 'x mach \<Rightarrow> exit_to \<times> 'x mach" where
  "op_inc bus by s = RD_U bus by s (\<lambda>s.
     let s1 = CLV s; SR = regs s1 8; b = BXT by (ucast (SR + 1));
         s2 = psw_set_if (neg16 (NOT SR AND ucast b)) PSW_V s1
     in WR bus b by (NZ b s2))"

definition op_dec :: "'x bus_ops \<Rightarrow> bool \<Rightarrow> 'x mach \<Rightarrow> exit_to \<times> 'x mach" where
  "op_dec bus by s = RD_U bus by s (\<lambda>s.
     let s1 = CLV s; SR = regs s1 8; b = BXT by (ucast (SR + NOT 0));
         s2 = psw_set_if (neg16 (SR AND NOT (ucast b))) PSW_V s1
     in WR bus b by (NZ b s2))"

definition op_neg :: "'x bus_ops \<Rightarrow> bool \<Rightarrow> 'x mach \<Rightarrow> exit_to \<times> 'x mach" where
  "op_neg bus by s = RD_U bus by s (\<lambda>s.
     let s1 = CLCV s; SR = regs s1 8; b = BXT by (ucast (NOT SR + 1));
         s2 = psw_set_if (b \<noteq> 0) PSW_C s1;
         s3 = psw_set_if (neg16 (ucast b AND SR)) PSW_V s2
     in WR bus b by (NZ b s3))"

definition op_adc :: "'x bus_ops \<Rightarrow> bool \<Rightarrow> 'x mach \<Rightarrow> exit_to \<times> 'x mach" where
  "op_adc bus by s = RD_U bus by s (\<lambda>s.
     let c = (if ISSET PSW_C s then 1 else 0 :: u32); s1 = CLCV s; SR = regs s1 8;
         b0 = ucast SR + c;
         s2 = psw_set_if (b0 AND 0x10000 \<noteq> 0) PSW_C s1;
         b = BXT by b0;
         s3 = psw_set_if (neg16 (NOT SR AND ucast b)) PSW_V s2
     in WR bus b by (NZ b s3))"

text \<open>\<open>c = !ISSET(PSW_C)-1\<close>: all ones when the carry is set, 0 when it is clear.\<close>

definition op_sbc :: "'x bus_ops \<Rightarrow> bool \<Rightarrow> 'x mach \<Rightarrow> exit_to \<times> 'x mach" where
  "op_sbc bus by s = RD_U bus by s (\<lambda>s.
     let c = (if ISSET PSW_C s then 0 else 1 :: u32) - 1; s1 = CLCV s; SR = regs s1 8;
         b0 = ucast (ucast (ucast SR + c) :: u16) :: u32;
         s2 = psw_set_if (c \<noteq> 0 \<and> SR = 0) PSW_C s1;
         b = BXT by b0;
         s3 = psw_set_if (neg16 (SR AND NOT (ucast b))) PSW_V s2
     in WR bus b by (NZ b s3))"

definition op_tst :: "'x bus_ops \<Rightarrow> bool \<Rightarrow> 'x mach \<Rightarrow> exit_to \<times> 'x mach" where
  "op_tst bus by s = RD_U bus by s (\<lambda>s.
     let s1 = CLCV s in svc (NZ (ucast (regs s1 8)) s1))"

text \<open>\<open>if((PSW>>3^PSW)&1) SEV\<close>: V := N xor C.\<close>

definition shift_v :: "'x mach \<Rightarrow> 'x mach" where
  "shift_v s = psw_set_if ((drop_bit 3 (psw s) XOR psw s) AND 1 \<noteq> 0) PSW_V s"

definition byte_mask :: "bool \<Rightarrow> u16" where
  "byte_mask by = (if by then 0x00FF else 0xFFFF)"

definition byte_sign :: "bool \<Rightarrow> u32" where
  "byte_sign by = (if by then 0x0080 else 0x8000)"

definition op_ror :: "'x bus_ops \<Rightarrow> bool \<Rightarrow> 'x mach \<Rightarrow> exit_to \<times> 'x mach" where
  "op_ror bus by s = RD_U bus by s (\<lambda>s.
     let c = ISSET PSW_C s; s1 = CLCV s; SR = regs s1 8;
         b0 = ucast (drop_bit 1 (SR AND byte_mask by)) :: u32;
         b1 = (if c then b0 OR byte_sign by else b0);
         s2 = psw_set_if (SR AND 1 \<noteq> 0) PSW_C s1;
         b = BXT by b1
     in WR bus b by (shift_v (NZ b s2)))"

definition op_rol :: "'x bus_ops \<Rightarrow> bool \<Rightarrow> 'x mach \<Rightarrow> exit_to \<times> 'x mach" where
  "op_rol bus by s = RD_U bus by s (\<lambda>s.
     let c = ISSET PSW_C s; s1 = CLCV s; SR = regs s1 8;
         b0 = ucast (push_bit 1 SR AND byte_mask by) :: u32;
         b1 = (if c then b0 OR 1 else b0);
         s2 = psw_set_if (SR AND 0x8000 \<noteq> 0) PSW_C s1;
         b = BXT by b1
     in WR bus b by (shift_v (NZ b s2)))"

definition op_asr :: "'x bus_ops \<Rightarrow> bool \<Rightarrow> 'x mach \<Rightarrow> exit_to \<times> 'x mach" where
  "op_asr bus by s = RD_U bus by s (\<lambda>s.
     let s1 = CLCV s; SR = regs s1 8;
         b0 = ucast (drop_bit 1 SR OR (SR AND 0x8000)) :: u32;
         s2 = psw_set_if (SR AND 1 \<noteq> 0) PSW_C s1;
         b = BXT by b0
     in WR bus b by (shift_v (NZ b s2)))"

definition op_asl :: "'x bus_ops \<Rightarrow> bool \<Rightarrow> 'x mach \<Rightarrow> exit_to \<times> 'x mach" where
  "op_asl bus by s = RD_U bus by s (\<lambda>s.
     let s1 = CLCV s; SR = regs s1 8;
         b0 = ucast (push_bit 1 SR) :: u32;
         s2 = psw_set_if (SR AND 0x8000 \<noteq> 0) PSW_C s1;
         b = BXT by b0
     in WR bus b by (shift_v (NZ b s2)))"

section \<open>Stack marking, PSW and inter-mode transfers\<close>

definition op_mark :: "'x bus_ops \<Rightarrow> 'x mach \<Rightarrow> exit_to \<times> 'x mach" where
  "op_mark bus s =
    (let s1 = set_reg 6 (regs s 7 + push_bit 1 (ir s AND 0x3F)) s;
         s2 = BA_SP_POP (set_reg 7 (regs s1 5) s1)
     in try_be (dati bus False s2) (\<lambda>s. svc (set_reg 5 (bdata s) s)))"

definition op_mtps :: "'x bus_ops \<Rightarrow> bool \<Rightarrow> 'x mach \<Rightarrow> exit_to \<times> 'x mach" where
  "op_mtps bus by s = RD_U bus by s (\<lambda>s.
     let b0 = regs s 9 AND (0xFF AND NOT PSW_T);
         b = (if \<not> IS_KERNEL s then (b0 AND NOT PSW_PR) OR (psw s AND PSW_PR) else b0)
     in svc (kd11ea_set_psw bus ((psw s AND (0xFF00 OR PSW_T)) OR b) s))"

text \<open>In register mode R6 of the other mode is the stored stack pointer.\<close>

definition other_sp :: "nat \<Rightarrow> 'x mach \<Rightarrow> bool" where
  "other_sp df s \<longleftrightarrow> df = 6 \<and> prev_space (mmu s) \<noteq> space (mmu s)"

definition prev_sp_index :: "'x mach \<Rightarrow> nat" where
  "prev_sp_index s = (if prev_space (mmu s) = KT11D_SPACE_KERNEL then 0 else 1)"

definition mfpi_push :: "'x bus_ops \<Rightarrow> u16 \<Rightarrow> 'x mach \<Rightarrow> exit_to \<times> 'x mach" where
  "mfpi_push bus b s =
    (let s1 = PUSH (NZ (ucast b) (CLV s)) in try_be (OUT bus (regs s1 6) b s1) svc)"

definition op_mfpi :: "'x bus_ops \<Rightarrow> 'x mach \<Rightarrow> exit_to \<times> 'x mach" where
  "op_mfpi bus s =
    (let dst = dst_field s; df = dst mod 8 in
     if dst div 8 = 0 then
       mfpi_push bus (if other_sp df s then stackpointer s (prev_sp_index s) else regs s df) s
     else
       try_be (addrdest bus dst False s) (\<lambda>s.
         let (fail, s1) = dati bus False (SPACE_PREV s); s2 = SPACE_RESTORE s1
         in if fail then (GoBe, s2) else mfpi_push bus (bdata s2) s2))"

definition op_mtpi :: "'x bus_ops \<Rightarrow> 'x mach \<Rightarrow> exit_to \<times> 'x mach" where
  "op_mtpi bus s =
    try_be (dati bus False (BA_SP_POP s)) (\<lambda>s.
      let b = bdata s; s1 = NZ (ucast b) (CLV s); dst = dst_field s1; df = dst mod 8 in
      if dst div 8 = 0 then
        svc (if other_sp df s1
             then s1\<lparr>stackpointer := (stackpointer s1)(prev_sp_index s1 := b)\<rparr>
             else set_reg df b s1)
      else
        try_be (addrdest bus dst False s1) (\<lambda>s.
          let (fail, s2) = dato bus False (SPACE_PREV (s\<lparr>bdata := b\<rparr>)); s3 = SPACE_RESTORE s2
          in if fail then (GoBe, s3) else svc s3))"

text \<open>The common tail of \<open>SXT\<close> and \<open>MFPS\<close>: address the destination, then load it.\<close>

definition store_dest :: "'x bus_ops \<Rightarrow> bool \<Rightarrow> ('x mach \<Rightarrow> u32) \<Rightarrow> 'x mach \<Rightarrow> exit_to \<times> 'x mach" where
  "store_dest bus by value s =
    (let dst = dst_field s in
     try_be (if dst div 8 \<noteq> 0 then addrdest bus dst by s else (False, s)) (\<lambda>s.
       let b = value s; s1 = NZ b (CLV s) in
       if dst div 8 = 0 then svc (set_reg (dst mod 8) (ucast b) s1) else WR bus b by s1))"

definition op_sxt :: "'x bus_ops \<Rightarrow> 'x mach \<Rightarrow> exit_to \<times> 'x mach" where
  "op_sxt bus s = store_dest bus False (\<lambda>s. if ISSET PSW_N s then 0xFFFF else 0) s"

definition op_mfps :: "'x bus_ops \<Rightarrow> 'x mach \<Rightarrow> exit_to \<times> 'x mach" where
  "op_mfps bus s = store_dest bus True (\<lambda>s. ucast (sxt (ucast (psw s AND 0xFF)))) s"

section \<open>Subroutines, branches and operate instructions\<close>

definition op_jsr :: "'x bus_ops \<Rightarrow> 'x mach \<Rightarrow> exit_to \<times> 'x mach" where
  "op_jsr bus s =
    (if dst_field s div 8 = 0 then (GoTrap 4, s)
     else try_be (addrdest bus (dst_field s) False s) (\<lambda>s.
       let sf = src_field s mod 8; s1 = PUSH (set_reg 9 (ba s) s) in
       try_be (OUT bus (regs s1 6) (regs s1 sf) s1) (\<lambda>s.
         let s2 = set_reg sf (regs s 7) s in svc (set_reg 7 (regs s2 9) s2))))"

definition op_jmp :: "'x bus_ops \<Rightarrow> 'x mach \<Rightarrow> exit_to \<times> 'x mach" where
  "op_jmp bus s =
    (if dst_field s div 8 = 0 then (GoTrap 4, s)
     else try_be (addrdest bus (dst_field s) False s) (\<lambda>s. svc (set_reg 7 (ba s) s)))"

definition op_rts :: "'x bus_ops \<Rightarrow> 'x mach \<Rightarrow> exit_to \<times> 'x mach" where
  "op_rts bus s =
    (let df = dst_field s mod 8; s1 = BA_SP_POP s; s2 = set_reg 7 (regs s1 df) s1 in
     try_be (dati bus False s2) (\<lambda>s. svc (set_reg df (bdata s) s)))"

definition op_swab :: "'x bus_ops \<Rightarrow> bool \<Rightarrow> 'x mach \<Rightarrow> exit_to \<times> 'x mach" where
  "op_swab bus by s = RD_U bus by s (\<lambda>s.
     let s1 = CLCV s; DR = regs s1 9;
         b = WD (DR AND 0xFF) (drop_bit 8 DR AND 0xFF);
         s2 = psw_clr (PSW_N OR PSW_Z) s1;
         s3 = psw_set_if (b AND 0x80 \<noteq> 0) PSW_N s2;
         s4 = psw_set_if (b AND 0xFF = 0) PSW_Z s3
     in WR bus (ucast b) by s4)"

definition BR :: "'x mach \<Rightarrow> 'x mach" where
  "BR s = set_reg 7 (regs s 7 + push_bit 1 (sxt (ucast (ir s)))) s"

definition CBR :: "u16 \<Rightarrow> 'x mach \<Rightarrow> 'x mach" where
  "CBR c s = (if drop_bit (unat (psw s AND 0xF)) c AND 1 \<noteq> 0 then BR s else s)"

text \<open>The sixteen-row truth table of each conditional branch, indexed by NZVC.\<close>

definition branch_table :: "u16 \<Rightarrow> u16 option" where
  "branch_table op =
    (if op = 0x0200 then Some 0x0F0F       \<comment> \<open>001000 BNE\<close>
     else if op = 0x0300 then Some 0xF0F0  \<comment> \<open>001400 BEQ\<close>
     else if op = 0x0400 then Some 0xCC33  \<comment> \<open>002000 BGE\<close>
     else if op = 0x0500 then Some 0x33CC  \<comment> \<open>002400 BLT\<close>
     else if op = 0x0600 then Some 0x0C03  \<comment> \<open>003000 BGT\<close>
     else if op = 0x0700 then Some 0xF3FC  \<comment> \<open>003400 BLE\<close>
     else if op = 0x8000 then Some 0x00FF  \<comment> \<open>100000 BPL\<close>
     else if op = 0x8100 then Some 0xFF00  \<comment> \<open>100400 BMI\<close>
     else if op = 0x8200 then Some 0x0505  \<comment> \<open>101000 BHI\<close>
     else if op = 0x8300 then Some 0xFAFA  \<comment> \<open>101400 BLOS\<close>
     else if op = 0x8400 then Some 0x3333  \<comment> \<open>102000 BVC\<close>
     else if op = 0x8500 then Some 0xCCCC  \<comment> \<open>102400 BVS\<close>
     else if op = 0x8600 then Some 0x5555  \<comment> \<open>103000 BCC\<close>
     else if op = 0x8700 then Some 0xAAAA  \<comment> \<open>103400 BCS\<close>
     else None)"

definition exec_branch :: "'x mach \<Rightarrow> exit_to \<times> 'x mach" where
  "exec_branch s =
    (let op = ir s AND 0x8700 in                   \<comment> \<open>0103400\<close>
     if op = 0x0100 then svc (BR s)                 \<comment> \<open>000400 BR\<close>
     else case branch_table op of Some c \<Rightarrow> svc (CBR c s) | None \<Rightarrow> svc s)"

definition op_rti_rtt :: "'x bus_ops \<Rightarrow> 'x mach \<Rightarrow> exit_to \<times> 'x mach" where
  "op_rti_rtt bus s =
    try_be (dati bus False (BA_SP_POP s)) (\<lambda>s.
      let s1 = set_reg 7 (bdata s) s in
      try_be (dati bus False (BA_SP_POP s1)) (\<lambda>s.
        let b0 = bdata s;
            b = (if \<not> IS_KERNEL s
                 then (b0 AND NOT (0xF000 OR PSW_PR)) OR (psw s AND (0xF000 OR PSW_PR)) else b0);
            s1 = (if ir s = 2 \<and> b AND PSW_T \<noteq> 0 then s\<lparr>oldpsw := oldpsw s OR PSW_T\<rparr> else s)
        in svc (kd11ea_set_psw bus b s1)))"

definition op_reset :: "'x bus_ops \<Rightarrow> 'x mach \<Rightarrow> exit_to \<times> 'x mach" where
  "op_reset bus s =
    svc (if IS_KERNEL s then let s1 = kd11ea_reset s in s1\<lparr>env := unibone_bus_init bus (env s1)\<rparr> else s)"

definition exec_operate :: "'x bus_ops \<Rightarrow> 'x mach \<Rightarrow> exit_to \<times> 'x mach" where
  "exec_operate bus s =
    (if ir s = 0 then
       (if \<not> IS_KERNEL s then (GoTrap 8, s) else (GoReturn, s\<lparr>run_state := STATE_HALTED\<rparr>))
     else if ir s = 1 then (GoReturn, s\<lparr>run_state := STATE_WAITING\<rparr>)
     else if ir s = 2 \<or> ir s = 6 then op_rti_rtt bus s
     else if ir s = 3 then (GoTrap 12, s)           \<comment> \<open>BPT, 014\<close>
     else if ir s = 4 then (GoTrap 16, s)           \<comment> \<open>IOT, 020\<close>
     else if ir s = 5 then op_reset bus s
     else (GoTrap 8, s))"

definition exec_unary :: "'x bus_ops \<Rightarrow> bool \<Rightarrow> 'x mach \<Rightarrow> (exit_to \<times> 'x mach) option" where
  "exec_unary bus by s =
    (let op = ir s AND 0x0FC0 in                    \<comment> \<open>0007700\<close>
     if op = 0x0A00 then Some (op_clr bus by s)      \<comment> \<open>0005000\<close>
     else if op = 0x0A40 then Some (op_com bus by s) \<comment> \<open>0005100\<close>
     else if op = 0x0A80 then Some (op_inc bus by s) \<comment> \<open>0005200\<close>
     else if op = 0x0AC0 then Some (op_dec bus by s) \<comment> \<open>0005300\<close>
     else if op = 0x0B00 then Some (op_neg bus by s) \<comment> \<open>0005400\<close>
     else if op = 0x0B40 then Some (op_adc bus by s) \<comment> \<open>0005500\<close>
     else if op = 0x0B80 then Some (op_sbc bus by s) \<comment> \<open>0005600\<close>
     else if op = 0x0BC0 then Some (op_tst bus by s) \<comment> \<open>0005700\<close>
     else if op = 0x0C00 then Some (op_ror bus by s) \<comment> \<open>0006000\<close>
     else if op = 0x0C40 then Some (op_rol bus by s) \<comment> \<open>0006100\<close>
     else if op = 0x0C80 then Some (op_asr bus by s) \<comment> \<open>0006200\<close>
     else if op = 0x0CC0 then Some (op_asl bus by s) \<comment> \<open>0006300\<close>
     else if op = 0x0D00 then Some (if \<not> by then op_mark bus s else op_mtps bus by s) \<comment> \<open>0006400\<close>
     else if op = 0x0D40 then Some (op_mfpi bus s)   \<comment> \<open>0006500\<close>
     else if op = 0x0D80 then Some (op_mtpi bus s)   \<comment> \<open>0006600\<close>
     else if op = 0x0DC0 then Some (if \<not> by then op_sxt bus s else op_mfps bus s) \<comment> \<open>0006700\<close>
     else None)"

definition exec_misc :: "'x bus_ops \<Rightarrow> bool \<Rightarrow> 'x mach \<Rightarrow> exit_to \<times> 'x mach" where
  "exec_misc bus by s =
    (let op = ir s AND 0xFEC0 in                    \<comment> \<open>0777300 on 16 bits\<close>
     if op = 0x0040 then op_jmp bus s                \<comment> \<open>0100\<close>
     else if op = 0x0080 then                        \<comment> \<open>0200\<close>
       (let f = ir s AND 0x38 in                     \<comment> \<open>070\<close>
        if f = 0 then op_rts bus s
        else if f = 0x08 \<or> f = 0x10 \<or> f = 0x18 then (GoTrap 8, s)
        else if f = 0x20 \<or> f = 0x28 then svc (psw_clr (ir s AND 0xF) s)
        else if f = 0x30 \<or> f = 0x38 then svc (psw_set (ir s AND 0xF) s)
        else (GoTrap 8, s))
     else if op = 0x00C0 then op_swab bus by s       \<comment> \<open>0300\<close>
     else exec_operate bus s)"

text \<open>The switches of \<open>step()\<close> after the fetch, in their order.\<close>

definition exec_instr :: "'x bus_ops \<Rightarrow> 'x mach \<Rightarrow> exit_to \<times> 'x mach" where
  "exec_instr bus s =
    (let by = (ir s AND 0x8000 \<noteq> 0); op = ir s AND 0xF000 in
     if op = 0x9000 \<or> op = 0x1000 then op_mov bus by s
     else if op = 0xA000 \<or> op = 0x2000 then op_cmp bus by s
     else if op = 0xB000 \<or> op = 0x3000 then op_bit bus by s
     else if op = 0xC000 \<or> op = 0x4000 then op_bic bus by s
     else if op = 0xD000 \<or> op = 0x5000 then op_bis bus by s
     else if op = 0x6000 then op_add bus s
     else if op = 0xE000 then op_sub bus s
     else if op = 0xF000 then (GoTrap 8, s)
     else if op = 0x7000 then exec_eis bus by s
     else case exec_unary bus by s of
       Some r \<Rightarrow> r
     | None \<Rightarrow>
         let j = ir s AND 0x8F00 in                 \<comment> \<open>0107400\<close>
         if j = 0x0800 \<or> j = 0x0900 then op_jsr bus s   \<comment> \<open>0004000, 0004400\<close>
         else if j = 0x8800 then (GoTrap 24, s)         \<comment> \<open>EMT, 030\<close>
         else if j = 0x8900 then (GoTrap 28, s)         \<comment> \<open>TRAP, 034\<close>
         else if ir s AND 0x7800 = 0 \<and> ir s AND 0x8700 \<noteq> 0 then exec_branch s
         else exec_misc bus by s)"

section \<open>The labels \<open>trap:\<close>, \<open>be:\<close> and \<open>service:\<close>\<close>

text \<open>\<open>trap:\<close> with the vector in \<open>TV\<close>, which is \<open>r[012]\<close>.\<close>

definition trap_seq :: "'x bus_ops \<Rightarrow> 'x mach \<Rightarrow> exit_to \<times> 'x mach" where
  "trap_seq bus s =
    (let s1 = set_dest_ref False (s\<lparr>in_trap := True\<rparr>);
         trapped_pc = regs s1 7; trapped_psw = psw s1;
         s2 = SPACE_KERNEL s1 in
     try_be (dati bus False (s2\<lparr>ba := regs s2 10\<rparr>)) (\<lambda>s.
       let newpc = bdata s in
       try_be (dati bus False (s\<lparr>ba := regs s 10 + 2\<rparr>)) (\<lambda>s.
         let newpsw = (bdata s AND NOT 0x3000) OR (drop_bit 2 trapped_psw AND 0x3000);
             s3 = PUSH (kd11ea_set_psw bus newpsw (SPACE_RESTORE s)) in
         try_be (OUT bus (regs s3 6) trapped_psw s3) (\<lambda>s.
           let s4 = PUSH s in
           try_be (OUT bus (regs s4 6) trapped_pc s4) (\<lambda>s.
             let s5 = set_reg 7 newpc s in svc (s5\<lparr>oldpsw := psw s5\<rparr>))))))"

definition be_path :: "'x mach \<Rightarrow> exit_to \<times> 'x mach" where
  "be_path s =
    (if be s > 1 then (GoReturn, s\<lparr>run_state := STATE_HALTED\<rparr>)
     else
       let s1 = (if \<not> in_trap s then s\<lparr>psw := (psw s AND NOT 0xF) OR (oldpsw s AND 0xF)\<rparr> else s)
       in (GoTrap (trap_vector s1), s1))"

definition service :: "'x mach \<Rightarrow> exit_to \<times> 'x mach" where
  "service s =
    (if oldpsw s AND PSW_T \<noteq> 0 then (GoTrap 12, s\<lparr>oldpsw := oldpsw s AND NOT PSW_T\<rparr>)
     else if traps s AND TRAP_STACK \<noteq> 0 then
       (GoTrap 4, s\<lparr>traps := traps s AND NOT TRAP_STACK, inhov := True\<rparr>)
     else if traps s AND TRAP_PWR \<noteq> 0 then
       (GoTrap 20, s\<lparr>traps := traps s AND NOT TRAP_PWR\<rparr>)
     else (GoReturn, s))"

fun run_labels :: "nat \<Rightarrow> 'x bus_ops \<Rightarrow> exit_to \<times> 'x mach \<Rightarrow> 'x mach option" where
  "run_labels 0 bus p = None"
| "run_labels (Suc n) bus (GoReturn, s) = Some s"
| "run_labels (Suc n) bus (GoService, s) = run_labels n bus (service s)"
| "run_labels (Suc n) bus (GoBe, s) = run_labels n bus (be_path s)"
| "run_labels (Suc n) bus (GoTrap v, s) = run_labels n bus (trap_seq bus (set_reg 10 v s))"

section \<open>One instruction\<close>

text \<open>The part of \<open>step()\<close> up to the first jump: a pending vector, or fetch and execute.\<close>

definition step_fetch :: "'x bus_ops \<Rightarrow> 'x mach \<Rightarrow> exit_to \<times> 'x mach" where
  "step_fetch bus s =
    (let s1 = s\<lparr>oldpsw := psw s, mmu := kt11d_instruction_start (mmu s)\<rparr>;
         s2 = autoinc_commit (set_dest_ref False s1) in
     try_be (dati bus False (s2\<lparr>ba := regs s2 7\<rparr>)) (\<lambda>s.
       let s3 = s\<lparr>ir := bdata s\<rparr>;
           s4 = s3\<lparr>mmu := kt11d_instruction_fetched (mmu s3) (regs s3 7)\<rparr>
       in exec_instr bus (set_reg 7 (regs s4 7 + 2) s4)))"

definition step_begin :: "'x bus_ops \<Rightarrow> 'x mach \<Rightarrow> exit_to \<times> 'x mach" where
  "step_begin bus s =
    (let s1 = s\<lparr>inhov := False, in_trap := False\<rparr> in
     if external_intr s1 then
       (GoTrap (external_intrvec s1), s1\<lparr>external_intr := False, run_state := STATE_RUNNING\<rparr>)
     else step_fetch bus s1)"

definition step :: "nat \<Rightarrow> 'x bus_ops \<Rightarrow> 'x mach \<Rightarrow> 'x mach option" where
  "step fuel bus s = run_labels fuel bus (step_begin bus s)"

definition kd11ea_pwrup_vector_fetch :: "'x bus_ops \<Rightarrow> 'x mach \<Rightarrow> 'x mach" where
  "kd11ea_pwrup_vector_fetch bus s =
    (let (fail1, s1) = dati bus False (s\<lparr>ba := 20\<rparr>) in       \<comment> \<open>024\<close>
     if fail1 then s1\<lparr>be := Suc (be s1)\<rparr>
     else
       let (fail2, s2) = dati bus False ((set_reg 7 (bdata s1) s1)\<lparr>ba := 22\<rparr>) in
       if fail2 then s2\<lparr>be := Suc (be s2)\<rparr> else kd11ea_set_psw bus (bdata s2) s2)"

definition kd11ea_condstep :: "nat \<Rightarrow> 'x bus_ops \<Rightarrow> 'x mach \<Rightarrow> 'x mach option" where
  "kd11ea_condstep fuel bus s =
    (let s1 = (if run_state s = STATE_RUNNING \<or> run_state s = STATE_WAITING
               then s\<lparr>env := unibone_grant_interrupts bus (env s)\<rparr> else s) in
     if run_state s1 = STATE_RUNNING \<or> (run_state s1 = STATE_WAITING \<and> traps s1 \<noteq> 0) \<or>
        (run_state s1 = STATE_WAITING \<and> external_intr s1)
     then step fuel bus (s1\<lparr>run_state := STATE_RUNNING\<rparr>)
     else Some s1)"

end
