(* ===== verification/KD11EA_Inv.thy ===== *)
theory KD11EA_Inv
  imports KD11EA_Step KT11D_Lemmas
begin

unbundle bit_operations_syntax

text \<open>
  Invariants of the 11/34 core. The locale \<open>cpu_invariant\<close> names what a state
  predicate must survive: one assumption per primitive effect the core has (a
  register inside \<open>r[]\<close>, a latch, condition codes, a call into the MMU, a call
  into the bus adapter, \<open>kd11ea_set_psw\<close>). Inside it, every instruction, the trap
  sequence and the label loop are shown to keep the predicate, once for all
  predicates. The theory then interprets it on the model: on \<open>cpu_ok\<close>, the
  agreement of PSW, processor mode and MMU, and on \<open>arrays_kept\<close>, which says that
  nothing outside the C arrays is ever written.
\<close>

section \<open>The interface\<close>

locale cpu_invariant =
  fixes bus :: "'x bus_ops" and I :: "'x mach \<Rightarrow> bool"
  assumes I_regs: "I s \<Longrightarrow> i < 11 \<Longrightarrow> I (s\<lparr>regs := (regs s)(i := v)\<rparr>)"
    and I_breg: "I s \<Longrightarrow> I (s\<lparr>breg := w\<rparr>)"
    and I_ba: "I s \<Longrightarrow> I (s\<lparr>ba := w\<rparr>)"
    and I_bdata: "I s \<Longrightarrow> I (s\<lparr>bdata := w\<rparr>)"
    and I_ir: "I s \<Longrightarrow> I (s\<lparr>ir := w\<rparr>)"
    and I_stackpointer: "I s \<Longrightarrow> i < 2 \<Longrightarrow> I (s\<lparr>stackpointer := (stackpointer s)(i := v)\<rparr>)"
    and I_traps: "I s \<Longrightarrow> I (s\<lparr>traps := t\<rparr>)"
    and I_be: "I s \<Longrightarrow> I (s\<lparr>be := n\<rparr>)"
    and I_run_state: "I s \<Longrightarrow> I (s\<lparr>run_state := st\<rparr>)"
    and I_trap_vector: "I s \<Longrightarrow> I (s\<lparr>trap_vector := w\<rparr>)"
    and I_autoinc: "I s \<Longrightarrow> ar < 8 \<Longrightarrow> I (s\<lparr>autoinc_reg := ar\<rparr>)"
    and I_autoinc_amount: "I s \<Longrightarrow> I (s\<lparr>autoinc_amount := x\<rparr>)"
    and autoinc_bound: "I s \<Longrightarrow> autoinc_reg s < 8"
    and I_external_intr: "I s \<Longrightarrow> I (s\<lparr>external_intr := ei\<rparr>)"
    and I_external_intrvec: "I s \<Longrightarrow> I (s\<lparr>external_intrvec := w\<rparr>)"
    and I_oldpsw: "I s \<Longrightarrow> I (s\<lparr>oldpsw := w\<rparr>)"
    and I_inhov: "I s \<Longrightarrow> I (s\<lparr>inhov := h\<rparr>)"
    and I_in_trap: "I s \<Longrightarrow> I (s\<lparr>in_trap := h\<rparr>)"
    and I_cc: "I s \<Longrightarrow> w AND NOT 0xF = psw s AND NOT 0xF \<Longrightarrow> I (s\<lparr>psw := w\<rparr>)"
    and I_set_psw: "I s \<Longrightarrow> I (kd11ea_set_psw bus w s)"
    and I_relocate: "I s \<Longrightarrow> kt11d_relocate (mmu s) va (access_space (mmu s)) acc = (m, r) \<Longrightarrow>
        acc_ok acc \<Longrightarrow> I (s\<lparr>mmu := m\<rparr>)"
    and I_write_reg: "I s \<Longrightarrow> kt11d_write_reg (mmu s) (pa AND NOT 1) w msk = Some m \<Longrightarrow> I (s\<lparr>mmu := m\<rparr>)"
    and I_log: "I s \<Longrightarrow> I (s\<lparr>mmu := kt11d_log_register (mmu s) rg am\<rparr>)"
    and I_dest_ref: "I s \<Longrightarrow> I (s\<lparr>mmu := (mmu s)\<lparr>dest_ref := d\<rparr>\<rparr>)"
    and I_start: "I s \<Longrightarrow> I (s\<lparr>mmu := kt11d_instruction_start (mmu s)\<rparr>)"
    and I_fetched: "I s \<Longrightarrow> I (s\<lparr>mmu := kt11d_instruction_fetched (mmu s) w\<rparr>)"
    and I_mmu_init: "I s \<Longrightarrow> I (s\<lparr>mmu := kt11d_init (mmu s)\<rparr>)"
    and I_space_kernel: "I s \<Longrightarrow> I (SPACE_KERNEL s)"
    and I_space_prev: "I s \<Longrightarrow> I (SPACE_PREV s)"
    and I_space_restore: "I s \<Longrightarrow> I (SPACE_RESTORE s)"
    and I_bus_dati: "I s \<Longrightarrow> unibone_dati bus a (env s) = (d', e) \<Longrightarrow> I (s\<lparr>env := e\<rparr>)"
    and I_bus_dato: "I s \<Longrightarrow> unibone_dato bus a w (env s) = (k, e) \<Longrightarrow> I (s\<lparr>env := e\<rparr>)"
    and I_bus_datob: "I s \<Longrightarrow> unibone_datob bus a w (env s) = (k, e) \<Longrightarrow> I (s\<lparr>env := e\<rparr>)"
    and I_bus_grant: "I s \<Longrightarrow> I (s\<lparr>env := unibone_grant_interrupts bus (env s)\<rparr>)"
    and I_bus_init: "I s \<Longrightarrow> I (s\<lparr>env := unibone_bus_init bus (env s)\<rparr>)"
begin

lemmas I_latches = I_breg I_ba I_bdata I_ir I_traps I_be I_run_state I_trap_vector I_external_intr
  I_external_intrvec I_oldpsw I_inhov I_in_trap I_autoinc_amount I_set_psw I_log I_dest_ref
  I_start I_fetched I_mmu_init I_space_kernel I_space_prev I_space_restore I_bus_grant I_bus_init

lemma I_set_reg: "I s \<Longrightarrow> i < 11 \<Longrightarrow> I (set_reg i v s)"
  by (simp add: set_reg_def I_regs)

lemma I_set_dest_ref: "I s \<Longrightarrow> I (set_dest_ref d s)"
  by (simp add: set_dest_ref_def I_dest_ref)

lemma I_autoinc_commit: "I s \<Longrightarrow> I (autoinc_commit s)"
  by (simp add: autoinc_commit_def I_autoinc)

lemma I_autoinc_pending: "I s \<Longrightarrow> r < 8 \<Longrightarrow> I (autoinc_pending r a s)"
  by (simp add: autoinc_pending_def I_autoinc I_autoinc_amount)

lemma I_autoinc_undo: "I s \<Longrightarrow> I (autoinc_undo s)"
  using autoinc_bound[of s] by (simp add: autoinc_undo_def Let_def I_autoinc I_regs)

lemma I_cycle_ok: "I s \<Longrightarrow> I (snd (cycle_ok s))"
  by (simp add: cycle_ok_def I_autoinc_commit I_be)

lemma I_cycle_fail: "I s \<Longrightarrow> I (snd (cycle_fail v s))"
  by (simp add: cycle_fail_def I_autoinc_undo I_be I_trap_vector)

lemma acc_kinds: "acc_ok KT11D_READ" "acc_ok KT11D_WRITE"
  by (simp_all add: acc_ok_def)

lemma I_dati:
  assumes "I s" shows "I (snd (dati bus b s))"
proof (cases "\<not> b \<and> odd_addr (ba s)")
  case True
  then show ?thesis using assms by (simp add: dati_def I_cycle_fail)
next
  case False
  obtain m r where rel: "kt11d_relocate (mmu s) (ba s) (access_space (mmu s)) KT11D_READ = (m, r)" by fastforce
  have Im: "I (s\<lparr>mmu := m\<rparr>)" using I_relocate[OF assms rel acc_kinds(1)] .
  show ?thesis
  proof (cases r)
    case None
    then show ?thesis using False rel Im assms by (simp add: dati_def I_cycle_fail)
  next
    case (Some pa)
    obtain d e where bs: "unibone_dati bus (pa AND NOT 1) (env s) = (d, e)" by fastforce
    have Ie: "I (s\<lparr>mmu := m, env := e\<rparr>)" using I_bus_dati[OF Im, of "pa AND NOT 1" d e] bs by simp
    show ?thesis
      unfolding dati_def if_not_P[OF False] rel Some prod.case option.case bs
      using I_cycle_ok[OF I_bdata[OF Im]] I_cycle_ok[OF I_bdata[OF Ie]] I_cycle_fail[OF Ie]
      by (auto split: option.split)
  qed
qed

lemma I_dato_internal:
  assumes "I s" "dato_internal bus b pa s = Some s'" shows "I s'"
proof (cases "kt11d_write_reg (mmu s) (pa AND NOT 1) (bdata s) (dato_mask b pa)")
  case (Some m)
  have "s' = s\<lparr>mmu := m\<rparr>"
    using assms(2) unfolding dato_internal_def Some by (simp split: if_splits)
  then show ?thesis using I_write_reg[OF assms(1) Some] by simp
next
  case None
  show ?thesis
    using assms unfolding dato_internal_def None Let_def option.case
    by (auto simp: I_set_psw split: if_splits)
qed

lemma I_dato:
  assumes "I s" shows "I (snd (dato bus b s))"
proof (cases "\<not> b \<and> odd_addr (ba s)")
  case True
  then show ?thesis using assms by (simp add: dato_def I_cycle_fail)
next
  case False
  obtain m r where rel: "kt11d_relocate (mmu s) (ba s) (access_space (mmu s)) KT11D_WRITE = (m, r)" by fastforce
  have Im: "I (s\<lparr>mmu := m\<rparr>)" using I_relocate[OF assms rel acc_kinds(2)] .
  show ?thesis
  proof (cases r)
    case None
    then show ?thesis using False rel Im assms by (simp add: dato_def I_cycle_fail)
  next
    case (Some pa)
    obtain k e where bs: "(if b then unibone_datob bus pa (bdata s) (env s)
                     else unibone_dato bus (pa AND NOT 1) (bdata s) (env s)) = (k, e)" by fastforce
    have Ie: "I (s\<lparr>mmu := m, env := e\<rparr>)"
      using I_bus_dato[OF Im, of "pa AND NOT 1" "bdata s" k e] I_bus_datob[OF Im, of pa "bdata s" k e] bs
      by (simp split: if_splits)
    show ?thesis
      unfolding dato_def if_not_P[OF False] rel Some prod.case option.case bs
      using I_cycle_ok[OF I_dato_internal[OF Im]] I_cycle_ok[OF Ie] I_cycle_fail[OF Ie]
      by (auto split: option.split bool.split)
  qed
qed

text \<open>Results of a failing operation, taken apart.\<close>

lemma I_dati_res: "dati bus b s = (f, s') \<Longrightarrow> I s \<Longrightarrow> I s'"
  using I_dati[of s b] by simp

lemma I_dato_res: "dato bus b s = (f, s') \<Longrightarrow> I s \<Longrightarrow> I s'"
  using I_dato[of s b] by simp

lemma I_addrop_base:
  assumes "I s" "addrop_base bus m b s = (f, s')" shows "I s'"
  using assms
  by (auto simp: addrop_base_def Let_def split: if_splits prod.splits bool.splits
      intro!: I_latches I_set_reg I_autoinc_pending dest: I_dati_res)

lemma I_addrop:
  assumes "I s" "m div 8 \<noteq> 0" shows "I (snd (addrop bus m b s))"
proof (cases "m div 8 = 1")
  case True
  with assms show ?thesis
    by (simp add: addrop_def Let_def I_latches I_set_dest_ref I_autoinc_commit)
next
  case False
  have s1: "I (set_dest_ref False (autoinc_commit s))"
    by (simp add: assms(1) I_set_dest_ref I_autoinc_commit)
  obtain f s2 where b2: "addrop_base bus m b (set_dest_ref False (autoinc_commit s)) = (f, s2)" by fastforce
  have I2: "I s2" using I_addrop_base[OF s1 b2] .
  obtain g s3 where b3: "dati bus False s2 = (g, s3)" by fastforce
  have I3: "I s3" using I_dati_res[OF b3 I2] .
  show ?thesis
    using False assms(2) I2 I3
    by (simp add: addrop_def Let_def b2 b3 I_latches I_set_dest_ref split: bool.split)
qed

lemma I_fetchop_ext: "I s \<Longrightarrow> t < 11 \<Longrightarrow> I (fetchop_ext t b s)"
  by (simp add: fetchop_ext_def I_set_reg)

lemma I_fetchop: "I s \<Longrightarrow> t < 11 \<Longrightarrow> I (snd (fetchop bus t m b s))"
  by (auto simp: fetchop_def I_fetchop_ext I_set_reg split: prod.split bool.split dest: I_dati_res)

lemma I_readop:
  assumes "I s" "t < 11" "m div 8 \<noteq> 0" shows "I (snd (readop bus t m b s))"
proof -
  obtain f s1 where a: "addrop bus m b (set_dest_ref (t = 9) s) = (f, s1)" by fastforce
  have "I s1" using I_addrop[OF I_set_dest_ref[OF assms(1)] assms(3), of b] a by (metis snd_conv)
  then show ?thesis by (simp add: readop_def a I_fetchop assms(2) split: bool.split)
qed

lemma I_addrdest: "I s \<Longrightarrow> m div 8 \<noteq> 0 \<Longrightarrow> I (snd (addrdest bus m b s))"
  by (simp add: addrdest_def I_addrop I_set_dest_ref)

lemma reg_of_ir_lt: "unat (w AND 7 :: u16) < 8"
proof -
  have "unat (w AND 7) \<le> unat (7 :: u16)" using word_and_le1[of w 7] by (simp only: word_le_nat_alt)
  then show ?thesis by simp
qed

lemma I_writedest: "I s \<Longrightarrow> I (snd (writedest bus v b s))"
proof -
  assume "I s"
  then have s1: "I (set_dest_ref True s)" by (rule I_set_dest_ref)
  have "unat (ir (set_dest_ref True s) AND 7) < 11"
    using reg_of_ir_lt[of "ir (set_dest_ref True s)"] by linarith
  then show ?thesis
    using s1 by (simp add: writedest_def Let_def I_set_reg I_dato I_bdata)
qed

lemma I_psw_clr: "I s \<Longrightarrow> m AND NOT 0xF = 0 \<Longrightarrow> I (psw_clr m s)"
proof -
  assume "I s" and m: "m AND NOT 0xF = 0"
  have "(psw s AND NOT m) AND NOT 0xF = psw s AND NOT 0xF"
  proof (rule bit_word_eqI)
    fix n assume "n < LENGTH(16)"
    have "bit (m AND NOT 0xF) n = False" by (simp only: m) simp
    then show "bit ((psw s AND NOT m) AND NOT 0xF) n = bit (psw s AND NOT 0xF) n"
      using \<open>n < LENGTH(16)\<close> by (simp only: bit_and_iff bit_not_iff) auto
  qed
  then show ?thesis by (simp only: psw_clr_def I_cc[OF \<open>I s\<close>])
qed

lemma I_psw_set: "I s \<Longrightarrow> m AND NOT 0xF = 0 \<Longrightarrow> I (psw_set m s)"
proof -
  assume "I s" and m: "m AND NOT 0xF = 0"
  have "(psw s OR m) AND NOT 0xF = psw s AND NOT 0xF"
    by (simp only: bit.conj_disj_distrib2 m or.right_neutral)
  then show ?thesis by (simp only: psw_set_def I_cc[OF \<open>I s\<close>])
qed

lemma I_psw_set_if: "I s \<Longrightarrow> m AND NOT 0xF = 0 \<Longrightarrow> I (psw_set_if c m s)"
  by (simp add: psw_set_if_def I_psw_set)

lemma I_setnz: "I s \<Longrightarrow> I (setnz w s)"
proof -
  assume "I s"
  have "setnz w s = psw_set_if (w = 0) PSW_Z (psw_set_if (w AND 0x8000 \<noteq> 0) PSW_N (psw_clr (PSW_N OR PSW_Z) s))"
    by (simp add: setnz_def psw_set_if_def psw_set_def psw_clr_def Let_def)
  then show ?thesis
    using \<open>I s\<close> by (simp add: I_psw_set_if I_psw_clr psw_consts)
qed

lemma I_NZ: "I s \<Longrightarrow> I (NZ b s)"
  by (simp add: NZ_def I_setnz)

text \<open>The condition code masks of the core lie inside PSW<3:0>.\<close>

lemma cc_masks:
  "PSW_C AND NOT 0xF = 0" "PSW_V AND NOT 0xF = 0" "PSW_N AND NOT 0xF = 0" "PSW_Z AND NOT 0xF = 0"
  "(PSW_V OR PSW_C) AND NOT 0xF = 0" "(PSW_N OR PSW_Z) AND NOT 0xF = 0"
  "(PSW_N OR PSW_Z OR PSW_V) AND NOT 0xF = 0" "(PSW_N OR PSW_Z OR PSW_V OR PSW_C) AND NOT 0xF = 0"
  by (simp_all add: psw_consts)

lemma I_flags:
  "I s \<Longrightarrow> I (CLC s)" "I s \<Longrightarrow> I (CLV s)" "I s \<Longrightarrow> I (CLCV s)"
  "I s \<Longrightarrow> I (psw_clr (PSW_N OR PSW_Z) s)" "I s \<Longrightarrow> I (psw_clr (PSW_N OR PSW_Z OR PSW_V) s)"
  "I s \<Longrightarrow> I (psw_clr (PSW_N OR PSW_Z OR PSW_V OR PSW_C) s)"
  "I s \<Longrightarrow> I (psw_set PSW_C s)" "I s \<Longrightarrow> I (psw_set PSW_V s)" "I s \<Longrightarrow> I (psw_set PSW_Z s)" "I s \<Longrightarrow> I (psw_set PSW_N s)"
  "I s \<Longrightarrow> I (psw_set_if c PSW_C s)" "I s \<Longrightarrow> I (psw_set_if c PSW_V s)"
  "I s \<Longrightarrow> I (psw_set_if c PSW_Z s)" "I s \<Longrightarrow> I (psw_set_if c PSW_N s)"
  by (rule I_psw_clr I_psw_set I_psw_set_if; (assumption | rule cc_masks))+

text \<open>Composition.\<close>

lemma I_svc: "I s \<Longrightarrow> I (snd (svc s))"
  by (simp add: svc_def)

lemma I_stop: "I s \<Longrightarrow> I (snd (x, s))"
  by simp

lemma I_try_be: "I (snd p) \<Longrightarrow> (\<And>s. I s \<Longrightarrow> I (snd (k s))) \<Longrightarrow> I (snd (try_be p k))"
  by (simp add: try_be_def)

lemma I_rd_operand: "I s \<Longrightarrow> t < 11 \<Longrightarrow> I (snd (rd_operand bus t m by s))"
  by (simp add: rd_operand_def I_fetchop I_readop)

lemma I_RD_B: "I s \<Longrightarrow> (\<And>s. I s \<Longrightarrow> I (snd (k s))) \<Longrightarrow> I (snd (RD_B bus by s k))"
  unfolding RD_B_def by (intro I_try_be I_rd_operand) simp_all

lemma I_RD_U: "I s \<Longrightarrow> (\<And>s. I s \<Longrightarrow> I (snd (k s))) \<Longrightarrow> I (snd (RD_U bus by s k))"
  unfolding RD_U_def by (intro I_try_be I_rd_operand) (simp_all add: I_set_reg)

lemma I_WR: "I s \<Longrightarrow> I (snd (WR bus b by s))"
  unfolding WR_def by (intro I_try_be I_writedest I_svc)

lemma I_PUSH: "I s \<Longrightarrow> I (PUSH s)"
  by (simp add: PUSH_def Let_def I_traps I_set_dest_ref I_set_reg)

lemma I_OUT: "I s \<Longrightarrow> I (snd (OUT bus a d s))"
  by (simp add: OUT_def I_dato I_ba I_bdata)

lemma I_BA_SP_POP: "I s \<Longrightarrow> I (BA_SP_POP s)"
  by (simp add: BA_SP_POP_def I_autoinc_pending I_set_reg I_ba)

lemmas I_basic = I_latches I_svc I_stop I_try_be I_RD_B I_RD_U I_WR I_PUSH I_OUT I_BA_SP_POP I_flags
  I_NZ I_writedest I_dati I_dato

lemma reg_field_lt: "reg_field s < 8" "dst_field s mod 8 < 8" "src_field s mod 8 < 8"
  using reg_of_ir_lt[of "drop_bit 6 (ir s)"] by (simp_all add: reg_field_def)

lemma I_set_reg_fields:
  "I s \<Longrightarrow> I (set_reg (reg_field s') v s)" "I s \<Longrightarrow> I (set_reg (reg_field s' + 1) v s)"
  "I s \<Longrightarrow> I (set_reg (dst_field s' mod 8) v s)" "I s \<Longrightarrow> I (set_reg (src_field s' mod 8) v s)"
  using reg_field_lt[of s'] by (simp_all add: I_set_reg)

section \<open>Every instruction keeps the predicate\<close>

lemma I_if: "(c \<Longrightarrow> I (snd a)) \<Longrightarrow> (\<not> c \<Longrightarrow> I (snd b)) \<Longrightarrow> I (snd (if c then a else b))"
  "(c \<Longrightarrow> I a') \<Longrightarrow> (\<not> c \<Longrightarrow> I b') \<Longrightarrow> I (if c then a' else b')"
  by simp_all

lemma I_set_pair: "I s \<Longrightarrow> I (set_reg (if odd (reg_field s') then reg_field s' else reg_field s' + 1) v s)"
  using reg_field_lt(1)[of s'] by (simp add: I_set_reg)

lemmas I_rules = I_set_reg_fields I_set_pair I_basic I_if

lemma I_binary:
  assumes "I s"
  shows "I (snd (op_mov bus by s))" "I (snd (op_cmp bus by s))" "I (snd (op_bit bus by s))"
    "I (snd (op_bic bus by s))" "I (snd (op_bis bus by s))" "I (snd (op_add bus s))" "I (snd (op_sub bus s))"
  unfolding op_mov_def op_cmp_def op_bit_def op_bic_def op_bis_def op_add_def op_sub_def Let_def
  by (assumption | rule I_rules assms)+

lemma I_mul: "I s \<Longrightarrow> I (snd (op_mul bus by s))"
  unfolding op_mul_def Let_def by (assumption | rule I_rules)+

lemma I_div: "I s \<Longrightarrow> I (snd (op_div bus by s))"
  unfolding op_div_def Let_def by (assumption | rule I_rules)+

lemma I_xor: "I s \<Longrightarrow> I (snd (op_xor bus by s))"
  unfolding op_xor_def Let_def by (assumption | rule I_rules)+

lemma I_sob: "I s \<Longrightarrow> I (snd (op_sob s))"
  unfolding op_sob_def Let_def by (assumption | rule I_svc I_if I_set_reg_fields I_set_reg | simp)+

lemma I_ash_right: "I s \<Longrightarrow> I (snd (ash_right sh b s))"
  unfolding ash_right_def Let_def snd_conv if_distrib[of snd] by (assumption | rule I_rules)+

lemma I_ashc_right: "I s \<Longrightarrow> I (snd (ashc_right sh b s))"
  unfolding ashc_right_def Let_def snd_conv if_distrib[of snd] by (assumption | rule I_rules)+

lemma cc_bits_frame: "(x OR PSW_C) AND NOT 0xF = x AND NOT 0xF" "(x AND NOT PSW_C) AND NOT 0xF = x AND NOT 0xF"
    "(x OR PSW_V) AND NOT 0xF = x AND NOT 0xF"
    by (simp_all add: word16_eq_iff bit_simps psw_consts)

lemma ash_left_cc: "snd (ash_left n b p) AND NOT 0xF = p AND NOT 0xF"
proof (induction n b p rule: ash_left.induct)
  case (2 n b p)
  then show ?case by (simp only: ash_left.simps Let_def cc_bits_frame split: if_split) simp
qed simp

lemma ashc_left_cc: "snd (ashc_left n b p) AND NOT 0xF = p AND NOT 0xF"
proof (induction n b p rule: ashc_left.induct)
  case (2 n b p)
  then show ?case by (simp only: ashc_left.simps Let_def cc_bits_frame split: if_split) simp
qed simp

lemma I_ash: "I s \<Longrightarrow> I (snd (op_ash bus by s))"
  unfolding op_ash_def Let_def case_prod_beta snd_conv fst_conv if_distrib[of snd]
  by (assumption | rule I_rules I_ash_right I_cc ash_left_cc)+

lemma I_ashc: "I s \<Longrightarrow> I (snd (op_ashc bus by s))"
  unfolding op_ashc_def Let_def case_prod_beta snd_conv fst_conv if_distrib[of snd]
  by (assumption | rule I_rules I_ashc_right I_cc ashc_left_cc)+

lemmas I_eis_ops = I_mul I_div I_ash I_ashc I_xor I_sob

lemma I_eis: "I s \<Longrightarrow> I (snd (exec_eis bus by s))"
  unfolding exec_eis_def Let_def by (assumption | rule I_eis_ops I_rules)+

lemma I_unary_ops:
  assumes "I s"
  shows "I (snd (op_clr bus by s))" "I (snd (op_com bus by s))" "I (snd (op_inc bus by s))"
    "I (snd (op_dec bus by s))" "I (snd (op_neg bus by s))" "I (snd (op_adc bus by s))"
    "I (snd (op_sbc bus by s))" "I (snd (op_tst bus by s))" "I (snd (op_ror bus by s))"
    "I (snd (op_rol bus by s))" "I (snd (op_asr bus by s))" "I (snd (op_asl bus by s))"
    "I (snd (op_swab bus by s))"
  unfolding op_clr_def op_com_def op_inc_def op_dec_def op_neg_def op_adc_def op_sbc_def op_tst_def
    op_ror_def op_rol_def op_asr_def op_asl_def op_swab_def shift_v_def Let_def
  by (assumption | rule I_rules assms)+

lemma I_set_reg_num: "I s \<Longrightarrow> I (set_reg 5 v s)" "I s \<Longrightarrow> I (set_reg 6 v s)" "I s \<Longrightarrow> I (set_reg 7 v s)"
  "I s \<Longrightarrow> I (set_reg 9 v s)" "I s \<Longrightarrow> I (set_reg 10 v s)"
  by (simp_all add: I_set_reg)

lemma I_mark: "I s \<Longrightarrow> I (snd (op_mark bus s))"
  unfolding op_mark_def Let_def by (assumption | rule I_rules I_set_reg_num)+

lemma I_mtps: "I s \<Longrightarrow> I (snd (op_mtps bus by s))"
  unfolding op_mtps_def Let_def by (assumption | rule I_rules)+

lemma I_mfpi_push: "I s \<Longrightarrow> I (snd (mfpi_push bus b s))"
  unfolding mfpi_push_def Let_def by (assumption | rule I_rules)+

lemma I_addrdest_if: "I s \<Longrightarrow> I (snd (if m div 8 \<noteq> 0 then addrdest bus m b s else (False, s)))"
  by (simp add: I_addrdest)

lemma I_mfpi: "I s \<Longrightarrow> I (snd (op_mfpi bus s))"
  unfolding op_mfpi_def Let_def case_prod_beta
  by (assumption | rule I_mfpi_push I_rules I_addrdest)+

lemma I_set_prev_sp: "I s \<Longrightarrow> I (s\<lparr>stackpointer := (stackpointer s)(prev_sp_index s' := b)\<rparr>)"
  by (rule I_stackpointer) (simp_all add: prev_sp_index_def)

lemma I_mtpi: "I s \<Longrightarrow> I (snd (op_mtpi bus s))"
  unfolding op_mtpi_def Let_def case_prod_beta
  by (assumption | rule I_set_prev_sp I_rules I_addrdest)+

lemma I_store_dest: "I s \<Longrightarrow> I (snd (store_dest bus by f s))"
  unfolding store_dest_def Let_def
  by (rule I_try_be, rule I_addrdest_if, assumption) (assumption | rule I_rules)+

lemma I_jsr: "I s \<Longrightarrow> I (snd (op_jsr bus s))"
  unfolding op_jsr_def Let_def by (assumption | rule I_rules I_set_reg_num I_addrdest)+

lemma I_jmp: "I s \<Longrightarrow> I (snd (op_jmp bus s))"
  unfolding op_jmp_def Let_def by (assumption | rule I_rules I_set_reg_num I_addrdest)+

lemma I_rts: "I s \<Longrightarrow> I (snd (op_rts bus s))"
  unfolding op_rts_def Let_def by (assumption | rule I_rules I_set_reg_num)+

lemma I_branch: "I s \<Longrightarrow> I (snd (exec_branch s))"
  by (auto simp: exec_branch_def Let_def CBR_def BR_def svc_def I_set_reg split: option.split)

lemma I_rti_rtt: "I s \<Longrightarrow> I (snd (op_rti_rtt bus s))"
  unfolding op_rti_rtt_def Let_def by (assumption | rule I_rules I_set_reg_num)+

lemma I_kd11ea_reset: "I s \<Longrightarrow> I (kd11ea_reset s)"
  using I_mmu_init[OF I_traps] by (simp add: kd11ea_reset_def)

lemma I_op_reset: "I s \<Longrightarrow> I (snd (op_reset bus s))"
  using I_bus_init[OF I_kd11ea_reset] by (simp add: op_reset_def svc_def Let_def)

lemma I_operate: "I s \<Longrightarrow> I (snd (exec_operate bus s))"
  unfolding exec_operate_def by (assumption | rule I_op_reset I_rti_rtt I_rules)+

lemma ir_low4: "(ir s AND 0xF) AND NOT 0xF = 0"
  by (simp only: and.assoc) simp

lemma I_misc: "I s \<Longrightarrow> I (snd (exec_misc bus by s))"
  unfolding exec_misc_def Let_def
  by (assumption | rule I_jmp I_rts I_unary_ops I_operate I_rules I_psw_clr I_psw_set ir_low4)+

lemma I_unary: "I s \<Longrightarrow> exec_unary bus by s = Some r \<Longrightarrow> I (snd r)"
  unfolding exec_unary_def Let_def
  by (auto simp: op_sxt_def op_mfps_def split: if_splits intro!: I_unary_ops I_mark I_mtps I_mfpi I_mtpi I_store_dest)

lemma I_exec_instr: "I s \<Longrightarrow> I (snd (exec_instr bus s))"
  unfolding exec_instr_def Let_def
  by (cases "exec_unary bus (ir s AND 0x8000 \<noteq> 0) s")
    (simp_all only: option.case, (assumption | rule I_if I_binary I_eis I_stop I_jsr I_branch I_misc I_unary)+)

section \<open>Traps and the label loop\<close>

lemma I_trap_seq: "I s \<Longrightarrow> I (snd (trap_seq bus s))"
  unfolding trap_seq_def Let_def
  by (assumption | rule I_rules I_set_reg_num I_set_dest_ref)+

lemma I_be_path: "I s \<Longrightarrow> I (snd (be_path s))"
proof -
  assume "I s"
  have c: "((x AND NOT 0xF) OR (y AND 0xF)) AND NOT 0xF = x AND NOT 0xF" for x y :: u16
    by (simp add: word16_eq_iff bit_simps)
  show ?thesis
    using \<open>I s\<close> I_cc[OF \<open>I s\<close> c] by (simp add: be_path_def Let_def I_run_state)
qed

lemma I_service: "I s \<Longrightarrow> I (snd (service s))"
  by (simp add: service_def I_oldpsw I_traps I_inhov)

lemma I_run_labels: "run_labels n bus p = Some s' \<Longrightarrow> I (snd p) \<Longrightarrow> I s'"
proof (induction n arbitrary: p)
  case (Suc n)
  obtain x s where p: "p = (x, s)" by (cases p)
  show ?case
    using Suc by (cases x) (auto simp: p I_service I_be_path I_trap_seq I_set_reg_num)
qed simp

lemma I_start_step: "I s \<Longrightarrow> I (s\<lparr>oldpsw := w, mmu := kt11d_instruction_start (mmu s)\<rparr>)"
  using I_start[OF I_oldpsw, of s w] by simp

lemma I_step_fetch: "I s \<Longrightarrow> I (snd (step_fetch bus s))"
  unfolding step_fetch_def Let_def
  by (assumption | rule I_start_step I_exec_instr I_autoinc_commit I_set_dest_ref I_set_reg_num I_rules)+

lemma I_step_begin: "I s \<Longrightarrow> I (snd (step_begin bus s))"
  unfolding step_begin_def Let_def
  by (assumption | rule I_if I_step_fetch I_rules)+

lemma I_step: "I s \<Longrightarrow> step n bus s = Some s' \<Longrightarrow> I s'"
  unfolding step_def by (erule I_run_labels) (rule I_step_begin)

lemma I_condstep: "I s \<Longrightarrow> kd11ea_condstep n bus s = Some s' \<Longrightarrow> I s'"
  by (auto simp: kd11ea_condstep_def Let_def I_run_state I_bus_grant split: if_splits elim: I_step[rotated])

lemma I_pwrup: "I s \<Longrightarrow> I (kd11ea_pwrup_vector_fetch bus s)"
  unfolding kd11ea_pwrup_vector_fetch_def Let_def case_prod_beta
  by (assumption | rule I_if I_set_reg_num I_rules)+

lemma I_setintr: "I s \<Longrightarrow> I (kd11ea_setintr v s)"
  using I_external_intrvec[OF I_external_intr] by (simp add: kd11ea_setintr_def)

lemma I_pwrfail: "I s \<Longrightarrow> I (kd11ea_pwrfail_trap s)"
  by (simp add: kd11ea_pwrfail_trap_def I_traps)

end

section \<open>PSW, processor mode and MMU agree\<close>

definition cpu_ok :: "'x mach \<Rightarrow> bool" where
  "cpu_ok s \<longleftrightarrow> mmu_ok (mmu s) \<and> psw s AND NOT PSW_MASK = 0 \<and>
     mode (mmu s) = drop_bit 14 (psw s) AND 3 \<and> prev_mode (mmu s) = drop_bit 12 (psw s) AND 3 \<and>
     \<not> assert_failed s \<and> autoinc_reg s < 8"

lemma cc_update_high:
  fixes p w :: u16
  assumes "w AND NOT 0xF = p AND NOT 0xF"
  shows "drop_bit 14 w AND 3 = drop_bit 14 p AND 3" "drop_bit 12 w AND 3 = drop_bit 12 p AND 3"
    "p AND NOT PSW_MASK = 0 \<Longrightarrow> w AND NOT PSW_MASK = 0"
  using assms by (simp_all add: word16_eq_iff bit_simps PSW_MASK_def)

lemma mmu_keeps_modes:
  "mode (fst (kt11d_relocate m va sp acc)) = mode m" "prev_mode (fst (kt11d_relocate m va sp acc)) = prev_mode m"
  by (auto simp: kt11d_relocate_def Let_def kt11d_abort_eq kt11d_abort_mode_def mmr0_track_def)

lemma mmu_put_modes [simp]: "mode (mmu_put m reg w) = mode m" "prev_mode (mmu_put m reg w) = prev_mode m"
  by (cases reg; simp)+

lemma clear_W_modes [simp]: "mode (clear_W_rebuild m i) = mode m" "prev_mode (clear_W_rebuild m i) = prev_mode m"
  by (simp_all add: clear_W_rebuild_eq)

lemma rebuild_all_modes [simp]: "mode (kt11d_rebuild_all m) = mode m" "prev_mode (kt11d_rebuild_all m) = prev_mode m"
  by (simp_all add: rebuild_all_fields)

lemma write_reg_result:
  assumes "kt11d_write_reg m pa w msk = Some m'"
  obtains reg wm where "lookup pa = Some (reg, wm)"
    "m' = (let m1 = mmu_put m reg (merge_bits (mmu_get m reg) w (msk AND wm)) in
           case reg of PDR i \<Rightarrow> clear_W_rebuild m1 i | PAR i \<Rightarrow> clear_W_rebuild m1 i | _ \<Rightarrow> kt11d_rebuild_all m1)"
proof -
  obtain reg wm where l: "lookup pa = Some (reg, wm)"
    using assms by (auto simp: kt11d_write_reg_def split: option.splits)
  show ?thesis
    using assms by (intro that[OF l]) (simp add: kt11d_write_reg_def l Let_def)
qed

lemma mmu_write_keeps_modes:
  assumes "kt11d_write_reg m pa w msk = Some m'" shows "mode m' = mode m" "prev_mode m' = prev_mode m"
  by (rule write_reg_result[OF assms]; simp add: Let_def split: mmu_reg.split)+

lemma set_psw_fields:
  "psw (kd11ea_set_psw bus w s) = w AND PSW_MASK"
  "mmu (kd11ea_set_psw bus w s) = kt11d_set_modes (mmu s) (w AND PSW_MASK)"
  "assert_failed (kd11ea_set_psw bus w s) = assert_failed s"
  "autoinc_reg (kd11ea_set_psw bus w s) = autoinc_reg s"
  by (simp_all add: kd11ea_set_psw_def Let_def)

lemma set_modes_modes:
  "mode (kt11d_set_modes m v) = drop_bit 14 v AND 3" "prev_mode (kt11d_set_modes m v) = drop_bit 12 v AND 3"
  by (simp_all add: kt11d_set_modes_def kt11d_set_access_def Let_def)

lemma set_psw_ok:
  assumes "cpu_ok s" shows "cpu_ok (kd11ea_set_psw bus w s)"
proof -
  have "(w AND PSW_MASK) AND NOT PSW_MASK = 0" by (simp add: word16_eq_iff bit_simps)
  moreover have "mmu_ok (kt11d_set_modes (mmu s) (w AND PSW_MASK))"
    using assms by (intro mmu_ok_set_modes) (simp only: cpu_ok_def)
  moreover have "\<not> assert_failed s" "autoinc_reg s < 8" using assms by (simp_all add: cpu_ok_def)
  ultimately show ?thesis unfolding cpu_ok_def set_psw_fields set_modes_modes by blast
qed

lemma even_not_1: "even (unat (pa AND NOT 1 :: u32))"
  by (simp only: unat_and_not_1) simp

interpretation ok: cpu_invariant bus cpu_ok for bus :: "'x bus_ops"
proof (unfold_locales, goal_cases)
  case (19 s w)
  then have "psw s AND NOT PSW_MASK = 0" by (simp only: cpu_ok_def)
  note h = cc_update_high(1,2)[OF 19(2)] cc_update_high(3)[OF 19(2) this]
  show ?case using 19(1) unfolding cpu_ok_def by (simp add: h)
next
  case 20 then show ?case by (rule set_psw_ok)
next
  case (21 s va acc m r) then show ?case
    using mmu_ok_relocate[of "mmu s" "access_space (mmu s)" acc va] mmu_keeps_modes[of "mmu s" va "access_space (mmu s)" acc]
    by (simp add: cpu_ok_def mmu_ok_access_space)
next
  case (22 s pa w msk m)
  then have "mmu_ok (mmu s)" by (simp only: cpu_ok_def)
  then have "mmu_ok m" using mmu_ok_write_reg[OF _ 22(2)] by simp
  with 22(1) show ?case by (simp add: cpu_ok_def mmu_write_keeps_modes[OF 22(2)])
next
  case 23 then show ?case by (simp add: cpu_ok_def mmu_ok_log_register) (simp add: kt11d_log_register_def Let_def)
next
  case 25 then show ?case by (simp add: cpu_ok_def mmu_ok_instruction_start) (simp add: kt11d_instruction_start_def)
next
  case 26 then show ?case by (simp add: cpu_ok_def mmu_ok_instruction_fetched) (simp add: kt11d_instruction_fetched_def)
next
  case 27 then show ?case by (simp add: cpu_ok_def mmu_ok_init) (simp add: kt11d_init_def rebuild_all_fields)
next
  case 28 then show ?case
    by (simp add: cpu_ok_def SPACE_KERNEL_def mmu_ok_set_access space_of_def kt11d_consts) (simp add: kt11d_set_access_def)
next
  case (29 s)
  then have "mmu_ok (mmu s)" by (simp only: cpu_ok_def)
  then have "prev_mode (mmu s) \<le> 3" "prev_space (mmu s) = space_of (prev_mode (mmu s))" by (simp_all add: mmu_ok_def)
  with 29 show ?case by (simp add: cpu_ok_def SPACE_PREV_def mmu_ok_set_access) (simp add: kt11d_set_access_def)
next
  case (30 s)
  then have "mmu_ok (mmu s)" by (simp only: cpu_ok_def)
  then have "mode (mmu s) \<le> 3" "space (mmu s) = space_of (mode (mmu s))" by (simp_all add: mmu_ok_def)
  with 30 show ?case by (simp add: cpu_ok_def SPACE_RESTORE_def mmu_ok_set_access) (simp add: kt11d_set_access_def)
qed (simp_all add: cpu_ok_def mmu_ok_dest_ref)

section \<open>No access outside the arrays\<close>

definition arrays_kept :: "'x mach \<Rightarrow> 'x mach \<Rightarrow> bool" where
  "arrays_kept s0 s \<longleftrightarrow> cpu_ok s \<and>
     (\<forall>i \<ge> 16. regs s i = regs s0 i) \<and> (\<forall>i \<ge> 2. stackpointer s i = stackpointer s0 i) \<and>
     (\<forall>i \<ge> 16. par (mmu s) i = par (mmu s0) i \<and> pdr (mmu s) i = pdr (mmu s0) i \<and> page (mmu s) i = page (mmu s0) i)"


lemma arrays_kept_set_psw: "arrays_kept s0 s \<Longrightarrow> arrays_kept s0 (kd11ea_set_psw bus w s)"
proof -
  assume a: "arrays_kept s0 s"
  then have "cpu_ok (kd11ea_set_psw bus w s)" by (simp add: arrays_kept_def set_psw_ok)
  with a show ?thesis
    by (simp add: arrays_kept_def kd11ea_set_psw_def Let_def SP_index_def kt11d_set_modes_def kt11d_set_access_def)
qed

lemma relocate_arrays:
  assumes "mmu_ok m" "acc_ok acc" "i \<ge> 16"
  shows "par (fst (kt11d_relocate m va (access_space m) acc)) i = par m i"
    "pdr (fst (kt11d_relocate m va (access_space m) acc)) i = pdr m i"
    "page (fst (kt11d_relocate m va (access_space m) acc)) i = page m i"
proof -
  let ?j = "access_space m + va_page va"
  have j: "?j < 16" using mmu_ok_access_space[OF assms(1)] page_lt[of va] by auto
  have "page m ?j = kt11d_descriptor (par m ?j) (pdr m ?j) ?j"
    using assms(1) j by (simp add: mmu_ok_def coherent_def)
  then have "unat (pdr_idx (page m ?j)) = ?j"
    using j by (simp add: kt11d_descriptor_def Let_def unsigned_of_nat take_bit_eq_mod del: of_nat_add)
  then show "par (fst (kt11d_relocate m va (access_space m) acc)) i = par m i"
    "pdr (fst (kt11d_relocate m va (access_space m) acc)) i = pdr m i"
    "page (fst (kt11d_relocate m va (access_space m) acc)) i = page m i"
    using j assms(3)
    by (auto simp: kt11d_relocate_def Let_def kt11d_abort_eq kt11d_abort_mode_def)
qed

lemma write_reg_arrays:
  assumes "kt11d_write_reg m pa w msk = Some m'" "i \<ge> 16" "even (unat pa)"
  shows "par m' i = par m i \<and> pdr m' i = pdr m i \<and> page m' i = page m i"
proof (rule write_reg_result[OF assms(1)])
  fix reg wm
  assume l: "lookup pa = Some (reg, wm)"
    and m': "m' = (let m1 = mmu_put m reg (merge_bits (mmu_get m reg) w (msk AND wm)) in
           case reg of PDR i \<Rightarrow> clear_W_rebuild m1 i | PAR i \<Rightarrow> clear_W_rebuild m1 i | _ \<Rightarrow> kt11d_rebuild_all m1)"
  have "reg_valid reg" using l lookup_even[OF assms(3)] by simp
  then show ?thesis
    using assms(2) unfolding m' Let_def
    by (cases reg) (simp_all add: clear_W_rebuild_eq rebuild_all_fields)
qed

interpretation arrays: cpu_invariant bus "arrays_kept s0" for bus :: "'x bus_ops" and s0 :: "'x mach"
proof (unfold_locales, goal_cases)
  case 20 then show ?case by (rule arrays_kept_set_psw)
next
  case (21 s va acc m r)
  then have "cpu_ok s" by (simp add: arrays_kept_def)
  then have k: "cpu_ok (s\<lparr>mmu := m\<rparr>)" "mmu_ok (mmu s)"
    using ok.I_relocate[OF _ 21(2,3)] by (auto simp: cpu_ok_def[of s])
  show ?case
    using 21 k relocate_arrays[OF k(2) 21(3), of _ va] by (simp add: arrays_kept_def)
next
  case (22 s pa w msk m)
  then have k: "cpu_ok (s\<lparr>mmu := m\<rparr>)" using ok.I_write_reg by (auto simp: arrays_kept_def)
  show ?case
    using 22 k write_reg_arrays[OF 22(2) _ even_not_1] by (simp add: arrays_kept_def)
next
  case (23 s rg am)
  then have "cpu_ok (s\<lparr>mmu := kt11d_log_register (mmu s) rg am\<rparr>)" using ok.I_log by (auto simp: arrays_kept_def)
  with 23 show ?case by (simp add: arrays_kept_def) (simp add: kt11d_log_register_def Let_def)
next
  case (25 s)
  then have "cpu_ok (s\<lparr>mmu := kt11d_instruction_start (mmu s)\<rparr>)" using ok.I_start by (auto simp: arrays_kept_def)
  with 25 show ?case by (simp add: arrays_kept_def) (simp add: kt11d_instruction_start_def)
next
  case (26 s w)
  then have "cpu_ok (s\<lparr>mmu := kt11d_instruction_fetched (mmu s) w\<rparr>)" using ok.I_fetched by (auto simp: arrays_kept_def)
  with 26 show ?case by (simp add: arrays_kept_def) (simp add: kt11d_instruction_fetched_def)
next
  case (27 s)
  then have "cpu_ok (s\<lparr>mmu := kt11d_init (mmu s)\<rparr>)" using ok.I_mmu_init by (auto simp: arrays_kept_def)
  with 27 show ?case by (simp add: arrays_kept_def) (simp add: kt11d_init_def rebuild_all_fields)
next
  case (28 s)
  then have "cpu_ok (SPACE_KERNEL s)" using ok.I_space_kernel by (auto simp: arrays_kept_def)
  with 28 show ?case by (simp add: arrays_kept_def) (simp add: SPACE_KERNEL_def kt11d_set_access_def)
next
  case (29 s)
  then have "cpu_ok (SPACE_PREV s)" using ok.I_space_prev by (auto simp: arrays_kept_def)
  with 29 show ?case by (simp add: arrays_kept_def) (simp add: SPACE_PREV_def kt11d_set_access_def)
next
  case (30 s)
  then have "cpu_ok (SPACE_RESTORE s)" using ok.I_space_restore by (auto simp: arrays_kept_def)
  with 30 show ?case by (simp add: arrays_kept_def) (simp add: SPACE_RESTORE_def kt11d_set_access_def)
next
  case 19 then show ?case using ok.I_cc by (auto simp: arrays_kept_def)
qed (auto simp: arrays_kept_def cpu_ok_def mmu_ok_dest_ref)

end
