(* ===== verification/KD11EA_Run.thy ===== *)
theory KD11EA_Run
  imports KD11EA_Inv
begin

unbundle bit_operations_syntax

text \<open>
  Runs of the 11/34 core through its entry points, a concrete machine for the witnesses,
  bus cycles with relocation off, and the trap sequence on an odd kernel stack, which
  never ends.
\<close>

section \<open>Runs of the core\<close>

text \<open>The entry points of \<open>kd11ea.h\<close> in any order. A step that does not return ends the run.\<close>

datatype cpu_op = Condstep nat | SetIntr u16 | PwrFail | PowerReset | PwrupFetch

fun cpu_apply :: "'x bus_ops \<Rightarrow> cpu_op \<Rightarrow> 'x mach \<Rightarrow> 'x mach option" where
  "cpu_apply bus (Condstep fuel) s = kd11ea_condstep fuel bus s"
| "cpu_apply bus (SetIntr v) s = Some (kd11ea_setintr v s)"
| "cpu_apply bus PwrFail s = Some (kd11ea_pwrfail_trap s)"
| "cpu_apply bus PowerReset s = Some (kd11ea_power_reset bus s)"
| "cpu_apply bus PwrupFetch s = Some (kd11ea_pwrup_vector_fetch bus s)"

fun cpu_run :: "'x bus_ops \<Rightarrow> cpu_op list \<Rightarrow> 'x mach \<Rightarrow> 'x mach option" where
  "cpu_run bus [] s = Some s"
| "cpu_run bus (op # ops) s = (case cpu_apply bus op s of None \<Rightarrow> None | Some s' \<Rightarrow> cpu_run bus ops s')"

lemma cpu_ok_power_reset:
  assumes "\<not> assert_failed s" shows "cpu_ok (kd11ea_power_reset bus s)"
proof -
  have "psw (kd11ea_power_reset bus s) = 0"
    "mmu (kd11ea_power_reset bus s) = kt11d_set_modes (kt11d_reset (kt11d_init (mmu s))) 0"
    "assert_failed (kd11ea_power_reset bus s) = assert_failed s" "autoinc_reg (kd11ea_power_reset bus s) = -1"
    by (simp_all add: kd11ea_power_reset_def kd11ea_reset_def Let_def set_psw_fields)
  then show ?thesis
    using assms by (simp add: cpu_ok_def mmu_ok_set_modes mmu_ok_reset set_modes_modes)
qed

lemma cpu_ok_run: "cpu_run bus ops s = Some s' \<Longrightarrow> cpu_ok s \<Longrightarrow> cpu_ok s'"
proof (induction ops arbitrary: s)
  case (Cons op ops)
  from Cons.prems(1) obtain s1 where s1: "cpu_apply bus op s = Some s1" "cpu_run bus ops s1 = Some s'"
    by (auto split: option.splits)
  have "cpu_ok s1"
  proof (cases op)
    case PowerReset
    have "\<not> assert_failed s" using Cons.prems(2) by (simp add: cpu_ok_def)
    then show ?thesis using s1(1) PowerReset cpu_ok_power_reset[of s bus] by simp
  qed (use s1(1) Cons.prems(2) in \<open>auto intro: ok.I_condstep ok.I_setintr ok.I_pwrfail ok.I_pwrup\<close>)
  then show ?case using Cons.IH s1(2) by blast
qed simp

lemma arrays_kept_run:
  "cpu_run bus ops s = Some s' \<Longrightarrow> PowerReset \<notin> set ops \<Longrightarrow> arrays_kept s0 s \<Longrightarrow> arrays_kept s0 s'"
proof (induction ops arbitrary: s)
  case (Cons op ops)
  from Cons.prems(1) obtain s1 where s1: "cpu_apply bus op s = Some s1" "cpu_run bus ops s1 = Some s'"
    by (auto split: option.splits)
  have "arrays_kept s0 s1"
    using s1(1) Cons.prems(2,3)
    by (cases op) (auto intro: arrays.I_condstep arrays.I_setintr arrays.I_pwrfail arrays.I_pwrup)
  then show ?case using Cons.IH s1(2) Cons.prems(2) by simp
qed simp

section \<open>A concrete machine for the witnesses\<close>

text \<open>A bus whose memory is a function from even addresses to words, present below the IO page.\<close>

definition demo_bus :: "(u32 \<Rightarrow> u16) bus_ops" where
  "demo_bus = \<lparr> unibone_dati = (\<lambda>a e. (if a < 0x3E000 then Some (ucast (e a)) else None, e)),
     unibone_dato = (\<lambda>a w e. if a < 0x3E000 then (True, e(a := w)) else (False, e)),
     unibone_datob = (\<lambda>a w e. (False, e)),
     unibone_grant_interrupts = (\<lambda>e. e), unibone_prioritylevelchange = (\<lambda>l e. e),
     unibone_bus_init = (\<lambda>e. e) \<rparr>"

definition demo_mach :: "(u32 \<Rightarrow> u16) \<Rightarrow> (u32 \<Rightarrow> u16) mach" where
  "demo_mach ram = \<lparr> regs = (\<lambda>_. 0), breg = 0, ba = 0, bdata = 0, ir = 0, psw = 0, stackpointer = (\<lambda>_. 0),
     traps = 0, be = 0, run_state = STATE_RUNNING, trap_vector = 4, autoinc_reg = -1, autoinc_amount = 0,
     mmu = kt11d_reset kt11d_zero, external_intr = False, external_intrvec = 0, sw = 0,
     oldpsw = 0, inhov = False, in_trap = False, assert_failed = False, env = ram \<rparr>"

section \<open>Cycles without relocation\<close>

definition mmu_off :: "kt11d \<Rightarrow> bool" where
  "mmu_off m \<longleftrightarrow> \<not> enabled m \<and> \<not> maint m"

definition plain_addr :: "u16 \<Rightarrow> bool" where
  "plain_addr a \<longleftrightarrow> a AND 1 = 0 \<and> a < 0xE000"

lemma mmu_off_updates [simp]:
  "mmu_off (kt11d_set_access m sp md) = mmu_off m" "mmu_off (kt11d_set_modes m w) = mmu_off m"
  "mmu_off (m\<lparr>dest_ref := d\<rparr>) = mmu_off m" "mmu_off (kt11d_instruction_start m) = mmu_off m"
  "mmu_off (kt11d_instruction_fetched m w) = mmu_off m" "mmu_off (kt11d_log_register m r a) = mmu_off m"
  by (simp_all add: mmu_off_def kt11d_set_access_def kt11d_set_modes_def kt11d_instruction_start_def
      kt11d_instruction_fetched_def kt11d_log_register_def Let_def)

lemma relocate_off: "mmu_off m \<Longrightarrow> kt11d_relocate m va sp acc = (m, Some (kt11d_unrelocated va))"
  by (simp add: mmu_off_def kt11d_relocate_def)

lemma plain_unrelocated:
  assumes "plain_addr a"
  shows "kt11d_unrelocated a = ucast a" "(ucast a :: u32) < 0x3E000" "ucast a AND NOT 1 = (ucast a :: u32)"
proof -
  have lt: "unat a < 0xE000" using assms by (simp add: plain_addr_def word_less_nat_alt)
  have "a AND 0xE000 \<noteq> 0xE000"
  proof
    assume "a AND 0xE000 = 0xE000"
    then have "0xE000 \<le> a" using word_and_le2[of a "0xE000"] by simp
    then show False using assms by (auto simp: plain_addr_def)
  qed
  then show "kt11d_unrelocated a = ucast a" by (simp add: kt11d_unrelocated_def)
  show "(ucast a :: u32) < 0x3E000" using lt by (simp add: word_less_nat_alt unsigned_ucast_eq take_bit_eq_mod)
  have "\<not> bit a 0" using assms by (simp add: plain_addr_def and_one_eq bit_0 even_iff_mod_2_eq_zero)
  then show "ucast a AND NOT 1 = (ucast a :: u32)"
    by (intro bit_eqI) (auto simp: bit_simps bit_1_iff intro: gr_zeroI)
qed

lemma dati_plain:
  assumes "mmu_off (mmu s)" "plain_addr (ba s)"
  shows "dati bus b s = (case unibone_dati bus (ucast (ba s)) (env s) of
           (None, e) \<Rightarrow> cycle_fail 4 (s\<lparr>env := e\<rparr>)
         | (Some d, e) \<Rightarrow> cycle_ok (s\<lparr>env := e, bdata := ucast d\<rparr>))"
proof -
  have m: "s\<lparr>mmu := mmu s\<rparr> = s" by simp
  show ?thesis
    using assms(2) plain_unrelocated[OF assms(2)]
    unfolding dati_def relocate_off[OF assms(1)] prod.case option.case m
    by (simp add: dati_internal_def odd_addr_def plain_addr_def)
qed

lemma dato_plain:
  assumes "mmu_off (mmu s)" "plain_addr (ba s)"
  shows "dato bus False s = (case unibone_dato bus (ucast (ba s)) (bdata s) (env s) of
           (False, e) \<Rightarrow> cycle_fail 4 (s\<lparr>env := e\<rparr>)
         | (True, e) \<Rightarrow> cycle_ok (s\<lparr>env := e\<rparr>))"
proof -
  have m: "s\<lparr>mmu := mmu s\<rparr> = s" by simp
  show ?thesis
    using assms(2) plain_unrelocated[OF assms(2)]
    unfolding dato_def relocate_off[OF assms(1)] prod.case option.case m
    by (simp add: dato_internal_def odd_addr_def plain_addr_def)
qed

lemma dato_odd: "ba s AND 1 \<noteq> 0 \<Longrightarrow> dato bus False s = cycle_fail 4 s"
  by (simp add: dato_def odd_addr_def)

section \<open>The trap sequence without relocation\<close>

lemma cycle_ok_simp: "cycle_ok s = (False, s\<lparr>be := 0, autoinc_reg := -1\<rparr>)"
  by (simp add: cycle_ok_def autoinc_commit_def)

lemma cycle_fail_idle: "autoinc_reg s = -1 \<Longrightarrow> cycle_fail v s = (True, s\<lparr>trap_vector := v, be := Suc (be s)\<rparr>)"
  by (simp add: cycle_fail_def autoinc_undo_def)

lemma kernel_same_sp:
  assumes "kernel_psw (psw s)" "kernel_psw (np AND PSW_MASK)"
  shows "regs (kd11ea_set_psw bus np s) = regs s"
  using assms by (simp add: kd11ea_set_psw_def Let_def SP_index_def)

lemma SPACE_fields [simp]:
  "autoinc_reg (SPACE_RESTORE s) = autoinc_reg s" "be (SPACE_RESTORE s) = be s"
  "autoinc_reg (SPACE_KERNEL s) = autoinc_reg s" "be (SPACE_KERNEL s) = be s"
  "regs (SPACE_RESTORE s) = regs s" "regs (SPACE_KERNEL s) = regs s"
  "psw (SPACE_RESTORE s) = psw s" "psw (SPACE_KERNEL s) = psw s"
  "in_trap (SPACE_RESTORE s) = in_trap s" "in_trap (SPACE_KERNEL s) = in_trap s"
  "env (SPACE_RESTORE s) = env s" "env (SPACE_KERNEL s) = env s"
  "mmu_off (mmu (SPACE_RESTORE s)) = mmu_off (mmu s)" "mmu_off (mmu (SPACE_KERNEL s)) = mmu_off (mmu s)"
  by (simp_all add: SPACE_RESTORE_def SPACE_KERNEL_def)

lemma set_psw_be: "be (kd11ea_set_psw bus w s) = be s" "in_trap (kd11ea_set_psw bus w s) = in_trap s"
  by (simp_all add: kd11ea_set_psw_def Let_def)

lemma PUSH_fields [simp]:
  "regs (PUSH s) = (regs s)(6 := regs s 6 - 2)" "mmu (PUSH s) = (mmu s)\<lparr>dest_ref := False\<rparr>" "psw (PUSH s) = psw s"
  "autoinc_reg (PUSH s) = autoinc_reg s" "be (PUSH s) = be s" "in_trap (PUSH s) = in_trap s" "env (PUSH s) = env s"
  by (simp_all add: PUSH_def set_dest_ref_def set_reg_def Let_def)

text \<open>With an odd kernel stack pointer the first push of the trap sequence fails, and the
  vector fetch before it has already cleared \<open>be\<close>.\<close>

definition odd_stack :: "'x mach \<Rightarrow> bool" where
  "odd_stack s \<longleftrightarrow> IS_KERNEL s \<and> mmu_off (mmu s) \<and> regs s 6 AND 1 \<noteq> 0"

definition vector4_kernel :: "'x bus_ops \<Rightarrow> bool" where
  "vector4_kernel bus \<longleftrightarrow>
     (\<forall>e. (\<exists>d e'. unibone_dati bus 4 e = (Some d, e')) \<and>
          (\<exists>d e'. unibone_dati bus 6 e = (Some d, e') \<and> d AND 0xC000 = 0))"

lemma kernel_psw_vector:
  assumes "d AND 0xC000 = (0::u32)" "kernel_psw p"
  shows "kernel_psw (((ucast d AND NOT 0x3000) OR (drop_bit 2 p AND 0x3000)) AND PSW_MASK)"
proof -
  have "ucast d AND (0xC000 :: u16) = ucast (d AND 0xC000)"
    by (rule bit_eqI) (simp add: bit_simps)
  then have "ucast d AND (0xC000 :: u16) = 0" using assms(1) by simp
  then show ?thesis
    by (simp add: kernel_psw_def KT11D_MODE_KERNEL_def PSW_MASK_def word16_eq_iff bit_simps)
qed

lemma try_be_pair: "p = (f, s') \<Longrightarrow> try_be p k = (if f then (GoBe, s') else k s')"
  by (simp add: try_be_def)

lemma trap_odd_stack:
  assumes "odd_stack s" "vector4_kernel bus"
  shows "\<exists>s'. trap_seq bus (set_reg 10 4 s) = (GoBe, s') \<and> odd_stack s' \<and> in_trap s' \<and> be s' = 1 \<and> trap_vector s' = 4"
proof -
  have p4: "plain_addr 4" "plain_addr 6" "(4::u16) + 2 = 6" by (simp_all add: plain_addr_def)
  let ?t = "SPACE_KERNEL (set_dest_ref False (set_reg 10 4 s\<lparr>in_trap := True\<rparr>))"
  have off: "mmu_off (mmu ?t)" using assms(1) by (simp add: odd_stack_def SPACE_KERNEL_def set_dest_ref_def set_reg_def)
  obtain d1 e1 where b1: "unibone_dati bus 4 (env s) = (Some d1, e1)"
    using assms(2) unfolding vector4_kernel_def by blast
  obtain d2 e2 where b2: "unibone_dati bus 6 e1 = (Some d2, e2)" and k2: "d2 AND 0xC000 = 0"
    using assms(2) unfolding vector4_kernel_def by blast
  let ?u = "?t\<lparr>ba := 4, env := e1, bdata := ucast d1, be := 0, autoinc_reg := -1\<rparr>"
  let ?w = "?u\<lparr>ba := 6, env := e2, bdata := ucast d2\<rparr>"
  have r1: "dati bus False (?t\<lparr>ba := 4\<rparr>) = (False, ?u)"
    using off by (subst dati_plain) (simp_all add: p4 b1 cycle_ok_simp set_dest_ref_def set_reg_def)
  have r2: "dati bus False (?u\<lparr>ba := 6\<rparr>) = (False, ?w)"
    using off by (subst dati_plain) (simp_all add: p4 b2 cycle_ok_simp set_dest_ref_def set_reg_def)
  define np where "np = (ucast d2 AND NOT 0x3000) OR (drop_bit 2 (psw s) AND 0x3000)"
  let ?x = "PUSH (kd11ea_set_psw bus np (SPACE_RESTORE ?w))"
  have k: "kernel_psw (psw s)" using assms(1) by (simp add: odd_stack_def IS_KERNEL_def)
  then have k': "kernel_psw (psw (SPACE_RESTORE ?w))"
    by (simp add: SPACE_RESTORE_def SPACE_KERNEL_def set_dest_ref_def set_reg_def)
  have kn: "kernel_psw (np AND PSW_MASK)" unfolding np_def by (rule kernel_psw_vector[OF k2 k])
  have rg: "regs ?x = (regs ?t)(6 := regs s 6 - 2)"
    unfolding PUSH_fields kernel_same_sp[OF k' kn]
    by (simp add: SPACE_RESTORE_def SPACE_KERNEL_def set_dest_ref_def set_reg_def)
  have odd: "(regs s 6 - 2) AND 1 \<noteq> 0"
    using assms(1) by (simp add: odd_stack_def and_one_eq even_iff_mod_2_eq_zero [symmetric])
  have fin: "OUT bus (regs ?x 6) (psw s) ?x =
      (True, ?x\<lparr>ba := regs s 6 - 2, bdata := psw s, trap_vector := 4, be := 1\<rparr>)"
    using odd unfolding OUT_def rg
    by (subst dato_odd) (simp_all add: cycle_fail_idle set_psw_fields set_psw_be)
  have f1: "regs ?t 10 = 4" and f2: "regs ?u 10 + 2 = 6" and f3: "bdata ?w = ucast d2"
    "psw (set_dest_ref False (set_reg 10 4 s\<lparr>in_trap := True\<rparr>)) = psw s"
    by (simp_all add: set_dest_ref_def set_reg_def)
  let ?y = "?x\<lparr>ba := regs s 6 - 2, bdata := psw s, trap_vector := 4, be := 1\<rparr>"
  have "trap_seq bus (set_reg 10 4 s) = (GoBe, ?y)"
    by (simp only: trap_seq_def Let_def f1 try_be_pair[OF r1] f2 try_be_pair[OF r2] if_False if_True
        f3 np_def [symmetric] try_be_pair[OF fin])
  moreover have "odd_stack ?y"
    using kn odd off rg by (simp add: odd_stack_def IS_KERNEL_def set_psw_fields SPACE_RESTORE_def)
  moreover have "in_trap ?y" by (simp add: kd11ea_set_psw_def Let_def SPACE_RESTORE_def SPACE_KERNEL_def set_dest_ref_def)
  ultimately show ?thesis by (intro exI[of _ ?y]) simp
qed

lemma run_odd_stack:
  assumes "vector4_kernel bus"
  shows "odd_stack s \<Longrightarrow> run_labels n bus (GoTrap 4, s) = None"
proof (induction n arbitrary: s rule: less_induct)
  case (less n)
  obtain s' where s': "trap_seq bus (set_reg 10 4 s) = (GoBe, s')" "odd_stack s'" "in_trap s'" "be s' = 1" "trap_vector s' = 4"
    using trap_odd_stack[OF less.prems assms] by blast
  have b: "be_path s' = (GoTrap 4, s')" using s' by (simp add: be_path_def)
  show ?case
  proof (cases n)
    case (Suc k)
    show ?thesis
    proof (cases k)
      case (Suc j)
      have "run_labels j bus (GoTrap 4, s') = None" using less.IH[of j] s'(2) \<open>n = Suc k\<close> Suc by simp
      then show ?thesis using \<open>n = Suc k\<close> Suc s'(1) b by simp
    qed (use Suc s'(1) in simp)
  qed simp
qed

lemma cc_keeps_kernel: "kernel_psw ((p AND NOT 0xF) OR (q AND 0xF)) = kernel_psw p"
proof -
  have "drop_bit 14 ((p AND NOT 0xF) OR (q AND 0xF)) AND 3 = drop_bit 14 p AND (3 :: u16)"
    by (simp add: word16_eq_iff bit_simps)
  then show ?thesis by (simp only: kernel_psw_def)
qed

lemma odd_fetch:
  assumes "odd_stack s" "be s = 0" "regs s 7 AND 1 \<noteq> 0"
  shows "\<exists>s'. step_fetch bus s = (GoBe, s') \<and> odd_stack s' \<and> be s' = 1 \<and> trap_vector s' = 4"
proof -
  let ?t = "(autoinc_commit (set_dest_ref False (s\<lparr>oldpsw := psw s, mmu := kt11d_instruction_start (mmu s)\<rparr>)))\<lparr>ba := regs s 7\<rparr>"
  have "dati bus False ?t = (True, ?t\<lparr>trap_vector := 4, be := 1\<rparr>)"
    using assms(2,3) by (simp add: dati_def odd_addr_def cycle_fail_idle autoinc_commit_def set_dest_ref_def)
  then have "step_fetch bus s = (GoBe, ?t\<lparr>trap_vector := 4, be := 1\<rparr>)"
    by (simp add: step_fetch_def Let_def try_be_def autoinc_commit_def set_dest_ref_def)
  then show ?thesis
    using assms(1) by (simp add: odd_stack_def IS_KERNEL_def autoinc_commit_def set_dest_ref_def)
qed

lemma odd_condstep:
  assumes "odd_stack s" "be s = 0" "regs s 7 AND 1 \<noteq> 0" "run_state s = STATE_RUNNING" "\<not> external_intr s"
    and "vector4_kernel bus"
  shows "kd11ea_condstep n bus s = None"
proof -
  let ?s = "s\<lparr>env := unibone_grant_interrupts bus (env s), run_state := STATE_RUNNING, inhov := False, in_trap := False\<rparr>"
  have o: "odd_stack ?s" using assms(1) by (simp add: odd_stack_def IS_KERNEL_def)
  obtain s' where s': "step_fetch bus ?s = (GoBe, s')" "odd_stack s'" "be s' = 1" "trap_vector s' = 4"
    using odd_fetch[OF o] assms(2,3) by auto
  have "\<exists>s2. be_path s' = (GoTrap 4, s2) \<and> odd_stack s2"
    using s'(2,3,4) by (auto simp: be_path_def Let_def odd_stack_def IS_KERNEL_def cc_keeps_kernel[simplified])
  then obtain s2 where s2: "be_path s' = (GoTrap 4, s2)" "odd_stack s2" by blast
  have "step_begin bus (s\<lparr>env := unibone_grant_interrupts bus (env s), run_state := STATE_RUNNING\<rparr>) = (GoBe, s')"
    using s'(1) assms(5) by (simp add: step_begin_def)
  then show ?thesis
    using assms(4) s2 run_odd_stack[OF assms(6), of s2]
    by (cases n) (simp_all add: kd11ea_condstep_def step_def)
qed

end
