(* ===== verification/KD11EA_Arith.thy ===== *)
theory KD11EA_Arith
  imports KD11EA_Inv
begin

unbundle bit_operations_syntax

text \<open>
  What the condition codes of the 11/34 mean: the flag macros as bits of the PSW, the carry and
  overflow formulas of compare, add and subtract as comparisons of the operands, the branch
  tables as conditions on the flags, the shift loops as multiplication and division by powers
  of two. Also the frame of the operand fetch: the scratch registers above R7 change only
  where an operand is latched.
\<close>

section \<open>Words of 16 bits as numbers\<close>

lemma neg16_bit: "neg16 w = bit w 15"
  by (simp add: neg16_def sgn_w_def and_one_eq bit_iff_odd_drop_bit mod2_eq_if)

lemma neg16_ops [simp]:
  "neg16 (a AND b) = (neg16 a \<and> neg16 b)" "neg16 (a OR b) = (neg16 a \<or> neg16 b)"
  "neg16 (a XOR b) = (neg16 a \<noteq> neg16 b)" "neg16 (NOT a) = (\<not> neg16 a)"
  by (simp_all add: neg16_bit bit_simps)

lemma u16_lt: "unat (w :: u16) < 65536" and u32_lt: "unat (v :: u32) < 4294967296" and u8_lt: "unat (x :: u8) < 256"
  using unsigned_less[of w] unsigned_less[of v] unsigned_less[of x] by simp_all

lemma bit_nat: "n < LENGTH('a) \<Longrightarrow> bit (w :: 'a::len word) n = odd (unat w div 2 ^ n)"
  by (simp add: bit_unsigned_iff flip: bit_iff_odd)

lemma top_bit_nat:
  assumes "LENGTH('a) = Suc n" shows "bit (w :: 'a::len word) n \<longleftrightarrow> 2 ^ n \<le> unat w"
proof -
  have lt: "unat w < 2 * 2 ^ n" using unsigned_less[of w] by (simp add: assms)
  have "unat w div 2 ^ n = (if unat w < 2 ^ n then 0 else 1)"
    using lt by (auto simp: div_eq_dividend_iff intro!: div_nat_eqI)
  then show ?thesis using bit_nat[of n w] assms by auto
qed

lemma sint_nat:
  assumes "LENGTH('a) = Suc n"
  shows "sint (w :: 'a::len word) = (if bit w n then int (unat w) - 2 ^ Suc n else int (unat w))"
proof -
  have u: "uint w = int (unat w)" by simp
  have b: "bit (uint w) n = bit w n" by (simp add: bit_unsigned_iff assms)
  have "unat w < 2 ^ Suc n" using unsigned_less[of w] by (simp add: assms)
  then have "int (unat w) < int (2 ^ Suc n)" by (simp only: of_nat_less_iff)
  then have "int (unat w) < 2 ^ Suc n" by (simp only: of_nat_power of_nat_numeral)
  then have "take_bit (Suc n) (uint w) = uint w" unfolding u by (intro take_bit_int_eq_self) auto
  moreover have "sint w = take_bit (Suc n) (uint w) - 2 ^ Suc n * of_bool (bit (uint w) n)"
    by (simp add: sint_uint assms signed_take_bit_eq_take_bit_minus)
  ultimately show ?thesis unfolding b unfolding u by simp
qed

lemma neg16_nat: "neg16 w \<longleftrightarrow> 32768 \<le> unat w"
  using top_bit_nat[of 15 w] by (simp add: neg16_bit)

lemma sint16: "sint (w :: u16) = (if neg16 w then int (unat w) - 65536 else int (unat w))"
  using sint_nat[of 15 w] by (simp add: neg16_bit)

lemma add16_nat: "unat (a + b :: u16) = (if unat a + unat b < 65536 then unat a + unat b else unat a + unat b - 65536)"
  using u16_lt[of a] u16_lt[of b] by (simp add: unat_word_ariths mod_if)

lemma sub16_nat: "unat (a - b :: u16) = (if unat b \<le> unat a then unat a - unat b else unat a + 65536 - unat b)"
  using add16_nat[of "a - b" b] u16_lt[of a] u16_lt[of b] u16_lt[of "a - b"] by (auto split: if_splits)

text \<open>The overflow formulas.\<close>

lemma sub_overflow:
  "(neg16 (a - b) \<noteq> (neg16 a \<noteq> neg16 b \<and> neg16 b = neg16 (a - b))) \<longleftrightarrow> sint a < sint b"
  "(neg16 a \<noteq> neg16 b \<and> neg16 b = neg16 (a - b)) \<longleftrightarrow> sint a - sint b \<notin> {-32768..<32768}"
  using u16_lt[of a] u16_lt[of b] by (auto simp: sint16 neg16_nat sub16_nat simp del: of_nat_unat)

lemma add_overflow:
  "(neg16 a = neg16 b \<and> neg16 a \<noteq> neg16 (a + b)) \<longleftrightarrow> sint a + sint b \<notin> {-32768..<32768}"
  using u16_lt[of a] u16_lt[of b] by (auto simp: sint16 neg16_nat add16_nat simp del: of_nat_unat)

text \<open>The 17-bit sums.\<close>

lemma bit16_nat:
  assumes "unat (x :: u32) < 131072" shows "x AND 0x10000 = 0 \<longleftrightarrow> unat x < 65536"
proof -
  have "x AND 0x10000 = 0 \<longleftrightarrow> \<not> bit x 16" using and_exp_eq_0_iff_not_bit[of x 16] by simp
  also have "bit x 16 = odd (unat x div 65536)" by (simp add: bit_nat)
  moreover have "unat x div 65536 = (if unat x < 65536 then 0 else 1)" using assms by auto
  ultimately show ?thesis by auto
qed

lemma unat_ucast_up: "unat (ucast (a :: u16) :: u32) = unat a"
  using u16_lt[of a] by (simp add: unsigned_ucast_eq take_bit_nat_eq_self)

lemma sub17_nat: "unat (ucast a + ucast (NOT b) + 1 :: u32) = unat a + 65536 - unat b" for a b :: u16
proof -
  have "unat (b + NOT b) = 65535" unfolding word_add_not by (simp add: unsigned_minus_1_eq_mask mask_eq_exp_minus_1)
  then have "unat (NOT b) = 65535 - unat b"
    using add16_nat[of b "NOT b"] u16_lt[of b] u16_lt[of "NOT b"] by (auto split: if_splits)
  then show ?thesis
    using u16_lt[of a] u16_lt[of b] by (simp add: unat_word_ariths unat_ucast_up)
qed

lemma sub17_carry: "(ucast a + ucast (NOT b) + 1 :: u32) AND 0x10000 = 0 \<longleftrightarrow> unat a < unat b" for a b :: u16
  using sub17_nat[of a b] u16_lt[of a] u16_lt[of b] by (subst bit16_nat) auto

lemma sub17_low: "ucast (ucast a + ucast (NOT b) + 1 :: u32) = a - b" for a b :: u16
proof -
  have "unat (ucast (ucast a + ucast (NOT b) + 1 :: u32) :: u16) = (unat a + 65536 - unat b) mod 65536"
    unfolding unsigned_ucast_eq sub17_nat by (simp add: take_bit_eq_mod)
  then show ?thesis
    using sub16_nat[of a b] u16_lt[of a] u16_lt[of b] by (simp only: word_unat_eq_iff) (auto simp: mod_if)
qed

lemma add17_nat: "unat (ucast a + ucast b :: u32) = unat a + unat b" for a b :: u16
  using u16_lt[of a] u16_lt[of b] by (simp add: unat_word_ariths unat_ucast_up)

lemma add17_carry: "(ucast a + ucast b :: u32) AND 0x10000 \<noteq> 0 \<longleftrightarrow> 65536 \<le> unat a + unat b" for a b :: u16
  using add17_nat[of a b] u16_lt[of a] u16_lt[of b] by (subst bit16_nat) auto

lemma add17_low: "ucast (ucast a + ucast b :: u32) = a + b" for a b :: u16
proof -
  have "unat (ucast (ucast a + ucast b :: u32) :: u16) = (unat a + unat b) mod 65536"
    unfolding unsigned_ucast_eq add17_nat by (simp add: take_bit_eq_mod)
  then show ?thesis
    using add16_nat[of a b] u16_lt[of a] u16_lt[of b] by (simp only: word_unat_eq_iff) (auto simp: mod_if)
qed

section \<open>Condition codes as bits of the PSW\<close>

lemma ISSET_bits:
  "ISSET PSW_C s = bit (psw s) 0" "ISSET PSW_V s = bit (psw s) 1" "ISSET PSW_Z s = bit (psw s) 2"
  "ISSET PSW_N s = bit (psw s) 3"
  using and_exp_eq_0_iff_not_bit[of "psw s" 0] and_exp_eq_0_iff_not_bit[of "psw s" 1]
    and_exp_eq_0_iff_not_bit[of "psw s" 2] and_exp_eq_0_iff_not_bit[of "psw s" 3]
  by (simp_all add: ISSET_def psw_consts)

definition flags :: "u16 \<Rightarrow> bool \<times> bool \<times> bool \<times> bool" where
  "flags p = (bit p 3, bit p 2, bit p 1, bit p 0)"

lemma bit_psw_consts:
  "bit PSW_C n = (n = 0)" "bit PSW_V n = (n = 1)" "bit PSW_Z n = (n = 2)" "bit PSW_N n = (n = 3)"
proof -
  have c: "PSW_C = 2 ^ 0" "PSW_V = 2 ^ 1" "PSW_Z = 2 ^ 2" "PSW_N = 2 ^ 3" by (simp_all add: psw_consts)
  show "bit PSW_C n = (n = 0)" "bit PSW_V n = (n = 1)" "bit PSW_Z n = (n = 2)" "bit PSW_N n = (n = 3)"
    unfolding c bit_exp_iff possible_bit_def by auto
qed

lemma psw_macros [simp]:
  "psw (psw_clr m s) = psw s AND NOT m" "psw (psw_set m s) = psw s OR m"
  "psw (psw_set_if c m s) = (if c then psw s OR m else psw s)"
  by (simp_all add: psw_clr_def psw_set_def psw_set_if_def)

lemma regs_macros [simp]:
  "regs (psw_clr m s) = regs s" "regs (psw_set m s) = regs s" "regs (psw_set_if c m s) = regs s"
  "regs (setnz w s) = regs s" "regs (NZ v s) = regs s"
  by (simp_all add: psw_clr_def psw_set_def psw_set_if_def setnz_def NZ_def Let_def)

lemma flags_ops [simp]:
  "flags (p AND q) = (case flags p of (n, z, v, c) \<Rightarrow> case flags q of (n', z', v', c') \<Rightarrow>
     (n \<and> n', z \<and> z', v \<and> v', c \<and> c'))"
  "flags (p OR q) = (case flags p of (n, z, v, c) \<Rightarrow> case flags q of (n', z', v', c') \<Rightarrow>
     (n \<or> n', z \<or> z', v \<or> v', c \<or> c'))"
  "flags (NOT p) = (case flags p of (n, z, v, c) \<Rightarrow> (\<not> n, \<not> z, \<not> v, \<not> c))"
  "flags PSW_N = (True, False, False, False)" "flags PSW_Z = (False, True, False, False)"
  "flags PSW_V = (False, False, True, False)" "flags PSW_C = (False, False, False, True)"
  by (simp_all add: flags_def bit_simps bit_psw_consts)

lemma flags_setnz:
  "flags (psw (setnz w s)) = (case flags (psw s) of (n, z, v, c) \<Rightarrow> (neg16 w, w = 0, v, c))"
proof -
  have "(w AND 0x8000 \<noteq> 0) = neg16 w" using and_exp_eq_0_iff_not_bit[of w 15] by (simp add: neg16_bit)
  then show ?thesis by (simp add: setnz_def Let_def split: prod.split)
qed

lemma flags_NZ: "flags (psw (NZ b s)) = (case flags (psw s) of (n, z, v, c) \<Rightarrow> (neg16 (ucast b), (ucast b :: u16) = 0, v, c))"
  by (simp add: NZ_def flags_setnz)

section \<open>Branches\<close>

text \<open>The condition a branch is documented to test, on N, Z, V and C.\<close>

definition branch_cond :: "u16 \<Rightarrow> bool \<times> bool \<times> bool \<times> bool \<Rightarrow> bool" where
  "branch_cond op f = (case f of (n, z, v, c) \<Rightarrow>
     if op = 0x0200 then \<not> z else if op = 0x0300 then z
     else if op = 0x0400 then n = v else if op = 0x0500 then n \<noteq> v
     else if op = 0x0600 then \<not> (z \<or> n \<noteq> v) else if op = 0x0700 then z \<or> n \<noteq> v
     else if op = 0x8000 then \<not> n else if op = 0x8100 then n
     else if op = 0x8200 then \<not> (c \<or> z) else if op = 0x8300 then c \<or> z
     else if op = 0x8400 then \<not> v else if op = 0x8500 then v
     else if op = 0x8600 then \<not> c else c)"

definition cond_branches :: "u16 set" where
  "cond_branches = {0x0200, 0x0300, 0x0400, 0x0500, 0x0600, 0x0700, 0x8000, 0x8100, 0x8200, 0x8300,
     0x8400, 0x8500, 0x8600, 0x8700}"

lemma CBR_bit: "CBR c s = (if bit c (unat (psw s AND 0xF)) then BR s else s)"
  by (simp add: CBR_def and_one_eq bit_iff_odd_drop_bit mod2_eq_if)

lemma branch_rows:
  "op \<in> cond_branches \<Longrightarrow> \<forall>k < 16. bit (the (branch_table op)) k = branch_cond op (flags (of_nat k :: u16))"
  unfolding cond_branches_def
  by (elim insertE emptyE; hypsubst; simp only: less_16_cases;
      simp add: branch_table_def branch_cond_def flags_def)

lemma branch_bits:
  assumes "op \<in> cond_branches"
  shows "\<exists>c. branch_table op = Some c \<and> (\<forall>p. bit c (unat (p AND 0xF :: u16)) = branch_cond op (flags p))"
proof -
  obtain c where c: "branch_table op = Some c" using assms by (auto simp: cond_branches_def branch_table_def)
  have "bit c (unat (p AND 0xF)) = branch_cond op (flags p)" for p :: u16
  proof -
    have "unat (p AND 0xF) < 16" using word_and_le1[of p "0xF"] by (simp add: word_le_nat_alt)
    moreover have "flags (p AND 0xF) = flags p" unfolding flags_def by (simp add: bit_simps)
    ultimately show ?thesis using branch_rows[OF assms, rule_format, of "unat (p AND 0xF)"] by (simp add: c)
  qed
  then show ?thesis using c by blast
qed

lemma exec_branch_cond:
  assumes "op \<in> cond_branches" "ir t AND 0x8700 = op"
  shows "exec_branch t = (GoService, if branch_cond op (flags (psw t)) then BR t else t)"
proof -
  obtain c where c: "branch_table op = Some c" "\<And>p. bit c (unat (p AND 0xF :: u16)) = branch_cond op (flags p)"
    using branch_bits[OF assms(1)] by blast
  have "op \<noteq> 0x0100" using assms(1) by (auto simp: cond_branches_def)
  then show ?thesis by (simp add: exec_branch_def Let_def assms(2) c CBR_bit svc_def)
qed

lemma BR_target: "regs (BR s) 7 = regs s 7 + word_of_int (2 * sint (ucast (ir s) :: u8))"
  by (simp add: BR_def set_reg_def sxt_def push_bit_eq_mult)

section \<open>Frame of the operand fetch\<close>

text \<open>Registers above R7 are latches: bus cycles and address calculation leave them alone, and
  the PSW, the instruction register and the run state with them.\<close>

definition latches_kept :: "'x mach \<Rightarrow> 'x mach \<Rightarrow> bool" where
  "latches_kept s s' \<longleftrightarrow> (\<forall>i \<ge> 8. regs s' i = regs s i) \<and> autoinc_reg s' < 8 \<and>
     psw s' = psw s \<and> ir s' = ir s \<and> run_state s' = run_state s"

lemma latches_cycle:
  "autoinc_reg s < 8 \<Longrightarrow> latches_kept s (snd (cycle_ok s))" "autoinc_reg s < 8 \<Longrightarrow> latches_kept s (snd (cycle_fail v s))"
  by (auto simp: latches_kept_def cycle_ok_def autoinc_commit_def cycle_fail_def autoinc_undo_def Let_def)

lemma latches_dati: "autoinc_reg s < 8 \<Longrightarrow> latches_kept s (snd (dati bus b s))"
  unfolding dati_def
  by (auto simp: latches_kept_def cycle_ok_def autoinc_commit_def cycle_fail_def autoinc_undo_def Let_def
      split: prod.split option.split)

lemma latches_trans: "latches_kept s s1 \<Longrightarrow> latches_kept s1 s2 \<Longrightarrow> latches_kept s s2"
  by (simp add: latches_kept_def)

lemma latches_addrop_base:
  assumes "autoinc_reg s < 8" shows "latches_kept s (snd (addrop_base bus m b s))"
proof -
  let ?s = "set_reg 7 (regs s 7 + 2) (s\<lparr>ba := regs s 7\<rparr>)"
  have "latches_kept s ?s" using assms by (simp add: latches_kept_def set_reg_def)
  moreover have "latches_kept ?s (snd (dati bus False ?s))"
    using assms by (intro latches_dati) (simp add: set_reg_def)
  ultimately have d: "latches_kept s (snd (dati bus False ?s))" by (rule latches_trans)
  have r: "m mod 8 \<noteq> i" if "i \<ge> 8" for i using that by auto
  show ?thesis
    using assms d r unfolding addrop_base_def Let_def
    by (auto simp: latches_kept_def set_reg_def autoinc_pending_def split: prod.split bool.split)
qed

lemma latches_addrop:
  assumes "autoinc_reg s < 8" shows "latches_kept s (snd (addrop bus m b s))"
proof -
  let ?s = "set_dest_ref False (autoinc_commit s)"
  have s0: "latches_kept s ?s" by (simp add: latches_kept_def set_dest_ref_def autoinc_commit_def)
  obtain f s2 where b: "addrop_base bus m b ?s = (f, s2)" by fastforce
  have "latches_kept ?s s2" using latches_addrop_base[of ?s bus m b] s0 b by (simp add: latches_kept_def)
  then have s2: "latches_kept s s2" using s0 latches_trans by blast
  obtain g s3 where d: "dati bus False s2 = (g, s3)" by fastforce
  have "latches_kept s s3" using latches_trans[OF s2 latches_dati[of s2 bus False]] s2 d by (simp add: latches_kept_def)
  with s2 s0 assms b d show ?thesis
    unfolding addrop_def Let_def
    by (auto simp: latches_kept_def set_dest_ref_def autoinc_commit_def split: bool.split)
qed

section \<open>Compare, byte and word\<close>

definition is_sxt :: "u16 \<Rightarrow> bool" where
  "is_sxt w \<longleftrightarrow> (\<exists>x. w = sxt x)"

lemma sxt_facts:
  "neg16 (sxt x) = bit x 7" "sint (sxt x) = sint x" "sxt x = sxt y \<longleftrightarrow> x = y" "sxt x = 0 \<longleftrightarrow> x = 0"
proof -
  show "neg16 (sxt x) = bit x 7" by (simp add: neg16_bit sxt_def bit_simps)
  show s: "sint (sxt x) = sint x" for x
    unfolding sxt_def by (rule bit_eqI) (auto simp: bit_signed_iff bit_simps min_def split: if_splits)
  show e: "sxt x = sxt y \<longleftrightarrow> x = y" for x y by (metis s signed_word_eqI)
  show "sxt x = 0 \<longleftrightarrow> x = 0" using e[of x 0] by (simp add: sxt_def)
qed

lemma sub8_less:
  "(bit (x - y) 7 \<noteq> (bit x 7 \<noteq> bit y 7 \<and> bit y 7 = bit (x - y) 7)) \<longleftrightarrow> sint x < sint y" for x y :: u8
proof -
  have n: "bit w 7 \<longleftrightarrow> 128 \<le> unat w" and s: "sint w = (if bit w 7 then int (unat w) - 256 else int (unat w))" for w :: u8
    using top_bit_nat[of 7 w] sint_nat[of 7 w] by simp_all
  have "unat (x - y + y) = (if unat (x - y) + unat y < 256 then unat (x - y) + unat y else unat (x - y) + unat y - 256)"
    using u8_lt[of "x - y"] u8_lt[of y] by (simp only: unat_word_ariths) (simp add: mod_if)
  then have d: "unat (x - y) = (if unat y \<le> unat x then unat x - unat y else unat x + 256 - unat y)"
    using u8_lt[of x] u8_lt[of y] u8_lt[of "x - y"] by (auto split: if_splits)
  show ?thesis using u8_lt[of x] u8_lt[of y] by (auto simp: s n d simp del: of_nat_unat)
qed

text \<open>The value compared, and the flags it gives.\<close>

definition cmp_diff :: "bool \<Rightarrow> u16 \<Rightarrow> u16 \<Rightarrow> u16" where
  "cmp_diff by a b = (if by then sxt (ucast (a - b)) else a - b)"

lemma ucast_byte: "(ucast v :: u8) = ucast (ucast v :: u16)" for v :: u32
  by (rule bit_word_eqI) (simp add: bit_simps)

lemma cmp_diff_eq: "ucast (BXT by (ucast a + ucast (NOT b) + 1)) = cmp_diff by a b"
proof (cases "by")
  case True
  have "(ucast (ucast w :: u32) :: u16) = w" for w :: u16 by (rule bit_word_eqI) (simp add: bit_simps)
  then show ?thesis unfolding BXT_def cmp_diff_def using True by (simp only: if_True ucast_byte sub17_low)
next
  case False
  then show ?thesis unfolding BXT_def cmp_diff_def by (simp only: if_False sub17_low)
qed

lemma ucast_sxt_diff: "(ucast (sxt x - sxt y) :: u8) = x - y"
proof -
  have s: "sxt x = word_of_int (sint x)" for x by (simp add: sxt_def)
  have "(ucast (word_of_int k :: u16) :: u8) = word_of_int k" for k
    by transfer (simp add: take_bit_take_bit)
  then have "(ucast (sxt x - sxt y) :: u8) = word_of_int (sint x - sint y)"
    unfolding s by (simp only: of_int_diff [symmetric])
  then show ?thesis by simp
qed

lemma cmp_diff_props:
  assumes "by \<longrightarrow> is_sxt a \<and> is_sxt b"
  shows "cmp_diff by a b = 0 \<longleftrightarrow> a = b"
    "(neg16 (cmp_diff by a b) \<noteq> (neg16 a \<noteq> neg16 b \<and> neg16 b = neg16 (cmp_diff by a b))) \<longleftrightarrow> sint a < sint b"
proof -
  have "(cmp_diff by a b = 0 \<longleftrightarrow> a = b) \<and>
    ((neg16 (cmp_diff by a b) \<noteq> (neg16 a \<noteq> neg16 b \<and> neg16 b = neg16 (cmp_diff by a b))) \<longleftrightarrow> sint a < sint b)"
  proof (cases "by")
    case True
    then obtain x y where ab: "a = sxt x" "b = sxt y" using assms by (auto simp: is_sxt_def)
    have d: "cmp_diff by a b = sxt (x - y)" using True by (simp add: cmp_diff_def ab ucast_sxt_diff)
    show ?thesis unfolding d unfolding ab sxt_facts using sub8_less[of x y] by simp
  next
    case False
    then show ?thesis using sub_overflow(1)[of a b] by (simp add: cmp_diff_def)
  qed
  then show "cmp_diff by a b = 0 \<longleftrightarrow> a = b"
    "(neg16 (cmp_diff by a b) \<noteq> (neg16 a \<noteq> neg16 b \<and> neg16 b = neg16 (cmp_diff by a b))) \<longleftrightarrow> sint a < sint b"
    by blast+
qed

section \<open>Operand fetch and service\<close>

lemma try_be_service: "try_be p k = (GoService, s') \<longleftrightarrow> \<not> fst p \<and> k (snd p) = (GoService, s')"
  by (simp add: try_be_def)

lemma fetchop_latch:
  assumes "fetchop bus t m b s = (False, s')" "autoinc_reg s < 8" "8 \<le> t"
  shows "\<forall>i \<ge> 8. i \<noteq> t \<longrightarrow> regs s' i = regs s i" "b \<longrightarrow> is_sxt (regs s' t)" "autoinc_reg s' < 8"
    "psw s' = psw s" "ir s' = ir s" "run_state s' = run_state s"
proof -
  obtain f s1 where d: "dati bus b s = (f, s1)" by fastforce
  have l: "latches_kept s s1" using latches_dati[OF assms(2), of bus b] by (simp add: d)
  have "(\<forall>i \<ge> 8. i \<noteq> t \<longrightarrow> regs s' i = regs s i) \<and> (b \<longrightarrow> is_sxt (regs s' t)) \<and> autoinc_reg s' < 8 \<and>
      psw s' = psw s \<and> ir s' = ir s \<and> run_state s' = run_state s"
    using assms l unfolding fetchop_def d fetchop_ext_def latches_kept_def set_reg_def is_sxt_def
    by (cases "m div 8 = 0"; cases f; cases b) auto
  then show "\<forall>i \<ge> 8. i \<noteq> t \<longrightarrow> regs s' i = regs s i" "b \<longrightarrow> is_sxt (regs s' t)" "autoinc_reg s' < 8"
    "psw s' = psw s" "ir s' = ir s" "run_state s' = run_state s"
    by blast+
qed

lemma rd_operand_latch:
  assumes "rd_operand bus t m b s = (False, s')" "autoinc_reg s < 8" "8 \<le> t"
  shows "\<forall>i \<ge> 8. i \<noteq> t \<longrightarrow> regs s' i = regs s i" "b \<longrightarrow> is_sxt (regs s' t)" "autoinc_reg s' < 8"
    "psw s' = psw s" "ir s' = ir s" "run_state s' = run_state s"
proof -
  have "(\<forall>i \<ge> 8. i \<noteq> t \<longrightarrow> regs s' i = regs s i) \<and> (b \<longrightarrow> is_sxt (regs s' t)) \<and> autoinc_reg s' < 8 \<and>
      psw s' = psw s \<and> ir s' = ir s \<and> run_state s' = run_state s"
  proof (cases "m div 8 = 0")
    case True
    obtain f s1 where f: "fetchop bus t m b s = (f, s1)" by fastforce
    then have "f = False" using True by (simp add: fetchop_def)
    then show ?thesis using True assms f fetchop_latch[of bus t m b s s'] by (simp add: rd_operand_def)
  next
    case False
    obtain f s1 where a: "addrop bus m b (set_dest_ref (t = 9) s) = (f, s1)" by fastforce
    have "latches_kept (set_dest_ref (t = 9) s) s1"
      using latches_addrop[of "set_dest_ref (t = 9) s" bus m b] assms(2) a by (simp add: set_dest_ref_def)
    then have l: "latches_kept s s1" by (simp add: latches_kept_def set_dest_ref_def)
    then show ?thesis
      using assms False a fetchop_latch[of bus t m b s1 s']
      by (cases f) (simp_all add: rd_operand_def readop_def latches_kept_def)
  qed
  then show "\<forall>i \<ge> 8. i \<noteq> t \<longrightarrow> regs s' i = regs s i" "b \<longrightarrow> is_sxt (regs s' t)" "autoinc_reg s' < 8"
    "psw s' = psw s" "ir s' = ir s" "run_state s' = run_state s"
    by blast+
qed

lemma RD_B_service:
  assumes "RD_B bus by s k = (GoService, s')" "autoinc_reg s < 8"
  obtains s2 where "k s2 = (GoService, s')" "by \<longrightarrow> is_sxt (regs s2 8) \<and> is_sxt (regs s2 9)"
proof -
  obtain f s1 where a: "rd_operand bus 8 (src_field s) by s = (f, s1)" by fastforce
  then have f: "f = False" using assms(1) by (simp add: RD_B_def try_be_service)
  obtain g s2 where b: "rd_operand bus 9 (dst_field s1) by s1 = (g, s2)" by fastforce
  have e: "RD_B bus by s k = try_be (g, s2) k" using a f b by (simp add: RD_B_def try_be_def)
  then have g: "g = False" "k s2 = (GoService, s')" using assms(1) unfolding e by (simp_all add: try_be_service)
  note l1 = rd_operand_latch[OF a[unfolded f] assms(2)] and l2 = rd_operand_latch[OF b[unfolded g(1)]]
  show ?thesis using that[OF g(2)] l1 l2 by fastforce
qed

lemma psw_NZ_reduce: "flags (psw (NZ b s)) = (neg16 (ucast b), (ucast b :: u16) = 0, ISSET PSW_V s, ISSET PSW_C s)"
  by (simp add: flags_NZ ISSET_bits) (simp add: flags_def)

lemma svc_service: "svc s = (GoService, s') \<longleftrightarrow> s' = s"
  by (auto simp: svc_def)

lemma ISSET_flags: "ISSET PSW_V s = fst (snd (snd (flags (psw s))))" "ISSET PSW_C s = snd (snd (snd (flags (psw s))))"
  by (simp_all add: ISSET_bits flags_def)

lemma op_cmp_flags:
  assumes "op_cmp bus by s = (GoService, s')" "autoinc_reg s < 8"
  shows "by \<longrightarrow> is_sxt (regs s' 8) \<and> is_sxt (regs s' 9)"
    "flags (psw s') = (neg16 (cmp_diff by (regs s' 8) (regs s' 9)), regs s' 8 = regs s' 9,
       neg16 (regs s' 8) \<noteq> neg16 (regs s' 9) \<and> neg16 (regs s' 9) = neg16 (cmp_diff by (regs s' 8) (regs s' 9)),
       unat (regs s' 8) < unat (regs s' 9))"
proof -
  obtain s2 where k: "s' = (let s1 = CLCV s2; SR = regs s1 8; DR = regs s1 9;
         b0 = ucast SR + ucast (NOT DR) + 1 :: u32;
         s2 = psw_set_if (b0 AND 0x10000 = 0) PSW_C s1;
         b = BXT by b0;
         s3 = psw_set_if (neg16 ((SR XOR DR) AND NOT (DR XOR ucast b))) PSW_V s2 in NZ b s3)"
    and l: "by \<longrightarrow> is_sxt (regs s2 8) \<and> is_sxt (regs s2 9)"
    by (rule RD_B_service[OF assms(1)[unfolded op_cmp_def] assms(2)]) (simp add: Let_def svc_service)
  have r: "regs s' = regs s2" by (simp add: k Let_def)
  show "by \<longrightarrow> is_sxt (regs s' 8) \<and> is_sxt (regs s' 9)" using l by (simp add: r)
  obtain n z v c where f: "flags (psw s2) = (n, z, v, c)" by (metis prod.exhaust)
  show "flags (psw s') = (neg16 (cmp_diff by (regs s' 8) (regs s' 9)), regs s' 8 = regs s' 9,
       neg16 (regs s' 8) \<noteq> neg16 (regs s' 9) \<and> neg16 (regs s' 9) = neg16 (cmp_diff by (regs s' 8) (regs s' 9)),
       unat (regs s' 8) < unat (regs s' 9))"
    unfolding r unfolding k Let_def psw_NZ_reduce ISSET_flags regs_macros cmp_diff_eq sub17_carry cmp_diff_props(1)[OF l]
    by (auto simp: f)
qed

end
