(* ===== verification/KD11EA_Shift.thy ===== *)
theory KD11EA_Shift
  imports KD11EA_Arith
begin

unbundle bit_operations_syntax

text \<open>
  The shifts of the extended instruction set as arithmetic: the loop of ASH and ASHC to the
  left multiplies by a power of two and raises V exactly when the product leaves the
  range of the operand, the shift to the right is the division that rounds down. MUL and DIV are the product and the truncated quotient of the signed operands.
\<close>

section \<open>One step to the left\<close>

lemma shl_sint:
  assumes "LENGTH('a) = Suc n"
  shows "bit w n = bit (push_bit 1 w) n \<Longrightarrow> sint (push_bit 1 w) = 2 * sint (w :: 'a::len word)"
    "bit w n \<noteq> bit (push_bit 1 w) n \<Longrightarrow> 2 * sint w \<notin> {- (2 ^ n)..<2 ^ n}"
proof -
  have lt: "unat w < 2 * 2 ^ n" using unsigned_less[of w] by (simp add: assms)
  have p: "unat (push_bit 1 w) = (if unat w < 2 ^ n then 2 * unat w else 2 * unat w - 2 * 2 ^ n)"
  proof -
    have "unat (push_bit 1 w) = take_bit (Suc n) (push_bit 1 (unat w))"
      by (simp only: unsigned_push_bit_eq assms)
    then have "unat (push_bit 1 w) = (2 * unat w) mod (2 * 2 ^ n)"
      by (simp only: push_bit_eq_mult take_bit_eq_mod) (simp add: mult.commute)
    then show ?thesis using lt by (auto simp: mod_if)
  qed
  define x where "x = unat w"
  define h where "h = (2::nat) ^ n"
  have ih: "(2::int) ^ n = int h" by (simp add: h_def)
  have s: "sint w = (if h \<le> x then int x - 2 * int h else int x)"
    using sint_nat[OF assms, of w] top_bit_nat[OF assms, of w] by (simp add: x_def h_def del: of_nat_unat)
  have s2: "sint (push_bit 1 w) = (if h \<le> unat (push_bit 1 w) then int (unat (push_bit 1 w)) - 2 * int h
      else int (unat (push_bit 1 w)))"
    using sint_nat[OF assms, of "push_bit 1 w"] top_bit_nat[OF assms, of "push_bit 1 w"]
    by (simp add: h_def del: of_nat_unat)
  note b = top_bit_nat[OF assms, of w, folded x_def h_def] top_bit_nat[OF assms, of "push_bit 1 w", folded h_def]
  have p': "unat (push_bit 1 w) = (if x < h then 2 * x else 2 * x - 2 * h)" and lt': "x < 2 * h"
    using p lt by (simp_all add: x_def h_def)
  show "bit w n = bit (push_bit 1 w) n \<Longrightarrow> sint (push_bit 1 w) = 2 * sint w"
    unfolding b s s2 p' using lt' by (auto split: if_splits)
  show "bit w n \<noteq> bit (push_bit 1 w) n \<Longrightarrow> 2 * sint w \<notin> {- (2 ^ n)..<2 ^ n}"
    unfolding b s ih p' using lt' by (auto split: if_splits)
qed

lemma out_of_range_grows:
  assumes "2 * x \<notin> {- (2 ^ n)..<(2::int) ^ n}" shows "x * 2 ^ Suc k \<notin> {- (2 ^ n)..<2 ^ n}"
proof -
  have k: "(1::int) \<le> 2 ^ k" and h: "(0::int) < 2 ^ n" by simp_all
  have "x * 2 ^ Suc k = (2 * x) * 2 ^ k" by simp
  moreover have "2 * x < - (2 ^ n) \<or> 2 ^ n \<le> 2 * x" using assms by auto
  ultimately show ?thesis
  proof (elim disjE)
    assume e: "x * 2 ^ Suc k = (2 * x) * 2 ^ k" and l: "2 * x < - (2 ^ n)"
    have "(2 * x) * 2 ^ k \<le> (2 * x) * 1"
      using l k h by (intro mult_left_mono_neg) linarith+
    then show ?thesis using e l by auto
  next
    assume e: "x * 2 ^ Suc k = (2 * x) * 2 ^ k" and l: "2 ^ n \<le> 2 * x"
    have "0 \<le> 2 * x" using l order_trans[of 0 "(2::int) ^ n" "2 * x"] by simp
    then have "(2 * x) * 1 \<le> (2 * x) * 2 ^ k" using k by (intro mult_left_mono) auto
    then show ?thesis using e l by auto
  qed
qed

text \<open>Both loops have this shape; \<open>m\<close> is the number of the sign bit.\<close>

lemma left_loop_overflow:
  assumes "LENGTH('a) = Suc m"
  shows "(bit w m \<noteq> bit (push_bit 1 w) m \<or> sint (push_bit 1 w) * 2 ^ n \<notin> {- (2 ^ m)..<2 ^ m}) \<longleftrightarrow>
     sint (w :: 'a::len word) * 2 ^ Suc n \<notin> {- (2 ^ m)..<2 ^ m}"
proof (cases "bit w m = bit (push_bit 1 w) m")
  case True
  then show ?thesis using shl_sint(1)[OF assms True] by (simp only: power_Suc mult.assoc mult.left_commute) simp
next
  case False
  then show ?thesis using out_of_range_grows[OF shl_sint(2)[OF assms False], of n] by simp
qed

lemma ash_left_spec:
  "ash_left n b p = (b', p') \<Longrightarrow> n \<le> 16 \<Longrightarrow>
    b' = push_bit n b \<and>
    flags p' = (case flags p of (ng, z, v, c) \<Rightarrow>
      (ng, z, v \<or> sint (ucast b :: u16) * 2 ^ n \<notin> {-32768..<32768}, if n = 0 then c else bit b (16 - n)))"
proof (induction n arbitrary: b p)
  case 0
  have "- 32768 \<le> sint (ucast b :: u16)" "sint (ucast b :: u16) < 32768"
    using sint_greater_eq[of "ucast b :: u16"] sint_less[of "ucast b :: u16"] by simp_all
  then show ?case using 0 by (simp split: prod.split)
next
  case (Suc n)
  define p1 where "p1 = (if b AND 0x8000 \<noteq> 0 then p OR PSW_C else p AND NOT PSW_C)"
  define p2 where "p2 = (if (b XOR push_bit 1 b) AND 0x8000 \<noteq> 0 then p1 OR PSW_V else p1)"
  have e: "ash_left n (push_bit 1 b) p2 = (b', p')"
    using Suc.prems(1) by (simp only: ash_left.simps Let_def p1_def [symmetric] p2_def [symmetric])
  have i: "(x AND 0x8000 \<noteq> 0) = bit x 15" for x :: u32 using and_exp_eq_0_iff_not_bit[of x 15] by simp
  have u: "ucast (push_bit 1 b) = push_bit 1 (ucast b :: u16)"
    by (rule bit_word_eqI) (simp only: bit_unsigned_iff bit_push_bit_iff, auto)
  have o: "(bit b 15 \<noteq> bit (push_bit 1 b) 15 \<or> sint (ucast (push_bit 1 b) :: u16) * 2 ^ n \<notin> {-32768..<32768}) \<longleftrightarrow>
      sint (ucast b :: u16) * 2 ^ Suc n \<notin> {-32768..<32768}"
  proof -
    have "bit (ucast x :: u16) 15 = bit x 15" for x :: u32 by (simp add: bit_simps)
    moreover have "bit (push_bit 1 (ucast b) :: u16) 15 = bit (push_bit 1 b) 15" unfolding u [symmetric] by (simp add: bit_simps)
    moreover have "LENGTH(16) = Suc 15" "(2::int) ^ 15 = 32768" by simp_all
    ultimately show ?thesis using left_loop_overflow[of 15 "ucast b :: u16" n] unfolding u by simp
  qed
  obtain ng z v c where f: "flags p = (ng, z, v, c)" by (metis prod.exhaust)
  have f2: "flags p2 = (ng, z, v \<or> bit b 15 \<noteq> bit (push_bit 1 b) 15, bit b 15)"
    unfolding p2_def p1_def i by (simp add: f bit_simps)
  have "b' = push_bit n (push_bit 1 b)" "flags p' = (ng, z,
      (v \<or> bit b 15 \<noteq> bit (push_bit 1 b) 15) \<or> sint (ucast (push_bit 1 b) :: u16) * 2 ^ n \<notin> {-32768..<32768},
      if n = 0 then bit b 15 else bit (push_bit 1 b) (16 - n))"
    using Suc.IH[OF e] Suc.prems(2) by (simp_all add: f2)
  moreover have "push_bit n (push_bit 1 b) = push_bit (Suc n) b" by (simp add: push_bit_push_bit)
  moreover have "(if n = 0 then bit b 15 else bit (push_bit 1 b) (16 - n)) = bit b (16 - Suc n)"
  proof -
    have "bit (push_bit 1 b) k = bit b (k - 1)" if "1 \<le> k" "k < 32" for k
      using that by (simp only: bit_push_bit_iff) simp
    from this[of "16 - n"] show ?thesis using Suc.prems(2) by (cases n) simp_all
  qed
  ultimately show ?case by (simp only: f prod.case disj_assoc o) simp
qed

lemma ashc_left_spec:
  "ashc_left n b p = (b', p') \<Longrightarrow> n \<le> 31 \<Longrightarrow>
    b' = push_bit n b \<and>
    flags p' = (case flags p of (ng, z, v, c) \<Rightarrow>
      (ng, z, v \<or> sint b * 2 ^ n \<notin> {- (2 ^ 31)..<2 ^ 31}, if n = 0 then c else bit b (32 - n)))"
proof (induction n arbitrary: b p)
  case 0
  have "- (2 ^ 31) \<le> sint b" "sint b < 2 ^ 31" using sint_greater_eq[of b] sint_less[of b] by simp_all
  then show ?case using 0 by (simp split: prod.split)
next
  case (Suc n)
  define p1 where "p1 = (if b AND 0x80000000 \<noteq> 0 then p OR PSW_C else p AND NOT PSW_C)"
  define p2 where "p2 = (if (b XOR push_bit 1 b) AND 0x80000000 \<noteq> 0 then p1 OR PSW_V else p1)"
  have e: "ashc_left n (push_bit 1 b) p2 = (b', p')"
    using Suc.prems(1) by (simp only: ashc_left.simps Let_def p1_def [symmetric] p2_def [symmetric])
  have i: "(x AND 0x80000000 \<noteq> 0) = bit x 31" for x :: u32 using and_exp_eq_0_iff_not_bit[of x 31] by simp
  have o: "(bit b 31 \<noteq> bit (push_bit 1 b) 31 \<or> sint (push_bit 1 b) * 2 ^ n \<notin> {- (2 ^ 31)..<2 ^ 31}) \<longleftrightarrow>
      sint b * 2 ^ Suc n \<notin> {- (2 ^ 31)..<2 ^ 31}"
    by (rule left_loop_overflow) simp
  obtain ng z v c where f: "flags p = (ng, z, v, c)" by (metis prod.exhaust)
  have f2: "flags p2 = (ng, z, v \<or> bit b 31 \<noteq> bit (push_bit 1 b) 31, bit b 31)"
    unfolding p2_def p1_def i by (simp add: f bit_simps)
  have "b' = push_bit n (push_bit 1 b)" "flags p' = (ng, z,
      (v \<or> bit b 31 \<noteq> bit (push_bit 1 b) 31) \<or> sint (push_bit 1 b) * 2 ^ n \<notin> {- (2 ^ 31)..<2 ^ 31},
      if n = 0 then bit b 31 else bit (push_bit 1 b) (32 - n))"
    using Suc.IH[OF e] Suc.prems(2) unfolding f2 by simp_all
  moreover have "push_bit n (push_bit 1 b) = push_bit (Suc n) b" by (simp add: push_bit_push_bit)
  moreover have "(if n = 0 then bit b 31 else bit (push_bit 1 b) (32 - n)) = bit b (32 - Suc n)"
  proof -
    have "bit (push_bit 1 b) k = bit b (k - 1)" if "1 \<le> k" "k < 32" for k
      using that by (simp only: bit_push_bit_iff) simp
    from this[of "32 - n"] show ?thesis using Suc.prems(2) by (cases n) simp_all
  qed
  ultimately show ?case by (simp only: f prod.case disj_assoc o) simp
qed

section \<open>Shift by a signed count\<close>

text \<open>Value, V and C of an arithmetic shift of a word by a signed count.\<close>

definition shift_spec :: "'a::len word \<Rightarrow> int \<Rightarrow> bool \<Rightarrow> 'a word \<times> bool \<times> bool" where
  "shift_spec w k c =
    (let x = sint w; h = 2 ^ (LENGTH('a) - 1) in
     if 0 \<le> k then
       (word_of_int (x * 2 ^ nat k), x * 2 ^ nat k < - h \<or> h \<le> x * 2 ^ nat k,
        if k = 0 then c else k \<le> int LENGTH('a) \<and> bit w (LENGTH('a) - nat k))
     else (word_of_int (x div 2 ^ nat (- k)), False, odd (x div 2 ^ (nat (- k) - 1))))"

definition shift_count :: "u16 \<Rightarrow> int" where
  "shift_count w = (let n = int (unat (w AND 0x3F)) in if n < 32 then n else n - 64)"

lemma count_sign: "(w AND 0x20 \<noteq> 0) = (32 \<le> unat (w AND 0x3F))" for w :: u16
proof -
  have b: "(w AND 0x20 \<noteq> 0) = bit (w AND 0x3F) 5" using and_exp_eq_0_iff_not_bit[of w 5] by (simp add: bit_simps)
  have lt: "unat (w AND 0x3F) < 64" using word_and_le1[of w "0x3F"] by (simp add: word_le_nat_alt)
  have "bit (w AND 0x3F) 5 = odd (unat (w AND 0x3F) div 32)" by (subst bit_nat) simp_all
  moreover have "unat (w AND 0x3F) div 32 = (if unat (w AND 0x3F) < 32 then 0 else 1)" using lt by auto
  ultimately show ?thesis unfolding b by auto
qed

lemma push_bit_sint: "push_bit n w = word_of_int (sint w * 2 ^ n)"
  by (simp add: push_bit_eq_mult)

lemma word_of_div_bit: "bit (word_of_int (sint w div 2 ^ n) :: 'a::len word) i = (i < LENGTH('a) \<and> bit (w :: 'a word) (min (LENGTH('a) - 1) (n + i)))"
proof -
  have "sint w div 2 ^ n = drop_bit n (sint w)" by (simp add: drop_bit_eq_div)
  then show ?thesis by (simp add: bit_word_of_int_iff bit_drop_bit_eq bit_signed_iff)
qed

lemma odd_div_bit: "odd (sint w div 2 ^ n) = bit (w :: 'a::len word) (min (LENGTH('a) - 1) n)"
proof -
  have "odd (sint w div 2 ^ n) = bit (sint w) n" by (simp add: bit_iff_odd)
  then show ?thesis by (simp add: bit_signed_iff)
qed

section \<open>ASH and ASHC\<close>

lemma test_bit: "(x AND push_bit k 1 \<noteq> 0) = bit (x :: 'a::len word) k"
  using and_exp_eq_0_iff_not_bit[of x k] by (simp add: push_bit_of_1)

lemma ucast_ucast16: "(ucast (ucast w :: u32) :: u16) = w" for w :: u16
  by (rule bit_word_eqI) (simp add: bit_simps)

lemma carry_set_clr: "flags (psw (if d then psw_set PSW_C s else CLC s)) =
    (case flags (psw s) of (n, z, v, c) \<Rightarrow> (n, z, v, d))"
  by (simp split: prod.split)

lemma regs_set_clr: "regs (if d then psw_set PSW_C s else CLC s) = regs s"
  by simp

lemma ones16: "bit (65535 :: int) j = (j < 16)"
proof -
  have "(65535 :: int) = mask 16" by (simp add: mask_eq_exp_minus_1)
  then show ?thesis by (simp only: bit_mask_iff possible_bit_def) auto
qed

lemma ash_right_value:
  assumes "1 \<le> sh" "sh \<le> 16"
  shows "(ucast ((drop_bit sh (ucast w) OR ucast (push_bit (16 - sh) (if neg16 w then 0xFFFF else 0 :: u16))) AND 0xFFFF :: u32) :: u16)
      = word_of_int (sint w div 2 ^ sh)"
proof (rule bit_word_eqI)
  fix i assume i: "i < LENGTH(16)"
  have m: "bit (if neg16 w then 0xFFFF else 0 :: u16) j = (neg16 w \<and> j < 16)" for j
    by (simp add: ones16)
  have f: "bit (0xFFFF :: u32) i" using i by (simp add: ones16)
  have "bit (ucast ((drop_bit sh (ucast w) OR ucast (push_bit (16 - sh) (if neg16 w then 0xFFFF else 0 :: u16))) AND 0xFFFF :: u32) :: u16) i
      = ((sh + i < 16 \<and> bit w (sh + i)) \<or> (16 - sh \<le> i \<and> neg16 w))"
    using i assms f bit_imp_le_length[of w "sh + i"]
    by (simp only: bit_unsigned_iff bit_and_iff bit_or_iff bit_drop_bit_eq bit_push_bit_iff m o_def) auto
  also have "\<dots> = bit (word_of_int (sint w div 2 ^ sh) :: u16) i"
  proof (cases "sh + i < 16")
    case True
    then have "min (LENGTH(16) - 1) (sh + i) = sh + i" by simp
    moreover have "16 - sh \<le> i \<longleftrightarrow> False" using True assms by simp
    ultimately show ?thesis unfolding word_of_div_bit using True i by simp
  next
    case False
    then have "16 - sh \<le> i" "min (LENGTH(16) - 1) (sh + i) = 15" by auto
    then show ?thesis unfolding word_of_div_bit neg16_bit using False i by simp
  qed
  finally show "bit (ucast ((drop_bit sh (ucast w) OR ucast (push_bit (16 - sh) (if neg16 w then 0xFFFF else 0 :: u16))) AND 0xFFFF :: u32) :: u16) i
      = bit (word_of_int (sint w div 2 ^ sh) :: u16) i" .
qed

lemma ash_right_all:
  assumes "16 \<le> sh" shows "word_of_int (sint (w :: u16) div 2 ^ sh) = (if neg16 w then 0xFFFF else 0 :: u16)"
proof (rule bit_word_eqI)
  fix i assume i: "i < LENGTH(16)"
  show "bit (word_of_int (sint w div 2 ^ sh) :: u16) i = bit (if neg16 w then 0xFFFF else 0 :: u16) i"
    using i assms unfolding word_of_div_bit by (simp add: neg16_bit min_def ones16)
qed

lemma ash_right_spec:
  fixes w :: u16
  assumes "ash_right sh (ucast w) s = (b', s')" "1 \<le> sh"
  shows "regs s' = regs s \<and> ucast b' = (word_of_int (sint w div 2 ^ sh) :: u16) \<and>
    flags (psw s') = (neg16 (word_of_int (sint w div 2 ^ sh)), (word_of_int (sint w div 2 ^ sh) :: u16) = 0,
      ISSET PSW_V s, odd (sint w div 2 ^ (sh - 1)))"
proof (cases "sh \<ge> 17")
  case True
  let ?m = "if neg16 w then 0xFFFF else 0 :: u16"
  have r: "word_of_int (sint w div 2 ^ sh) = ?m" using True by (intro ash_right_all) simp
  have d: "odd (sint w div 2 ^ (sh - 1)) = (?m \<noteq> 0)" 
  proof -
    have "min (LENGTH(16) - 1) (sh - 1) = 15" using True by auto
    then show ?thesis unfolding odd_div_bit neg16_bit by simp
  qed
  have e: "b' = ucast ?m" "s' = NZ (ucast ?m) (if ?m \<noteq> 0 then psw_set PSW_C s else CLC s)"
    using assms(1) True by (simp_all add: ash_right_def ucast_ucast16 split: if_splits)
  show ?thesis
    unfolding e r d psw_NZ_reduce ISSET_flags regs_macros carry_set_clr regs_set_clr ucast_ucast16
    by (simp add: case_prod_beta)
next
  case False
  define b1 where "b1 = (drop_bit sh (ucast w) OR ucast (push_bit (16 - sh) (if neg16 w then 0xFFFF else 0 :: u16))) AND (0xFFFF :: u32)"
  define c where "c = bit w (sh - 1)"
  have cc: "((ucast w :: u32) AND push_bit (sh - 1) 1 \<noteq> 0) = c"
    unfolding test_bit c_def using False by (simp add: bit_simps) (cases "sh - 1 < 32"; simp)
  have "ash_right sh (ucast w) s =
      (b1, psw_set_if (b1 AND 0x8000 \<noteq> 0) PSW_N (NZ b1 (if c then psw_set PSW_C s else CLC s)))"
    using False unfolding ash_right_def Let_def ucast_ucast16 cc b1_def [symmetric] by simp
  then have "b' = b1" "s' = psw_set_if (b1 AND 0x8000 \<noteq> 0) PSW_N (NZ b1 (if c then psw_set PSW_C s else CLC s))"
    using assms(1) by auto
  moreover have v: "ucast b1 = (word_of_int (sint w div 2 ^ sh) :: u16)"
    unfolding b1_def using assms(2) False by (intro ash_right_value) simp_all
  moreover have "(b1 AND 0x8000 \<noteq> 0) = neg16 (ucast b1)"
    using and_exp_eq_0_iff_not_bit[of b1 15] by (simp add: neg16_bit bit_simps)
  moreover have "odd (sint w div 2 ^ (sh - 1)) = c"
  proof -
    have "min (LENGTH(16) - 1) (sh - 1) = sh - 1" using False by simp
    then show ?thesis unfolding odd_div_bit c_def by simp
  qed
  ultimately show ?thesis
    by (simp add: psw_NZ_reduce ISSET_flags carry_set_clr regs_set_clr split: prod.split)
qed

lemma reg_field_bound: "reg_field s < 8"
  unfolding reg_field_def using word_and_le1[of "drop_bit 6 (ir s)" 7] by (simp add: word_le_nat_alt)

lemma RD_U_eq:
  "rd_operand bus 9 (dst_field s) by s = (False, s1) \<Longrightarrow> RD_U bus by s k = k (set_reg 8 (regs s1 9) s1)"
  by (simp add: RD_U_def try_be_def)

lemma range16: "- 32768 \<le> sint (w :: u16)" "sint w < 32768"
  using sint_greater_eq[of w] sint_less[of w] by simp_all

lemma flags_cleared: "flags (psw (psw_clr (PSW_N OR PSW_Z OR PSW_V) s)) = (False, False, False, ISSET PSW_C s)"
  by (simp add: ISSET_flags case_prod_beta)

lemma ash_big_left:
  fixes w :: u16
  assumes "17 \<le> n" shows "(sint w * 2 ^ n < - 32768 \<or> 32768 \<le> sint w * 2 ^ n) = (w \<noteq> 0)"
    "word_of_int (sint w * 2 ^ n) = (0 :: u16)"
proof -
  have p: "(65536::int) \<le> 2 ^ n" using power_increasing[of 16 n "2::int"] assms by simp
  show "(sint w * 2 ^ n < - 32768 \<or> 32768 \<le> sint w * 2 ^ n) = (w \<noteq> 0)"
  proof (cases "sint w = 0")
    case False
    have "65536 \<le> \<bar>sint w\<bar> * 2 ^ n" using mult_mono[of 1 "\<bar>sint w\<bar>" 65536 "2 ^ n"] p False by simp
    then have "65536 \<le> \<bar>sint w * 2 ^ n\<bar>" by (simp add: abs_mult)
    then show ?thesis using False by auto
  qed (simp add: signed_eq_0_iff)
  have "push_bit n w = 0" by (rule bit_word_eqI) (use assms in \<open>simp add: bit_push_bit_iff\<close>)
  then show "word_of_int (sint w * 2 ^ n) = (0 :: u16)" by (simp only: push_bit_sint)
qed

lemma push_low: "(ucast (push_bit n (ucast w :: u32)) :: u16) = word_of_int (sint w * 2 ^ n)" for w :: u16
proof -
  have "(ucast (push_bit n (ucast w :: u32)) :: u16) = push_bit n w"
    by (rule bit_word_eqI) (simp only: bit_unsigned_iff bit_push_bit_iff, auto)
  then show ?thesis by (simp only: push_bit_sint)
qed

text \<open>The shift proper, after the operand fetch.\<close>

definition ash_body :: "'x mach \<Rightarrow> exit_to \<times> 'x mach" where
  "ash_body s =
    (let reg = reg_field s;
         s1 = psw_clr (PSW_N OR PSW_Z OR PSW_V) s;
         b = ucast (regs s1 reg) :: u32;
         sh = unat (regs s1 9 AND 0x3F);
         (b', s2) =
           (if regs s1 9 AND 0x20 \<noteq> 0 then ash_right (64 - sh) b s1
            else if sh = 0 then (b, NZ b s1)
            else if sh \<ge> 17 then
              (0, psw_set PSW_Z (CLC (psw_set_if (b AND 0xFFFF \<noteq> 0) PSW_V s1)))
            else
              let (b1, p1) = ash_left sh b (psw s1) in (b1, NZ b1 (s1\<lparr>psw := p1\<rparr>)))
     in svc (set_reg reg (ucast b') s2))"

lemma op_ash_body: "op_ash bus by s = RD_U bus by s ash_body"
  unfolding op_ash_def ash_body_def [abs_def] by (rule refl)

lemma ash_body_spec:
  fixes s :: "'x mach"
  assumes "ash_body s = (e, s')"
  shows "e = GoService \<and> (case shift_spec (regs s (reg_field s)) (shift_count (regs s 9)) (ISSET PSW_C s) of (r, v, c) \<Rightarrow>
       regs s' = (regs s)(reg_field s := r) \<and> flags (psw s') = (neg16 r, r = 0, v, c))"
proof -
  define w where "w = regs s (reg_field s)"
  define n where "n = unat (regs s 9 AND 0x3F)"
  define s1 where "s1 = psw_clr (PSW_N OR PSW_Z OR PSW_V) s"
  have r1: "regs s1 = regs s" by (simp only: s1_def regs_macros)
  have f1: "flags (psw s1) = (False, False, False, ISSET PSW_C s)" by (simp only: s1_def flags_cleared)
  have n64: "n < 64" unfolding n_def using word_and_le1[of "regs s 9" "0x3F"] by (simp add: word_le_nat_alt)
  have cs: "(regs s 9 AND 0x20 \<noteq> 0) = (32 \<le> n)" by (simp only: count_sign n_def)
  define R where "R = (if 32 \<le> n then ash_right (64 - n) (ucast w) s1
            else if n = 0 then (ucast w, NZ (ucast w) s1)
            else if n \<ge> 17 then (0, psw_set PSW_Z (CLC (psw_set_if ((ucast w :: u32) AND 0xFFFF \<noteq> 0) PSW_V s1)))
            else let (b1, p1) = ash_left n (ucast w) (psw s1) in (b1, NZ b1 (s1\<lparr>psw := p1\<rparr>)))"
  obtain b' s2 where R: "R = (b', s2)" by fastforce
  have "ash_body s = svc (set_reg (reg_field s) (ucast b') s2)"
    unfolding ash_body_def Let_def s1_def [symmetric] r1 cs w_def [symmetric] n_def [symmetric] R_def [symmetric, unfolded Let_def]
    by (simp add: R)
  then have es: "e = GoService" "s' = set_reg (reg_field s) (ucast b') s2" using assms by (simp_all add: svc_def)
  have k: "shift_count (regs s 9) = (if n < 32 then int n else int n - 64)" by (simp add: shift_count_def n_def Let_def del: of_nat_unat)
  have "regs s2 = regs s \<and> (case shift_spec w (shift_count (regs s 9)) (ISSET PSW_C s) of (r, v, c) \<Rightarrow>
      ucast b' = r \<and> flags (psw s2) = (neg16 r, r = 0, v, c))"
  proof -
    have v1: "ISSET PSW_V s1 = False" "ISSET PSW_C s1 = ISSET PSW_C s" by (simp_all only: ISSET_flags f1 fst_conv snd_conv)
    consider (right) "32 \<le> n" | (zero) "n = 0" | (big) "17 \<le> n" "n < 32" | (left) "1 \<le> n" "n \<le> 16" by linarith
    then show ?thesis
    proof cases
      case right
      have a: "ash_right (64 - n) (ucast w) s1 = (b', s2)" using R right by (simp add: R_def)
      have "1 \<le> 64 - n" "\<not> 0 \<le> int n - 64" "nat (- (int n - 64)) = 64 - n" using n64 by auto
      with ash_right_spec[OF a this(1)] right show ?thesis by (simp add: k shift_spec_def Let_def v1 r1)
    next
      case zero
      have "R = (ucast w, NZ (ucast w) s1)" using zero by (simp add: R_def)
      then have "b' = ucast w" "s2 = NZ (ucast w) s1" using R by simp_all
      then show ?thesis using zero range16[of w]
        by (simp add: k shift_spec_def psw_NZ_reduce v1 r1 ucast_ucast16)
    next
      case big
      have z: "((ucast w :: u32) AND 0xFFFF \<noteq> 0) = (w \<noteq> 0)"
      proof -
        have "(ucast w :: u32) AND 0xFFFF = ucast w"
        proof (rule bit_word_eqI)
          fix j assume "j < LENGTH(32)"
          have "bit w j \<Longrightarrow> j < 16" using bit_imp_le_length[of w j] by simp
          then show "bit ((ucast w :: u32) AND 0xFFFF) j = bit (ucast w :: u32) j"
            by (simp add: bit_and_iff bit_unsigned_iff ones16) blast
        qed
        moreover have "(ucast w :: u32) = 0 \<longleftrightarrow> w = 0" using unat_ucast_up[of w] unsigned_eq_0_iff[of w, where ?'a = nat]
          unsigned_eq_0_iff[of "ucast w :: u32", where ?'a = nat] by simp
        ultimately show ?thesis by simp
      qed
      have "b' = 0" "s2 = psw_set PSW_Z (CLC (psw_set_if (w \<noteq> 0) PSW_V s1))" using R big by (simp_all add: R_def z)
      then show ?thesis using big ash_big_left[OF big(1), of w] f1
        by (simp add: k shift_spec_def Let_def r1 neg16_nat)
    next
      case left
      obtain b1 p1 where l: "ash_left n (ucast w) (psw s1) = (b1, p1)" by fastforce
      have "R = (b1, NZ b1 (s1\<lparr>psw := p1\<rparr>))" using left l by (simp add: R_def)
      then have e: "b' = b1" "s2 = NZ b1 (s1\<lparr>psw := p1\<rparr>)" using R by simp_all
      note sp = ash_left_spec[OF l left(2)]
      have b: "ucast b1 = (word_of_int (sint w * 2 ^ n) :: u16)" using sp by (simp only: push_low)
      have fp: "ISSET PSW_V (s1\<lparr>psw := p1\<rparr>) = (sint w * 2 ^ n \<notin> {-32768..<32768})" "ISSET PSW_C (s1\<lparr>psw := p1\<rparr>) = bit w (16 - n)"
      proof -
        have "16 - n < 32" by simp
        then show "ISSET PSW_V (s1\<lparr>psw := p1\<rparr>) = (sint w * 2 ^ n \<notin> {-32768..<32768})"
          "ISSET PSW_C (s1\<lparr>psw := p1\<rparr>) = bit w (16 - n)"
          using sp left by (simp_all add: ISSET_flags f1 ucast_ucast16 bit_unsigned_iff del: diff_less)
      qed
      show ?thesis unfolding e psw_NZ_reduce fp b using left
        by (auto simp: k shift_spec_def Let_def r1)
    qed
  qed
  then show ?thesis unfolding es w_def by (auto simp: set_reg_def)
qed

definition ashc_pair :: "nat \<Rightarrow> (nat \<Rightarrow> u16) \<Rightarrow> u32" where
  "ashc_pair reg rs = push_bit 16 (ucast (rs reg)) OR ucast (rs (if odd reg then reg else reg + 1))"

definition ashc_store :: "nat \<Rightarrow> u32 \<Rightarrow> (nat \<Rightarrow> u16) \<Rightarrow> (nat \<Rightarrow> u16)" where
  "ashc_store reg v rs =
    (if odd reg then rs(reg := ucast v) else rs(reg := ucast (drop_bit 16 v), reg + 1 := ucast v))"

definition ashc_body :: "'x mach \<Rightarrow> exit_to \<times> 'x mach" where
  "ashc_body s =
    (let reg = reg_field s; reg1 = (if odd reg then reg else reg + 1);
         s1 = psw_clr (PSW_N OR PSW_Z OR PSW_V) s;
         v = push_bit 16 (ucast (regs s1 reg)) OR ucast (regs s1 reg1) :: u32;
         sh = unat (regs s1 9 AND 0x3F);
         (v', s2) =
           (if regs s1 9 AND 0x20 \<noteq> 0 then ashc_right (64 - sh) v s1
            else let (v1, p1) = ashc_left sh v (psw s1) in (v1, s1\<lparr>psw := p1\<rparr>));
         s3 = psw_set_if (v' AND 0x80000000 \<noteq> 0) PSW_N (psw_set_if (v' = 0) PSW_Z s2)
     in svc (if odd reg then set_reg reg (ucast v') s3
             else set_reg (reg + 1) (ucast v') (set_reg reg (ucast (drop_bit 16 v')) s3)))"

lemma op_ashc_body: "op_ashc bus by s = RD_U bus by s ashc_body"
  unfolding op_ashc_def ashc_body_def [abs_def] by (rule refl)

lemma bit31: "(x AND 0x80000000 \<noteq> 0) = bit (x :: u32) 31"
  using and_exp_eq_0_iff_not_bit[of x 31] by simp

lemma ones32: "bit (4294967295 :: int) j = (j < 32)"
proof -
  have "(4294967295 :: int) = mask 32" by (simp add: mask_eq_exp_minus_1)
  then show ?thesis by (simp only: bit_mask_iff possible_bit_def) auto
qed

lemma ashc_right_value:
  fixes v :: u32
  assumes "1 \<le> sh"
  shows "(if sh \<ge> 32 then (if bit v 31 then 0xFFFFFFFF else 0)
      else drop_bit sh v OR push_bit (32 - sh) (if bit v 31 then 0xFFFFFFFF else 0)) = word_of_int (sint v div 2 ^ sh)"
proof (rule bit_word_eqI)
  fix i assume i: "i < LENGTH(32)"
  have m: "bit (if bit v 31 then 0xFFFFFFFF else 0 :: u32) j = (bit v 31 \<and> j < 32)" for j
    by (simp add: ones32)
  have r: "bit (word_of_int (sint v div 2 ^ sh) :: u32) i = (if sh + i < 32 then bit v (sh + i) else bit v 31)"
  proof (cases "sh + i < 32")
    case True
    then have "min (LENGTH(32) - 1) (sh + i) = sh + i" by simp
    then show ?thesis unfolding word_of_div_bit using True i by simp
  next
    case False
    then have "min (LENGTH(32) - 1) (sh + i) = 31" by auto
    then show ?thesis unfolding word_of_div_bit using False i by simp
  qed
  show "bit (if sh \<ge> 32 then (if bit v 31 then 0xFFFFFFFF else 0)
      else drop_bit sh v OR push_bit (32 - sh) (if bit v 31 then 0xFFFFFFFF else 0)) i =
      bit (word_of_int (sint v div 2 ^ sh) :: u32) i"
  proof (cases "sh \<ge> 32")
    case True
    then show ?thesis unfolding r using i m[of i] by auto
  next
    case False
    then show ?thesis unfolding r using i assms bit_imp_le_length[of v "sh + i"]
      by (simp only: if_False bit_or_iff bit_drop_bit_eq bit_push_bit_iff m o_def) auto
  qed
qed

lemma ashc_right_spec:
  assumes "ashc_right sh v s = (v', s')" "1 \<le> sh" "sh \<le> 32"
  shows "regs s' = regs s \<and> v' = word_of_int (sint v div 2 ^ sh) \<and>
    flags (psw s') = (case flags (psw s) of (n, z, vv, c) \<Rightarrow> (n, z, vv, odd (sint v div 2 ^ (sh - 1))))"
proof (cases "sh \<ge> 32")
  case True
  have "min (LENGTH(32) - 1) (sh - 1) = 31" using True by auto
  then have c: "odd (sint v div 2 ^ (sh - 1)) = bit v 31" unfolding odd_div_bit by simp
  have "ashc_right sh v s = (word_of_int (sint v div 2 ^ sh), if bit v 31 then psw_set PSW_C s else CLC s)"
    using True ashc_right_value[OF assms(2), of v] by (auto simp: ashc_right_def Let_def bit31)
  then show ?thesis using assms(1) carry_set_clr[of "bit v 31" s] regs_set_clr[of "bit v 31" s] unfolding c by auto
next
  case False
  have "min (LENGTH(32) - 1) (sh - 1) = sh - 1" using False by auto
  then have c: "odd (sint v div 2 ^ (sh - 1)) = bit v (sh - 1)" unfolding odd_div_bit by simp
  have "ashc_right sh v s = (word_of_int (sint v div 2 ^ sh), if bit v (sh - 1) then psw_set PSW_C s else CLC s)"
    using False ashc_right_value[OF assms(2), of v] unfolding ashc_right_def Let_def bit31 test_bit by simp
  then show ?thesis using assms(1) carry_set_clr[of "bit v (sh - 1)" s] regs_set_clr[of "bit v (sh - 1)" s] unfolding c by auto
qed

lemma flags_NZ32:
  "flags (psw (psw_set_if (v AND 0x80000000 \<noteq> 0) PSW_N (psw_set_if (v = 0) PSW_Z s))) =
     (case flags (psw s) of (n, z, vv, c) \<Rightarrow> (n \<or> bit v 31, z \<or> v = 0, vv, c))" for v :: u32
  unfolding bit31 by (simp add: case_prod_beta)

lemma ashc_body_spec:
  fixes s :: "'x mach"
  assumes "ashc_body s = (e, s')"
  shows "e = GoService \<and> (case shift_spec (ashc_pair (reg_field s) (regs s)) (shift_count (regs s 9)) (ISSET PSW_C s) of
       (r, v, c) \<Rightarrow> regs s' = ashc_store (reg_field s) r (regs s) \<and> flags (psw s') = (bit r 31, r = 0, v, c))"
proof -
  define w where "w = ashc_pair (reg_field s) (regs s)"
  define n where "n = unat (regs s 9 AND 0x3F)"
  define s1 where "s1 = psw_clr (PSW_N OR PSW_Z OR PSW_V) s"
  have r1: "regs s1 = regs s" by (simp only: s1_def regs_macros)
  have f1: "flags (psw s1) = (False, False, False, ISSET PSW_C s)" by (simp only: s1_def flags_cleared)
  have n64: "n < 64" unfolding n_def using word_and_le1[of "regs s 9" "0x3F"] by (simp add: word_le_nat_alt)
  have cs: "(regs s 9 AND 0x20 \<noteq> 0) = (32 \<le> n)" by (simp only: count_sign n_def)
  define R where "R = (if 32 \<le> n then ashc_right (64 - n) w s1
            else let (v1, p1) = ashc_left n w (psw s1) in (v1, s1\<lparr>psw := p1\<rparr>))"
  obtain v' s2 where R: "R = (v', s2)" by fastforce
  define s3 where "s3 = psw_set_if (v' AND 0x80000000 \<noteq> 0) PSW_N (psw_set_if (v' = 0) PSW_Z s2)"
  have "ashc_body s = svc (if odd (reg_field s) then set_reg (reg_field s) (ucast v') s3
             else set_reg (reg_field s + 1) (ucast v') (set_reg (reg_field s) (ucast (drop_bit 16 v')) s3))"
    unfolding ashc_body_def Let_def s1_def [symmetric] r1 cs ashc_pair_def [symmetric] w_def [symmetric] n_def [symmetric]
      R_def [symmetric, unfolded Let_def]
    by (simp add: R s3_def)
  then have es: "e = GoService" "s' = (if odd (reg_field s) then set_reg (reg_field s) (ucast v') s3
             else set_reg (reg_field s + 1) (ucast v') (set_reg (reg_field s) (ucast (drop_bit 16 v')) s3))"
    using assms by (simp_all add: svc_def)
  have k: "shift_count (regs s 9) = (if n < 32 then int n else int n - 64)"
    by (simp add: shift_count_def n_def Let_def del: of_nat_unat)
  have "regs s2 = regs s \<and> (case shift_spec w (shift_count (regs s 9)) (ISSET PSW_C s) of (r, v, c) \<Rightarrow>
      v' = r \<and> flags (psw s2) = (False, False, v, c))"
  proof (cases "32 \<le> n")
    case True
    have a: "ashc_right (64 - n) w s1 = (v', s2)" using R True by (simp add: R_def)
    have "1 \<le> 64 - n" "64 - n \<le> 32" "\<not> 0 \<le> int n - 64" "nat (- (int n - 64)) = 64 - n" using n64 True by auto
    with ashc_right_spec[OF a this(1,2)] True show ?thesis by (simp add: k shift_spec_def Let_def f1 r1)
  next
    case False
    obtain v1 p1 where l: "ashc_left n w (psw s1) = (v1, p1)" by fastforce
    have "R = (v1, s1\<lparr>psw := p1\<rparr>)" using False l by (simp add: R_def)
    then have e: "v' = v1" "s2 = s1\<lparr>psw := p1\<rparr>" using R by simp_all
    have n31: "n \<le> 31" using False by simp
    have p: "(2::int) ^ 31 = 2147483648" by simp
    note sp = ashc_left_spec[OF l n31, unfolded f1 p prod.case push_bit_sint]
    show ?thesis unfolding e using sp n31
      by (auto simp: k shift_spec_def Let_def r1 not_le)
  qed
  moreover have "regs s3 = regs s2" "flags (psw s3) = (case flags (psw s2) of (n, z, vv, c) \<Rightarrow> (n \<or> bit v' 31, z \<or> v' = 0, vv, c))"
    by (simp_all only: s3_def regs_macros flags_NZ32)
  ultimately show ?thesis unfolding es w_def [symmetric]
    by (auto simp: ashc_store_def set_reg_def fun_upd_twist)
qed

section \<open>MUL and DIV\<close>

lemma sint_of_range:
  assumes "LENGTH('a) = Suc n" "- (2 ^ n) \<le> q" "q < 2 ^ n" shows "sint (word_of_int q :: 'a::len word) = q"
  using assms by (simp add: signed_of_int signed_take_bit_int_eq_self)

lemma smod_facts:
  fixes p d :: int assumes "d \<noteq> 0"
  shows "p sdiv d * d + p smod d = p" "\<bar>p smod d\<bar> < \<bar>d\<bar>" "p smod d = 0 \<or> sgn (p smod d) = sgn p"
proof -
  show "p sdiv d * d + p smod d = p" by (simp add: sdiv_mult_smod_eq)
  have e: "p smod d = sgn p * (\<bar>p\<bar> mod \<bar>d\<bar>)" by (simp add: signed_modulo_int_def)
  have m: "0 \<le> \<bar>p\<bar> mod \<bar>d\<bar>" "\<bar>p\<bar> mod \<bar>d\<bar> < \<bar>d\<bar>" using assms by simp_all
  show "\<bar>p smod d\<bar> < \<bar>d\<bar>" unfolding e using m by (auto simp: abs_mult sgn_if)
  show "p smod d = 0 \<or> sgn (p smod d) = sgn p" unfolding e using m
    by (cases "\<bar>p\<bar> mod \<bar>d\<bar> = 0") (auto simp: sgn_mult)
qed

lemma pair_of_halves:
  "push_bit 16 (ucast (word_of_int (p div 65536) :: u16)) OR ucast (word_of_int p :: u16) = (word_of_int p :: u32)"
proof (rule bit_word_eqI)
  fix i assume "i < LENGTH(32)"
  moreover have "p div 65536 = drop_bit 16 p" by (simp add: drop_bit_eq_div)
  ultimately show "bit (push_bit 16 (ucast (word_of_int (p div 65536) :: u16)) OR ucast (word_of_int p :: u16) :: u32) i
      = bit (word_of_int p :: u32) i"
    by (cases "i < 16") (auto simp: bit_or_iff bit_push_bit_iff bit_unsigned_iff bit_word_of_int_iff bit_drop_bit_eq)
qed

lemma op_mul_spec:
  assumes "rd_operand bus 9 (dst_field s) by s = (False, s1)"
  shows "\<exists>s'. op_mul bus by s = (GoService, s') \<and>
    (let reg = reg_field s1; p = sint (regs s1 9) * sint (regs s1 reg) in
      (if odd reg then regs s' reg = word_of_int p else sint (ashc_pair reg (regs s')) = p) \<and>
      flags (psw s') = (p < 0, p = 0, False, p \<notin> {-32768..<32768}))"
proof -
  define p where "p = sint (regs s1 9) * sint (regs s1 (reg_field s1))"
  have rf: "reg_field s1 < 8" by (rule reg_field_bound)
  have rg: "reg_field (set_reg 8 w x) = reg_field x" for w x by (simp add: reg_field_def set_reg_def)
  have b: "\<bar>sint (w :: u16)\<bar> \<le> 32768" for w using range16[of w] by auto
  have pb: "\<bar>p\<bar> \<le> 32768 * 32768" unfolding p_def abs_mult by (rule mult_mono) (use b in auto)
  have sp: "sint (word_of_int p :: u32) = p" by (rule sint_of_range[of 31]) (use pb in auto)
  let ?t = "set_reg 8 (regs s1 9) s1"
  define s2 where "s2 = psw_set_if (p < 0) PSW_N (psw_set_if (p = 0) PSW_Z
     (psw_set_if (p < -32768 \<or> p > 32767) PSW_C (psw_clr (PSW_N OR PSW_Z OR PSW_V OR PSW_C) ?t)))"
  define s' where "s' = (if odd (reg_field s1) then set_reg (reg_field s1) (word_of_int p) s2
     else set_reg (reg_field s1) (word_of_int (p div 65536)) (set_reg (reg_field s1 + 1) (word_of_int p) s2))"
  have g: "regs ?t (reg_field s1) = regs s1 (reg_field s1)" "regs ?t 9 = regs s1 9" using rf by (simp_all add: set_reg_def)
  have e: "op_mul bus by s = (GoService, s')"
    unfolding op_mul_def RD_U_eq[OF assms] Let_def regs_macros rg g p_def [symmetric] svc_def s2_def [symmetric] s'_def [symmetric] ..
  have f: "flags (psw s2) = (p < 0, p = 0, False, p \<notin> {-32768..<32768})"
    unfolding s2_def by (auto simp: case_prod_beta)
  have "if odd (reg_field s1) then regs s' (reg_field s1) = word_of_int p else sint (ashc_pair (reg_field s1) (regs s')) = p"
    unfolding ashc_pair_def s'_def by (simp add: set_reg_def pair_of_halves sp)
  moreover have "flags (psw s') = flags (psw s2)" unfolding s'_def by (simp add: set_reg_def)
  ultimately show ?thesis
    using e f unfolding Let_def p_def [symmetric] by (intro exI[of _ s'] conjI) simp_all
qed

lemma op_div_spec:
  assumes "rd_operand bus 9 (dst_field s) by s = (False, s1)" "even (reg_field s1)"
  shows "\<exists>s'. op_div bus by s = (GoService, s') \<and>
    (let reg = reg_field s1; p = sint (ashc_pair reg (regs s1)); d = sint (regs s1 9);
         q = sint (regs s' reg); r = sint (regs s' (reg + 1)) in
     if d = 0 \<or> p sdiv d \<notin> {-32768..<32768}
     then regs s' = (regs s1)(8 := regs s1 9) \<and> ISSET PSW_V s' \<and> ISSET PSW_C s' = (d = 0)
     else q * d + r = p \<and> \<bar>r\<bar> < \<bar>d\<bar> \<and> (r = 0 \<or> sgn r = sgn p) \<and>
       flags (psw s') = (q < 0, q = 0, False, False))"
proof -
  define d where "d = sint (regs s1 9)"
  define p where "p = sint (ashc_pair (reg_field s1) (regs s1))"
  have rf: "reg_field s1 < 8" by (rule reg_field_bound)
  have rg: "reg_field (set_reg 8 w x) = reg_field x" for w x by (simp add: reg_field_def set_reg_def)
  let ?t = "set_reg 8 (regs s1 9) s1"
  have r1: "reg_field s1 + 1 < 8" using rf assms(2) by presburger
  have g: "regs ?t (reg_field s1) = regs s1 (reg_field s1)" "regs ?t (reg_field s1 + 1) = regs s1 (reg_field s1 + 1)"
    "regs ?t 9 = regs s1 9" using rf r1 by (simp_all add: set_reg_def)
  have p2: "sint (ucast (regs s1 (reg_field s1 + 1)) OR push_bit 16 (ucast (regs s1 (reg_field s1))) :: u32) = p"
    using assms(2) by (simp add: p_def ashc_pair_def or.commute)
  define t where "t = psw_clr (PSW_N OR PSW_Z OR PSW_V OR PSW_C) ?t"
  have ft: "flags (psw t) = (False, False, False, False)" and rt: "regs t = (regs s1)(8 := regs s1 9)"
    by (simp_all add: t_def case_prod_beta) (simp add: set_reg_def)
  define s' where "s' = (if regs s1 9 = 0 then psw_set PSW_V (psw_set PSW_C t)
             else if p = - 2147483648 \<and> d = -1 then psw_set PSW_Z (psw_set PSW_V t)
             else psw_set_if ((word_of_int (p sdiv d) :: u16) = 0) PSW_Z (psw_set_if (neg16 (word_of_int (p sdiv d))) PSW_N
               (if p sdiv d < -32768 \<or> p sdiv d > 32767 then psw_set PSW_V t
                else set_reg (reg_field s1 + 1) (word_of_int (p smod d)) (set_reg (reg_field s1) (word_of_int (p sdiv d)) t))))"
  have odd: "(if odd (reg_field s1) then reg_field s1 else reg_field s1 + 1) = reg_field s1 + 1" using assms(2) by simp
  have e: "op_div bus by s = (GoService, s')"
    unfolding op_div_def RD_U_eq[OF assms(1)] Let_def regs_macros rg odd g p2 d_def [symmetric] t_def [symmetric] svc_def s'_def
    by simp
  have dz: "regs s1 9 = 0 \<longleftrightarrow> d = 0" by (simp add: d_def signed_eq_0_iff)
  have min: "(- 2147483648 :: int) sdiv (- 1) = 2147483648" by (simp add: signed_divide_int_def)
  show ?thesis
  proof (cases "d = 0 \<or> p sdiv d \<notin> {-32768..<32768}")
    case True
    have "regs s' = regs t \<and> ISSET PSW_V s' \<and> ISSET PSW_C s' = (d = 0)"
      unfolding s'_def dz using True ft by (auto simp: ISSET_flags case_prod_beta)
    then show ?thesis using e True unfolding Let_def d_def [symmetric] p_def [symmetric] rt
      by (intro exI[of _ s']) simp
  next
    case False
    have nm: "\<not> (p = - 2147483648 \<and> d = -1)" using False min by auto
    have s': "s' = psw_set_if ((word_of_int (p sdiv d) :: u16) = 0) PSW_Z (psw_set_if (neg16 (word_of_int (p sdiv d))) PSW_N
                (set_reg (reg_field s1 + 1) (word_of_int (p smod d)) (set_reg (reg_field s1) (word_of_int (p sdiv d)) t)))"
      unfolding s'_def dz using False nm by auto
    have q: "sint (word_of_int (p sdiv d) :: u16) = p sdiv d" by (rule sint_of_range[of 15]) (use False in auto)
    have "d \<noteq> 0" using False by simp
    note sm = smod_facts[OF this, of p]
    have "\<bar>d\<bar> \<le> 32768" unfolding d_def using range16[of "regs s1 9"] by auto
    then have r: "sint (word_of_int (p smod d) :: u16) = p smod d"
      using sm(2) by (intro sint_of_range[of 15]) auto
    have n0: "neg16 w \<longleftrightarrow> sint w < 0" "w = 0 \<longleftrightarrow> sint w = 0" for w :: u16
    proof -
      show "neg16 w \<longleftrightarrow> sint w < 0" using u16_lt[of w] by (auto simp: sint16 simp del: of_nat_unat)
      show "w = 0 \<longleftrightarrow> sint w = 0" by (simp add: signed_eq_0_iff)
    qed
    have "regs s' (reg_field s1) = word_of_int (p sdiv d)" "regs s' (reg_field s1 + 1) = word_of_int (p smod d)"
      by (simp_all add: s' set_reg_def)
    moreover have "flags (psw s') = (p sdiv d < 0, p sdiv d = 0, False, False)"
      unfolding s' n0 q by (simp add: case_prod_beta) (simp add: set_reg_def ft)
    ultimately show ?thesis using e False sm unfolding Let_def d_def [symmetric] p_def [symmetric]
      by (intro exI[of _ s']) (simp add: q r)
  qed
qed

end
