(* ===== verification/KD11EA_Props.thy ===== *)
theory KD11EA_Props
  imports KD11EA_Run KD11EA_Shift
begin

unbundle bit_operations_syntax

text \<open>
  Properties of the 11/34 core: what holds in every state the entry points can reach, and
  what the compare, arithmetic, shift, divide and privileged instructions do, each with a
  witness on a concrete machine.
\<close>

section \<open>Lemmas on addition, multiplication and division\<close>

lemma op_add_flags:
  assumes "op_add bus s = (GoService, s')" "autoinc_reg s < 8"
  shows "\<exists>s2. let a = regs s2 8; b = regs s2 9; r = a + b in
    writedest bus r False s2 = (False, s') \<and>
    flags (psw s2) = (neg16 r, r = 0, sint a + sint b \<notin> {-32768..<32768}, 65536 \<le> unat a + unat b)"
proof -
  obtain s1 where k: "(let s1 = CLCV s1; SR = regs s1 8; DR = regs s1 9;
         b = ucast SR + ucast DR :: u32;
         s2 = psw_set_if (b AND 0x10000 \<noteq> 0) PSW_C s1;
         s3 = psw_set_if (neg16 (NOT (SR XOR DR) AND (DR XOR ucast b))) PSW_V s2
     in WR bus b False (NZ b s3)) = (GoService, s')"
    by (rule RD_B_service[OF assms(1)[unfolded op_add_def] assms(2)]) blast
  define s2 where "s2 = (let s1 = CLCV s1; SR = regs s1 8; DR = regs s1 9;
         b = ucast SR + ucast DR :: u32;
         s2 = psw_set_if (b AND 0x10000 \<noteq> 0) PSW_C s1;
         s3 = psw_set_if (neg16 (NOT (SR XOR DR) AND (DR XOR ucast b))) PSW_V s2 in NZ b s3)"
  have r: "regs s2 = regs s1" by (simp add: s2_def Let_def)
  obtain n z v c where f: "flags (psw s1) = (n, z, v, c)" by (metis prod.exhaust)
  have "WR bus (ucast (regs s1 8) + ucast (regs s1 9)) False s2 = (GoService, s')"
    using k by (simp add: s2_def Let_def)
  then have w: "writedest bus (regs s1 8 + regs s1 9) False s2 = (False, s')"
    unfolding WR_def add17_low by (cases "writedest bus (regs s1 8 + regs s1 9) False s2") (simp add: try_be_service svc_service)
  have "flags (psw s2) = (neg16 (regs s1 8 + regs s1 9), regs s1 8 + regs s1 9 = 0,
     sint (regs s1 8) + sint (regs s1 9) \<notin> {-32768..<32768}, 65536 \<le> unat (regs s1 8) + unat (regs s1 9))"
    unfolding s2_def Let_def psw_NZ_reduce ISSET_flags regs_macros add17_low add17_carry add_overflow [symmetric]
    by (auto simp: f)
  then show ?thesis using w r by (intro exI[of _ s2]) (simp add: Let_def)
qed

lemma op_sub_flags:
  assumes "op_sub bus s = (GoService, s')" "autoinc_reg s < 8"
  shows "\<exists>s2. let a = regs s2 8; b = regs s2 9; r = b - a in
    writedest bus r False s2 = (False, s') \<and>
    flags (psw s2) = (neg16 r, r = 0, sint b - sint a \<notin> {-32768..<32768}, unat b < unat a)"
proof -
  obtain s1 where k: "(let s1 = CLCV s1; SR = regs s1 8; DR = regs s1 9;
         b = ucast DR + ucast (NOT SR) + 1 :: u32;
         s2 = psw_set_if (b AND 0x10000 = 0) PSW_C s1;
         s3 = psw_set_if (neg16 ((SR XOR DR) AND (DR XOR ucast b))) PSW_V s2
     in WR bus b False (NZ b s3)) = (GoService, s')"
    by (rule RD_B_service[OF assms(1)[unfolded op_sub_def] assms(2)]) blast
  define s2 where "s2 = (let s1 = CLCV s1; SR = regs s1 8; DR = regs s1 9;
         b = ucast DR + ucast (NOT SR) + 1 :: u32;
         s2 = psw_set_if (b AND 0x10000 = 0) PSW_C s1;
         s3 = psw_set_if (neg16 ((SR XOR DR) AND (DR XOR ucast b))) PSW_V s2 in NZ b s3)"
  have r: "regs s2 = regs s1" by (simp add: s2_def Let_def)
  obtain n z v c where f: "flags (psw s1) = (n, z, v, c)" by (metis prod.exhaust)
  have "WR bus (ucast (regs s1 9) + ucast (NOT (regs s1 8)) + 1) False s2 = (GoService, s')"
    using k unfolding s2_def Let_def regs_macros .
  then have w: "writedest bus (regs s1 9 - regs s1 8) False s2 = (False, s')"
    unfolding WR_def sub17_low by (cases "writedest bus (regs s1 9 - regs s1 8) False s2") (simp add: try_be_service svc_service)
  have "flags (psw s2) = (neg16 (regs s1 9 - regs s1 8), regs s1 9 - regs s1 8 = 0,
     sint (regs s1 9) - sint (regs s1 8) \<notin> {-32768..<32768}, unat (regs s1 9) < unat (regs s1 8))"
    unfolding s2_def Let_def psw_NZ_reduce ISSET_flags regs_macros sub17_low sub17_carry sub_overflow(2) [symmetric]
    by (auto simp: f)
  then show ?thesis using w r by (intro exI[of _ s2]) (simp add: Let_def)
qed

section \<open>Lemmas on user mode\<close>

lemma pop_frame: "psw (BA_SP_POP s) = psw s" "run_state (BA_SP_POP s) = run_state s" "ir (BA_SP_POP s) = ir s"
  "autoinc_reg (BA_SP_POP s) < 8"
  by (simp_all add: BA_SP_POP_def autoinc_pending_def set_reg_def)

lemma dati_frame: "autoinc_reg s < 8 \<Longrightarrow> dati bus b s = (f, s') \<Longrightarrow>
    psw s' = psw s \<and> run_state s' = run_state s \<and> ir s' = ir s \<and> autoinc_reg s' < 8"
  using latches_dati[of s bus b] by (simp add: latches_kept_def)

lemma set_psw_run_state: "run_state (kd11ea_set_psw bus w s) = run_state s"
  by (simp add: kd11ea_set_psw_def Let_def)

lemma user_bits_kept:
  "(((b AND NOT (0xF000 OR PSW_PR)) OR (p AND (0xF000 OR PSW_PR))) AND PSW_MASK) AND 0xF0E0 = p AND (0xF0E0 :: u16)"
  "(((p AND (0xFF00 OR PSW_T)) OR ((b AND (0xFF AND NOT PSW_T)) AND NOT PSW_PR OR p AND PSW_PR)) AND PSW_MASK) AND 0xF0E0 = p AND (0xF0E0 :: u16)"
  unfolding psw_consts by (simp_all add: word16_eq_iff bit_simps)

lemma rti_user:
  assumes "\<not> IS_KERNEL s" "op_rti_rtt bus s = (e, s')"
  shows "psw s' AND 0xF0E0 = psw s AND 0xF0E0 \<and> run_state s' = run_state s"
proof -
  obtain f1 s1 where d1: "dati bus False (BA_SP_POP s) = (f1, s1)" by fastforce
  have p1: "psw s1 = psw s" "run_state s1 = run_state s" using dati_frame[OF _ d1] by (simp_all add: pop_frame)
  define t where "t = BA_SP_POP (set_reg 7 (bdata s1) s1)"
  have pt: "psw t = psw s" "run_state t = run_state s" "autoinc_reg t < 8"
    using p1 by (simp_all add: t_def pop_frame set_reg_def)
  obtain f2 s2 where d2: "dati bus False t = (f2, s2)" by fastforce
  have p2: "psw s2 = psw s" "run_state s2 = run_state s" using dati_frame[OF pt(3) d2] pt by simp_all
  have u: "\<not> IS_KERNEL s2" using assms(1) p2 by (simp add: IS_KERNEL_def)
  show ?thesis
  proof (cases "f1 \<or> f2")
    case True
    then show ?thesis
      using assms(2) unfolding op_rti_rtt_def Let_def try_be_pair[OF d1] t_def [symmetric] try_be_pair[OF d2]
      using p1 p2 by (auto split: if_splits)
  next
    case False
    then show ?thesis
      using assms(2) u unfolding op_rti_rtt_def Let_def try_be_pair[OF d1] t_def [symmetric] try_be_pair[OF d2]
      by (auto simp: svc_def set_psw_fields set_psw_run_state p2 user_bits_kept(1) simp del: bit.de_Morgan_disj split: if_splits)
  qed
qed

lemma fetchop_frame:
  assumes "autoinc_reg s < 8" "fetchop bus t m b s = (f, s')"
  shows "psw s' = psw s \<and> run_state s' = run_state s \<and> ir s' = ir s"
proof -
  obtain g s1 where d: "dati bus b s = (g, s1)" by fastforce
  show ?thesis
    using assms(2) dati_frame[OF assms(1) d] unfolding fetchop_def d fetchop_ext_def set_reg_def
    by (cases g) (auto split: if_splits)
qed

lemma rd_operand_frame:
  assumes "autoinc_reg s < 8" "rd_operand bus t m b s = (f, s')"
  shows "psw s' = psw s \<and> run_state s' = run_state s \<and> ir s' = ir s"
proof (cases "m div 8 = 0")
  case True
  obtain g s1 where "fetchop bus t m b s = (g, s1)" by fastforce
  with True assms fetchop_frame[OF assms(1) this] show ?thesis by (simp add: rd_operand_def)
next
  case False
  obtain g s1 where a: "addrop bus m b (set_dest_ref (t = 9) s) = (g, s1)" by fastforce
  have l: "psw s1 = psw s \<and> run_state s1 = run_state s \<and> ir s1 = ir s \<and> autoinc_reg s1 < 8"
    using latches_addrop[of "set_dest_ref (t = 9) s" bus m b] assms(1) a by (simp add: latches_kept_def set_dest_ref_def)
  show ?thesis
  proof (cases g)
    case False
    then have "fetchop bus t m b s1 = (f, s')" using assms(2) \<open>m div 8 \<noteq> 0\<close> a by (simp add: rd_operand_def readop_def)
    then show ?thesis using fetchop_frame[of s1] l by metis
  qed (use assms(2) False a l in \<open>simp add: rd_operand_def readop_def\<close>)
qed

lemma mtps_user:
  assumes "\<not> IS_KERNEL s" "autoinc_reg s < 8" "op_mtps bus by s = (e, s')"
  shows "psw s' AND 0xF0E0 = psw s AND 0xF0E0 \<and> run_state s' = run_state s"
proof -
  obtain f s1 where d: "rd_operand bus 9 (dst_field s) by s = (f, s1)" by fastforce
  note fr = rd_operand_frame[OF assms(2) d]
  show ?thesis
  proof (cases f)
    case True
    then show ?thesis using assms(3) fr by (auto simp: op_mtps_def RD_U_def d try_be_def)
  next
    case False
    then have d': "rd_operand bus 9 (dst_field s) by s = (False, s1)" using d by simp
    have u: "\<not> IS_KERNEL (set_reg 8 (regs s1 9) s1)" using assms(1) fr by (simp add: IS_KERNEL_def set_reg_def)
    define b where "b = regs s1 9"
    have "s' = kd11ea_set_psw bus ((psw s1 AND (0xFF00 OR PSW_T)) OR ((b AND (0xFF AND NOT PSW_T)) AND NOT PSW_PR OR psw s1 AND PSW_PR)) (set_reg 8 b s1)"
      using assms(3) u unfolding op_mtps_def RD_U_eq[OF d'] Let_def svc_def
      by (simp add: set_reg_def b_def)
    then show ?thesis
      using fr by (simp only: set_psw_fields set_psw_run_state user_bits_kept) (simp add: set_reg_def)
  qed
qed

section \<open>Properties\<close>

text \<open>A machine with zeroed memory, reset: its first instruction is \<open>HALT\<close>.\<close>

definition demo_start :: "(u32 \<Rightarrow> u16) mach" where
  "demo_start = kd11ea_power_reset demo_bus (demo_mach (\<lambda>_. 0))"

lemma demo_mmu_off: "mmu_off (kt11d_reset m)" "mmu_off (kt11d_init m)"
  by (simp_all add: mmu_off_def kt11d_reset_def kt11d_init_def rebuild_all_fields kt11d_set_access_def kt11d_zero_def)

lemma demo_start_fields:
  "mmu_off (mmu demo_start)" "regs demo_start = (\<lambda>_. 0)" "run_state demo_start = STATE_RUNNING"
  "external_intr demo_start = False" "env demo_start = (\<lambda>_. 0)" "IS_KERNEL demo_start" "psw demo_start = 0"
  by (simp_all add: demo_start_def kd11ea_power_reset_def kd11ea_reset_def kd11ea_set_psw_def Let_def demo_mmu_off
      demo_mach_def demo_bus_def SP_index_def kernel_psw_def IS_KERNEL_def KT11D_MODE_KERNEL_def)

lemma demo_start_ok: "cpu_ok demo_start" "\<not> assert_failed (demo_mach (\<lambda>_. 0))"
  unfolding demo_start_def by (rule cpu_ok_power_reset) (simp_all add: demo_mach_def)

lemma demo_halts: "\<exists>s'. kd11ea_condstep 5 demo_bus demo_start = Some s'"
proof -
  let ?s = "demo_start\<lparr>env := \<lambda>_. 0, run_state := STATE_RUNNING\<rparr>"
  let ?t = "(autoinc_commit (set_dest_ref False (?s\<lparr>inhov := False, in_trap := False, oldpsw := psw demo_start,
      mmu := kt11d_instruction_start (mmu demo_start)\<rparr>)))\<lparr>ba := 0\<rparr>"
  have d: "dati demo_bus False ?t = (False, ?t\<lparr>bdata := 0, be := 0, autoinc_reg := -1\<rparr>)"
    using demo_start_fields(1)
    by (subst dati_plain) (simp_all add: plain_addr_def demo_bus_def cycle_ok_simp autoinc_commit_def set_dest_ref_def)
  have "fst (step_fetch demo_bus (?s\<lparr>inhov := False, in_trap := False\<rparr>)) = GoReturn"
    using d demo_start_fields
    by (simp add: step_fetch_def Let_def try_be_def autoinc_commit_def set_dest_ref_def set_reg_def exec_instr_def
        exec_unary_def exec_misc_def exec_operate_def IS_KERNEL_def)
  then have "fst (step_begin demo_bus ?s) = GoReturn" using demo_start_fields by (simp add: step_begin_def)
  then obtain x where "step_begin demo_bus ?s = (GoReturn, x)" by (metis prod.collapse)
  then show ?thesis using demo_start_fields
    by (simp add: kd11ea_condstep_def step_def demo_bus_def numeral_eq_Suc)
qed

text \<open>C9. Reachability invariant of the core: from any state, after a power-up reset and any
  sequence of condsteps, interrupts, power-fail signals, resets and vector fetches that return,
  the unimplemented PSW bits read zero, the MMU's current and previous mode are the PSW's, the
  MMU is coherent, a pending autoincrement names one of R0..R7, and the \<open>assert(0)\<close> of
  \<open>addrop\<close> has not been reached.\<close>

theorem core_invariant_reachable:
  assumes "\<not> assert_failed s" "cpu_run bus (PowerReset # ops) s = Some s'"
  shows "\<not> assert_failed s' \<and> psw s' AND NOT PSW_MASK = 0 \<and> mode (mmu s') = drop_bit 14 (psw s') AND 3 \<and>
    prev_mode (mmu s') = drop_bit 12 (psw s') AND 3 \<and> mmu_ok (mmu s') \<and> autoinc_reg s' < 8"
proof -
  have "cpu_run bus ops (kd11ea_power_reset bus s) = Some s'" using assms(2) by simp
  then have "cpu_ok s'" by (rule cpu_ok_run) (rule cpu_ok_power_reset[OF assms(1)])
  then show ?thesis unfolding cpu_ok_def by blast
qed

theorem core_invariant_reachable_witness:
  "\<exists>s'. cpu_run demo_bus [PowerReset, Condstep 5, SetIntr 0x30, PwrFail] (demo_mach (\<lambda>_. 0)) = Some s' \<and> mmu_ok (mmu s')"
proof -
  obtain s' where "kd11ea_condstep 5 demo_bus demo_start = Some s'" using demo_halts by blast
  then have "cpu_run demo_bus [PowerReset, Condstep 5, SetIntr 0x30, PwrFail] (demo_mach (\<lambda>_. 0)) =
      Some (kd11ea_pwrfail_trap (kd11ea_setintr 0x30 s'))"
    by (simp add: demo_start_def)
  with core_invariant_reachable[OF demo_start_ok(2) this] show ?thesis by blast
qed

text \<open>C10. Memory safety of the register arrays: whatever program runs and whatever vectors and
  interrupts arrive, no operation of the core writes past \<open>r[15]\<close>, \<open>stackpointer[1]\<close>, or
  entry 15 of the MMU's \<open>par\<close>, \<open>pdr\<close> and \<open>page\<close>.\<close>

theorem register_arrays_bounded:
  assumes "cpu_ok s" "PowerReset \<notin> set ops" "cpu_run bus ops s = Some s'" "16 \<le> i" "2 \<le> j"
  shows "regs s' i = regs s i \<and> stackpointer s' j = stackpointer s j \<and>
    par (mmu s') i = par (mmu s) i \<and> pdr (mmu s') i = pdr (mmu s) i \<and> page (mmu s') i = page (mmu s) i"
proof -
  have "arrays_kept s s" using assms(1) by (simp add: arrays_kept_def)
  from arrays_kept_run[OF assms(3,2) this] show ?thesis using assms(4,5) by (simp add: arrays_kept_def)
qed

theorem register_arrays_bounded_witness:
  "\<exists>s'. cpu_run demo_bus [Condstep 5] demo_start = Some s' \<and> regs s' 16 = 0"
proof -
  obtain s' where s': "kd11ea_condstep 5 demo_bus demo_start = Some s'" using demo_halts by blast
  then have r: "cpu_run demo_bus [Condstep 5] demo_start = Some s'" by simp
  show ?thesis
    using register_arrays_bounded[OF demo_start_ok(1) _ r, of 16 2] r by (simp add: demo_start_fields)
qed

text \<open>C11. A double bus error that is not detected: in kernel mode with relocation off, when the
  program counter and the kernel stack pointer are odd and the vector of trap 4 is readable
  memory whose PSW selects kernel mode, the step never returns, whatever the fuel. The push
  of the trap sequence fails each time, and the vector fetch in front of it clears the error
  count that the check for a double bus error reads.\<close>

theorem odd_stack_never_returns:
  assumes "IS_KERNEL s" "mmu_off (mmu s)" "regs s 6 AND 1 \<noteq> 0" "regs s 7 AND 1 \<noteq> 0" "be s = 0"
    and "run_state s = STATE_RUNNING" "\<not> external_intr s" "vector4_kernel bus"
  shows "\<forall>fuel. kd11ea_condstep fuel bus s = None"
  using odd_condstep[of s bus] assms by (simp add: odd_stack_def)

definition rom_bus :: "(u32 \<Rightarrow> u16) bus_ops" where
  "rom_bus = demo_bus\<lparr>unibone_dati := (\<lambda>a e. (Some 0, e))\<rparr>"

theorem odd_stack_never_returns_witness:
  "\<forall>fuel. kd11ea_condstep fuel rom_bus ((demo_mach (\<lambda>_. 0))\<lparr>regs := (\<lambda>_. 0)(6 := 0x0FFF, 7 := 0x0201)\<rparr>) = None"
  by (rule odd_stack_never_returns)
     (simp_all add: demo_mach_def demo_mmu_off IS_KERNEL_def kernel_psw_def KT11D_MODE_KERNEL_def vector4_kernel_def rom_bus_def)

text \<open>C12. Compare and branch: after a \<open>CMP\<close> or \<open>CMPB\<close> with any addressing modes that
  completes, each signed and unsigned conditional branch is taken exactly when the source
  operand stands in the branch's relation to the destination operand (bytes sign extended), and
  a taken branch moves the PC by twice the signed offset byte.\<close>

definition compare_branches :: "u16 set" where
  "compare_branches = {0x0200, 0x0300, 0x0400, 0x0500, 0x0600, 0x0700, 0x8200, 0x8300, 0x8600, 0x8700}"

definition branch_relation :: "u16 \<Rightarrow> u16 \<Rightarrow> u16 \<Rightarrow> bool" where
  "branch_relation op a b =
    (if op = 0x0200 then a \<noteq> b else if op = 0x0300 then a = b
     else if op = 0x0400 then sint b \<le> sint a else if op = 0x0500 then sint a < sint b
     else if op = 0x0600 then sint b < sint a else if op = 0x0700 then sint a \<le> sint b
     else if op = 0x8200 then unat b < unat a else if op = 0x8300 then unat a \<le> unat b
     else if op = 0x8600 then unat b \<le> unat a else unat a < unat b)"

lemma BR_eq: "BR s = s\<lparr>regs := (regs s)(7 := regs s 7 + word_of_int (2 * sint (ucast (ir s) :: u8)))\<rparr>"
  using BR_target[of s] by (simp add: BR_def set_reg_def)

lemma relation_of_flags:
  assumes "op \<in> compare_branches" "(n \<noteq> v) = (sint a < sint b)"
  shows "branch_cond op (n, a = b, v, unat a < unat b) = branch_relation op a b"
proof -
  have e: "a = b \<longleftrightarrow> sint a = sint b" "a = b \<longleftrightarrow> unat a = unat b" by (rule word_eq_iff_signed, rule word_unat_eq_iff)
  show ?thesis
    using assms(1) unfolding compare_branches_def
    by (elim insertE emptyE; hypsubst; simp add: branch_cond_def branch_relation_def assms(2);
        use assms(2) e in linarith)
qed

theorem compare_then_branch:
  assumes "autoinc_reg s < 8" "op_cmp bus by s = (GoService, s')"
    and "op \<in> compare_branches" "psw t = psw s'" "ir t AND 0x8700 = op"
  shows "exec_branch t = (GoService,
    if branch_relation op (regs s' 8) (regs s' 9)
    then t\<lparr>regs := (regs t)(7 := regs t 7 + word_of_int (2 * sint (ucast (ir t) :: u8)))\<rparr> else t)"
proof -
  have c: "op \<in> cond_branches" using assms(3) by (auto simp: compare_branches_def cond_branches_def)
  note f = op_cmp_flags[OF assms(2,1)]
  have "branch_cond op (flags (psw t)) = branch_relation op (regs s' 8) (regs s' 9)"
    unfolding assms(4) f(2) using assms(3) by (rule relation_of_flags) (rule cmp_diff_props(2)[OF f(1)])
  then show ?thesis using exec_branch_cond[OF c assms(5)] by (simp add: BR_eq)
qed

text \<open>A machine about to execute the instruction word \<open>w\<close> with R0 and R1 loaded.\<close>

definition demo_exec :: "u16 \<Rightarrow> u16 \<Rightarrow> u16 \<Rightarrow> (u32 \<Rightarrow> u16) mach" where
  "demo_exec w r0 r1 = (demo_mach (\<lambda>_. 0))\<lparr>ir := w, regs := (\<lambda>_. 0)(0 := r0, 1 := r1)\<rparr>"

lemmas demo_eval = demo_exec_def demo_mach_def RD_B_def RD_U_def rd_operand_def src_field_def dst_field_def reg_field_def
  fetchop_def fetchop_ext_def set_reg_def try_be_def svc_def Let_def psw_clr_def psw_set_def psw_set_if_def
  NZ_def setnz_def BXT_def psw_consts neg16_bit

theorem compare_then_branch_witness:
  "let s' = snd (op_cmp demo_bus False (demo_exec 0x2001 3 5)); t = s'\<lparr>ir := 0x05FE\<rparr> in
   op_cmp demo_bus False (demo_exec 0x2001 3 5) = (GoService, s') \<and> regs (snd (exec_branch t)) 7 = 0xFFFC"
proof -
  let ?s = "demo_exec 0x2001 3 5"
  define s' where "s' = snd (op_cmp demo_bus False ?s)"
  have e: "op_cmp demo_bus False ?s = (GoService, s')" unfolding s'_def op_cmp_def by (simp add: demo_eval)
  have r: "regs s' 8 = 3" "regs s' 9 = 5" "regs s' 7 = 0" unfolding s'_def op_cmp_def by (simp_all add: demo_eval)
  have "exec_branch (s'\<lparr>ir := 0x05FE\<rparr>) = (GoService,
    if branch_relation 0x0500 (regs s' 8) (regs s' 9)
    then s'\<lparr>ir := 0x05FE, regs := (regs s')(7 := regs s' 7 + word_of_int (2 * sint (ucast (0x05FE :: u16) :: u8)))\<rparr>
    else s'\<lparr>ir := 0x05FE\<rparr>)"
    using compare_then_branch[OF _ e, where op = "0x0500" and t = "s'\<lparr>ir := 0x05FE\<rparr>"]
    by (simp add: compare_branches_def demo_exec_def demo_mach_def)
  then show ?thesis using e r unfolding s'_def [symmetric] by (simp add: branch_relation_def)
qed

text \<open>C13. \<open>ADD\<close> and \<open>SUB\<close>, for all addressing modes: the value written to the destination is
  the sum (difference) of the operands modulo 65536, with N and Z of that value, V exactly when
  the signed result leaves 16 bits, and C exactly on an unsigned carry (borrow).\<close>

theorem add_sub_result_and_flags:
  assumes "autoinc_reg s < 8" "(if add then op_add bus s else op_sub bus s) = (GoService, s')"
  shows "\<exists>s2. let a = regs s2 8; b = regs s2 9; r = (if add then b + a else b - a) in
    writedest bus r False s2 = (False, s') \<and>
    flags (psw s2) = (sint r < 0, r = 0,
      (if add then sint b + sint a else sint b - sint a) \<notin> {-32768..<32768},
      if add then 65536 \<le> unat a + unat b else unat b < unat a)"
proof -
  have n: "neg16 w \<longleftrightarrow> sint w < 0" for w :: u16 using u16_lt[of w] by (auto simp: sint16 simp del: of_nat_unat)
  show ?thesis
    using op_add_flags[of bus s s'] op_sub_flags[of bus s s'] assms unfolding Let_def n
    by (cases add) (simp_all add: add.commute)
qed

theorem add_sub_result_and_flags_witness:
  "let s' = snd (op_add demo_bus (demo_exec 0x6001 0x7FFF 1)) in
   \<exists>s2. let a = regs s2 8; b = regs s2 9; r = b + a in writedest demo_bus r False s2 = (False, s') \<and>
    flags (psw s2) = (sint r < 0, r = 0, sint b + sint a \<notin> {-32768..<32768}, 65536 \<le> unat a + unat b)"
proof -
  define s' where "s' = snd (op_add demo_bus (demo_exec 0x6001 0x7FFF 1))"
  have "op_add demo_bus (demo_exec 0x6001 0x7FFF 1) = (GoService, s')"
    unfolding s'_def op_add_def by (simp add: demo_eval WR_def writedest_def set_dest_ref_def)
  moreover have "autoinc_reg (demo_exec 0x6001 0x7FFF 1) < 8" by (simp add: demo_exec_def demo_mach_def)
  ultimately show ?thesis
    using add_sub_result_and_flags[of "demo_exec 0x6001 0x7FFF 1" True demo_bus s']
    unfolding s'_def [symmetric] Let_def if_True by blast
qed

text \<open>C14. \<open>ASH\<close> and \<open>ASHC\<close> are arithmetic shifts by the signed six-bit count: to the left the
  register (pair) times a power of two, with V exactly when the product leaves the operand's
  range and C the last bit shifted out; to the right the quotient rounded down, with V clear
  and C the last bit shifted out; a zero count keeps C. N and Z describe the result.\<close>

theorem shifts_are_arithmetic:
  assumes "rd_operand bus 9 (dst_field s) by s = (False, s1)"
  shows "(\<exists>s'. op_ash bus by s = (GoService, s') \<and>
      (case shift_spec (regs s1 (reg_field s1)) (shift_count (regs s1 9)) (ISSET PSW_C s1) of (r, v, c) \<Rightarrow>
        regs s' = (regs s1)(8 := regs s1 9, reg_field s1 := r) \<and> flags (psw s') = (neg16 r, r = 0, v, c))) \<and>
    (\<exists>s'. op_ashc bus by s = (GoService, s') \<and>
      (case shift_spec (ashc_pair (reg_field s1) (regs s1)) (shift_count (regs s1 9)) (ISSET PSW_C s1) of (r, v, c) \<Rightarrow>
        regs s' = ashc_store (reg_field s1) r ((regs s1)(8 := regs s1 9)) \<and> flags (psw s') = (bit r 31, r = 0, v, c)))"
proof -
  let ?t = "set_reg 8 (regs s1 9) s1"
  have rf: "reg_field ?t = reg_field s1" "reg_field s1 < 8" "ISSET PSW_C ?t = ISSET PSW_C s1"
    using reg_field_bound[of s1] by (simp_all add: reg_field_def set_reg_def ISSET_def)
  have rg: "regs ?t = (regs s1)(8 := regs s1 9)" by (simp add: set_reg_def)
  have pr: "odd (reg_field s1) \<or> reg_field s1 + 1 < 8" using rf(2) by presburger
  then have pair: "ashc_pair (reg_field s1) ((regs s1)(8 := regs s1 9)) = ashc_pair (reg_field s1) (regs s1)"
    using rf(2) by (auto simp: ashc_pair_def)
  obtain e1 s2 where a: "ash_body ?t = (e1, s2)" by fastforce
  obtain e2 s3 where c: "ashc_body ?t = (e2, s3)" by fastforce
  have "op_ash bus by s = (e1, s2)" "op_ashc bus by s = (e2, s3)"
    by (simp_all only: op_ash_body op_ashc_body RD_U_eq[OF assms] a c)
  then show ?thesis
    using ash_body_spec[OF a] ashc_body_spec[OF c] rf pair unfolding rf(1,3) rg by auto
qed

theorem shifts_are_arithmetic_witness:
  "\<exists>s'. op_ash demo_bus False (demo_exec 0x7401 0 0x3F) = (GoService, s') \<and> regs s' 0 = 0 \<and> flags (psw s') = (False, True, False, False)"
proof -
  have o: "rd_operand demo_bus 9 (dst_field (demo_exec 0x7401 0 0x3F)) False (demo_exec 0x7401 0 0x3F) =
      (False, set_reg 9 0x3F (demo_exec 0x7401 0 0x3F))"
    by (simp add: demo_eval)
  show ?thesis
    using shifts_are_arithmetic[OF o, THEN conjunct1]
    by (simp add: demo_exec_def demo_mach_def set_reg_def reg_field_def shift_spec_def shift_count_def ISSET_def neg16_bit)
       auto
qed



text \<open>C16. What a user-mode program cannot do with the privileged instructions: \<open>RTI\<close>, \<open>RTT\<close>
  and \<open>MTPS\<close> leave its mode, previous mode and priority bits as they are, \<open>HALT\<close> traps
  through vector 010 without stopping the machine and \<open>RESET\<close> changes nothing, also when a bus
  cycle of the instruction fails.\<close>

theorem user_mode_is_confined:
  assumes "\<not> IS_KERNEL s" "autoinc_reg s < 8" "ir s \<in> {0, 2, 5, 6} \<or> ir s AND 0xFFC0 = 0x8D00"
    and "exec_instr bus s = (e, s')"
  shows "psw s' AND 0xF0E0 = psw s AND 0xF0E0 \<and> run_state s' = run_state s \<and>
    (ir s = 0 \<longrightarrow> e = GoTrap 8) \<and> (ir s = 5 \<longrightarrow> e = GoService \<and> s' = s)"
proof (cases "ir s AND 0xFFC0 = 0x8D00")
  case True
  have m: "ir s AND 0x8000 \<noteq> 0" "ir s AND 0xF000 = 0x8000" "ir s AND 0x0FC0 = 0x0D00"
  proof -
    have "ir s AND 0x8000 = (ir s AND 0xFFC0) AND 0x8000" "ir s AND 0xF000 = (ir s AND 0xFFC0) AND 0xF000"
      "ir s AND 0x0FC0 = (ir s AND 0xFFC0) AND 0x0FC0" by (simp_all add: and.assoc)
    then show "ir s AND 0x8000 \<noteq> 0" "ir s AND 0xF000 = 0x8000" "ir s AND 0x0FC0 = 0x0D00"
      unfolding True by simp_all
  qed
  have "exec_instr bus s = op_mtps bus True s"
    using m by (simp add: exec_instr_def Let_def exec_unary_def)
  then have "op_mtps bus True s = (e, s')" using assms(4) by simp
  then show ?thesis using mtps_user[OF assms(1,2)] True by auto
next
  case False
  then have c: "ir s \<in> {0, 2, 5, 6}" using assms(3) by blast
  then have x: "exec_instr bus s = exec_operate bus s"
    by (elim insertE emptyE; simp add: exec_instr_def exec_unary_def exec_misc_def)
  from c consider "ir s = 0" | "ir s = 5" | "ir s = 2 \<or> ir s = 6" by auto
  then show ?thesis
  proof cases
    case 3
    then have "op_rti_rtt bus s = (e, s')" using assms(4) unfolding x by (auto simp: exec_operate_def)
    from rti_user[OF assms(1) this] 3 show ?thesis by auto
  qed (use assms(1,4) in \<open>simp_all add: x exec_operate_def op_reset_def svc_def\<close>)
qed

definition demo_user :: "u16 \<Rightarrow> (u32 \<Rightarrow> u16) mach" where
  "demo_user w = (demo_exec w 0x00E3 0)\<lparr>psw := 0xF040\<rparr>"

theorem user_mode_is_confined_witness:
  "psw (snd (exec_instr demo_bus (demo_user 0x8D00))) AND 0xF0E0 = 0xF040 \<and>
   exec_instr demo_bus (demo_user 5) = (GoService, demo_user 5)"
proof -
  have k: "\<not> IS_KERNEL (demo_user w)" "autoinc_reg (demo_user w) < 8" "ir (demo_user w) = w" "psw (demo_user w) = 0xF040" for w
    by (simp_all add: demo_user_def demo_exec_def demo_mach_def IS_KERNEL_def kernel_psw_def KT11D_MODE_KERNEL_def)
  obtain e s' where m: "exec_instr demo_bus (demo_user 0x8D00) = (e, s')" by fastforce
  obtain e5 s5 where r: "exec_instr demo_bus (demo_user 5) = (e5, s5)" by fastforce
  show ?thesis
    using user_mode_is_confined[OF k(1,2) _ m] user_mode_is_confined[OF k(1,2) _ r] by (simp add: k m r)
qed

end
