(* ===== verification/KA11.thy ===== *)
theory KA11
  imports CpuBus
begin

unbundle bit_operations_syntax

text \<open>
  The PDP-11/20 core (\<open>10.02_devices/2_src/cpu20/ka11.c\<close>, \<open>ka11.h\<close>): state, bus cycles and
  operand handling. The core is linked beside the 11/34 core and has its own copy of every
  helper, so the names here carry the prefix \<open>ka_\<close>. \<open>ka_mach\<close> adds to the struct \<open>KA11\<close> the
  locals of \<open>step()\<close> that live across its labels, the bus state, and a flag for the
  \<open>assert(0)\<close> in \<open>addrop\<close>. A C function that returns 1 on a failed bus cycle returns a pair
  whose first component is \<open>True\<close> then. Tracing and the mutex are left out: the
  interrupt flag is read and written at instruction boundaries only.
\<close>

section \<open>State\<close>

datatype ka_run_state = KA11_STATE_HALTED | KA11_STATE_RUNNING | KA11_STATE_WAITING

definition KA_PSW_T :: u8 where "KA_PSW_T = 0x10"    \<comment> \<open>020\<close>
definition KA_PSW_N :: u8 where "KA_PSW_N = 8"
definition KA_PSW_Z :: u8 where "KA_PSW_Z = 4"
definition KA_PSW_V :: u8 where "KA_PSW_V = 2"
definition KA_PSW_C :: u8 where "KA_PSW_C = 1"
definition KA_TRAP_STACK :: u32 where "KA_TRAP_STACK = 1"
definition KA_TRAP_PWR :: u32 where "KA_TRAP_PWR = 2"

lemmas ka_psw_consts = KA_PSW_T_def KA_PSW_N_def KA_PSW_Z_def KA_PSW_V_def KA_PSW_C_def

record ka11 =
  ka_r :: "nat \<Rightarrow> u16"            \<comment> \<open>\<open>r[16]\<close>: R0..R7, then SR = 010, DR = 011, TV = 012\<close>
  ka_b :: u16
  ka_ba :: u16
  ka_bdata :: u16
  ka_ir :: u16
  ka_psw :: u8
  ka_traps :: u32
  ka_be :: nat
  ka_state :: ka_run_state
  ka_external_intr :: bool
  ka_external_intrvec :: u16
  ka_sw :: u16
  ka_swab_vbit :: bool

record 'x ka_mach = ka11 +
  ka_oldpsw :: u8
  ka_inhov :: bool
  ka_assert_failed :: bool
  ka_env :: 'x

definition ka_levelchange :: "'x bus_ops \<Rightarrow> u8 \<Rightarrow> 'x ka_mach \<Rightarrow> 'x ka_mach" where
  "ka_levelchange bus p s = s\<lparr>ka_env := unibone_prioritylevelchange bus (drop_bit 5 p) (ka_env s)\<rparr>"

definition ka_sgn :: "u16 \<Rightarrow> bool" where
  "ka_sgn w \<longleftrightarrow> drop_bit 15 w AND 1 \<noteq> 0"

definition ka_sxt :: "u8 \<Rightarrow> u16" where
  "ka_sxt x = scast x"

definition ubxt :: "u16 \<Rightarrow> u32" where
  "ubxt a = (if a AND 0xE000 = 0xE000 then ucast a OR 0x30000 else ucast a)"

definition ka_odd :: "'n::len word \<Rightarrow> bool" where
  "ka_odd a \<longleftrightarrow> a AND 1 \<noteq> 0"

section \<open>Reset, interrupts and power fail\<close>

definition ka11_reset :: "'x ka_mach \<Rightarrow> 'x ka_mach" where
  "ka11_reset s = s\<lparr>ka_traps := 0\<rparr>"

definition ka11_power_reset :: "'x bus_ops \<Rightarrow> 'x ka_mach \<Rightarrow> 'x ka_mach" where
  "ka11_power_reset bus s =
    (let s = ka11_reset s; s = s\<lparr>ka_external_intr := False\<rparr> in ka_levelchange bus (ka_psw s) s)"

definition ka11_setintr :: "u16 \<Rightarrow> 'x ka_mach \<Rightarrow> 'x ka_mach" where
  "ka11_setintr vec s = s\<lparr>ka_external_intr := True, ka_external_intrvec := vec\<rparr>"

definition ka11_pwrfail_trap :: "'x ka_mach \<Rightarrow> 'x ka_mach" where
  "ka11_pwrfail_trap s = s\<lparr>ka_traps := ka_traps s OR KA_TRAP_PWR\<rparr>"

section \<open>Bus cycles\<close>

text \<open>The labels \<open>ok:\<close> and \<open>be:\<close> that \<open>dati\<close> and \<open>dato\<close> share.\<close>

definition ka_cycle_ok :: "'x ka_mach \<Rightarrow> bool \<times> 'x ka_mach" where
  "ka_cycle_ok s = (False, s\<lparr>ka_be := 0\<rparr>)"

definition ka_cycle_fail :: "'x ka_mach \<Rightarrow> bool \<times> 'x ka_mach" where
  "ka_cycle_fail s = (True, s\<lparr>ka_be := Suc (ka_be s)\<rparr>)"

definition ka_dati :: "'x bus_ops \<Rightarrow> bool \<Rightarrow> 'x ka_mach \<Rightarrow> bool \<times> 'x ka_mach" where
  "ka_dati bus b s =
    (let external = (\<lambda>_::unit. case unibone_dati bus (ubxt (ka_ba s) AND NOT 1) (ka_env s) of
           (None, e) \<Rightarrow> ka_cycle_fail (s\<lparr>ka_env := e\<rparr>)
         | (Some d, e) \<Rightarrow> ka_cycle_ok (s\<lparr>ka_env := e, ka_bdata := ucast d\<rparr>));
         low = ka_ba s AND 0xFF in
     if \<not> b \<and> ka_odd (ka_ba s) then ka_cycle_fail s
     else if ka_ba s AND 0xFF00 = 0xFF00 then                    \<comment> \<open>0177400\<close>
       (if low = 0x78 \<or> low = 0x79 then ka_cycle_ok (s\<lparr>ka_bdata := ka_sw s\<rparr>)           \<comment> \<open>0170, 0171\<close>
        else if low = 0xFE then ka_cycle_ok (s\<lparr>ka_bdata := ucast (ka_psw s)\<rparr>)          \<comment> \<open>0376\<close>
        else if low = 0xFF then ka_cycle_fail s                   \<comment> \<open>0377\<close>
        else if low = 0x67 then ka_cycle_ok (s\<lparr>ka_bdata := 0\<rparr>)   \<comment> \<open>0147\<close>
        else external ())
     else external ())"

definition ka_dato :: "'x bus_ops \<Rightarrow> bool \<Rightarrow> 'x ka_mach \<Rightarrow> bool \<times> 'x ka_mach" where
  "ka_dato bus b s =
    (let external = (\<lambda>_::unit. case (if b then unibone_datob bus (ubxt (ka_ba s)) (ka_bdata s) (ka_env s)
              else unibone_dato bus (ubxt (ka_ba s) AND NOT 1) (ka_bdata s) (ka_env s)) of
           (False, e) \<Rightarrow> ka_cycle_fail (s\<lparr>ka_env := e\<rparr>)
         | (True, e) \<Rightarrow> ka_cycle_ok (s\<lparr>ka_env := e\<rparr>));
         low = ka_ba s AND 0xFF in
     if \<not> b \<and> ka_odd (ka_ba s) then ka_cycle_fail s
     else if ka_ba s AND 0xFF00 = 0xFF00 then
       (if low = 0x78 \<or> low = 0x79 then ka_cycle_ok s
        else if low = 0xFE then
          (let s = s\<lparr>ka_psw := ucast (ka_bdata s)\<rparr> in ka_cycle_ok (ka_levelchange bus (ka_psw s) s))
        else if low = 0xFF then ka_cycle_fail s
        else external ())
     else external ())"

section \<open>Operands\<close>

definition ka_set_r :: "nat \<Rightarrow> u16 \<Rightarrow> 'x ka_mach \<Rightarrow> 'x ka_mach" where
  "ka_set_r i v s = s\<lparr>ka_r := (ka_r s)(i := v)\<rparr>"

definition ka_addr_step :: "nat \<Rightarrow> bool \<Rightarrow> u16" where
  "ka_addr_step m b = (if \<not> b \<or> m mod 8 \<ge> 6 \<or> odd (m div 8) then 2 else 1)"

text \<open>The \<open>switch(m&6)\<close> of \<open>addrop\<close> for the modes 2 to 7; the argument holds mode and register.\<close>

definition ka_addrop_base :: "'x bus_ops \<Rightarrow> nat \<Rightarrow> bool \<Rightarrow> 'x ka_mach \<Rightarrow> bool \<times> 'x ka_mach" where
  "ka_addrop_base bus m b s =
    (let r = m mod 8; ai = ka_addr_step m b in
     if m div 16 = 1 then
       let v = ka_r s r + ai in (False, ka_set_r r v (s\<lparr>ka_ba := ka_r s r, ka_b := v\<rparr>))
     else if m div 16 = 2 then
       let a = ka_r s r - ai;
           s = s\<lparr>ka_ba := a, ka_b := a,
                 ka_traps := (if r = 6 \<and> a AND NOT 0xFF = 0 then ka_traps s OR KA_TRAP_STACK else ka_traps s)\<rparr>
       in (False, ka_set_r r a s)
     else
       (case ka_dati bus False (ka_set_r 7 (ka_r s 7 + 2) (s\<lparr>ka_ba := ka_r s 7\<rparr>)) of
          (True, s) \<Rightarrow> (True, s)
        | (False, s) \<Rightarrow> let v = ka_bdata s + ka_r s r in (False, s\<lparr>ka_ba := v, ka_b := v\<rparr>)))"

definition ka_addrop :: "'x bus_ops \<Rightarrow> nat \<Rightarrow> bool \<Rightarrow> 'x ka_mach \<Rightarrow> bool \<times> 'x ka_mach" where
  "ka_addrop bus m b s =
    (if m div 8 = 0 then (False, s\<lparr>ka_assert_failed := True\<rparr>)
     else if m div 8 = 1 then let v = ka_r s (m mod 8) in (False, s\<lparr>ka_ba := v, ka_b := v\<rparr>)
     else
       (case ka_addrop_base bus m b s of
          (True, s) \<Rightarrow> (True, s)
        | (False, s) \<Rightarrow>
            if odd (m div 8) then
              (case ka_dati bus False s of
                 (True, s) \<Rightarrow> (True, s)
               | (False, s) \<Rightarrow> (False, s\<lparr>ka_ba := ka_bdata s, ka_b := ka_bdata s\<rparr>))
            else (False, s)))"

definition ka_fetch_ext :: "nat \<Rightarrow> bool \<Rightarrow> 'x ka_mach \<Rightarrow> 'x ka_mach" where
  "ka_fetch_ext t b s = (if b then ka_set_r t (ka_sxt (ucast (ka_r s t))) s else s)"

definition ka_fetchop :: "'x bus_ops \<Rightarrow> nat \<Rightarrow> nat \<Rightarrow> bool \<Rightarrow> 'x ka_mach \<Rightarrow> bool \<times> 'x ka_mach" where
  "ka_fetchop bus t m b s =
    (if m div 8 = 0 then (False, ka_fetch_ext t b (ka_set_r t (ka_r s (m mod 8)) s))
     else case ka_dati bus b s of
       (True, s) \<Rightarrow> (True, s)
     | (False, s) \<Rightarrow>
         (False, ka_fetch_ext t b
            (ka_set_r t (if b \<and> ka_odd (ka_ba s) then drop_bit 8 (ka_bdata s) else ka_bdata s) s)))"

definition ka_readop :: "'x bus_ops \<Rightarrow> nat \<Rightarrow> nat \<Rightarrow> bool \<Rightarrow> 'x ka_mach \<Rightarrow> bool \<times> 'x ka_mach" where
  "ka_readop bus t m b s =
    (case ka_addrop bus m b s of (True, s) \<Rightarrow> (True, s) | (False, s) \<Rightarrow> ka_fetchop bus t m b s)"

definition ka_writedest :: "'x bus_ops \<Rightarrow> u16 \<Rightarrow> bool \<Rightarrow> 'x ka_mach \<Rightarrow> bool \<times> 'x ka_mach" where
  "ka_writedest bus v b s =
    (let d = unat (ka_ir s AND 7) in
     if ka_ir s AND 0x38 = 0 then (False, ka_set_r d (if b then SETMASK (ka_r s d) v 0xFF else v) s)
     else ka_dato bus b (s\<lparr>ka_bdata := (if ka_odd (ka_ba s) then push_bit 8 v else v)\<rparr>))"

definition ka_setnz :: "u16 \<Rightarrow> 'x ka_mach \<Rightarrow> 'x ka_mach" where
  "ka_setnz w s =
    (let p = ka_psw s AND NOT (KA_PSW_N OR KA_PSW_Z);
         p = (if w AND 0x8000 \<noteq> 0 then p OR KA_PSW_N else p)
     in s\<lparr>ka_psw := (if w = 0 then p OR KA_PSW_Z else p)\<rparr>)"

end
