(* ===== verification/KA11_Step.thy ===== *)
theory KA11_Step
  imports KA11
begin

unbundle bit_operations_syntax

text \<open>
  \<open>step()\<close> of \<open>ka11.c\<close>: one definition per instruction, the decode in the order of the
  switches, the labels \<open>ri\<close>, \<open>ill\<close>, \<open>be\<close>, \<open>trap\<close> and \<open>service\<close>, and the driver
  \<open>ka11_condstep\<close>. A \<open>goto\<close> is a value of \<open>ka_exit\<close>: \<open>ri\<close> is \<open>KaTrap 8\<close> (vector 010) and
  \<open>ill\<close> is \<open>KaTrap 4\<close>. The jumps between the labels form a loop that the code does not bound;
  it runs on fuel, and \<open>None\<close> means that the fuel did not reach a \<open>return\<close>. The local
  \<open>uint b\<close> is a 32-bit word, cut to 16 bits where the C passes it as a \<open>word\<close>.
\<close>

section \<open>Macros\<close>

datatype ka_exit = KaService | KaTrap u16 | KaBe | KaReturn

definition ka_svc :: "'x ka_mach \<Rightarrow> ka_exit \<times> 'x ka_mach" where
  "ka_svc s = (KaService, s)"

definition ka_try :: "bool \<times> 'x ka_mach \<Rightarrow> ('x ka_mach \<Rightarrow> ka_exit \<times> 'x ka_mach) \<Rightarrow> ka_exit \<times> 'x ka_mach" where
  "ka_try p k = (if fst p then (KaBe, snd p) else k (snd p))"

definition ka_clr :: "u8 \<Rightarrow> 'x ka_mach \<Rightarrow> 'x ka_mach" where
  "ka_clr m s = s\<lparr>ka_psw := ka_psw s AND NOT m\<rparr>"

definition ka_set :: "u8 \<Rightarrow> 'x ka_mach \<Rightarrow> 'x ka_mach" where
  "ka_set m s = s\<lparr>ka_psw := ka_psw s OR m\<rparr>"

definition ka_set_if :: "bool \<Rightarrow> u8 \<Rightarrow> 'x ka_mach \<Rightarrow> 'x ka_mach" where
  "ka_set_if c m s = (if c then ka_set m s else s)"

abbreviation "ka_CLV \<equiv> ka_clr KA_PSW_V"
abbreviation "ka_CLCV \<equiv> ka_clr (KA_PSW_V OR KA_PSW_C)"

definition ka_ISSET :: "u8 \<Rightarrow> 'x ka_mach \<Rightarrow> bool" where
  "ka_ISSET f s \<longleftrightarrow> ka_psw s AND f \<noteq> 0"

definition ka_src :: "'x ka_mach \<Rightarrow> nat" where "ka_src s = unat (drop_bit 6 (ka_ir s) AND 0x3F)"
definition ka_dst :: "'x ka_mach \<Rightarrow> nat" where "ka_dst s = unat (ka_ir s AND 0x3F)"

text \<open>Memory operands are read before register operands: a register source sees the side
  effects of the destination's addressing.\<close>

definition ka_RD_B :: "'x bus_ops \<Rightarrow> bool \<Rightarrow> 'x ka_mach \<Rightarrow> ('x ka_mach \<Rightarrow> ka_exit \<times> 'x ka_mach) \<Rightarrow>
    ka_exit \<times> 'x ka_mach" where
  "ka_RD_B bus by s k =
    (let src = ka_src s; dst = ka_dst s; sm = src div 8; dm = dst div 8 in
     ka_try (if sm \<noteq> 0 then ka_readop bus 8 src by s else (False, s)) (\<lambda>s.
     ka_try (if dm \<noteq> 0 then ka_readop bus 9 dst by s else (False, s)) (\<lambda>s.
       let s = (if sm = 0 then snd (ka_fetchop bus 8 src by s) else s);
           s = (if dm = 0 then snd (ka_fetchop bus 9 dst by s) else s)
       in k s)))"

definition ka_RD_U :: "'x bus_ops \<Rightarrow> bool \<Rightarrow> 'x ka_mach \<Rightarrow> ('x ka_mach \<Rightarrow> ka_exit \<times> 'x ka_mach) \<Rightarrow>
    ka_exit \<times> 'x ka_mach" where
  "ka_RD_U bus by s k =
    (let dst = ka_dst s; dm = dst div 8 in
     ka_try (if dm \<noteq> 0 then ka_readop bus 9 dst by s else (False, s)) (\<lambda>s.
       let s = (if dm = 0 then snd (ka_fetchop bus 9 dst by s) else s)
       in k (ka_set_r 8 (ka_r s 9) s)))"

definition ka_WR :: "'x bus_ops \<Rightarrow> u32 \<Rightarrow> bool \<Rightarrow> 'x ka_mach \<Rightarrow> ka_exit \<times> 'x ka_mach" where
  "ka_WR bus b by s = ka_try (ka_writedest bus (ucast b) by s) ka_svc"

definition ka_NZ :: "u32 \<Rightarrow> 'x ka_mach \<Rightarrow> 'x ka_mach" where
  "ka_NZ b s = ka_setnz (ucast b) s"

definition ka_BXT :: "bool \<Rightarrow> u32 \<Rightarrow> u32" where
  "ka_BXT by b = (if by then ucast (ka_sxt (ucast b)) else b)"

definition ka_PUSH :: "'x ka_mach \<Rightarrow> 'x ka_mach" where
  "ka_PUSH s =
    (let s = ka_set_r 6 (ka_r s 6 - 2) s
     in if \<not> ka_inhov s \<and> ka_r s 6 AND NOT 0xFF = 0 then s\<lparr>ka_traps := ka_traps s OR KA_TRAP_STACK\<rparr> else s)"

definition ka_OUT :: "'x bus_ops \<Rightarrow> u16 \<Rightarrow> u16 \<Rightarrow> 'x ka_mach \<Rightarrow> bool \<times> 'x ka_mach" where
  "ka_OUT bus a d s = ka_dato bus False (s\<lparr>ka_ba := a, ka_bdata := d\<rparr>)"

definition ka_INA :: "'x bus_ops \<Rightarrow> u16 \<Rightarrow> 'x ka_mach \<Rightarrow> bool \<times> 'x ka_mach" where
  "ka_INA bus a s = ka_dati bus False (s\<lparr>ka_ba := a\<rparr>)"

text \<open>\<open>BA = SP; POP\<close>\<close>

definition ka_BA_SP_POP :: "'x ka_mach \<Rightarrow> 'x ka_mach" where
  "ka_BA_SP_POP s = ka_set_r 6 (ka_r s 6 + 2) (s\<lparr>ka_ba := ka_r s 6\<rparr>)"

section \<open>Double operand instructions\<close>

definition ka_MOV :: "'x bus_ops \<Rightarrow> bool \<Rightarrow> 'x ka_mach \<Rightarrow> ka_exit \<times> 'x ka_mach" where
  "ka_MOV bus by s = ka_RD_B bus by s (\<lambda>s.
     let s = ka_NZ (ucast (ka_r s 8)) (ka_CLV s) in
     if ka_dst s div 8 = 0 then ka_svc (ka_set_r (ka_dst s mod 8) (ka_r s 8) s)
     else ka_try (ka_writedest bus (ka_r s 8) by s) ka_svc)"

definition ka_CMP :: "'x bus_ops \<Rightarrow> bool \<Rightarrow> 'x ka_mach \<Rightarrow> ka_exit \<times> 'x ka_mach" where
  "ka_CMP bus by s = ka_RD_B bus by s (\<lambda>s.
     let s = ka_CLCV s; SR = ka_r s 8; DR = ka_r s 9;
         b = ucast SR + ucast (NOT DR) + 1 :: u32;
         s = ka_set_if (b AND 0x10000 = 0) KA_PSW_C s;
         b = ka_BXT by b;
         s = ka_set_if (ka_sgn ((SR XOR DR) AND NOT (DR XOR ucast b))) KA_PSW_V s
     in ka_svc (ka_NZ b s))"

definition ka_BIT :: "'x bus_ops \<Rightarrow> bool \<Rightarrow> 'x ka_mach \<Rightarrow> ka_exit \<times> 'x ka_mach" where
  "ka_BIT bus by s = ka_RD_B bus by s (\<lambda>s.
     let s = ka_CLV s in ka_svc (ka_NZ (ucast (ka_r s 9 AND ka_r s 8)) s))"

definition ka_BIC :: "'x bus_ops \<Rightarrow> bool \<Rightarrow> 'x ka_mach \<Rightarrow> ka_exit \<times> 'x ka_mach" where
  "ka_BIC bus by s = ka_RD_B bus by s (\<lambda>s.
     let s = ka_CLV s; b = ucast (ka_r s 9 AND NOT (ka_r s 8)) in ka_WR bus b by (ka_NZ b s))"

definition ka_BIS :: "'x bus_ops \<Rightarrow> bool \<Rightarrow> 'x ka_mach \<Rightarrow> ka_exit \<times> 'x ka_mach" where
  "ka_BIS bus by s = ka_RD_B bus by s (\<lambda>s.
     let s = ka_CLV s; b = ucast (ka_r s 9 OR ka_r s 8) in ka_WR bus b by (ka_NZ b s))"

definition ka_ADD :: "'x bus_ops \<Rightarrow> 'x ka_mach \<Rightarrow> ka_exit \<times> 'x ka_mach" where
  "ka_ADD bus s = ka_RD_B bus False s (\<lambda>s.
     let s = ka_CLCV s; SR = ka_r s 8; DR = ka_r s 9;
         b = ucast SR + ucast DR :: u32;
         s = ka_set_if (b AND 0x10000 \<noteq> 0) KA_PSW_C s;
         s = ka_set_if (ka_sgn (NOT (SR XOR DR) AND (DR XOR ucast b))) KA_PSW_V s
     in ka_WR bus b False (ka_NZ b s))"

definition ka_SUB :: "'x bus_ops \<Rightarrow> 'x ka_mach \<Rightarrow> ka_exit \<times> 'x ka_mach" where
  "ka_SUB bus s = ka_RD_B bus False s (\<lambda>s.
     let s = ka_CLCV s; SR = ka_r s 8; DR = ka_r s 9;
         b = ucast DR + ucast (NOT SR) + 1 :: u32;
         s = ka_set_if (b AND 0x10000 = 0) KA_PSW_C s;
         s = ka_set_if (ka_sgn ((SR XOR DR) AND (DR XOR ucast b))) KA_PSW_V s
     in ka_WR bus b False (ka_NZ b s))"

section \<open>Single operand instructions\<close>

definition ka_CLR :: "'x bus_ops \<Rightarrow> bool \<Rightarrow> 'x ka_mach \<Rightarrow> ka_exit \<times> 'x ka_mach" where
  "ka_CLR bus by s = ka_RD_U bus by s (\<lambda>s. ka_WR bus 0 by (ka_NZ 0 (ka_CLCV s)))"

definition ka_COM :: "'x bus_ops \<Rightarrow> bool \<Rightarrow> 'x ka_mach \<Rightarrow> ka_exit \<times> 'x ka_mach" where
  "ka_COM bus by s = ka_RD_U bus by s (\<lambda>s.
     let s = ka_set KA_PSW_C (ka_CLV s); b = ucast (NOT (ka_r s 8)) in ka_WR bus b by (ka_NZ b s))"

definition ka_INC :: "'x bus_ops \<Rightarrow> bool \<Rightarrow> 'x ka_mach \<Rightarrow> ka_exit \<times> 'x ka_mach" where
  "ka_INC bus by s = ka_RD_U bus by s (\<lambda>s.
     let s = ka_CLV s; SR = ka_r s 8; b = ka_BXT by (ucast (SR + 1));
         s = ka_set_if (ka_sgn (NOT SR AND ucast b)) KA_PSW_V s
     in ka_WR bus b by (ka_NZ b s))"

definition ka_DEC :: "'x bus_ops \<Rightarrow> bool \<Rightarrow> 'x ka_mach \<Rightarrow> ka_exit \<times> 'x ka_mach" where
  "ka_DEC bus by s = ka_RD_U bus by s (\<lambda>s.
     let s = ka_CLV s; SR = ka_r s 8; b = ka_BXT by (ucast (SR + NOT 0));
         s = ka_set_if (ka_sgn (SR AND NOT (ucast b))) KA_PSW_V s
     in ka_WR bus b by (ka_NZ b s))"

definition ka_NEG :: "'x bus_ops \<Rightarrow> bool \<Rightarrow> 'x ka_mach \<Rightarrow> ka_exit \<times> 'x ka_mach" where
  "ka_NEG bus by s = ka_RD_U bus by s (\<lambda>s.
     let s = ka_CLCV s; SR = ka_r s 8; b = ka_BXT by (ucast (NOT SR + 1));
         s = ka_set_if (b \<noteq> 0) KA_PSW_C s;
         s = ka_set_if (ka_sgn (ucast b AND SR)) KA_PSW_V s
     in ka_WR bus b by (ka_NZ b s))"

definition ka_ADC :: "'x bus_ops \<Rightarrow> bool \<Rightarrow> 'x ka_mach \<Rightarrow> ka_exit \<times> 'x ka_mach" where
  "ka_ADC bus by s = ka_RD_U bus by s (\<lambda>s.
     let c = (if ka_ISSET KA_PSW_C s then 1 else 0 :: u32); s = ka_CLCV s; SR = ka_r s 8;
         b = ucast SR + c;
         s = ka_set_if (b AND 0x10000 \<noteq> 0) KA_PSW_C s;
         b = ka_BXT by b;
         s = ka_set_if (ka_sgn (NOT SR AND ucast b)) KA_PSW_V s
     in ka_WR bus b by (ka_NZ b s))"

text \<open>\<open>c = !ISSET(PSW_C)-1\<close>: all ones when the carry is set, 0 when it is clear.\<close>

definition ka_SBC :: "'x bus_ops \<Rightarrow> bool \<Rightarrow> 'x ka_mach \<Rightarrow> ka_exit \<times> 'x ka_mach" where
  "ka_SBC bus by s = ka_RD_U bus by s (\<lambda>s.
     let c = (if ka_ISSET KA_PSW_C s then 0 else 1 :: u32) - 1; s = ka_CLCV s; SR = ka_r s 8;
         b = ucast (ucast (ucast SR + c) :: u16) :: u32;
         s = ka_set_if (c \<noteq> 0 \<and> SR = 0) KA_PSW_C s;
         b = ka_BXT by b;
         s = ka_set_if (ka_sgn (SR AND NOT (ucast b))) KA_PSW_V s
     in ka_WR bus b by (ka_NZ b s))"

definition ka_TST :: "'x bus_ops \<Rightarrow> bool \<Rightarrow> 'x ka_mach \<Rightarrow> ka_exit \<times> 'x ka_mach" where
  "ka_TST bus by s = ka_RD_U bus by s (\<lambda>s. let s = ka_CLCV s in ka_svc (ka_NZ (ucast (ka_r s 8)) s))"

text \<open>\<open>if((PSW>>3^PSW)&1) SEV\<close>: V := N xor C.\<close>

definition ka_shift_v :: "'x ka_mach \<Rightarrow> 'x ka_mach" where
  "ka_shift_v s = ka_set_if ((drop_bit 3 (ka_psw s) XOR ka_psw s) AND 1 \<noteq> 0) KA_PSW_V s"

definition ka_mask :: "bool \<Rightarrow> u16" where "ka_mask by = (if by then 0x00FF else 0xFFFF)"
definition ka_sign :: "bool \<Rightarrow> u32" where "ka_sign by = (if by then 0x0080 else 0x8000)"

definition ka_ROR :: "'x bus_ops \<Rightarrow> bool \<Rightarrow> 'x ka_mach \<Rightarrow> ka_exit \<times> 'x ka_mach" where
  "ka_ROR bus by s = ka_RD_U bus by s (\<lambda>s.
     let c = ka_ISSET KA_PSW_C s; s = ka_CLCV s; SR = ka_r s 8;
         b = ucast (drop_bit 1 (SR AND ka_mask by)) :: u32;
         b = (if c then b OR ka_sign by else b);
         s = ka_set_if (SR AND 1 \<noteq> 0) KA_PSW_C s;
         b = ka_BXT by b
     in ka_WR bus b by (ka_shift_v (ka_NZ b s)))"

definition ka_ROL :: "'x bus_ops \<Rightarrow> bool \<Rightarrow> 'x ka_mach \<Rightarrow> ka_exit \<times> 'x ka_mach" where
  "ka_ROL bus by s = ka_RD_U bus by s (\<lambda>s.
     let c = ka_ISSET KA_PSW_C s; s = ka_CLCV s; SR = ka_r s 8;
         b = ucast (push_bit 1 SR AND ka_mask by) :: u32;
         b = (if c then b OR 1 else b);
         s = ka_set_if (SR AND 0x8000 \<noteq> 0) KA_PSW_C s;
         b = ka_BXT by b
     in ka_WR bus b by (ka_shift_v (ka_NZ b s)))"

definition ka_ASR :: "'x bus_ops \<Rightarrow> bool \<Rightarrow> 'x ka_mach \<Rightarrow> ka_exit \<times> 'x ka_mach" where
  "ka_ASR bus by s = ka_RD_U bus by s (\<lambda>s.
     let s = ka_CLCV s; SR = ka_r s 8;
         b = ucast (drop_bit 1 SR OR (SR AND 0x8000)) :: u32;
         s = ka_set_if (SR AND 1 \<noteq> 0) KA_PSW_C s;
         b = ka_BXT by b
     in ka_WR bus b by (ka_shift_v (ka_NZ b s)))"

definition ka_ASL :: "'x bus_ops \<Rightarrow> bool \<Rightarrow> 'x ka_mach \<Rightarrow> ka_exit \<times> 'x ka_mach" where
  "ka_ASL bus by s = ka_RD_U bus by s (\<lambda>s.
     let s = ka_CLCV s; SR = ka_r s 8;
         b = ucast (push_bit 1 SR) :: u32;
         s = ka_set_if (SR AND 0x8000 \<noteq> 0) KA_PSW_C s;
         b = ka_BXT by b
     in ka_WR bus b by (ka_shift_v (ka_NZ b s)))"

definition ka_SWAB :: "'x bus_ops \<Rightarrow> bool \<Rightarrow> 'x ka_mach \<Rightarrow> ka_exit \<times> 'x ka_mach" where
  "ka_SWAB bus by s = ka_RD_U bus by s (\<lambda>s.
     let s = (if ka_swab_vbit s then ka_CLCV s else ka_clr KA_PSW_C s);
         DR = ka_r s 9; b = WD (DR AND 0xFF) (drop_bit 8 DR AND 0xFF);
         s = ka_clr (KA_PSW_N OR KA_PSW_Z) s;
         s = ka_set_if (b AND 0x80 \<noteq> 0) KA_PSW_N s;
         s = ka_set_if (b AND 0xFF = 0) KA_PSW_Z s
     in ka_WR bus (ucast b) by s)"

section \<open>Jumps and branches\<close>

definition ka_JSR :: "'x bus_ops \<Rightarrow> 'x ka_mach \<Rightarrow> ka_exit \<times> 'x ka_mach" where
  "ka_JSR bus s =
    (let sf = ka_src s mod 8; dst = ka_dst s in
     if dst div 8 = 0 then (KaTrap 4, s)
     else ka_try (ka_addrop bus dst False s) (\<lambda>s.
       let s = ka_PUSH (ka_set_r 9 (ka_b s) s) in
       ka_try (ka_OUT bus (ka_r s 6) (ka_r s sf) s) (\<lambda>s.
         let s = ka_set_r sf (ka_r s 7) s in ka_svc (ka_set_r 7 (ka_r s 9) s))))"

definition ka_JMP :: "'x bus_ops \<Rightarrow> 'x ka_mach \<Rightarrow> ka_exit \<times> 'x ka_mach" where
  "ka_JMP bus s =
    (if ka_dst s div 8 = 0 then (KaTrap 4, s)
     else ka_try (ka_addrop bus (ka_dst s) False s) (\<lambda>s. ka_svc (ka_set_r 7 (ka_b s) s)))"

definition ka_RTS :: "'x bus_ops \<Rightarrow> 'x ka_mach \<Rightarrow> ka_exit \<times> 'x ka_mach" where
  "ka_RTS bus s =
    (let df = ka_dst s mod 8; s = ka_BA_SP_POP s; s = ka_set_r 7 (ka_r s df) s in
     ka_try (ka_dati bus False s) (\<lambda>s. ka_svc (ka_set_r df (ka_bdata s) s)))"

definition ka_RTI :: "'x bus_ops \<Rightarrow> 'x ka_mach \<Rightarrow> ka_exit \<times> 'x ka_mach" where
  "ka_RTI bus s =
     ka_try (ka_dati bus False (ka_BA_SP_POP s)) (\<lambda>s.
       let s = ka_BA_SP_POP (ka_set_r 7 (ka_bdata s) s) in
       ka_try (ka_dati bus False s) (\<lambda>s.
         let s = s\<lparr>ka_psw := ucast (ka_bdata s)\<rparr> in ka_svc (ka_levelchange bus (ka_psw s) s)))"

text \<open>\<open>br = sxt(ir)<<1\<close>, and \<open>CBR(c)\<close> looks the condition codes up in the 16 bits of \<open>c\<close>.\<close>

definition ka_BR :: "'x ka_mach \<Rightarrow> 'x ka_mach" where
  "ka_BR s = ka_set_r 7 (ka_r s 7 + push_bit 1 (ka_sxt (ucast (ka_ir s)))) s"

definition ka_CBR :: "u16 \<Rightarrow> 'x ka_mach \<Rightarrow> 'x ka_mach" where
  "ka_CBR c s = (if drop_bit (unat (ka_psw s AND 0xF)) c AND 1 \<noteq> 0 then ka_BR s else s)"

definition ka_branch_table :: "u16 \<Rightarrow> u16 option" where
  "ka_branch_table op =
    (if op = 0x0200 then Some 0x0F0F         \<comment> \<open>001000 BNE\<close>
     else if op = 0x0300 then Some 0xF0F0    \<comment> \<open>001400 BEQ\<close>
     else if op = 0x0400 then Some 0xCC33    \<comment> \<open>002000 BGE\<close>
     else if op = 0x0500 then Some 0x33CC    \<comment> \<open>002400 BLT\<close>
     else if op = 0x0600 then Some 0x0C03    \<comment> \<open>003000 BGT\<close>
     else if op = 0x0700 then Some 0xF3FC    \<comment> \<open>003400 BLE\<close>
     else if op = 0x8000 then Some 0x00FF    \<comment> \<open>100000 BPL\<close>
     else if op = 0x8100 then Some 0xFF00    \<comment> \<open>100400 BMI\<close>
     else if op = 0x8200 then Some 0x0505    \<comment> \<open>101000 BHI\<close>
     else if op = 0x8300 then Some 0xFAFA    \<comment> \<open>101400 BLOS\<close>
     else if op = 0x8400 then Some 0x3333    \<comment> \<open>102000 BVC\<close>
     else if op = 0x8500 then Some 0xCCCC    \<comment> \<open>102400 BVS\<close>
     else if op = 0x8600 then Some 0x5555    \<comment> \<open>103000 BCC\<close>
     else if op = 0x8700 then Some 0xAAAA    \<comment> \<open>103400 BCS\<close>
     else None)"

definition ka_branch :: "'x ka_mach \<Rightarrow> ka_exit \<times> 'x ka_mach" where
  "ka_branch s =
    (let op = ka_ir s AND 0x8700 in                  \<comment> \<open>0103400\<close>
     if op = 0x0100 then ka_svc (ka_BR s)             \<comment> \<open>000400 BR\<close>
     else case ka_branch_table op of Some c \<Rightarrow> ka_svc (ka_CBR c s) | None \<Rightarrow> ka_svc s)"

section \<open>Decode\<close>

definition ka_operate :: "'x bus_ops \<Rightarrow> 'x ka_mach \<Rightarrow> ka_exit \<times> 'x ka_mach" where
  "ka_operate bus s =
    (if ka_ir s = 0 then (KaReturn, s\<lparr>ka_state := KA11_STATE_HALTED\<rparr>)
     else if ka_ir s = 1 then (KaReturn, s\<lparr>ka_state := KA11_STATE_WAITING\<rparr>)
     else if ka_ir s = 2 then ka_RTI bus s
     else if ka_ir s = 3 then (KaTrap 12, s)          \<comment> \<open>BPT, 014\<close>
     else if ka_ir s = 4 then (KaTrap 16, s)          \<comment> \<open>IOT, 020\<close>
     else if ka_ir s = 5 then
       (let s = ka11_reset s in ka_svc (s\<lparr>ka_env := unibone_bus_init bus (ka_env s)\<rparr>))
     else (KaTrap 8, s))"

definition ka_unary :: "'x bus_ops \<Rightarrow> bool \<Rightarrow> 'x ka_mach \<Rightarrow> (ka_exit \<times> 'x ka_mach) option" where
  "ka_unary bus by s =
    (let op = ka_ir s AND 0x0FC0 in                  \<comment> \<open>0007700\<close>
     if op = 0x0A00 then Some (ka_CLR bus by s)       \<comment> \<open>0005000\<close>
     else if op = 0x0A40 then Some (ka_COM bus by s)  \<comment> \<open>0005100\<close>
     else if op = 0x0A80 then Some (ka_INC bus by s)  \<comment> \<open>0005200\<close>
     else if op = 0x0AC0 then Some (ka_DEC bus by s)  \<comment> \<open>0005300\<close>
     else if op = 0x0B00 then Some (ka_NEG bus by s)  \<comment> \<open>0005400\<close>
     else if op = 0x0B40 then Some (ka_ADC bus by s)  \<comment> \<open>0005500\<close>
     else if op = 0x0B80 then Some (ka_SBC bus by s)  \<comment> \<open>0005600\<close>
     else if op = 0x0BC0 then Some (ka_TST bus by s)  \<comment> \<open>0005700\<close>
     else if op = 0x0C00 then Some (ka_ROR bus by s)  \<comment> \<open>0006000\<close>
     else if op = 0x0C40 then Some (ka_ROL bus by s)  \<comment> \<open>0006100\<close>
     else if op = 0x0C80 then Some (ka_ASR bus by s)  \<comment> \<open>0006200\<close>
     else if op = 0x0CC0 then Some (ka_ASL bus by s)  \<comment> \<open>0006300\<close>
     else if op = 0x0D00 \<or> op = 0x0D40 \<or> op = 0x0D80 \<or> op = 0x0DC0
     then Some (KaTrap 8, s)                          \<comment> \<open>0006400 .. 0006700\<close>
     else None)"

definition ka_misc :: "'x bus_ops \<Rightarrow> bool \<Rightarrow> 'x ka_mach \<Rightarrow> ka_exit \<times> 'x ka_mach" where
  "ka_misc bus by s =
    (let op = ka_ir s AND 0xFEC0 in                  \<comment> \<open>0777300 on 16 bits\<close>
     if op = 0x0040 then ka_JMP bus s                 \<comment> \<open>0100\<close>
     else if op = 0x0080 then                         \<comment> \<open>0200\<close>
       (let f = ka_ir s AND 0x38 in                   \<comment> \<open>070\<close>
        if f = 0 then ka_RTS bus s
        else if f = 0x08 \<or> f = 0x10 \<or> f = 0x18 then (KaTrap 8, s)
        else if f = 0x20 \<or> f = 0x28 then ka_svc (ka_clr (ucast (ka_ir s AND 0xF)) s)
        else if f = 0x30 \<or> f = 0x38 then ka_svc (ka_set (ucast (ka_ir s AND 0xF)) s)
        else (KaTrap 8, s))
     else if op = 0x00C0 then ka_SWAB bus by s        \<comment> \<open>0300\<close>
     else ka_operate bus s)"

definition ka_exec :: "'x bus_ops \<Rightarrow> 'x ka_mach \<Rightarrow> ka_exit \<times> 'x ka_mach" where
  "ka_exec bus s =
    (let by = (ka_ir s AND 0x8000 \<noteq> 0); op = ka_ir s AND 0xF000 in
     if op = 0x9000 \<or> op = 0x1000 then ka_MOV bus by s
     else if op = 0xA000 \<or> op = 0x2000 then ka_CMP bus by s
     else if op = 0xB000 \<or> op = 0x3000 then ka_BIT bus by s
     else if op = 0xC000 \<or> op = 0x4000 then ka_BIC bus by s
     else if op = 0xD000 \<or> op = 0x5000 then ka_BIS bus by s
     else if op = 0x6000 then ka_ADD bus s
     else if op = 0xE000 then ka_SUB bus s
     else if op = 0xF000 then (KaTrap 8, s)
     else if op = 0x7000 then (KaTrap 8, s)
     else case ka_unary bus by s of
       Some r \<Rightarrow> r
     | None \<Rightarrow>
         let j = ka_ir s AND 0x8F00 in                \<comment> \<open>0107400\<close>
         if j = 0x0800 \<or> j = 0x0900 then ka_JSR bus s  \<comment> \<open>0004000, 0004400\<close>
         else if j = 0x8800 then (KaTrap 24, s)        \<comment> \<open>EMT, 030\<close>
         else if j = 0x8900 then (KaTrap 28, s)        \<comment> \<open>TRAP, 034\<close>
         else if ka_ir s AND 0x7800 = 0 \<and> ka_ir s AND 0x8700 \<noteq> 0 then ka_branch s
         else ka_misc bus by s)"

section \<open>Labels\<close>

text \<open>\<open>trap:\<close> with the vector in \<open>TV\<close>, which is \<open>r[012]\<close>.\<close>

definition ka_trap_seq :: "'x bus_ops \<Rightarrow> 'x ka_mach \<Rightarrow> ka_exit \<times> 'x ka_mach" where
  "ka_trap_seq bus s =
    (let s = ka_PUSH s in
     ka_try (ka_OUT bus (ka_r s 6) (ucast (ka_psw s)) s) (\<lambda>s.
       let s = ka_PUSH s in
       ka_try (ka_OUT bus (ka_r s 6) (ka_r s 7) s) (\<lambda>s.
         ka_try (ka_INA bus (ka_r s 10) s) (\<lambda>s.
           let s = ka_set_r 7 (ka_bdata s) s in
           ka_try (ka_INA bus (ka_r s 10 + 2) s) (\<lambda>s.
             let s = s\<lparr>ka_psw := ucast (ka_bdata s)\<rparr>;
                 s = ka_levelchange bus (ka_psw s) s
             in (KaReturn, s\<lparr>ka_oldpsw := ka_psw s\<rparr>))))))"

definition ka_be_path :: "'x ka_mach \<Rightarrow> ka_exit \<times> 'x ka_mach" where
  "ka_be_path s = (if ka_be s > 1 then (KaReturn, s\<lparr>ka_state := KA11_STATE_HALTED\<rparr>) else (KaTrap 4, s))"

definition ka_service :: "'x ka_mach \<Rightarrow> ka_exit \<times> 'x ka_mach" where
  "ka_service s =
    (if ka_oldpsw s AND KA_PSW_T \<noteq> 0 then (KaTrap 12, s\<lparr>ka_oldpsw := ka_oldpsw s AND NOT KA_PSW_T\<rparr>)
     else if ka_traps s AND KA_TRAP_STACK \<noteq> 0 then
       (KaTrap 4, s\<lparr>ka_traps := ka_traps s AND NOT KA_TRAP_STACK, ka_inhov := True\<rparr>)
     else if ka_traps s AND KA_TRAP_PWR \<noteq> 0 then
       (KaTrap 20, s\<lparr>ka_traps := ka_traps s AND NOT KA_TRAP_PWR\<rparr>)
     else (KaReturn, s))"

fun ka_labels :: "nat \<Rightarrow> 'x bus_ops \<Rightarrow> ka_exit \<times> 'x ka_mach \<Rightarrow> 'x ka_mach option" where
  "ka_labels 0 bus p = None"
| "ka_labels (Suc n) bus (KaReturn, s) = Some s"
| "ka_labels (Suc n) bus (KaService, s) = ka_labels n bus (ka_service s)"
| "ka_labels (Suc n) bus (KaBe, s) = ka_labels n bus (ka_be_path s)"
| "ka_labels (Suc n) bus (KaTrap v, s) = ka_labels n bus (ka_trap_seq bus (ka_set_r 10 v s))"

section \<open>One instruction\<close>

definition ka_step_begin :: "'x bus_ops \<Rightarrow> 'x ka_mach \<Rightarrow> ka_exit \<times> 'x ka_mach" where
  "ka_step_begin bus s =
    (let s = s\<lparr>ka_inhov := False\<rparr> in
     if ka_external_intr s then
       (KaTrap (ka_external_intrvec s), s\<lparr>ka_external_intr := False, ka_state := KA11_STATE_RUNNING\<rparr>)
     else
       let s = s\<lparr>ka_oldpsw := ka_psw s\<rparr> in
       ka_try (ka_INA bus (ka_r s 7) s) (\<lambda>s.
         let s = s\<lparr>ka_ir := ka_bdata s\<rparr> in ka_exec bus (ka_set_r 7 (ka_r s 7 + 2) s)))"

definition ka_step :: "nat \<Rightarrow> 'x bus_ops \<Rightarrow> 'x ka_mach \<Rightarrow> 'x ka_mach option" where
  "ka_step fuel bus s = ka_labels fuel bus (ka_step_begin bus s)"

definition ka11_pwrup_vector_fetch :: "'x bus_ops \<Rightarrow> 'x ka_mach \<Rightarrow> 'x ka_mach" where
  "ka11_pwrup_vector_fetch bus s =
    (let (fail, s) = ka_INA bus 20 s in                  \<comment> \<open>024\<close>
     if fail then s\<lparr>ka_be := Suc (ka_be s)\<rparr>
     else
       let (fail, s) = ka_INA bus 22 (ka_set_r 7 (ka_bdata s) s) in
       if fail then s\<lparr>ka_be := Suc (ka_be s)\<rparr> else s\<lparr>ka_psw := ucast (ka_bdata s)\<rparr>)"

definition ka11_condstep :: "nat \<Rightarrow> 'x bus_ops \<Rightarrow> 'x ka_mach \<Rightarrow> 'x ka_mach option" where
  "ka11_condstep fuel bus s =
    (let s = (if ka_state s = KA11_STATE_RUNNING \<or> ka_state s = KA11_STATE_WAITING
              then s\<lparr>ka_env := unibone_grant_interrupts bus (ka_env s)\<rparr> else s) in
     if ka_state s = KA11_STATE_RUNNING \<or> (ka_state s = KA11_STATE_WAITING \<and> ka_traps s \<noteq> 0) \<or>
        (ka_state s = KA11_STATE_WAITING \<and> ka_external_intr s)
     then ka_step fuel bus (s\<lparr>ka_state := KA11_STATE_RUNNING\<rparr>)
     else Some s)"

end
