(* ===== verification/KA11_Lemmas.thy ===== *)
theory KA11_Lemmas
  imports KA11_Step
begin

unbundle bit_operations_syntax

text \<open>
  The invariant of the 11/20 core, one preservation lemma per operation, and the failing
  trap sequence.
\<close>

section \<open>Invariant\<close>

text \<open>
  Only the two trap conditions are ever flagged, \<open>assert(0)\<close> is not reached, and of the
  sixteen registers only the first eleven are written; \<open>u\<close> are the others.
\<close>

definition known_traps :: "u32 \<Rightarrow> bool" where
  "known_traps x \<longleftrightarrow> (\<forall>n. bit x n \<longrightarrow> n < 2)"

definition ka_inv :: "(nat \<Rightarrow> u16) \<Rightarrow> 'x ka_mach \<Rightarrow> bool" where
  "ka_inv u s \<longleftrightarrow> known_traps (ka_traps s) \<and> \<not> ka_assert_failed s \<and>
     (\<forall>i > 10. ka_r s i = u i)"

named_theorems ka_pres

lemma inv_set_r [simp]: "i \<le> 10 \<Longrightarrow> ka_inv u (ka_set_r i v s) = ka_inv u s"
  by (auto simp: ka_inv_def ka_set_r_def)

lemma inv_fields [simp]:
  "ka_inv u (s\<lparr>ka_b := b\<rparr>) = ka_inv u s" "ka_inv u (s\<lparr>ka_ba := a\<rparr>) = ka_inv u s"
  "ka_inv u (s\<lparr>ka_bdata := d\<rparr>) = ka_inv u s" "ka_inv u (s\<lparr>ka_ir := w\<rparr>) = ka_inv u s"
  "ka_inv u (s\<lparr>ka_psw := p\<rparr>) = ka_inv u s" "ka_inv u (s\<lparr>ka_be := n\<rparr>) = ka_inv u s"
  "ka_inv u (s\<lparr>ka_state := st\<rparr>) = ka_inv u s" "ka_inv u (s\<lparr>ka_external_intr := x\<rparr>) = ka_inv u s"
  "ka_inv u (s\<lparr>ka_external_intrvec := v\<rparr>) = ka_inv u s" "ka_inv u (s\<lparr>ka_oldpsw := p\<rparr>) = ka_inv u s"
  "ka_inv u (s\<lparr>ka_inhov := x\<rparr>) = ka_inv u s" "ka_inv u (s\<lparr>ka_env := e\<rparr>) = ka_inv u s"
  "ka_inv u (ka_levelchange bus p s) = ka_inv u s" "ka_inv u (ka_clr m s) = ka_inv u s" "ka_inv u (ka_set m s) = ka_inv u s"
  "ka_inv u (ka_set_if c m s) = ka_inv u s" "ka_inv u (ka_NZ bb s) = ka_inv u s" "ka_inv u (ka_shift_v s) = ka_inv u s"
  by (simp_all add: ka_inv_def ka_levelchange_def ka_clr_def ka_set_def ka_set_if_def ka_NZ_def ka_setnz_def ka_shift_v_def Let_def)

lemma trap_bits [simp]:
  "known_traps 0" "known_traps x \<Longrightarrow> known_traps (x OR KA_TRAP_STACK)" "known_traps x \<Longrightarrow> known_traps (x OR KA_TRAP_PWR)"
  "known_traps x \<Longrightarrow> known_traps (x AND y)"
proof -
  have "bit KA_TRAP_PWR n \<longrightarrow> n < 2" "bit KA_TRAP_STACK n \<longrightarrow> n < 2" for n
    using bit_exp_iff[where 'a = "32 word", of 1 n] by (auto simp: KA_TRAP_PWR_def KA_TRAP_STACK_def bit_1_iff)
  then show "known_traps 0" "known_traps x \<Longrightarrow> known_traps (x OR KA_TRAP_STACK)"
    "known_traps x \<Longrightarrow> known_traps (x OR KA_TRAP_PWR)" "known_traps x \<Longrightarrow> known_traps (x AND y)"
    by (auto simp: known_traps_def bit_or_iff bit_and_iff)
qed

lemma inv_traps [simp]:
  "ka_inv u s \<Longrightarrow> ka_inv u (s\<lparr>ka_traps := ka_traps s OR KA_TRAP_STACK\<rparr>)"
  "ka_inv u s \<Longrightarrow> ka_inv u (s\<lparr>ka_traps := ka_traps s OR KA_TRAP_PWR\<rparr>)"
  "ka_inv u s \<Longrightarrow> ka_inv u (s\<lparr>ka_traps := ka_traps s AND y\<rparr>)"
  "ka_inv u s \<Longrightarrow> ka_inv u (s\<lparr>ka_traps := 0\<rparr>)"
  unfolding ka_inv_def by simp_all

lemma small_fields [simp]: "m mod 8 \<le> (10::nat)" "unat (w AND 7 :: u16) \<le> 10"
proof -
  show "m mod 8 \<le> (10::nat)" using mod_less_divisor[of 8 m] by linarith
  have "w AND 7 = w AND mask 3" by (simp add: mask_eq_exp_minus_1)
  then have "unat (w AND 7) < 8" using unat_and_mask_lt[of 3 w] by simp
  then show "unat (w AND 7 :: u16) \<le> 10" by linarith
qed

section \<open>Operations\<close>

lemma inv_cycle [simp]: "ka_inv u (snd (ka_cycle_ok s)) = ka_inv u s" "ka_inv u (snd (ka_cycle_fail s)) = ka_inv u s"
  by (simp_all add: ka_cycle_ok_def ka_cycle_fail_def)

lemma inv_dati [ka_pres]: "ka_inv u s \<Longrightarrow> ka_inv u (snd (ka_dati bus b s))"
  by (simp add: ka_dati_def Let_def split: option.split prod.split)

lemma inv_dato [ka_pres]: "ka_inv u s \<Longrightarrow> ka_inv u (snd (ka_dato bus b s))"
  by (simp add: ka_dato_def Let_def split: bool.split prod.split)

lemma inv_addrop_base: "ka_inv u s \<Longrightarrow> ka_inv u (snd (ka_addrop_base bus m b s))"
  using inv_dati[of u "ka_set_r 7 (ka_r s 7 + 2) (s\<lparr>ka_ba := ka_r s 7\<rparr>)" bus False]
  by (auto simp: ka_addrop_base_def Let_def split: prod.split bool.split) (simp_all add: ka_inv_def)

lemma inv_addrop [ka_pres]:
  assumes "ka_inv u s" "m div 8 \<noteq> 0"
  shows "ka_inv u (snd (ka_addrop bus m b s))"
  using assms(2) inv_addrop_base[OF assms(1), of bus m b] inv_dati[of u "snd (ka_addrop_base bus m b s)" bus False] assms(1)
  by (auto simp: ka_addrop_def Let_def split: prod.split bool.split)

lemma inv_fetchop [ka_pres]: "ka_inv u s \<Longrightarrow> t \<le> 10 \<Longrightarrow> ka_inv u (snd (ka_fetchop bus t m b s))"
  using inv_dati[of u s bus b] by (auto simp: ka_fetchop_def ka_fetch_ext_def split: prod.split bool.split)

lemma inv_readop [ka_pres]:
  assumes "ka_inv u s" "m div 8 \<noteq> 0" "t \<le> 10"
  shows "ka_inv u (snd (ka_readop bus t m b s))"
  using inv_addrop[OF assms(1,2), of bus b] inv_fetchop[of u "snd (ka_addrop bus m b s)" t bus m b] assms(3)
  by (auto simp: ka_readop_def split: prod.split bool.split)

lemma inv_writedest [ka_pres]: "ka_inv u s \<Longrightarrow> ka_inv u (snd (ka_writedest bus v b s))"
  by (simp add: ka_writedest_def Let_def inv_dato)

lemma inv_try [ka_pres]:
  "ka_inv u (snd p) \<Longrightarrow> (\<And>t. ka_inv u t \<Longrightarrow> ka_inv u (snd (k t))) \<Longrightarrow> ka_inv u (snd (ka_try p k))"
  by (simp add: ka_try_def)

lemma inv_svc [simp]: "ka_inv u (snd (ka_svc s)) = ka_inv u s"
  by (simp add: ka_svc_def)

lemma inv_RD_B [ka_pres]:
  assumes "ka_inv u s" "\<And>t. ka_inv u t \<Longrightarrow> ka_inv u (snd (k t))"
  shows "ka_inv u (snd (ka_RD_B bus by s k))"
  unfolding ka_RD_B_def Let_def
  by (intro inv_try assms(2)) (auto intro!: inv_readop inv_fetchop simp: assms(1))

lemma inv_RD_U [ka_pres]:
  assumes "ka_inv u s" "\<And>t. ka_inv u t \<Longrightarrow> ka_inv u (snd (k t))"
  shows "ka_inv u (snd (ka_RD_U bus by s k))"
  unfolding ka_RD_U_def Let_def
  by (intro inv_try assms(2)) (auto intro!: inv_readop inv_fetchop simp: assms(1))

lemma inv_WR [ka_pres]: "ka_inv u s \<Longrightarrow> ka_inv u (snd (ka_WR bus b by s))"
  by (simp add: ka_WR_def inv_try inv_writedest)

lemma inv_PUSH [simp]: "ka_inv u s \<Longrightarrow> ka_inv u (ka_PUSH s)"
  using inv_traps(1)[of u "ka_set_r 6 (ka_r s 6 - 2) s"] by (simp add: ka_PUSH_def Let_def)

lemma inv_OUT [ka_pres]: "ka_inv u s \<Longrightarrow> ka_inv u (snd (ka_OUT bus a d s))"
  by (simp add: ka_OUT_def inv_dato)

lemma inv_INA [ka_pres]: "ka_inv u s \<Longrightarrow> ka_inv u (snd (ka_INA bus a s))"
  by (simp add: ka_INA_def inv_dati)

lemma inv_POP [simp]: "ka_inv u (ka_BA_SP_POP s) = ka_inv u s"
  by (simp add: ka_BA_SP_POP_def)

section \<open>Instructions\<close>

lemmas ka_binary_defs = ka_MOV_def ka_CMP_def ka_BIT_def ka_BIC_def ka_BIS_def ka_ADD_def ka_SUB_def
lemmas ka_unary_defs = ka_CLR_def ka_COM_def ka_INC_def ka_DEC_def ka_NEG_def ka_ADC_def ka_SBC_def ka_TST_def
  ka_ROR_def ka_ROL_def ka_ASR_def ka_ASL_def ka_SWAB_def

lemma inv_binary [ka_pres]:
  assumes "ka_inv u s"
  shows "ka_inv u (snd (ka_MOV bus by s))" "ka_inv u (snd (ka_CMP bus by s))" "ka_inv u (snd (ka_BIT bus by s))"
    "ka_inv u (snd (ka_BIC bus by s))" "ka_inv u (snd (ka_BIS bus by s))" "ka_inv u (snd (ka_ADD bus s))"
    "ka_inv u (snd (ka_SUB bus s))"
  using assms by (auto simp: ka_binary_defs Let_def intro!: inv_RD_B inv_WR inv_try inv_writedest)

lemma inv_unary [ka_pres]:
  assumes "ka_inv u s"
  shows "ka_inv u (snd (ka_CLR bus by s))" "ka_inv u (snd (ka_COM bus by s))" "ka_inv u (snd (ka_INC bus by s))"
    "ka_inv u (snd (ka_DEC bus by s))" "ka_inv u (snd (ka_NEG bus by s))" "ka_inv u (snd (ka_ADC bus by s))"
    "ka_inv u (snd (ka_SBC bus by s))" "ka_inv u (snd (ka_TST bus by s))" "ka_inv u (snd (ka_ROR bus by s))"
    "ka_inv u (snd (ka_ROL bus by s))" "ka_inv u (snd (ka_ASR bus by s))" "ka_inv u (snd (ka_ASL bus by s))"
    "ka_inv u (snd (ka_SWAB bus by s))"
  using assms by (auto simp: ka_unary_defs Let_def intro!: inv_RD_U inv_WR)

lemma inv_jumps [ka_pres]:
  assumes "ka_inv u s"
  shows "ka_inv u (snd (ka_JSR bus s))" "ka_inv u (snd (ka_JMP bus s))" "ka_inv u (snd (ka_RTS bus s))"
    "ka_inv u (snd (ka_RTI bus s))" "ka_inv u (snd (ka_branch s))"
proof -
  show "ka_inv u (snd (ka_JSR bus s))"
    using assms by (auto simp: ka_JSR_def Let_def intro!: inv_try inv_addrop inv_OUT)
  show "ka_inv u (snd (ka_JMP bus s))"
    using assms by (auto simp: ka_JMP_def intro!: inv_try inv_addrop)
  show "ka_inv u (snd (ka_RTS bus s))" "ka_inv u (snd (ka_RTI bus s))"
    using assms by (auto simp: ka_RTS_def ka_RTI_def Let_def intro!: inv_try inv_dati)
  show "ka_inv u (snd (ka_branch s))"
    using assms by (simp add: ka_branch_def ka_BR_def ka_CBR_def Let_def split: option.split)
qed

lemma inv_exec [ka_pres]:
  assumes "ka_inv u s"
  shows "ka_inv u (snd (ka_exec bus s))"
proof -
  note ops = assms inv_binary[OF assms] inv_unary[OF assms] inv_jumps[OF assms]
  have unary: "ka_inv u (snd r)" if "ka_unary bus w s = Some r" for w r
    using that ops by (auto simp: ka_unary_def Let_def split: if_splits)
  have misc: "ka_inv u (snd (ka_misc bus w s))" for w
    using ops inv_traps(4)[OF assms] by (simp add: ka_misc_def ka_operate_def ka11_reset_def Let_def)
  show ?thesis
    using ops unary misc by (simp add: ka_exec_def Let_def split: option.split)
qed

section \<open>Steps\<close>

lemma inv_trap_seq [ka_pres]: "ka_inv u s \<Longrightarrow> ka_inv u (snd (ka_trap_seq bus s))"
  by (auto simp: ka_trap_seq_def Let_def intro!: inv_try inv_OUT inv_INA)

lemma inv_labels: "ka_labels n bus p = Some t \<Longrightarrow> ka_inv u (snd p) \<Longrightarrow> ka_inv u t"
proof (induction n bus p rule: ka_labels.induct)
  case (3 n bus s)
  then show ?case by (auto simp: ka_service_def split: if_splits)
next
  case (4 n bus s)
  then show ?case by (auto simp: ka_be_path_def split: if_splits)
next
  case (5 n bus v s)
  then show ?case by (simp add: inv_trap_seq)
qed auto

lemma inv_condstep: "ka11_condstep n bus s = Some t \<Longrightarrow> ka_inv u s \<Longrightarrow> ka_inv u t"
proof -
  have "ka_inv u (snd (ka_step_begin bus s))" if "ka_inv u s" for s :: "'a ka_mach"
    using that by (auto simp: ka_step_begin_def Let_def intro!: inv_try inv_INA inv_exec)
  then show "ka11_condstep n bus s = Some t \<Longrightarrow> ka_inv u s \<Longrightarrow> ka_inv u t"
    by (auto simp: ka11_condstep_def ka_step_def Let_def dest!: inv_labels[where u = u] split: if_splits)
qed

lemma inv_entries:
  assumes "ka_inv u s"
  shows "ka_inv u (ka11_power_reset bus s)" "ka_inv u (ka11_setintr v s)" "ka_inv u (ka11_pwrfail_trap s)"
    "ka_inv u (ka11_pwrup_vector_fetch bus s)"
  using assms inv_INA[of u s bus 20] inv_INA[of u _ bus 22]
  by (simp_all add: ka11_power_reset_def ka11_reset_def ka11_setintr_def ka11_pwrfail_trap_def ka11_pwrup_vector_fetch_def Let_def
      split_def)

end
