(* ===== verification/Cores_Agree.thy ===== *)
theory Cores_Agree
  imports KA11_Lemmas KD11EA_Step
begin

unbundle bit_operations_syntax

text \<open>
  The two cores side by side. Each has its own copy of the instruction set; on operands in
  registers they compute the same. The relation \<open>related n\<close> holds between a state of the
  11/20 core and one of the 11/34 core, and every macro of one keeps it together with the
  macro of the other.
\<close>

section \<open>Related states\<close>

text \<open>\<open>n\<close> registers agree, the low byte of the PSW (the whole PSW of the 11/20) and the instruction.\<close>

definition related :: "nat \<Rightarrow> 'x ka_mach \<Rightarrow> 'y mach \<Rightarrow> bool" where
  "related n k m \<longleftrightarrow> (\<forall>i < n. ka_r k i = regs m i) \<and> ka_psw k = ucast (psw m) \<and> ka_ir k = ir m"

definition agree :: "ka_exit \<times> 'x ka_mach \<Rightarrow> exit_to \<times> 'y mach \<Rightarrow> bool" where
  "agree p q \<longleftrightarrow> fst p = KaService \<and> fst q = GoService \<and> related 8 (snd p) (snd q)"

named_theorems rel_rules

lemma low_byte:
  "ucast (x AND y :: u16) = (ucast x AND ucast y :: u8)" "ucast (x OR y :: u16) = (ucast x OR ucast y :: u8)"
  "ucast (NOT x :: u16) = (NOT (ucast x) :: u8)"
  by (rule bit_word_eqI; auto simp: bit_simps)+

lemma flag_bytes:
  "ucast PSW_N = KA_PSW_N" "ucast PSW_Z = KA_PSW_Z" "ucast PSW_V = KA_PSW_V" "ucast PSW_C = KA_PSW_C"
  by (simp_all add: psw_consts ka_psw_consts)

lemma rel_set_r [rel_rules]: "related n k m \<Longrightarrow> related n (ka_set_r i v k) (set_reg i v m)"
  by (simp add: related_def ka_set_r_def set_reg_def)

lemma rel_clr:
  "ucast M = m8 \<Longrightarrow> related n k m \<Longrightarrow> related n (ka_clr m8 k) (psw_clr M m)"
  "ucast M = m8 \<Longrightarrow> related n k m \<Longrightarrow> related n (ka_set m8 k) (psw_set M m)"
  by (auto simp: related_def ka_clr_def psw_clr_def ka_set_def psw_set_def low_byte)

lemma rel_flags [rel_rules]:
  assumes "related n k m"
  shows "related n (ka_clr KA_PSW_V k) (psw_clr PSW_V m)" "related n (ka_clr KA_PSW_C k) (psw_clr PSW_C m)"
    "related n (ka_clr (KA_PSW_V OR KA_PSW_C) k) (psw_clr (PSW_V OR PSW_C) m)"
    "related n (ka_clr (KA_PSW_N OR KA_PSW_Z) k) (psw_clr (PSW_N OR PSW_Z) m)"
    "related n (ka_set KA_PSW_C k) (psw_set PSW_C m)"
    "related n (ka_set_if c KA_PSW_C k) (psw_set_if c PSW_C m)" "related n (ka_set_if c KA_PSW_V k) (psw_set_if c PSW_V m)"
    "related n (ka_set_if c KA_PSW_N k) (psw_set_if c PSW_N m)" "related n (ka_set_if c KA_PSW_Z k) (psw_set_if c PSW_Z m)"
  using assms by (simp_all add: rel_clr ka_set_if_def psw_set_if_def low_byte flag_bytes)

lemma rel_NZ [rel_rules]: "related n k m \<Longrightarrow> related n (ka_NZ b k) (NZ b m)"
  by (simp add: related_def ka_NZ_def ka_setnz_def NZ_def setnz_def Let_def low_byte flag_bytes)

lemma rel_shift_v [rel_rules]:
  assumes "related n k m"
  shows "related n (ka_shift_v k) (shift_v m)"
proof -
  have p: "ka_psw k = ucast (psw m)" using assms by (simp add: related_def)
  have "(drop_bit 3 (ka_psw k) XOR ka_psw k) AND 1 \<noteq> 0 \<longleftrightarrow> (drop_bit 3 (psw m) XOR psw m) AND 1 \<noteq> 0"
    unfolding p and_one_eq mod_2_eq_odd bit_0[symmetric] by (simp add: bit_simps del: bit_0)
  then show ?thesis
    unfolding ka_shift_v_def shift_v_def by (simp only: rel_flags[OF assms])
qed

lemma rel_fields: 
  assumes "related 10 k m"
  shows "ka_r k 8 = regs m 8" "ka_r k 9 = regs m 9" "ka_ISSET KA_PSW_C k = ISSET PSW_C m" "ka_ir k = ir m"
proof -
  have p: "ka_psw k = ucast (psw m)" using assms by (simp add: related_def)
  have c: "PSW_C = 2 ^ 0" "KA_PSW_C = 2 ^ 0" by (simp_all add: PSW_C_def KA_PSW_C_def)
  show "ka_ISSET KA_PSW_C k = ISSET PSW_C m"
    unfolding ka_ISSET_def ISSET_def p c and_exp_eq_0_iff_not_bit by (simp add: bit_simps del: bit_0)
qed (use assms in \<open>auto simp: related_def\<close>)

lemma same_helpers: "ka_sgn = neg16" "ka_BXT = BXT" "ka_mask = byte_mask" "ka_sign = byte_sign"
  by (simp_all add: fun_eq_iff ka_sgn_def neg16_def sgn_w_def ka_BXT_def BXT_def ka_sxt_def sxt_def ka_mask_def byte_mask_def
      ka_sign_def byte_sign_def)

text \<open>The macros leave the fields alone that a later line reads.\<close>

lemma macro_fields:
  "ka_r (ka_clr f k) = ka_r k" "ka_r (ka_set f k) = ka_r k" "ka_r (ka_set_if c f k) = ka_r k" "ka_r (ka_NZ b k) = ka_r k"
  "ka_ir (ka_clr f k) = ka_ir k" "ka_ir (ka_set f k) = ka_ir k" "ka_ir (ka_set_if c f k) = ka_ir k" "ka_ir (ka_NZ b k) = ka_ir k"
  "ka_ir (ka_shift_v k) = ka_ir k" "ka_ir (ka_set_r i v k) = ka_ir k" "ka_swab_vbit (ka_set_r i v k) = ka_swab_vbit k"
  "regs (psw_clr g m) = regs m" "regs (psw_set g m) = regs m" "regs (psw_set_if c g m) = regs m" "regs (NZ b m) = regs m"
  "ir (psw_clr g m) = ir m" "ir (psw_set g m) = ir m" "ir (psw_set_if c g m) = ir m" "ir (NZ b m) = ir m"
  "ir (set_reg i v m) = ir m"
  by (simp_all add: ka_clr_def ka_set_def ka_set_if_def ka_NZ_def ka_setnz_def ka_shift_v_def ka_set_r_def Let_def
      psw_clr_def psw_set_def psw_set_if_def NZ_def setnz_def set_reg_def)

section \<open>Operands\<close>

definition register_operands :: "u16 \<Rightarrow> bool" where
  "register_operands w \<longleftrightarrow> unat (drop_bit 6 w AND 0x3F) div 8 = 0 \<and> unat (w AND 0x3F) div 8 = 0 \<and> w AND 0x38 = 0"

lemma svc_agree [rel_rules]: "related 10 k m \<Longrightarrow> agree (ka_svc k) (svc m)"
  by (simp add: agree_def ka_svc_def svc_def related_def)

lemma WR_agree [rel_rules]:
  assumes "related 10 k m" "ka_ir k AND 0x38 = 0"
  shows "agree (ka_WR bus b by k) (WR bus' b by m)"
proof -
  have lt: "unat (w AND 7 :: u16) < 8" for w
  proof -
    have "w AND 7 = w AND mask 3" by (simp add: mask_eq_exp_minus_1)
    then show ?thesis using unat_and_mask_lt[of 3 w] by simp
  qed
  show ?thesis
    using assms lt[of "ir m"]
    by (simp add: agree_def ka_WR_def ka_try_def ka_writedest_def ka_svc_def WR_def try_be_def writedest_def svc_def
        related_def set_dest_ref_def ka_set_r_def set_reg_def Let_def)
qed

lemma fetch_agree:
  assumes "related n k m" "w div 8 = 0" "t < 10" "n \<ge> 8"
  shows "related n (snd (ka_fetchop bus t w b k)) (snd (fetchop bus' t w b m))"
    "ka_r (snd (ka_fetchop bus t w b k)) t = regs (snd (fetchop bus' t w b m)) t"
    "i \<noteq> t \<Longrightarrow> ka_r (snd (ka_fetchop bus t w b k)) i = ka_r k i"
    "i \<noteq> t \<Longrightarrow> regs (snd (fetchop bus' t w b m)) i = regs m i"
proof -
  have "w mod 8 < 8" by simp
  then have "ka_r k (w mod 8) = regs m (w mod 8)" using assms by (simp add: related_def)
  with assms show "related n (snd (ka_fetchop bus t w b k)) (snd (fetchop bus' t w b m))"
    "ka_r (snd (ka_fetchop bus t w b k)) t = regs (snd (fetchop bus' t w b m)) t"
    "i \<noteq> t \<Longrightarrow> ka_r (snd (ka_fetchop bus t w b k)) i = ka_r k i"
    "i \<noteq> t \<Longrightarrow> regs (snd (fetchop bus' t w b m)) i = regs m i"
    by (auto simp: ka_fetchop_def fetchop_def ka_fetch_ext_def fetchop_ext_def ka_sxt_def sxt_def related_def
        ka_set_r_def set_reg_def)
qed

lemma related_10:
  "related 8 k m \<Longrightarrow> ka_r k 8 = regs m 8 \<Longrightarrow> ka_r k 9 = regs m 9 \<Longrightarrow> related 10 k m"
proof -
  have cases: "i < 8 \<or> i = 8 \<or> i = 9" if "i < 10" for i :: nat using that by arith
  assume "related 8 k m" "ka_r k 8 = regs m 8" "ka_r k 9 = regs m 9"
  then show "related 10 k m" using cases by (auto simp: related_def)
qed

lemma RD_B_agree:
  assumes rel: "related 8 k m" and w: "register_operands (ir m)"
    and body: "\<And>k' m'. related 10 k' m' \<Longrightarrow> ka_r k' 8 = regs m' 8 \<Longrightarrow> ka_r k' 9 = regs m' 9 \<Longrightarrow>
      ka_ISSET KA_PSW_C k' = ISSET PSW_C m' \<Longrightarrow> ka_ir k' = ir m \<Longrightarrow> ir m' = ir m \<Longrightarrow> agree (K k') (M m')"
  shows "agree (ka_RD_B bus by k K) (RD_B bus' by m M)"
proof -
  define a where "a = snd (ka_fetchop bus 8 (ka_src k) by k)"
  define c where "c = snd (fetchop bus' 8 (src_field m) by m)"
  have fields: "ka_src k = src_field m" "ka_dst k = dst_field m" "src_field m div 8 = 0" "dst_field m div 8 = 0"
    "ka_ir k = ir m"
    using rel w by (simp_all add: related_def ka_src_def ka_dst_def src_field_def dst_field_def register_operands_def)
  have first: "related 8 a c" "ka_r a 8 = regs c 8"
    unfolding a_def c_def fields(1) using fetch_agree[OF rel fields(3)] by simp_all
  have dst: "dst_field c = dst_field m" using first(1) rel
    by (simp add: c_def dst_field_def fetchop_def fetchop_ext_def set_reg_def fields)
  define a' where "a' = snd (ka_fetchop bus 9 (ka_dst k) by a)"
  define c' where "c' = snd (fetchop bus' 9 (dst_field m) by c)"
  have second: "related 8 a' c'" "ka_r a' 9 = regs c' 9" "ka_r a' 8 = regs c' 8"
    unfolding a'_def c'_def fields(2) using fetch_agree[OF first(1) fields(4), of 9] first(2) by simp_all
  have ten: "related 10 a' c'" using second by (intro related_10)
  moreover have "ka_ir a' = ir m"
    using second(1) by (simp add: related_def c'_def c_def fetchop_def fetchop_ext_def set_reg_def fields)
  moreover have "ka_RD_B bus by k K = K a'"
    by (simp add: ka_RD_B_def ka_try_def Let_def fields a_def a'_def)
  moreover have "RD_B bus' by m M = M c'"
    by (simp add: RD_B_def rd_operand_def try_be_def fields c_def[symmetric] dst c'_def)
  ultimately show ?thesis using body[OF ten rel_fields(1-3)[OF ten]] rel_fields(4)[OF ten] by simp
qed

lemma RD_U_agree:
  assumes rel: "related 8 k m" and w: "unat (ir m AND 0x3F) div 8 = 0"
    and body: "\<And>k' m'. related 10 k' m' \<Longrightarrow> ka_r k' 8 = regs m' 8 \<Longrightarrow> ka_r k' 9 = regs m' 9 \<Longrightarrow>
      ka_ISSET KA_PSW_C k' = ISSET PSW_C m' \<Longrightarrow> ka_ir k' = ir m \<Longrightarrow> ir m' = ir m \<Longrightarrow>
      ka_swab_vbit k' = ka_swab_vbit k \<Longrightarrow> agree (K k') (M m')"
  shows "agree (ka_RD_U bus by k K) (RD_U bus' by m M)"
proof -
  have fields: "ka_dst k = dst_field m" "dst_field m div 8 = 0" "ka_ir k = ir m"
    using rel w by (simp_all add: related_def ka_dst_def dst_field_def)
  define a where "a = snd (ka_fetchop bus 9 (dst_field m) by k)"
  define c where "c = snd (fetchop bus' 9 (dst_field m) by m)"
  have eq: "related 8 a c" "ka_r a 9 = regs c 9"
    unfolding a_def c_def using fetch_agree[OF rel fields(2), of 9] by simp_all
  then have ten: "related 10 (ka_set_r 8 (ka_r a 9) a) (set_reg 8 (regs c 9) c)"
    by (intro related_10) (simp_all add: rel_set_r, simp_all add: ka_set_r_def set_reg_def)
  moreover have "ka_ir (ka_set_r 8 (ka_r a 9) a) = ir m" "ka_swab_vbit (ka_set_r 8 (ka_r a 9) a) = ka_swab_vbit k"
    using fields(2,3) by (simp_all add: a_def ka_fetchop_def ka_fetch_ext_def ka_set_r_def)
  moreover have "ka_RD_U bus by k K = K (ka_set_r 8 (ka_r a 9) a)"
    by (simp add: ka_RD_U_def ka_try_def Let_def fields a_def)
  moreover have "RD_U bus' by m M = M (set_reg 8 (regs c 9) c)"
    by (simp add: RD_U_def rd_operand_def try_be_def fields c_def)
  ultimately show ?thesis using body[OF ten rel_fields(1-3)[OF ten]] rel_fields(4)[OF ten] by simp
qed

section \<open>Instructions\<close>

lemmas agree_simps = Let_def macro_fields same_helpers

lemma binary_agree:
  assumes rel: "related 8 k m" and w: "register_operands (ir m)"
  shows "agree (ka_MOV bus by k) (op_mov bus' by m)" "agree (ka_CMP bus by k) (op_cmp bus' by m)"
    "agree (ka_BIT bus by k) (op_bit bus' by m)" "agree (ka_BIC bus by k) (op_bic bus' by m)"
    "agree (ka_BIS bus by k) (op_bis bus' by m)" "agree (ka_ADD bus k) (op_add bus' m)" "agree (ka_SUB bus k) (op_sub bus' m)"
proof -
  have dst: "ir m AND 0x38 = 0" "unat (ir m AND 0x3F) div 8 = 0" using w by (simp_all add: register_operands_def)
  have mov: "agree
      (let s = ka_NZ (ucast (ka_r k' 8)) (ka_CLV k') in
       if ka_dst s div 8 = 0 then ka_svc (ka_set_r (ka_dst s mod 8) (ka_r s 8) s) else ka_try (ka_writedest bus (ka_r s 8) by s) ka_svc)
      (let s1 = NZ (ucast (regs m' 8)) (CLV m'); dm = dst_field s1 div 8; df = dst_field s1 mod 8 in
       if dm = 0 then svc (set_reg df (regs s1 8) s1) else try_be (writedest bus' (regs s1 8) by s1) svc)"
    if r: "related 10 k' m'" and i: "ka_r k' 8 = regs m' 8" "ka_ir k' = ir m" "ir m' = ir m" for k' m'
    using i dst(2) by (simp add: agree_simps ka_dst_def dst_field_def) (intro rel_rules r)
  show "agree (ka_MOV bus by k) (op_mov bus' by m)"
    unfolding ka_MOV_def op_mov_def by (rule RD_B_agree[OF rel w]) (rule mov)
  show "agree (ka_CMP bus by k) (op_cmp bus' by m)" "agree (ka_BIT bus by k) (op_bit bus' by m)"
    "agree (ka_BIC bus by k) (op_bic bus' by m)" "agree (ka_BIS bus by k) (op_bis bus' by m)"
    "agree (ka_ADD bus k) (op_add bus' m)" "agree (ka_SUB bus k) (op_sub bus' m)"
    unfolding ka_binary_defs op_cmp_def op_bit_def op_bic_def op_bis_def op_add_def op_sub_def
    by - (rule RD_B_agree[OF rel w]; (simp add: agree_simps)?; intro rel_rules; simp add: macro_fields dst)+
qed

lemma unary_agree:
  assumes rel: "related 8 k m" and w: "ir m AND 0x38 = 0" "unat (ir m AND 0x3F) div 8 = 0"
  shows "agree (ka_CLR bus by k) (op_clr bus' by m)" "agree (ka_COM bus by k) (op_com bus' by m)"
    "agree (ka_INC bus by k) (op_inc bus' by m)" "agree (ka_DEC bus by k) (op_dec bus' by m)"
    "agree (ka_NEG bus by k) (op_neg bus' by m)" "agree (ka_ADC bus by k) (op_adc bus' by m)"
    "agree (ka_SBC bus by k) (op_sbc bus' by m)" "agree (ka_TST bus by k) (op_tst bus' by m)"
    "agree (ka_ROR bus by k) (op_ror bus' by m)" "agree (ka_ROL bus by k) (op_rol bus' by m)"
    "agree (ka_ASR bus by k) (op_asr bus' by m)" "agree (ka_ASL bus by k) (op_asl bus' by m)"
    "ka_swab_vbit k \<Longrightarrow> agree (ka_SWAB bus by k) (op_swab bus' by m)"
  unfolding ka_unary_defs op_clr_def op_com_def op_inc_def op_dec_def op_neg_def op_adc_def op_sbc_def op_tst_def
    op_ror_def op_rol_def op_asr_def op_asl_def op_swab_def
  by - (rule RD_U_agree[OF rel w(2)]; (simp add: agree_simps)?; intro conjI impI rel_rules; simp add: macro_fields w)+

lemma branch_agree:
  assumes "related 8 k m"
  shows "agree (ka_branch k) (exec_branch m)"
proof -
  have p: "unat (ka_psw k AND 0xF) = unat (psw m AND 0xF)"
  proof -
    have "ka_psw k AND 0xF = ucast (psw m AND 0xF)" using assms by (simp add: related_def low_byte)
    moreover have "unat (ucast (psw m AND 0xF) :: u8) = unat (psw m AND 0xF)"
    proof -
      have "psw m AND 0xF = psw m AND mask 4" by (simp add: mask_eq_exp_minus_1)
      then have "unat (psw m AND 0xF) < 2 ^ 4" using unat_and_mask_lt[of 4 "psw m"] by simp
      then show ?thesis by (simp add: unsigned_ucast_eq take_bit_nat_eq_self)
    qed
    ultimately show ?thesis by simp
  qed
  have BR: "related 8 (ka_BR k) (BR m)"
    using assms by (simp add: ka_BR_def BR_def ka_sxt_def sxt_def related_def ka_set_r_def set_reg_def)
  have same: "ka_branch_table = branch_table"
    by (simp add: fun_eq_iff ka_branch_table_def branch_table_def)
  have ir: "ka_ir k = ir m" using assms by (simp add: related_def)
  show ?thesis
    using assms BR by (simp add: ka_branch_def exec_branch_def Let_def same ir ka_CBR_def CBR_def p agree_def ka_svc_def svc_def
        split: option.split)
qed

section \<open>Decoding\<close>

text \<open>The bits of an instruction that follow from a masked comparison.\<close>

lemma submask: "w AND a = (c :: u16) \<Longrightarrow> a AND m = m \<Longrightarrow> w AND m = c AND m"
  by (metis and.assoc)

lemma field_zero: "w AND 0x38 = 0 \<Longrightarrow> unat (w AND 0x3F :: u16) div 8 = 0"
proof -
  assume zero: "w AND 0x38 = 0"
  have "(0x3F :: u16) = 0x38 OR mask 3" by (simp add: mask_eq_exp_minus_1)
  then have "w AND 0x3F = (w AND 0x38) OR (w AND mask 3)" by (simp only: bit.conj_disj_distrib)
  also have "\<dots> = w AND mask 3" using zero by simp
  finally have "unat (w AND 0x3F) < 2 ^ 3" using unat_and_mask_lt[of 3 w] by simp
  then show ?thesis by simp
qed

lemma fields_zero:
  assumes "w AND 0x0E38 = (0 :: u16)"
  shows "register_operands w"
proof -
  have d: "w AND 0x38 = 0" using submask[OF assms, of "0x38"] by simp
  have s: "w AND 0x0E00 = 0" using submask[OF assms, of "0x0E00"] by simp
  have "drop_bit 6 w AND 0x38 = drop_bit 6 (w AND 0x0E00)"
    by (simp add: drop_bit_and)
  then have "drop_bit 6 w AND 0x38 = 0" using s by simp
  then show ?thesis using d by (simp add: register_operands_def field_zero)
qed

text \<open>Instructions on registers that both cores have: double and single operand, branches, condition codes.\<close>

definition register_only :: "u16 \<Rightarrow> bool" where
  "register_only w \<longleftrightarrow>
     w AND 0xF000 \<in> {0x1000, 0x2000, 0x3000, 0x4000, 0x5000, 0x6000, 0x9000, 0xA000, 0xB000, 0xC000, 0xD000, 0xE000} \<and>
       w AND 0x0E38 = 0 \<or>
     w AND 0x7000 = 0 \<and> w AND 0x38 = 0 \<and>
       w AND 0x0FC0 \<in> {0x0A00, 0x0A40, 0x0A80, 0x0AC0, 0x0B00, 0x0B40, 0x0B80, 0x0BC0, 0x0C00, 0x0C40, 0x0C80, 0x0CC0} \<or>
     w AND 0x7800 = 0 \<and> w AND 0x8700 \<noteq> 0 \<or>
     w AND 0xFFE0 = 0x00A0"

lemma double_agree:
  assumes rel: "related 8 k m" and w: "w AND 0x0E38 = 0" "ir m = w"
    and op: "w AND 0xF000 \<in> {0x1000, 0x2000, 0x3000, 0x4000, 0x5000, 0x6000, 0x9000, 0xA000, 0xB000, 0xC000, 0xD000, 0xE000}"
  shows "agree (ka_exec bus k) (exec_instr bus' m)"
proof -
  have ir: "ka_ir k = w" using rel w by (simp add: related_def)
  note ops = binary_agree[OF rel, unfolded w(2), OF fields_zero[OF w(1)]]
  show ?thesis
    using op by (elim insertE emptyE) (simp_all add: ka_exec_def exec_instr_def ir w(2) Let_def ops)
qed

lemma single_agree:
  assumes rel: "related 8 k m" and w: "w AND 0x7000 = 0" "w AND 0x38 = 0" "ir m = w"
    and op: "w AND 0x0FC0 \<in> {0x0A00, 0x0A40, 0x0A80, 0x0AC0, 0x0B00, 0x0B40, 0x0B80, 0x0BC0, 0x0C00, 0x0C40, 0x0C80, 0x0CC0}"
  shows "agree (ka_exec bus k) (exec_instr bus' m)"
proof -
  have ir: "ka_ir k = w" using rel w by (simp add: related_def)
  note ops = unary_agree(1-12)[OF rel, unfolded w(3), OF w(2) field_zero[OF w(2)]]
  have none: "w AND 0xF000 \<noteq> c" if "c AND 0x7000 \<noteq> 0" for c
    using submask[of w "0xF000" c "0x7000"] w(1) that by auto
  show ?thesis
    using op by (elim insertE emptyE)
      (simp_all add: ka_exec_def exec_instr_def ir w(3) Let_def none ka_unary_def exec_unary_def ops)
qed

lemma no_high_bits:
  assumes "w AND 0x7800 = (0 :: u16)"
  shows "c AND 0x7000 \<noteq> 0 \<Longrightarrow> w AND 0xF000 \<noteq> c" "c AND 0x0800 \<noteq> 0 \<Longrightarrow> w AND 0x0FC0 \<noteq> c"
    "c AND 0x0800 \<noteq> 0 \<Longrightarrow> w AND 0x8F00 \<noteq> c"
proof -
  have z: "w AND 0x7000 = 0" "w AND 0x0800 = 0"
    using submask[OF assms, of "0x7000"] submask[OF assms, of "0x0800"] by simp_all
  show "c AND 0x7000 \<noteq> 0 \<Longrightarrow> w AND 0xF000 \<noteq> c" using submask[of w "0xF000" c "0x7000"] z(1) by auto
  show "c AND 0x0800 \<noteq> 0 \<Longrightarrow> w AND 0x0FC0 \<noteq> c" using submask[of w "0x0FC0" c "0x0800"] z(2) by auto
  show "c AND 0x0800 \<noteq> 0 \<Longrightarrow> w AND 0x8F00 \<noteq> c" using submask[of w "0x8F00" c "0x0800"] z(2) by auto
qed

lemma branches_agree:
  assumes rel: "related 8 k m" and w: "w AND 0x7800 = 0" "w AND 0x8700 \<noteq> 0" "ir m = w"
  shows "agree (ka_exec bus k) (exec_instr bus' m)"
proof -
  have ir: "ka_ir k = w" using rel w by (simp add: related_def)
  have none: "ka_unary bus bb k = None" "exec_unary bus' bb m = None" for bb
    by (simp_all add: ka_unary_def exec_unary_def ir w(3) Let_def no_high_bits[OF w(1)])
  show ?thesis
    using branch_agree[OF rel] w
    by (simp add: ka_exec_def exec_instr_def ir Let_def no_high_bits[OF w(1)] none)
qed

lemma cond_codes_agree:
  assumes rel: "related 8 k m" and w: "w AND 0xFFE0 = 0x00A0" "ir m = w"
  shows "agree (ka_exec bus k) (exec_instr bus' m)"
proof -
  have ir: "ka_ir k = w" using rel w by (simp add: related_def)
  note sub = submask[OF w(1)]
  have z: "w AND 0x7800 = 0" "w AND 0x8700 = 0" "w AND 0xFEC0 = 0x0080"
    using sub[of "0x7800"] sub[of "0x8700"] sub[of "0xFEC0"] by simp_all
  have none: "ka_unary bus bb k = None" "exec_unary bus' bb m = None" for bb
    by (simp_all add: ka_unary_def exec_unary_def ir w(2) Let_def no_high_bits[OF z(1)])
  have f: "w AND 0x38 \<in> {0x20, 0x28, 0x30, 0x38}"
  proof -
    have "w AND 0x20 = 0x20" using sub[of "0x20"] by simp
    moreover have "w AND 0x38 = (w AND 0x20) OR ((w AND 0x10) OR (w AND 0x08))"
      by (simp flip: bit.conj_disj_distrib)
    moreover have "w AND 2 ^ n = (if bit w n then 2 ^ n else 0)" for n
      by (rule bit_word_eqI) (auto simp: bit_and_iff bit_exp_iff)
    from this[of 4] this[of 3] have "w AND 0x10 \<in> {0, 0x10}" "w AND 0x08 \<in> {0, 0x08}" by auto
    ultimately show ?thesis by auto
  qed
  have codes: "agree (ka_svc (ka_clr (ucast (w AND 0xF)) k)) (svc (psw_clr (w AND 0xF) m))"
    "agree (ka_svc (ka_set (ucast (w AND 0xF)) k)) (svc (psw_set (w AND 0xF) m))"
    using rel_clr[OF refl rel] by (simp_all add: agree_def ka_svc_def svc_def)
  have "agree (ka_misc bus bb k) (exec_misc bus' bb m)" for bb
    using f codes by (elim insertE emptyE) (simp_all add: ka_misc_def exec_misc_def ir w(2) z(3) Let_def)
  then show ?thesis
    by (simp add: ka_exec_def exec_instr_def ir w(2) Let_def no_high_bits[OF z(1)] z(2) none)
qed

lemma register_instructions_agree:
  assumes "related 8 k m" "register_only (ir m)"
  shows "agree (ka_exec bus k) (exec_instr bus' m)"
  using assms(2) unfolding register_only_def
  by (elim disjE conjE)
    (blast intro: double_agree[OF assms(1)] single_agree[OF assms(1)] branches_agree[OF assms(1)] cond_codes_agree[OF assms(1)])+

section \<open>SWAB\<close>

text \<open>
  The 11/20 leaves V alone unless its parameter \<open>swab_vbit\<close> asks for the behaviour of the later
  machines: its PSW is then the one with the parameter set, with the old V.
\<close>

definition swab_end :: "nat \<Rightarrow> u16 \<Rightarrow> bool \<Rightarrow> bool \<Rightarrow> u8 \<Rightarrow> 'x ka_mach \<Rightarrow> 'x ka_mach" where
  "swab_end d v n z f s = ka_set_r d v (ka_set_if z KA_PSW_Z (ka_set_if n KA_PSW_N (ka_clr (KA_PSW_N OR KA_PSW_Z) (ka_clr f s))))"

lemma swab_end_fields:
  "ka_r (swab_end d v n z f s) = (ka_r s)(d := v)"
  "ka_psw (swab_end d v n z f s) = (ka_psw s AND NOT f AND NOT (KA_PSW_N OR KA_PSW_Z)) OR
     (if n then KA_PSW_N else 0) OR (if z then KA_PSW_Z else 0)"
  by (simp_all add: swab_end_def ka_set_r_def ka_set_if_def ka_set_def ka_clr_def ac_simps)

lemma SWAB_register:
  fixes bus :: "'x bus_ops"
  assumes w: "ka_dst k div 8 = 0" "ka_ir k AND 0x38 = 0"
  defines "x \<equiv> ka_r k (ka_dst k mod 8)"
  defines "b \<equiv> WD (x AND 0xFF) (drop_bit 8 x AND 0xFF)"
  shows "ka_SWAB bus False k =
    (KaService, swab_end (unat (ka_ir k AND 7)) b (b AND 0x80 \<noteq> 0) (b AND 0xFF = 0)
       (if ka_swab_vbit k then KA_PSW_V OR KA_PSW_C else KA_PSW_C) (ka_set_r 8 x (ka_set_r 9 x k)))"
proof -
  have f: "snd (ka_fetchop bus 9 (ka_dst k) False k) = ka_set_r 9 x k"
    using w(1) by (simp add: ka_fetchop_def ka_fetch_ext_def x_def)
  have g: "ka_r (ka_set_r 8 x (ka_set_r 9 x k)) 9 = x" "ka_r (ka_set_r 9 x k) 9 = x"
    "ka_swab_vbit (ka_set_r 8 x (ka_set_r 9 x k)) = ka_swab_vbit k"
    by (simp_all add: ka_set_r_def)
  have u: "ucast (ucast c :: u32) = c" for c :: u16
    by (rule bit_word_eqI) (simp add: bit_simps)
  have wr: "ka_WR bus (ucast c) False s = (KaService, ka_set_r (unat (ka_ir k AND 7)) c s)"
    if "ka_ir s = ka_ir k" for c and s :: "'x ka_mach"
    using w(2) that by (simp add: ka_WR_def ka_writedest_def ka_try_def ka_svc_def u)
  have ir: "ka_ir (ka_set_r i v s) = ka_ir s" for i v and s :: "'x ka_mach"
    by (simp add: ka_set_r_def)
  have c: "ka_r (ka_clr h s) = ka_r s" "ka_swab_vbit (ka_clr h s) = ka_swab_vbit s" for h and s :: "'x ka_mach"
    by (simp_all add: ka_clr_def)
  show ?thesis
    using w(1)
    by (cases "ka_swab_vbit k")
      (simp_all add: ka_SWAB_def ka_RD_U_def ka_try_def Let_def f g c wr macro_fields ir b_def swab_end_def)
qed

lemma keeps_V:
  "(p AND NOT KA_PSW_C AND NOT (KA_PSW_N OR KA_PSW_Z)) OR (if n then KA_PSW_N else 0) OR (if z then KA_PSW_Z else 0) =
   ((p AND NOT (KA_PSW_V OR KA_PSW_C) AND NOT (KA_PSW_N OR KA_PSW_Z)) OR (if n then KA_PSW_N else 0) OR
     (if z then KA_PSW_Z else 0)) OR (p AND KA_PSW_V)"
  "((p AND NOT (KA_PSW_V OR KA_PSW_C) AND NOT (KA_PSW_N OR KA_PSW_Z)) OR (if n then KA_PSW_N else 0) OR
     (if z then KA_PSW_Z else 0)) AND KA_PSW_V = 0"
  by (cases n; cases z; auto simp: ka_psw_consts word8_eq_iff bit_simps)+

lemma SWAB_keeps_V:
  fixes bus :: "'x bus_ops" and k :: "'x ka_mach"
  assumes w: "ka_dst k div 8 = 0" "ka_ir k AND 0x38 = 0" and off: "\<not> ka_swab_vbit k"
  defines "p \<equiv> ka_SWAB bus False k" and "q \<equiv> ka_SWAB bus False (k\<lparr>ka_swab_vbit := True\<rparr>)"
  shows "fst p = fst q" "ka_r (snd p) = ka_r (snd q)" "ka_psw (snd p) = ka_psw (snd q) OR (ka_psw k AND KA_PSW_V)"
    "ka_psw (snd q) AND KA_PSW_V = 0"
proof -
  let ?x = "ka_r k (ka_dst k mod 8)" and ?K = "k\<lparr>ka_swab_vbit := True\<rparr>"
  let ?b = "WD (?x AND 0xFF) (drop_bit 8 ?x AND 0xFF)"
  let ?fin = "\<lambda>f. swab_end (unat (ka_ir k AND 7)) ?b (?b AND 0x80 \<noteq> 0) (?b AND 0xFF = 0) f"
  have K: "ka_dst ?K = ka_dst k" "ka_ir ?K = ka_ir k" "ka_r ?K = ka_r k" "ka_swab_vbit ?K" "ka_psw ?K = ka_psw k"
    by (simp_all add: ka_dst_def)
  have p: "p = (KaService, ?fin KA_PSW_C (ka_set_r 8 ?x (ka_set_r 9 ?x k)))"
    using SWAB_register[OF w, of bus] off by (simp add: p_def)
  have q: "q = (KaService, ?fin (KA_PSW_V OR KA_PSW_C) (ka_set_r 8 ?x (ka_set_r 9 ?x ?K)))"
    using SWAB_register[of ?K bus] w by (simp only: K q_def if_True)
  have r: "ka_psw (ka_set_r i v s) = ka_psw s" for i v and s :: "'x ka_mach" by (simp add: ka_set_r_def)
  show "fst p = fst q" "ka_r (snd p) = ka_r (snd q)"
    unfolding p q by (simp_all add: swab_end_fields ka_set_r_def)
  show "ka_psw (snd p) = ka_psw (snd q) OR (ka_psw k AND KA_PSW_V)" "ka_psw (snd q) AND KA_PSW_V = 0"
    unfolding p q snd_conv swab_end_fields r K by (rule keeps_V)+
qed

lemma SWAB_decoded:
  assumes rel: "related 8 k m" and w: "w AND 0xFFF8 = 0x00C0" "ir m = w"
  shows "ka_exec bus k = ka_SWAB bus False k" "exec_instr bus' m = op_swab bus' False m"
    "w AND 0x38 = 0" "ka_ir k = w"
proof -
  note sub = submask[OF w(1)]
  have z: "w AND 0x7800 = 0" "w AND 0x8700 = 0" "w AND 0x8000 = 0" "w AND 0xFEC0 = 0x00C0" "w AND 0x38 = 0"
    using sub[of "0x7800"] sub[of "0x8700"] sub[of "0x8000"] sub[of "0xFEC0"] sub[of "0x38"] by simp_all
  have ir: "ka_ir k = w" using rel w by (simp add: related_def)
  have none: "ka_unary bus bb k = None" "exec_unary bus' bb m = None" for bb
    by (simp_all add: ka_unary_def exec_unary_def ir w(2) Let_def no_high_bits[OF z(1)])
  show "ka_exec bus k = ka_SWAB bus False k" "exec_instr bus' m = op_swab bus' False m"
    by (simp_all add: ka_exec_def exec_instr_def ka_misc_def exec_misc_def ir w(2) Let_def no_high_bits[OF z(1)] none z)
  show "w AND 0x38 = 0" "ka_ir k = w" using z(5) ir by simp_all
qed

lemma SWAB_agree:
  fixes bus :: "'x bus_ops" and bus' :: "'y bus_ops" and k :: "'x ka_mach" and m :: "'y mach"
  assumes rel: "related 8 k m" and w: "ir m AND 0xFFF8 = 0x00C0"
  defines "p \<equiv> ka_exec bus k" and "q \<equiv> exec_instr bus' m"
  shows "fst p = KaService" "fst q = GoService" "\<forall>i < 8. ka_r (snd p) i = regs (snd q) i"
    "ka_psw (snd p) = ucast (psw (snd q)) OR (if ka_swab_vbit k then 0 else ka_psw k AND KA_PSW_V)"
    "(ucast (psw (snd q)) :: u8) AND KA_PSW_V = 0"
proof -
  let ?k = "k\<lparr>ka_swab_vbit := True\<rparr>"
  note dec = SWAB_decoded(1)[OF rel w refl, of bus, folded p_def] SWAB_decoded(2)[OF rel w refl, of bus', folded q_def]
    SWAB_decoded(3,4)[OF rel w refl]
  have rel': "related 8 ?k m" using rel by (simp add: related_def)
  note dst = field_zero[OF dec(3)]
  have ag: "agree (ka_SWAB bus False ?k) q"
    unfolding dec(2) by (rule unary_agree(13)[OF rel' dec(3) dst]) simp
  have kdst: "ka_dst k div 8 = 0" using dst dec(4) by (simp add: ka_dst_def)
  note V = SWAB_keeps_V[OF kdst, of bus, folded dec(1)]
  have q0: "ka_psw (snd (ka_SWAB bus False ?k)) AND KA_PSW_V = 0"
  proof -
    have "ka_dst (k\<lparr>ka_swab_vbit := False\<rparr>) div 8 = 0" using kdst by (simp add: ka_dst_def)
    then show ?thesis
      using SWAB_keeps_V(4)[of "k\<lparr>ka_swab_vbit := False\<rparr>" bus] dec(3,4) by simp
  qed
  have same: "ka_swab_vbit k \<Longrightarrow> ?k = k" by simp
  show "fst q = GoService" "(ucast (psw (snd q)) :: u8) AND KA_PSW_V = 0"
    using ag q0 by (simp_all add: agree_def related_def)
  show "fst p = KaService" "\<forall>i < 8. ka_r (snd p) i = regs (snd q) i"
    "ka_psw (snd p) = ucast (psw (snd q)) OR (if ka_swab_vbit k then 0 else ka_psw k AND KA_PSW_V)"
    using ag V same dec(1,3,4) by (cases "ka_swab_vbit k"; simp add: agree_def related_def)+
qed

end
