(* ===== verification/KA11_Props.thy ===== *)
theory KA11_Props
  imports Cores_Agree KD11EA_Run
begin

unbundle bit_operations_syntax

text \<open>
  Properties of the 11/20 core: its state stays well formed, a stack that does not answer
  stops it, and on register operands it computes what the 11/34 core computes.
\<close>

section \<open>A small bus\<close>

text \<open>For the concrete runs: words below 0x1000 are memory, nothing else answers.\<close>

definition ka_demo_bus :: "(u32 \<Rightarrow> u16) bus_ops" where
  "ka_demo_bus = \<lparr>unibone_dati = (\<lambda>a e. (if a < 0x1000 then Some (ucast (e a)) else None, e)),
     unibone_dato = (\<lambda>a w e. (a < 0x1000, if a < 0x1000 then e(a := w) else e)),
     unibone_datob = (\<lambda>a w e. (False, e)), unibone_grant_interrupts = (\<lambda>e. e),
     unibone_prioritylevelchange = (\<lambda>l e. e), unibone_bus_init = (\<lambda>e. e)\<rparr>"

definition ka_demo :: "(u32 \<Rightarrow> u16) ka_mach" where
  "ka_demo = \<lparr>ka_r = (\<lambda>_. 0), ka_b = 0, ka_ba = 0, ka_bdata = 0, ka_ir = 0, ka_psw = 0, ka_traps = 0, ka_be = 0,
     ka_state = KA11_STATE_RUNNING, ka_external_intr = False, ka_external_intrvec = 0, ka_sw = 0, ka_swab_vbit = False,
     ka_oldpsw = 0, ka_inhov = False, ka_assert_failed = False, ka_env = (\<lambda>_. 0)\<rparr>"

section \<open>Well-formed states\<close>

text \<open>
  The states the entry points of the core reach from a console start. \<open>console\<close> is what the
  panel writes: the state, the PC, the switches and the SWAB option.
\<close>

inductive ka_reachable :: "'x bus_ops \<Rightarrow> (nat \<Rightarrow> u16) \<Rightarrow> 'x ka_mach \<Rightarrow> bool" for bus u where
  start: "\<not> ka_assert_failed s \<Longrightarrow> u = ka_r s \<Longrightarrow> ka_reachable bus u (ka11_power_reset bus s)"
| condstep: "ka_reachable bus u s \<Longrightarrow> ka11_condstep n bus s = Some t \<Longrightarrow> ka_reachable bus u t"
| power_reset: "ka_reachable bus u s \<Longrightarrow> ka_reachable bus u (ka11_power_reset bus s)"
| setintr: "ka_reachable bus u s \<Longrightarrow> ka_reachable bus u (ka11_setintr v s)"
| pwrfail: "ka_reachable bus u s \<Longrightarrow> ka_reachable bus u (ka11_pwrfail_trap s)"
| pwrup: "ka_reachable bus u s \<Longrightarrow> ka_reachable bus u (ka11_pwrup_vector_fetch bus s)"
| console: "ka_reachable bus u s \<Longrightarrow>
    ka_reachable bus u ((ka_set_r 7 pc s)\<lparr>ka_state := st, ka_sw := w, ka_swab_vbit := vb\<rparr>)"

lemma reachable_inv: "ka_reachable bus u s \<Longrightarrow> ka_inv u s"
proof (induction rule: ka_reachable.induct)
  case (start s)
  then have "ka_inv u (s\<lparr>ka_traps := 0\<rparr>)" by (simp add: ka_inv_def)
  then show ?case by (simp add: ka11_power_reset_def ka11_reset_def Let_def)
next
  case (condstep s n t)
  then show ?case by (blast intro: inv_condstep)
next
  case (console s pc st w vb)
  then show ?case by (simp add: ka_inv_def ka_set_r_def)
qed (simp_all add: inv_entries)

text \<open>C37.
  Whatever programs, interrupts, power failures and console actions do, the core stays well
  typed: the trap flags are only the stack and the power fail flag, the assertion in the
  operand addressing is never reached (a register operand never goes there), and no
  instruction writes past the scratch registers in the array of sixteen registers.
\<close>

theorem ka_state_well_formed:
  assumes "ka_reachable bus u s"
  shows "ka_traps s \<in> {0, KA_TRAP_STACK, KA_TRAP_PWR, KA_TRAP_STACK OR KA_TRAP_PWR} \<and> \<not> ka_assert_failed s \<and>
    (\<forall>i > 10. ka_r s i = u i)"
proof -
  have inv: "known_traps (ka_traps s)" "\<not> ka_assert_failed s" "\<forall>i > 10. ka_r s i = u i"
    using reachable_inv[OF assms] by (simp_all add: ka_inv_def)
  have "unat (ka_traps s) < 2 ^ 2"
    using inv(1) unfolding unat_lt_exp_iff known_traps_def by (meson not_le)
  then have "unat (ka_traps s) \<in> {0, 1, 2, 3}" by auto
  then have "of_nat (unat (ka_traps s)) \<in> (of_nat ` {0, 1, 2, 3} :: u32 set)" by (rule imageI)
  then have "ka_traps s \<in> {0, 1, 2, 3}" by simp
  then show ?thesis using inv by (simp add: KA_TRAP_STACK_def KA_TRAP_PWR_def)
qed

theorem ka_state_well_formed_witness:
  "\<not> ka_assert_failed (ka11_pwrfail_trap (ka11_setintr 0x40 (ka11_power_reset ka_demo_bus ka_demo)))"
proof -
  have "ka_reachable ka_demo_bus (\<lambda>_. 0) (ka11_pwrfail_trap (ka11_setintr 0x40 (ka11_power_reset ka_demo_bus ka_demo)))"
    by (intro ka_reachable.pwrfail ka_reachable.setintr ka_reachable.start) (simp_all add: ka_demo_def)
  then show ?thesis by (rule ka_state_well_formed[THEN conjunct2, THEN conjunct1])
qed

section \<open>Double bus errors\<close>

text \<open>A stack that does not answer: an odd pointer, or two words outside the CPU that nothing acknowledges.\<close>

definition dead_stack :: "'x bus_ops \<Rightarrow> u16 \<Rightarrow> bool" where
  "dead_stack bus sp \<longleftrightarrow> ka_odd sp \<or>
     (\<forall>a \<in> {sp - 2, sp - 4}. a AND 0xFF00 \<noteq> 0xFF00 \<and> (\<forall>d e. \<not> fst (unibone_dato bus (ubxt a AND NOT 1) d e)))"

lemma odd_minus: "ka_odd (x - 2 :: u16) = ka_odd x" "ka_odd (x - 4 :: u16) = ka_odd x"
  by (simp_all add: ka_odd_def and_one_eq mod_2_eq_odd)

lemma ka_PUSH_fields:
  "ka_r (ka_PUSH s) = (ka_r s)(6 := ka_r s 6 - 2)" "ka_psw (ka_PUSH s) = ka_psw s" "ka_be (ka_PUSH s) = ka_be s"
  by (simp_all add: ka_PUSH_def ka_set_r_def Let_def)

text \<open>A trap whose first push fails comes to \<open>be:\<close> with one more error counted and nothing else lost.\<close>

lemma failing_trap:
  assumes "ka_odd (ka_r s 6) \<or>
    (ka_r s 6 - 2) AND 0xFF00 \<noteq> 0xFF00 \<and> (\<forall>d e. \<not> fst (unibone_dato bus (ubxt (ka_r s 6 - 2) AND NOT 1) d e))"
  obtains t where "ka_trap_seq bus s = (KaBe, t)" "ka_r t = (ka_r s)(6 := ka_r s 6 - 2)" "ka_psw t = ka_psw s"
    "ka_be t = Suc (ka_be s)"
proof -
  let ?p = "ka_PUSH s" and ?a = "ka_r s 6 - 2" and ?d = "ucast (ka_psw s) :: u16"
  have "fst (ka_OUT bus ?a ?d ?p) \<and> ka_r (snd (ka_OUT bus ?a ?d ?p)) = ka_r ?p \<and> ka_psw (snd (ka_OUT bus ?a ?d ?p)) = ka_psw ?p \<and>
      ka_be (snd (ka_OUT bus ?a ?d ?p)) = Suc (ka_be ?p)"
    using assms by (auto simp: ka_OUT_def ka_dato_def odd_minus ka_cycle_fail_def Let_def split: prod.split bool.split)
      (metis fst_conv)+
  then show ?thesis
    using that[of "snd (ka_OUT bus ?a ?d ?p)"] by (simp add: ka_trap_seq_def ka_try_def Let_def ka_PUSH_fields)
qed

text \<open>C38.
  Whatever trap or interrupt it takes, a core whose stack does not answer - the stack pointer
  is odd, or nothing acknowledges the two words below it - stops: after at most two failed
  pushes the double bus error is seen and the step returns with the core halted, the PC and
  the PSW those of the trapped program. (The 11/34 core loops for ever there.)
\<close>

theorem dead_stack_halts:
  assumes "dead_stack bus (ka_r s 6)"
  shows "\<exists>t. (\<forall>n \<ge> 5. ka_labels n bus (KaTrap v, s) = Some t) \<and> ka_state t = KA11_STATE_HALTED \<and>
    ka_r t 7 = ka_r s 7 \<and> ka_psw t = ka_psw s"
proof -
  let ?s = "ka_set_r 10 v s"
  obtain t where t: "ka_trap_seq bus ?s = (KaBe, t)" "ka_r t = (ka_r ?s)(6 := ka_r s 6 - 2)" "ka_psw t = ka_psw s"
    "ka_be t = Suc (ka_be s)"
    by (rule failing_trap[of ?s bus]) (use assms in \<open>auto simp: dead_stack_def ka_set_r_def\<close>)
  have "ka_r t 7 = ka_r s 7" using t(2) by (simp add: ka_set_r_def)
  show ?thesis
  proof (cases "ka_be t > 1")
    case True
    have "ka_labels n bus (KaTrap v, s) = Some (t\<lparr>ka_state := KA11_STATE_HALTED\<rparr>)" if "n \<ge> 5" for n
    proof -
      from that have "n = Suc (Suc (Suc (n - 3)))" by arith
      then obtain m where "n = Suc (Suc (Suc m))" by blast
      then show ?thesis using t(1) True by (simp add: ka_be_path_def)
    qed
    then show ?thesis using t \<open>ka_r t 7 = ka_r s 7\<close> by (intro exI[of _ "t\<lparr>ka_state := KA11_STATE_HALTED\<rparr>"]) simp
  next
    case False
    let ?t = "ka_set_r 10 4 t"
    obtain w where w: "ka_trap_seq bus ?t = (KaBe, w)" "ka_r w = (ka_r ?t)(6 := ka_r t 6 - 2)" "ka_psw w = ka_psw s"
      "ka_be w = Suc (ka_be t)"
      by (rule failing_trap[of ?t bus])
        (use assms t in \<open>auto simp: dead_stack_def ka_set_r_def odd_minus\<close>)
    have "ka_labels n bus (KaTrap v, s) = Some (w\<lparr>ka_state := KA11_STATE_HALTED\<rparr>)" if "n \<ge> 5" for n
    proof -
      from that have "n = Suc (Suc (Suc (Suc (Suc (n - 5)))))" by arith
      then obtain m where "n = Suc (Suc (Suc (Suc (Suc m))))" by blast
      then show ?thesis using t w False by (simp add: ka_be_path_def)
    qed
    moreover have "ka_r w 7 = ka_r s 7" using w(2) \<open>ka_r t 7 = ka_r s 7\<close> by (simp add: ka_set_r_def)
    ultimately show ?thesis using w(3) by (intro exI[of _ "w\<lparr>ka_state := KA11_STATE_HALTED\<rparr>"]) simp
  qed
qed

theorem dead_stack_halts_witness:
  "\<exists>t. ka_labels 5 ka_demo_bus (KaTrap 0x40, ka_demo\<lparr>ka_r := (\<lambda>_. 0)(6 := 0x2000, 7 := 0x200)\<rparr>) = Some t \<and>
    ka_state t = KA11_STATE_HALTED \<and> ka_r t 7 = 0x200"
proof -
  let ?s = "ka_demo\<lparr>ka_r := (\<lambda>_. 0)(6 := 0x2000, 7 := 0x200)\<rparr>"
  have "dead_stack ka_demo_bus (ka_r ?s 6)"
    by (simp add: dead_stack_def ka_demo_bus_def ubxt_def)
  from dead_stack_halts[OF this, where v = "0x40"] show ?thesis by auto
qed

section \<open>Power up\<close>

text \<open>
  The power-up vector fetch loads a PSW without telling the arbitrator its priority: what it
  does cannot depend on the announcement.
\<close>

lemma pwrup_level_not_announced:
  "ka11_pwrup_vector_fetch (bus\<lparr>unibone_prioritylevelchange := f\<rparr>) s = ka11_pwrup_vector_fetch bus s"
proof -
  have "ka_INA (bus\<lparr>unibone_prioritylevelchange := f\<rparr>) a t = ka_INA bus a t" for a t
    by (simp add: ka_INA_def ka_dati_def)
  then show ?thesis by (simp only: ka11_pwrup_vector_fetch_def)
qed

section \<open>The two cores\<close>

text \<open>C39.
  The 11/20 and the 11/34 core agree on the instructions both machines execute on registers
  alone - the double and single operand groups, all branches, the condition code operators
  and, but for V, SWAB: started with the same R0 to R7, the same PSW byte and the same
  instruction word they leave the same R0 to R7 and the same PSW byte, whatever else is in
  the two states and on their buses, and neither traps. SWAB clears V on the 11/34; the
  11/20 does so only with its parameter \<open>swab_vbit\<close> set, and else leaves V as it was.
\<close>

theorem cores_agree_on_registers:
  assumes "\<forall>i < 8. ka_r k i = regs m i" "ka_psw k = ucast (psw m)" "ka_ir k = ir m"
    and "register_only (ir m) \<or> ir m AND 0xFFF8 = 0x00C0"
  shows "\<exists>k' m'. ka_exec bus k = (KaService, k') \<and> exec_instr bus' m = (GoService, m') \<and>
    (\<forall>i < 8. ka_r k' i = regs m' i) \<and>
    (if ir m AND 0xFFF8 = 0x00C0 \<and> \<not> ka_swab_vbit k
     then ka_psw k' = ucast (psw m') OR (ka_psw k AND KA_PSW_V) \<and> ucast (psw m') AND KA_PSW_V = 0
     else ka_psw k' = ucast (psw m'))"
proof -
  have rel: "related 8 k m" using assms(1-3) by (simp add: related_def)
  show ?thesis
  proof (cases "ir m AND 0xFFF8 = 0x00C0")
    case True
    note sw = SWAB_agree(1)[OF rel True, of bus] SWAB_agree(2)[OF rel True, of bus'] SWAB_agree(3,4)[OF rel True, of bus bus']
      SWAB_agree(5)[OF rel True, of bus']
    show ?thesis
      by (rule exI[of _ "snd (ka_exec bus k)"], rule exI[of _ "snd (exec_instr bus' m)"])
        (use sw True in \<open>auto simp: prod_eq_iff\<close>)
  next
    case False
    then have "agree (ka_exec bus k) (exec_instr bus' m)"
      using register_instructions_agree[OF rel] assms(4) by blast
    then show ?thesis
      using False by (cases "ka_exec bus k"; cases "exec_instr bus' m") (auto simp: agree_def related_def)
  qed
qed

theorem cores_agree_on_registers_witness:
  "\<exists>k' m'. ka_exec ka_demo_bus (ka_demo\<lparr>ka_ir := 0x6042, ka_r := (\<lambda>_. 0)(1 := 0x7FFF, 2 := 1)\<rparr>) = (KaService, k') \<and>
    exec_instr demo_bus ((demo_mach (\<lambda>_. 0))\<lparr>ir := 0x6042, regs := (\<lambda>_. 0)(1 := 0x7FFF, 2 := 1)\<rparr>) = (GoService, m') \<and>
    ka_r k' 2 = regs m' 2"
proof -
  let ?k = "ka_demo\<lparr>ka_ir := 0x6042, ka_r := (\<lambda>_. 0)(1 := 0x7FFF, 2 := 1)\<rparr>"
  let ?m = "(demo_mach (\<lambda>_. 0))\<lparr>ir := 0x6042, regs := (\<lambda>_. 0)(1 := 0x7FFF, 2 := 1)\<rparr>"
  have "register_only (ir ?m)" by (simp add: register_only_def)
  then have "\<exists>k' m'. ka_exec ka_demo_bus ?k = (KaService, k') \<and> exec_instr demo_bus ?m = (GoService, m') \<and>
      (\<forall>i < 8. ka_r k' i = regs m' i)"
    using cores_agree_on_registers[of ?k ?m ka_demo_bus demo_bus] by (auto simp: ka_demo_def demo_mach_def)
  then obtain k' m' where r: "ka_exec ka_demo_bus ?k = (KaService, k')" "exec_instr demo_bus ?m = (GoService, m')"
    "\<forall>i < 8. ka_r k' i = regs m' i" by blast
  from r(3) have "ka_r k' 2 = regs m' 2" by simp
  with r(1,2) show ?thesis by blast
qed

end
