(* ===== verification/PruMemory.thy ===== *)
theory PruMemory
  imports Prelude
begin

unbundle bit_operations_syntax

text \<open>
  What the UNIBUS firmware answers bus cycles from (\<open>pru1_u/pru1_iopageregisters.c\<close>,
  \<open>pru1_u/pru1_ddrmem.c\<close>, \<open>shared/iopageregister.h\<close>, \<open>shared/ddrmem.h\<close>): two ranges of
  DDR memory, optionally behind the map registers of a UNIBUS adapter, the device
  registers of the I/O page and its ROM cells.

  The global structs of the firmware are one record each, and every record extends
  the one of the component below it, so an operation of a low component applies to
  the state of every higher one. C arrays are functions from the index; an access
  outside an array sets the ghost flag \<open>array_oob\<close>. The one array a bus cycle can leave is
  the emulated memory: what lies behind it in the packed struct \<open>ddrmem_t\<close> - the map
  registers, their flag, then other memory - is what such an access reads and writes.
\<close>

section \<open>Device registers and address ranges (\<open>shared/iopageregister.h\<close>)\<close>

record pru_iopage_register_t =
  reg_value :: u16
  reg_reset_value :: u16
  reg_writable_bits :: u16
  reg_event_register_handle :: u8
  reg_event_flags :: u8

definition MAX_IOPAGE_REGISTER_COUNT :: nat where "MAX_IOPAGE_REGISTER_COUNT = 0xff"
definition IOPAGE_REGISTER_HANDLE_ROM :: u8 where "IOPAGE_REGISTER_HANDLE_ROM = 0xff"
definition IOPAGEREGISTER_EVENT_FLAG_DATI :: u8 where "IOPAGEREGISTER_EVENT_FLAG_DATI = 0x01"
definition IOPAGEREGISTER_EVENT_FLAG_DATO :: u8 where "IOPAGEREGISTER_EVENT_FLAG_DATO = 0x02"

record pru_iopage_registers_t =
  memory_start_addr :: "nat \<Rightarrow> u32"    \<comment> \<open>\<open>DDRMEM_RANGE_COUNT\<close> = 2 slots\<close>
  memory_limit_addr :: "nat \<Rightarrow> u32"    \<comment> \<open>first address after the range, 0 = unused\<close>
  memory_read_count :: "nat \<Rightarrow> u32"
  memory_write_count :: "nat \<Rightarrow> u32"
  rom_access_count :: u32
  map_refused_count :: u32
  map_byte_offset_count :: u32
  iopage_start_addr :: u32
  register_handles :: "nat \<Rightarrow> u8"      \<comment> \<open>0x1000 entries\<close>
  registers :: "nat \<Rightarrow> pru_iopage_register_t"   \<comment> \<open>0xff entries\<close>

definition IOPAGE_REGISTER_ENTRY :: "'a pru_iopage_registers_t_scheme \<Rightarrow> u32 \<Rightarrow> u8" where
  "IOPAGE_REGISTER_ENTRY s addr = register_handles s (unat ((addr AND 0x1FFF) div 2))"

section \<open>DDR memory and the map of a UNIBUS adapter (\<open>shared/ddrmem.h\<close>)\<close>

definition QUNIBUS_MAX_WORDCOUNT :: nat where "QUNIBUS_MAX_WORDCOUNT = 0x200000"
definition UNIBUS_MAP_REGISTERS :: u32 where "UNIBUS_MAP_REGISTERS = 496"
definition UNIBUS_MAP_PAGE_SHIFT :: nat where "UNIBUS_MAP_PAGE_SHIFT = 9"
definition UNIBUS_MAP_VALID :: u32 where "UNIBUS_MAP_VALID = 0x80000000"
definition UNIBUS_MAP_BYTE_OFFSET :: u32 where "UNIBUS_MAP_BYTE_OFFSET = 0x02000000"
definition UNIBUS_MAP_FRAME :: u32 where "UNIBUS_MAP_FRAME = 0x001FFFFF"

record ddrmem_t = pru_iopage_registers_t +
  ddr_words :: "nat \<Rightarrow> u16"            \<comment> \<open>\<open>memory.words\<close>, little endian over \<open>memory.bytes\<close>\<close>
  unibus_map :: "nat \<Rightarrow> u32"
  unibus_map_active :: u32
  array_oob :: bool                   \<comment> \<open>ghost: an access left its array\<close>

definition DDRMEM_ADDR_IN_SLOT :: "'a ddrmem_t_scheme \<Rightarrow> u32 \<Rightarrow> nat \<Rightarrow> bool" where
  "DDRMEM_ADDR_IN_SLOT s addr slot \<longleftrightarrow> addr < memory_limit_addr s slot \<and> addr \<ge> memory_start_addr s slot"

definition DDRMEM_COUNT_READ :: "bool \<Rightarrow> bool \<Rightarrow> 'a ddrmem_t_scheme \<Rightarrow> 'a ddrmem_t_scheme" where
  "DDRMEM_COUNT_READ in0 in1 s = s\<lparr>memory_read_count := (memory_read_count s)
     (0 := memory_read_count s 0 + of_bool in0, 1 := memory_read_count s 1 + of_bool in1)\<rparr>"

definition DDRMEM_COUNT_WRITE :: "bool \<Rightarrow> bool \<Rightarrow> 'a ddrmem_t_scheme \<Rightarrow> 'a ddrmem_t_scheme" where
  "DDRMEM_COUNT_WRITE in0 in1 s = s\<lparr>memory_write_count := (memory_write_count s)
     (0 := memory_write_count s 0 + of_bool in0, 1 := memory_write_count s 1 + of_bool in1)\<rparr>"

definition DDRMEM_MAP_ENTRY :: "'a ddrmem_t_scheme \<Rightarrow> u32 \<Rightarrow> u32" where
  "DDRMEM_MAP_ENTRY s addr = unibus_map s (unat (drop_bit UNIBUS_MAP_PAGE_SHIFT addr))"

definition DDRMEM_MAP_COVERS :: "u32 \<Rightarrow> bool" where
  "DDRMEM_MAP_COVERS addr \<longleftrightarrow> drop_bit UNIBUS_MAP_PAGE_SHIFT addr < UNIBUS_MAP_REGISTERS"

definition DDRMEM_MAP_APPLY :: "u32 \<Rightarrow> u32 \<Rightarrow> u32" where
  "DDRMEM_MAP_APPLY entry addr =
     push_bit UNIBUS_MAP_PAGE_SHIFT (entry AND UNIBUS_MAP_FRAME)
       OR (addr AND (push_bit UNIBUS_MAP_PAGE_SHIFT 1 - 1))"

text \<open>
  The packed struct \<open>ddrmem_t\<close> as the words a pointer to \<open>memory.words\<close> reaches: the memory, the 496
  map registers of two words each, low half first, the two words of \<open>unibus_map_active\<close>, and the memory behind the
  struct, which \<open>ddr_words\<close> holds at these indices.
\<close>

definition half_of :: "bool \<Rightarrow> u32 \<Rightarrow> u16" where
  "half_of hi x = ucast (if hi then drop_bit 16 x else x)"

definition set_half_of :: "bool \<Rightarrow> u16 \<Rightarrow> u32 \<Rightarrow> u32" where
  "set_half_of hi w x = (if hi then (x AND 0x0000FFFF) OR push_bit 16 (ucast w) else (x AND 0xFFFF0000) OR ucast w)"

definition ddrmem_word :: "'a ddrmem_t_scheme \<Rightarrow> nat \<Rightarrow> u16" where
  "ddrmem_word s k =
    (let m = k - QUNIBUS_MAX_WORDCOUNT; n = 2 * unat UNIBUS_MAP_REGISTERS in
     if k < QUNIBUS_MAX_WORDCOUNT then ddr_words s k
     else if m < n then half_of (odd m) (unibus_map s (m div 2))
     else if m < n + 2 then half_of (odd m) (unibus_map_active s)
     else ddr_words s k)"

definition ddrmem_set_word :: "nat \<Rightarrow> u16 \<Rightarrow> 'a ddrmem_t_scheme \<Rightarrow> 'a ddrmem_t_scheme" where
  "ddrmem_set_word k w s =
    (let m = k - QUNIBUS_MAX_WORDCOUNT; n = 2 * unat UNIBUS_MAP_REGISTERS in
     if k < QUNIBUS_MAX_WORDCOUNT then s\<lparr>ddr_words := (ddr_words s)(k := w)\<rparr>
     else if m < n
       then s\<lparr>unibus_map := (unibus_map s)(m div 2 := set_half_of (odd m) w (unibus_map s (m div 2))), array_oob := True\<rparr>
     else if m < n + 2
       then s\<lparr>unibus_map_active := set_half_of (odd m) w (unibus_map_active s), array_oob := True\<rparr>
     else s\<lparr>ddr_words := (ddr_words s)(k := w), array_oob := True\<rparr>)"

definition DDRMEM_MEMGET_W :: "u32 \<Rightarrow> 'a ddrmem_t_scheme \<Rightarrow> u16 \<times> 'a ddrmem_t_scheme" where
  "DDRMEM_MEMGET_W addr s =
     (ddrmem_word s (unat (addr div 2)),
      if unat (addr div 2) < QUNIBUS_MAX_WORDCOUNT then s else s\<lparr>array_oob := True\<rparr>)"

definition DDRMEM_MEMSET_W :: "u32 \<Rightarrow> u16 \<Rightarrow> 'a ddrmem_t_scheme \<Rightarrow> 'a ddrmem_t_scheme" where
  "DDRMEM_MEMSET_W addr dataw s = ddrmem_set_word (unat (addr div 2)) dataw s"

text \<open>The byte view of the union: byte \<open>2 i\<close> is the low half of word \<open>i\<close>, byte \<open>2 i + 1\<close> the high half.\<close>

definition set_byte_of :: "bool \<Rightarrow> u8 \<Rightarrow> u16 \<Rightarrow> u16" where
  "set_byte_of hi b w = (if hi then (w AND 0x00FF) OR push_bit 8 (ucast b) else (w AND 0xFF00) OR ucast b)"

definition DDRMEM_MEMSET_B :: "u32 \<Rightarrow> u8 \<Rightarrow> 'a ddrmem_t_scheme \<Rightarrow> 'a ddrmem_t_scheme" where
  "DDRMEM_MEMSET_B addr datab s =
     (let k = unat (addr div 2) in ddrmem_set_word k (set_byte_of (addr AND 1 \<noteq> 0) datab (ddrmem_word s k)) s)"

text \<open>
  \<open>ddrmem_fill_pattern\<close>: a pointer walks over the words and stores the low half of its counter.
  The first argument is the number of iterations left.
\<close>

primrec fill_pattern_loop :: "nat \<Rightarrow> nat \<Rightarrow> (nat \<Rightarrow> u16) \<Rightarrow> nat \<Rightarrow> u16" where
  "fill_pattern_loop 0 n words = words"
| "fill_pattern_loop (Suc k) n words = fill_pattern_loop k (n + 1) (words(n := of_nat n))"

definition ddrmem_fill_pattern :: "'a ddrmem_t_scheme \<Rightarrow> 'a ddrmem_t_scheme" where
  "ddrmem_fill_pattern s = s\<lparr>ddr_words := fill_pattern_loop QUNIBUS_MAX_WORDCOUNT 0 (ddr_words s)\<rparr>"

section \<open>Register access events (\<open>shared/mailbox.h\<close>)\<close>

definition QUNIBUS_CYCLE_DATI :: u8 where "QUNIBUS_CYCLE_DATI = 0"
definition QUNIBUS_CYCLE_DATIP :: u8 where "QUNIBUS_CYCLE_DATIP = 1"
definition QUNIBUS_CYCLE_DATO :: u8 where "QUNIBUS_CYCLE_DATO = 2"
definition QUNIBUS_CYCLE_DATOB :: u8 where "QUNIBUS_CYCLE_DATOB = 3"
definition QUNIBUS_CYCLE_IS_DATO :: "u8 \<Rightarrow> bool" where "QUNIBUS_CYCLE_IS_DATO c \<longleftrightarrow> c AND 2 \<noteq> 0"

text \<open>An event channel: the firmware counts \<open>signaled\<close>, the ARM counts \<open>acked\<close>; equal means no event is open.\<close>

record event_channel =
  signaled :: u8
  acked :: u8

definition EVENT_SIGNAL :: "event_channel \<Rightarrow> event_channel" where
  "EVENT_SIGNAL c = c\<lparr>signaled := signaled c + 1\<rparr>"

definition EVENT_ACK :: "event_channel \<Rightarrow> event_channel" where
  "EVENT_ACK c = c\<lparr>acked := acked c + 1\<rparr>"

definition EVENT_IS_ACKED :: "event_channel \<Rightarrow> bool" where
  "EVENT_IS_ACKED c \<longleftrightarrow> signaled c = acked c"

record mailbox_event_deviceregister_t = ddrmem_t +
  ev_deviceregister :: event_channel
  ev_unibus_control :: u8
  ev_register_handle :: u8
  ev_data :: u16
  ev_addr :: u32
  deviceregister_signal_cycle :: u32
  iep_tmr_cnt :: u32                  \<comment> \<open>the free running hardware counter \<open>PRU_IEP_TMR_CNT\<close>\<close>
  arm_interrupts :: nat               \<comment> \<open>ghost: how often \<open>PRU2ARM_INTERRUPT\<close> was raised\<close>

definition PRU2ARM_INTERRUPT :: "'a mailbox_event_deviceregister_t_scheme \<Rightarrow> 'a mailbox_event_deviceregister_t_scheme" where
  "PRU2ARM_INTERRUPT s = s\<lparr>arm_interrupts := Suc (arm_interrupts s)\<rparr>"

definition DO_EVENT_DEVICEREGISTER ::
  "pru_iopage_register_t \<Rightarrow> u8 \<Rightarrow> u32 \<Rightarrow> u16 \<Rightarrow> 'a mailbox_event_deviceregister_t_scheme \<Rightarrow>
   'a mailbox_event_deviceregister_t_scheme" where
  "DO_EVENT_DEVICEREGISTER reg cycle addr d s = PRU2ARM_INTERRUPT
     (s\<lparr>ev_unibus_control := cycle, ev_register_handle := reg_event_register_handle reg,
        ev_addr := addr, ev_data := d, deviceregister_signal_cycle := iep_tmr_cnt s,
        ev_deviceregister := EVENT_SIGNAL (ev_deviceregister s)\<rparr>)"

section \<open>Bus cycles to emulated addresses (\<open>pru1_iopageregisters.c\<close>)\<close>

text \<open>
  The map step each of the three cycles starts with: where the address reaches, or
  \<open>None\<close> when the page has no valid register.
\<close>

definition ddrmem_map :: "u32 \<Rightarrow> 'a ddrmem_t_scheme \<Rightarrow> u32 option \<times> 'a ddrmem_t_scheme" where
  "ddrmem_map addr s =
     (if unibus_map_active s = 0 then (Some addr, s)
      else if \<not> DDRMEM_MAP_COVERS addr then (None, s\<lparr>map_refused_count := map_refused_count s + 1\<rparr>)
      else let entry = DDRMEM_MAP_ENTRY s addr in
        if entry AND UNIBUS_MAP_VALID = 0 then (None, s\<lparr>map_refused_count := map_refused_count s + 1\<rparr>)
        else (Some (DDRMEM_MAP_APPLY entry addr),
              if entry AND UNIBUS_MAP_BYTE_OFFSET \<noteq> 0
              then s\<lparr>map_byte_offset_count := map_byte_offset_count s + 1\<rparr> else s))"

text \<open>The result \<open>None\<close> is the C result 0: nothing answers and \<open>*val\<close> is left alone.\<close>

definition emulated_addr_read :: "u32 \<Rightarrow> 'a mailbox_event_deviceregister_t_scheme \<Rightarrow>
    u16 option \<times> 'a mailbox_event_deviceregister_t_scheme" where
  "emulated_addr_read addr s =
    (let in0 = DDRMEM_ADDR_IN_SLOT s addr 0; in1 = DDRMEM_ADDR_IN_SLOT s addr 1 in
     if in0 \<or> in1 then
       (case ddrmem_map addr s of
          (None, s) \<Rightarrow> (None, s)
        | (Some phys, s) \<Rightarrow>
            (let (v, s) = DDRMEM_MEMGET_W phys s in (Some v, DDRMEM_COUNT_READ in0 in1 s)))
     else if addr \<ge> iopage_start_addr s then
       (let reghandle = IOPAGE_REGISTER_ENTRY s addr in
        if reghandle = 0 then (None, s)
        else if reghandle = IOPAGE_REGISTER_HANDLE_ROM then
          (let (v, s) = DDRMEM_MEMGET_W addr s in
           (Some v, s\<lparr>rom_access_count := rom_access_count s + 1\<rparr>))
        else
          (let reg = registers s (unat reghandle); v = reg_value reg in
           (Some v, if reg_event_flags reg AND IOPAGEREGISTER_EVENT_FLAG_DATI \<noteq> 0
                    then DO_EVENT_DEVICEREGISTER reg QUNIBUS_CYCLE_DATI addr v s else s)))
     else (None, s))"

definition emulated_addr_write_w :: "u32 \<Rightarrow> u16 \<Rightarrow> 'a mailbox_event_deviceregister_t_scheme \<Rightarrow>
    bool \<times> 'a mailbox_event_deviceregister_t_scheme" where
  "emulated_addr_write_w addr w s =
    (let in0 = DDRMEM_ADDR_IN_SLOT s addr 0; in1 = DDRMEM_ADDR_IN_SLOT s addr 1 in
     if in0 \<or> in1 then
       (case ddrmem_map addr s of
          (None, s) \<Rightarrow> (False, s)
        | (Some phys, s) \<Rightarrow> (True, DDRMEM_COUNT_WRITE in0 in1 (DDRMEM_MEMSET_W phys w s)))
     else if addr \<ge> iopage_start_addr s then
       (let reghandle = IOPAGE_REGISTER_ENTRY s addr in
        if reghandle = 0 then (False, s)
        else if reghandle = IOPAGE_REGISTER_HANDLE_ROM then (False, s)
        else
          (let reg = registers s (unat reghandle);
               reg_val = (reg_value reg AND NOT (reg_writable_bits reg)) OR (w AND reg_writable_bits reg);
               s = s\<lparr>registers := (registers s)(unat reghandle := reg\<lparr>reg_value := reg_val\<rparr>)\<rparr> in
           (True, if reg_event_flags reg AND IOPAGEREGISTER_EVENT_FLAG_DATO \<noteq> 0
                  then DO_EVENT_DEVICEREGISTER reg QUNIBUS_CYCLE_DATO addr reg_val s else s)))
     else (False, s))"

definition emulated_addr_write_b :: "u32 \<Rightarrow> u8 \<Rightarrow> 'a mailbox_event_deviceregister_t_scheme \<Rightarrow>
    bool \<times> 'a mailbox_event_deviceregister_t_scheme" where
  "emulated_addr_write_b addr b s =
    (let in0 = DDRMEM_ADDR_IN_SLOT s addr 0; in1 = DDRMEM_ADDR_IN_SLOT s addr 1 in
     if in0 \<or> in1 then
       (case ddrmem_map addr s of
          (None, s) \<Rightarrow> (False, s)
        | (Some phys, s) \<Rightarrow> (True, DDRMEM_COUNT_WRITE in0 in1 (DDRMEM_MEMSET_B phys b s)))
     else if addr \<ge> iopage_start_addr s then
       (let reghandle = IOPAGE_REGISTER_ENTRY s addr in
        if reghandle = 0 then (False, s)
        else if reghandle = IOPAGE_REGISTER_HANDLE_ROM then (False, s)
        else
          (let reg = registers s (unat reghandle); v = reg_value reg; wr = reg_writable_bits reg;
               reg_val = (if addr AND 1 \<noteq> 0
                 then (v AND 0x00FF) OR (v AND NOT wr AND 0xFF00) OR (push_bit 8 (ucast b) AND wr)
                 else (v AND 0xFF00) OR (v AND NOT wr AND 0x00FF) OR (ucast b AND wr));
               s = s\<lparr>registers := (registers s)(unat reghandle := reg\<lparr>reg_value := reg_val\<rparr>)\<rparr> in
           (True, if reg_event_flags reg AND IOPAGEREGISTER_EVENT_FLAG_DATO \<noteq> 0
                  then DO_EVENT_DEVICEREGISTER reg QUNIBUS_CYCLE_DATOB addr reg_val s else s)))
     else (False, s))"

definition iopageregisters_reset_values :: "'a pru_iopage_registers_t_scheme \<Rightarrow> 'a pru_iopage_registers_t_scheme" where
  "iopageregisters_reset_values s = fold
     (\<lambda>i s. s\<lparr>registers := (registers s)(i := (registers s i)\<lparr>reg_value := reg_reset_value (registers s i)\<rparr>)\<rparr>)
     [0..<MAX_IOPAGE_REGISTER_COUNT] s"

definition iopageregisters_init :: "'a pru_iopage_registers_t_scheme \<Rightarrow> 'a pru_iopage_registers_t_scheme" where
  "iopageregisters_init s = s\<lparr>memory_start_addr := \<lambda>_. 0, memory_limit_addr := \<lambda>_. 0,
     memory_read_count := \<lambda>_. 0, memory_write_count := \<lambda>_. 0, rom_access_count := 0,
     map_refused_count := 0, map_byte_offset_count := 0, iopage_start_addr := 0,
     register_handles := \<lambda>_. 0,
     registers := \<lambda>_. \<lparr>reg_value = 0, reg_reset_value = 0, reg_writable_bits = 0,
       reg_event_register_handle = 0, reg_event_flags = 0\<rparr>\<rparr>"

end
