(* ===== verification/PruMemory_Lemmas.thy ===== *)
theory PruMemory_Lemmas
  imports PruMemory
begin

unbundle bit_operations_syntax

text \<open>
  Facts on the emulated memory: how the bytes of a word, the map of the adapter and the
  fields of the state behave under the bus cycles, and the interface \<open>word_store\<close> of a
  memory read and written by words, with its block transfers. The emulated memory is an
  interpretation of it.
\<close>

section \<open>Bytes of a word\<close>

lemma u8_no_bit [simp]: "8 \<le> n \<Longrightarrow> \<not> bit (b :: u8) n"
  by (simp add: impossible_bit)

lemma set_both_bytes:
  "set_byte_of True hi (set_byte_of False lo w) = push_bit 8 (ucast hi) OR ucast (lo :: u8)"
  "set_byte_of False lo (set_byte_of True hi w) = push_bit 8 (ucast hi) OR ucast (lo :: u8)"
  by (simp_all add: set_byte_of_def word16_eq_iff bit_simps bit_ucast_iff)

lemma word_of_bytes: "push_bit 8 (ucast (ucast (drop_bit 8 w) :: u8)) OR ucast (ucast w :: u8) = (w :: u16)"
  by (simp add: word16_eq_iff bit_simps)

lemma word_of_bytes': "ucast (ucast w :: u8) OR push_bit 8 (ucast (ucast (drop_bit 8 w) :: u8)) = (w :: u16)"
  by (metis or.commute word_of_bytes)

text \<open>The merged register value of the byte cycles.\<close>

lemma byte_merge_high:
  "(v AND 0x00FF) OR (v AND NOT wr AND 0xFF00) OR (push_bit 8 (ucast (b :: u8)) AND wr) =
     merge_bits v (push_bit 8 (ucast b)) (wr AND 0xFF00 :: u16)"
  by (simp add: merge_bits_def word16_eq_iff bit_simps bit_ucast_iff)

lemma byte_merge_low:
  "(v AND 0xFF00) OR (v AND NOT wr AND 0x00FF) OR (ucast (b :: u8) AND wr) =
     merge_bits v (ucast b) (wr AND 0x00FF :: u16)"
  by (simp add: merge_bits_def word16_eq_iff bit_simps bit_ucast_iff)


lemma merge_both_bytes:
  fixes w v wr :: u16
  shows "merge_bits (merge_bits v (ucast (ucast w :: u8)) (wr AND 0x00FF))
      (push_bit 8 (ucast (ucast (drop_bit 8 w) :: u8))) (wr AND 0xFF00) = merge_bits v w wr"
    "merge_bits (merge_bits v (push_bit 8 (ucast (ucast (drop_bit 8 w) :: u8))) (wr AND 0xFF00))
      (ucast (ucast w :: u8)) (wr AND 0x00FF) = merge_bits v w wr"
  by (simp_all add: merge_bits_def word16_eq_iff bit_simps bit_ucast_iff)

section \<open>What an address reaches\<close>

text \<open>
  The specification of a bus cycle: an address reaches a place of DDR memory, a ROM cell,
  a device register, or nothing. It depends on the configuration only, which no bus cycle
  changes that stays inside the memory.
\<close>

datatype reach = Nothing | InMemory u32 | InRom | InRegister nat

definition in_ddr :: "u32 \<Rightarrow> bool" where
  "in_ddr addr \<longleftrightarrow> unat (addr div 2) < QUNIBUS_MAX_WORDCOUNT"

definition map_target :: "'a ddrmem_t_scheme \<Rightarrow> u32 \<Rightarrow> u32 option" where
  "map_target s addr =
     (if unibus_map_active s = 0 then Some addr
      else if DDRMEM_MAP_COVERS addr \<and> DDRMEM_MAP_ENTRY s addr AND UNIBUS_MAP_VALID \<noteq> 0
      then Some (DDRMEM_MAP_APPLY (DDRMEM_MAP_ENTRY s addr) addr) else None)"

definition reaches :: "'a ddrmem_t_scheme \<Rightarrow> u32 \<Rightarrow> reach" where
  "reaches s addr =
     (if DDRMEM_ADDR_IN_SLOT s addr 0 \<or> DDRMEM_ADDR_IN_SLOT s addr 1
      then (case map_target s addr of None \<Rightarrow> Nothing | Some phys \<Rightarrow> InMemory phys)
      else if addr \<ge> iopage_start_addr s then
        (if IOPAGE_REGISTER_ENTRY s addr = 0 then Nothing
         else if IOPAGE_REGISTER_ENTRY s addr = IOPAGE_REGISTER_HANDLE_ROM then InRom
         else InRegister (unat (IOPAGE_REGISTER_ENTRY s addr)))
      else Nothing)"

definition same_config :: "'a ddrmem_t_scheme \<Rightarrow> 'a ddrmem_t_scheme \<Rightarrow> bool" where
  "same_config s t \<longleftrightarrow> memory_start_addr t = memory_start_addr s \<and> memory_limit_addr t = memory_limit_addr s \<and>
     iopage_start_addr t = iopage_start_addr s \<and> register_handles t = register_handles s \<and>
     unibus_map t = unibus_map s \<and> unibus_map_active t = unibus_map_active s"

lemma same_config_refl [simp]: "same_config s s"
  by (simp add: same_config_def)

lemma same_config_trans: "same_config s t \<Longrightarrow> same_config t u \<Longrightarrow> same_config s u"
  by (simp add: same_config_def)

lemma same_config_reaches: "same_config s t \<Longrightarrow> reaches t addr = reaches s addr"
  by (simp add: same_config_def reaches_def map_target_def DDRMEM_ADDR_IN_SLOT_def DDRMEM_MAP_ENTRY_def
      IOPAGE_REGISTER_ENTRY_def)

text \<open>An address whose cycle stays inside the memory; the word read at an address.\<close>

definition inside :: "'a ddrmem_t_scheme \<Rightarrow> u32 \<Rightarrow> bool" where
  "inside s addr \<longleftrightarrow> (\<forall>phys. reaches s addr = InMemory phys \<longrightarrow> in_ddr phys)"

lemma same_config_inside: "same_config s t \<Longrightarrow> inside t addr = inside s addr"
  by (simp add: inside_def same_config_reaches)

definition ddr_read :: "'a ddrmem_t_scheme \<Rightarrow> u32 \<Rightarrow> u16" where
  "ddr_read s addr = ddrmem_word s (unat (addr div 2))"

lemma ddr_read_in: "in_ddr addr \<Longrightarrow> ddr_read s addr = ddr_words s (unat (addr div 2))"
  by (simp add: ddr_read_def ddrmem_word_def in_ddr_def)

lemma ddrmem_word_cong:
  "ddr_words t = ddr_words s \<Longrightarrow> unibus_map t = unibus_map s \<Longrightarrow> unibus_map_active t = unibus_map_active s \<Longrightarrow>
    ddrmem_word t k = ddrmem_word s k"
  by (simp add: ddrmem_word_def Let_def)

lemma ddr_read_cong: "ddr_words t = ddr_words s \<Longrightarrow> same_config s t \<Longrightarrow> ddr_read t a = ddr_read s a"
  unfolding ddr_read_def same_config_def by (intro ddrmem_word_cong) simp_all

lemma MEMGET_W_fst [simp]: "fst (DDRMEM_MEMGET_W addr s) = ddr_read s addr"
  by (simp add: DDRMEM_MEMGET_W_def ddr_read_def)

lemma MEMGET_W_snd [simp]:
  "snd (DDRMEM_MEMGET_W addr s) = (if in_ddr addr then s else s\<lparr>array_oob := True\<rparr>)"
  by (simp add: DDRMEM_MEMGET_W_def in_ddr_def)

text \<open>A word stored inside the memory, and what no store changes.\<close>

lemma MEMSET_in:
  assumes "in_ddr addr"
  shows "DDRMEM_MEMSET_W addr w s = s\<lparr>ddr_words := (ddr_words s)(unat (addr div 2) := w)\<rparr>"
    "DDRMEM_MEMSET_B addr b s = s\<lparr>ddr_words := (ddr_words s)(unat (addr div 2) :=
       set_byte_of (addr AND 1 \<noteq> 0) b (ddr_words s (unat (addr div 2))))\<rparr>"
  using assms
  by (simp_all add: DDRMEM_MEMSET_W_def DDRMEM_MEMSET_B_def ddrmem_set_word_def ddrmem_word_def in_ddr_def Let_def)

lemma set_word_frame [simp]:
  "registers (ddrmem_set_word k w s) = registers s" "register_handles (ddrmem_set_word k w s) = register_handles s"
  "memory_start_addr (ddrmem_set_word k w s) = memory_start_addr s"
  "memory_limit_addr (ddrmem_set_word k w s) = memory_limit_addr s"
  "memory_read_count (ddrmem_set_word k w s) = memory_read_count s"
  "memory_write_count (ddrmem_set_word k w s) = memory_write_count s"
  "iopage_start_addr (ddrmem_set_word k w s) = iopage_start_addr s"
  "ddrmem_t.more (ddrmem_set_word k w s) = ddrmem_t.more s"
  "array_oob (ddrmem_set_word k w s) = (array_oob s \<or> \<not> k < QUNIBUS_MAX_WORDCOUNT)"
  by (simp_all add: ddrmem_set_word_def Let_def)

lemma MEMSET_frame [simp]:
  "registers (DDRMEM_MEMSET_W addr w s) = registers s" "registers (DDRMEM_MEMSET_B addr b s) = registers s"
  "memory_write_count (DDRMEM_MEMSET_W addr w s) = memory_write_count s"
  "memory_write_count (DDRMEM_MEMSET_B addr b s) = memory_write_count s"
  "ddrmem_t.more (DDRMEM_MEMSET_W addr w s) = ddrmem_t.more s" "ddrmem_t.more (DDRMEM_MEMSET_B addr b s) = ddrmem_t.more s"
  "array_oob (DDRMEM_MEMSET_W addr w s) = (array_oob s \<or> \<not> in_ddr addr)"
  "array_oob (DDRMEM_MEMSET_B addr b s) = (array_oob s \<or> \<not> in_ddr addr)"
  by (simp_all add: DDRMEM_MEMSET_W_def DDRMEM_MEMSET_B_def Let_def in_ddr_def)

text \<open>The map step touches its two counters only.\<close>

lemma ddrmem_map_fst [simp]: "fst (ddrmem_map addr s) = map_target s addr"
  by (simp add: ddrmem_map_def map_target_def Let_def)

lemma bit_MAP_APPLY:
  "bit (DDRMEM_MAP_APPLY entry addr) n =
     (if n < 9 then bit addr n else n < 30 \<and> bit entry (n - 9))"
proof -
  have "DDRMEM_MAP_APPLY entry addr = push_bit 9 (entry AND mask 21) OR (addr AND mask 9)"
    by (simp add: DDRMEM_MAP_APPLY_def UNIBUS_MAP_PAGE_SHIFT_def UNIBUS_MAP_FRAME_def mask_eq_exp_minus_1)
  then show ?thesis
    by (cases "n < 9"; cases "n < 30") (auto simp: bit_simps dest: bit_imp_le_length simp del: push_bit_and)
qed

lemma MAP_APPLY_in_ddr:
  "in_ddr (DDRMEM_MAP_APPLY entry addr) \<longleftrightarrow> entry AND UNIBUS_MAP_FRAME < 0x2000"
proof -
  have "in_ddr (DDRMEM_MAP_APPLY entry addr) \<longleftrightarrow> unat (DDRMEM_MAP_APPLY entry addr) < 2 ^ 22"
    by (auto simp: in_ddr_def QUNIBUS_MAX_WORDCOUNT_def unat_div)
  also have "\<dots> \<longleftrightarrow> (\<forall>n \<ge> 22. \<not> bit (DDRMEM_MAP_APPLY entry addr) n)"
    by (rule unat_lt_exp_iff)
  also have "\<dots> \<longleftrightarrow> (\<forall>n \<ge> 13. \<not> (n < 21 \<and> bit entry n))"
  proof safe
    fix n :: nat
    assume *: "\<forall>n\<ge>22. \<not> bit (DDRMEM_MAP_APPLY entry addr) n" "13 \<le> n" "n < 21" "bit entry n"
    then have "bit (DDRMEM_MAP_APPLY entry addr) (n + 9)" by (simp add: bit_MAP_APPLY)
    with * show False by simp
  next
    fix n :: nat
    assume *: "\<forall>n\<ge>13. \<not> (n < 21 \<and> bit entry n)" "22 \<le> n" "bit (DDRMEM_MAP_APPLY entry addr) n"
    then have "13 \<le> n - 9" "n - 9 < 21" "bit entry (n - 9)" by (auto simp: bit_MAP_APPLY split: if_splits)
    with * show False by blast
  qed
  also have "\<dots> \<longleftrightarrow> (\<forall>n \<ge> 13. \<not> bit (entry AND UNIBUS_MAP_FRAME) n)"
  proof -
    have m: "UNIBUS_MAP_FRAME = mask 21" by (simp add: UNIBUS_MAP_FRAME_def mask_eq_exp_minus_1)
    have "bit (entry AND UNIBUS_MAP_FRAME) n \<longleftrightarrow> n < 21 \<and> bit entry n" for n
      unfolding m bit_and_iff bit_mask_iff by (auto dest: bit_imp_le_length)
    then show ?thesis by simp
  qed
  also have "\<dots> \<longleftrightarrow> unat (entry AND UNIBUS_MAP_FRAME) < 2 ^ 13"
    by (rule unat_lt_exp_iff[symmetric])
  finally show ?thesis by (simp add: word_less_nat_alt)
qed

lemma and_one_bit: "(x :: u32) AND 1 = 0 \<longleftrightarrow> \<not> bit x 0"
  by (simp add: bit_0 and_one_eq even_iff_mod_2_eq_zero)

lemma map_target_low_bit: "map_target s addr = Some phys \<Longrightarrow> phys AND 1 = 0 \<longleftrightarrow> addr AND 1 = 0"
  by (auto simp: map_target_def and_one_bit bit_MAP_APPLY split: if_splits)

lemma ddrmem_map_snd:
  obtains r b where "snd (ddrmem_map addr s) = s\<lparr>map_refused_count := r, map_byte_offset_count := b\<rparr>"
proof -
  have "\<exists>r b. snd (ddrmem_map addr s) = s\<lparr>map_refused_count := r, map_byte_offset_count := b\<rparr>"
  proof (cases "snd (ddrmem_map addr s) = s")
    case True
    have "s = s\<lparr>map_refused_count := map_refused_count s, map_byte_offset_count := map_byte_offset_count s\<rparr>"
      by simp
    then show ?thesis using True by metis
  next
    case False
    then have "snd (ddrmem_map addr s) = s\<lparr>map_refused_count := map_refused_count s + 1,
          map_byte_offset_count := map_byte_offset_count s\<rparr> \<or>
        snd (ddrmem_map addr s) = s\<lparr>map_refused_count := map_refused_count s,
          map_byte_offset_count := map_byte_offset_count s + 1\<rparr>"
      by (auto simp: ddrmem_map_def Let_def split: if_splits)
    then show ?thesis by blast
  qed
  then show ?thesis using that by blast
qed

lemma ddrmem_map_cases:
  fixes s :: "'a ddrmem_t_scheme"
  obtains (refused) r b where "map_target s addr = None"
      "ddrmem_map addr s = (None, s\<lparr>map_refused_count := r, map_byte_offset_count := b\<rparr>)"
  | (mapped) phys r b where "map_target s addr = Some phys"
      "ddrmem_map addr s = (Some phys, s\<lparr>map_refused_count := r, map_byte_offset_count := b\<rparr>)"
proof -
  obtain r b where snd_eq: "snd (ddrmem_map addr s) = s\<lparr>map_refused_count := r, map_byte_offset_count := b\<rparr>"
    by (rule ddrmem_map_snd)
  then have eq: "ddrmem_map addr s = (map_target s addr, s\<lparr>map_refused_count := r, map_byte_offset_count := b\<rparr>)"
    by (simp add: prod_eq_iff)
  show ?thesis
  proof (cases "map_target s addr")
    case None then show ?thesis using eq by (intro refused) simp_all
  next
    case (Some phys) then show ?thesis using eq by (intro mapped) simp_all
  qed
qed

section \<open>What a bus cycle does\<close>

text \<open>The events of a register access leave the memory alone.\<close>

lemma event_fields [simp]:
  "ddr_words (DO_EVENT_DEVICEREGISTER reg c a d s) = ddr_words s"
  "registers (DO_EVENT_DEVICEREGISTER reg c a d s) = registers s"
  "array_oob (DO_EVENT_DEVICEREGISTER reg c a d s) = array_oob s"
  "same_config t (DO_EVENT_DEVICEREGISTER reg c a d s) = same_config t s"
  by (simp_all add: DO_EVENT_DEVICEREGISTER_def PRU2ARM_INTERRUPT_def same_config_def)


lemma read_spec:
  "fst (emulated_addr_read addr s) =
     (case reaches s addr of Nothing \<Rightarrow> None | InMemory phys \<Rightarrow> Some (ddr_read s phys)
      | InRom \<Rightarrow> Some (ddr_read s addr) | InRegister h \<Rightarrow> Some (reg_value (registers s h)))"
proof (cases "DDRMEM_ADDR_IN_SLOT s addr 0 \<or> DDRMEM_ADDR_IN_SLOT s addr 1")
  case True
  then show ?thesis
    by (rule_tac ddrmem_map_cases[of s addr])
      (simp_all add: emulated_addr_read_def reaches_def Let_def split_def ddr_read_def ddrmem_word_def)
next
  case False
  then show ?thesis
    by (simp add: emulated_addr_read_def reaches_def Let_def split_def)
qed

lemma read_keeps:
  "ddr_words (snd (emulated_addr_read addr s)) = ddr_words s"
  "registers (snd (emulated_addr_read addr s)) = registers s"
  "same_config s (snd (emulated_addr_read addr s))"
proof -
  have "ddr_words (snd (emulated_addr_read addr s)) = ddr_words s \<and>
    registers (snd (emulated_addr_read addr s)) = registers s \<and> same_config s (snd (emulated_addr_read addr s))"
  proof (cases "DDRMEM_ADDR_IN_SLOT s addr 0 \<or> DDRMEM_ADDR_IN_SLOT s addr 1")
    case True
    then show ?thesis
      by (rule_tac ddrmem_map_cases[of s addr])
        (simp_all add: emulated_addr_read_def Let_def split_def DDRMEM_COUNT_READ_def same_config_def)
  next
    case False
    then show ?thesis
      by (simp add: emulated_addr_read_def Let_def split_def) (simp add: same_config_def)
  qed
  then show "ddr_words (snd (emulated_addr_read addr s)) = ddr_words s"
    "registers (snd (emulated_addr_read addr s)) = registers s"
    "same_config s (snd (emulated_addr_read addr s))" by blast+
qed

text \<open>
  Both writes store a function of the old contents: \<open>fm\<close> of the word, \<open>fr\<close> of the register. Outside
  the memory only the answer is stated: there a write can change the map.
\<close>

definition write_effect :: "(u16 \<Rightarrow> u16) \<Rightarrow> (pru_iopage_register_t \<Rightarrow> u16) \<Rightarrow> u32 \<Rightarrow>
    'a mailbox_event_deviceregister_t_scheme \<Rightarrow> bool \<times> 'a mailbox_event_deviceregister_t_scheme \<Rightarrow> bool" where
  "write_effect fm fr addr s r \<longleftrightarrow>
     fst r = (case reaches s addr of InMemory phys \<Rightarrow> True | InRegister h \<Rightarrow> True | _ \<Rightarrow> False) \<and>
     registers (snd r) = (case reaches s addr of
         InRegister h \<Rightarrow> (registers s)(h := (registers s h)\<lparr>reg_value := fr (registers s h)\<rparr>)
       | _ \<Rightarrow> registers s) \<and>
     (inside s addr \<longrightarrow>
       ddr_words (snd r) = (case reaches s addr of
           InMemory phys \<Rightarrow> (ddr_words s)(unat (phys div 2) := fm (ddr_words s (unat (phys div 2))))
         | _ \<Rightarrow> ddr_words s) \<and>
       same_config s (snd r))"

lemma write_w_spec:
  "write_effect (\<lambda>_. w) (\<lambda>reg. merge_bits (reg_value reg) w (reg_writable_bits reg)) addr s
     (emulated_addr_write_w addr w s)"
proof (cases "DDRMEM_ADDR_IN_SLOT s addr 0 \<or> DDRMEM_ADDR_IN_SLOT s addr 1")
  case True
  then show ?thesis
    by (rule_tac ddrmem_map_cases[of s addr])
      (simp_all add: emulated_addr_write_w_def reaches_def Let_def split_def write_effect_def inside_def
        MEMSET_in DDRMEM_COUNT_WRITE_def same_config_def)
next
  case False
  then show ?thesis
    by (simp add: emulated_addr_write_w_def reaches_def Let_def split_def write_effect_def merge_bits_def)
      (simp add: same_config_def)
qed

lemma write_b_spec:
  "write_effect (set_byte_of (addr AND 1 \<noteq> 0) b)
     (\<lambda>reg. if addr AND 1 \<noteq> 0
            then merge_bits (reg_value reg) (push_bit 8 (ucast b)) (reg_writable_bits reg AND 0xFF00)
            else merge_bits (reg_value reg) (ucast b) (reg_writable_bits reg AND 0x00FF)) addr s
     (emulated_addr_write_b addr b s)"
proof (cases "DDRMEM_ADDR_IN_SLOT s addr 0 \<or> DDRMEM_ADDR_IN_SLOT s addr 1")
  case True
  show ?thesis using True
    by (rule_tac ddrmem_map_cases[of s addr])
      (simp_all add: emulated_addr_write_b_def reaches_def Let_def split_def write_effect_def inside_def
        map_target_low_bit MEMSET_in DDRMEM_COUNT_WRITE_def same_config_def)
next
  case False
  then show ?thesis
    by (simp add: emulated_addr_write_b_def reaches_def Let_def split_def write_effect_def byte_merge_high
        byte_merge_low)
      (simp add: same_config_def)
qed


section \<open>Accesses outside the memory array\<close>

lemma read_oob:
  "array_oob (snd (emulated_addr_read addr s)) \<longleftrightarrow> array_oob s \<or>
     (case reaches s addr of InMemory phys \<Rightarrow> \<not> in_ddr phys | InRom \<Rightarrow> \<not> in_ddr addr | _ \<Rightarrow> False)"
proof (cases "DDRMEM_ADDR_IN_SLOT s addr 0 \<or> DDRMEM_ADDR_IN_SLOT s addr 1")
  case True
  then show ?thesis
    by (rule_tac ddrmem_map_cases[of s addr])
      (simp_all add: emulated_addr_read_def reaches_def Let_def split_def DDRMEM_COUNT_READ_def)
next
  case False
  then show ?thesis by (simp add: emulated_addr_read_def reaches_def Let_def split_def)
qed

lemma write_w_oob:
  "array_oob (snd (emulated_addr_write_w addr w s)) \<longleftrightarrow> array_oob s \<or>
     (case reaches s addr of InMemory phys \<Rightarrow> \<not> in_ddr phys | _ \<Rightarrow> False)"
proof (cases "DDRMEM_ADDR_IN_SLOT s addr 0 \<or> DDRMEM_ADDR_IN_SLOT s addr 1")
  case True
  then show ?thesis
    by (rule_tac ddrmem_map_cases[of s addr])
      (simp_all add: emulated_addr_write_w_def reaches_def Let_def split_def DDRMEM_COUNT_WRITE_def)
next
  case False
  then show ?thesis by (simp add: emulated_addr_write_w_def reaches_def Let_def split_def)
qed

lemma write_b_oob:
  "array_oob (snd (emulated_addr_write_b addr b s)) \<longleftrightarrow> array_oob s \<or>
     (case reaches s addr of InMemory phys \<Rightarrow> \<not> in_ddr phys | _ \<Rightarrow> False)"
proof (cases "DDRMEM_ADDR_IN_SLOT s addr 0 \<or> DDRMEM_ADDR_IN_SLOT s addr 1")
  case True
  then show ?thesis
    by (rule_tac ddrmem_map_cases[of s addr])
      (simp_all add: emulated_addr_write_b_def reaches_def Let_def split_def DDRMEM_COUNT_WRITE_def)
next
  case False
  then show ?thesis by (simp add: emulated_addr_write_b_def reaches_def Let_def split_def)
qed

section \<open>Accesses counted and events raised\<close>

definition slot_hit :: "'a ddrmem_t_scheme \<Rightarrow> u32 \<Rightarrow> nat \<Rightarrow> u32" where
  "slot_hit s a i = of_bool ((\<exists>p. reaches s a = InMemory p) \<and> i < 2 \<and> DDRMEM_ADDR_IN_SLOT s a i)"

definition event_wanted :: "'a ddrmem_t_scheme \<Rightarrow> u32 \<Rightarrow> nat" where
  "event_wanted s a = (case reaches s a of
     InRegister h \<Rightarrow> of_bool (reg_event_flags (registers s h) AND IOPAGEREGISTER_EVENT_FLAG_DATO \<noteq> 0) | _ \<Rightarrow> 0)"

lemma count_write_i:
  "memory_write_count (DDRMEM_COUNT_WRITE in0 in1 s) i =
     memory_write_count s i + of_bool (i = 0 \<and> in0 \<or> i = 1 \<and> in1)"
  by (simp add: DDRMEM_COUNT_WRITE_def)

lemma slot_cases: "(i :: nat) < 2 \<and> P i \<longleftrightarrow> i = 0 \<and> P 0 \<or> i = 1 \<and> P 1"
  by (auto simp: less_2_cases_iff)

lemma more_interrupts:
  fixes s t :: "'a mailbox_event_deviceregister_t_scheme"
  shows "ddrmem_t.more t = ddrmem_t.more s \<Longrightarrow> arm_interrupts t = arm_interrupts s"
  by (cases s, cases t) simp

lemma event_interrupts [simp]:
  "arm_interrupts (DO_EVENT_DEVICEREGISTER reg c a d s) = Suc (arm_interrupts s)"
  "memory_write_count (DO_EVENT_DEVICEREGISTER reg c a d s) = memory_write_count s"
  by (simp_all add: DO_EVENT_DEVICEREGISTER_def PRU2ARM_INTERRUPT_def)

lemma write_counts:
  "memory_write_count (snd (emulated_addr_write_w a w s)) i = memory_write_count s i + slot_hit s a i"
  "memory_write_count (snd (emulated_addr_write_b a b s)) i = memory_write_count s i + slot_hit s a i"
  "arm_interrupts (snd (emulated_addr_write_w a w s)) = arm_interrupts s + event_wanted s a"
  "arm_interrupts (snd (emulated_addr_write_b a b s)) = arm_interrupts s + event_wanted s a"
proof -
  have all: "memory_write_count (snd (emulated_addr_write_w a w s)) i = memory_write_count s i + slot_hit s a i \<and>
    memory_write_count (snd (emulated_addr_write_b a b s)) i = memory_write_count s i + slot_hit s a i \<and>
    arm_interrupts (snd (emulated_addr_write_w a w s)) = arm_interrupts s + event_wanted s a \<and>
    arm_interrupts (snd (emulated_addr_write_b a b s)) = arm_interrupts s + event_wanted s a"
  proof (cases "DDRMEM_ADDR_IN_SLOT s a 0 \<or> DDRMEM_ADDR_IN_SLOT s a 1")
    case True
    have int: "arm_interrupts (DDRMEM_COUNT_WRITE p q t) = arm_interrupts t" for p q and t :: "'a mailbox_event_deviceregister_t_scheme"
      by (simp add: DDRMEM_COUNT_WRITE_def)
    show ?thesis using True
      by (rule_tac ddrmem_map_cases[of s a])
        (simp_all add: emulated_addr_write_w_def emulated_addr_write_b_def reaches_def Let_def split_def slot_hit_def
          event_wanted_def slot_cases count_write_i int more_interrupts[OF MEMSET_frame(5)] more_interrupts[OF MEMSET_frame(6)])
  next
    case False
    then show ?thesis
      by (simp add: emulated_addr_write_w_def emulated_addr_write_b_def reaches_def Let_def slot_hit_def event_wanted_def)
  qed
  then show "memory_write_count (snd (emulated_addr_write_w a w s)) i = memory_write_count s i + slot_hit s a i"
    "memory_write_count (snd (emulated_addr_write_b a b s)) i = memory_write_count s i + slot_hit s a i"
    "arm_interrupts (snd (emulated_addr_write_w a w s)) = arm_interrupts s + event_wanted s a"
    "arm_interrupts (snd (emulated_addr_write_b a b s)) = arm_interrupts s + event_wanted s a" by blast+
qed

section \<open>Read after write\<close>

lemma unat_half_eq: "unat ((p :: u32) div 2) = unat (q div 2) \<longleftrightarrow> p div 2 = q div 2"
  by (simp add: word_unat_eq_iff)

lemma ddr_read_after:
  assumes "in_ddr p" "ddr_words t = (ddr_words s)(unat (p div 2) := w)" "same_config s t"
  shows "ddr_read t q = (if p div 2 = q div 2 then w else ddr_read s q)"
proof (cases "p div 2 = q div 2")
  case True
  then show ?thesis using assms by (simp add: ddr_read_in in_ddr_def ddr_read_def ddrmem_word_def)
next
  case False
  then have "unat (q div 2) \<noteq> unat (p div 2)" by (simp add: unat_half_eq)
  then show ?thesis using False assms(2,3) by (simp add: ddr_read_def ddrmem_word_def same_config_def Let_def)
qed

text \<open>What a later word read of \<open>b\<close> returns, for every pair of addresses.\<close>

lemma read_after_write_w:
  assumes "s' = snd (emulated_addr_write_w a w s)" and ins: "inside s a"
  shows "fst (emulated_addr_read b s') =
    (case reaches s b of
       Nothing \<Rightarrow> None
     | InMemory q \<Rightarrow> Some (case reaches s a of
           InMemory p \<Rightarrow> if p div 2 = q div 2 then w else ddr_read s q
         | _ \<Rightarrow> ddr_read s q)
     | InRom \<Rightarrow> Some (case reaches s a of
           InMemory p \<Rightarrow> if p div 2 = b div 2 then w else ddr_read s b
         | _ \<Rightarrow> ddr_read s b)
     | InRegister h \<Rightarrow> Some (case reaches s a of
           InRegister h' \<Rightarrow> if h = h' then merge_bits (reg_value (registers s h)) w (reg_writable_bits (registers s h))
             else reg_value (registers s h)
         | _ \<Rightarrow> reg_value (registers s h)))"
proof -
  note eff = write_w_spec[of w a s, unfolded write_effect_def, folded assms(1)]
  have cfg: "same_config s s'" using eff ins by blast
  have re: "reaches s' b = reaches s b" by (rule same_config_reaches[OF cfg])
  show ?thesis
  proof (cases "reaches s a")
    case (InMemory p)
    then have "in_ddr p" using ins by (simp add: inside_def)
    with InMemory show ?thesis
      using eff ins ddr_read_after[of p s' s w] cfg by (simp add: read_spec re split: reach.split)
  qed (use eff ins ddr_read_cong[of s' s] cfg in \<open>auto simp: read_spec re split: reach.split\<close>)
qed

section \<open>Memory read and written by words\<close>

text \<open>
  The contract of a memory towards the masters that use it: a word written is the word
  read, the other words keep their values, and reading changes nothing that is read.
\<close>

locale word_store =
  fixes rd :: "u32 \<Rightarrow> 's \<Rightarrow> u16 option \<times> 's"
    and wr :: "u32 \<Rightarrow> u16 \<Rightarrow> 's \<Rightarrow> bool \<times> 's"
    and ok :: "'s \<Rightarrow> bool"
    and cells :: "u32 set"
  assumes wr_answers: "ok s \<Longrightarrow> a \<in> cells \<Longrightarrow> fst (wr a w s)"
    and wr_ok: "ok s \<Longrightarrow> a \<in> cells \<Longrightarrow> ok (snd (wr a w s))"
    and rd_ok: "ok s \<Longrightarrow> a \<in> cells \<Longrightarrow> ok (snd (rd a s))"
    and rd_wr: "ok s \<Longrightarrow> a \<in> cells \<Longrightarrow> b \<in> cells \<Longrightarrow>
      fst (rd b (snd (wr a w s))) = (if b = a then Some w else fst (rd b s))"
    and rd_rd: "ok s \<Longrightarrow> a \<in> cells \<Longrightarrow> b \<in> cells \<Longrightarrow> fst (rd b (snd (rd a s))) = fst (rd b s)"
begin

primrec store_block :: "(u32 \<times> u16) list \<Rightarrow> 's \<Rightarrow> 's" where
  "store_block [] s = s"
| "store_block (x # xs) s = store_block xs (snd (wr (fst x) (snd x) s))"

primrec load_block :: "u32 list \<Rightarrow> 's \<Rightarrow> u16 option list" where
  "load_block [] s = []"
| "load_block (a # as) s = fst (rd a s) # load_block as (snd (rd a s))"

lemma store_block_ok: "ok s \<Longrightarrow> fst ` set xs \<subseteq> cells \<Longrightarrow> ok (store_block xs s)"
  by (induction xs arbitrary: s) (auto simp: wr_ok)

lemma load_block_eq: "ok s \<Longrightarrow> set as \<subseteq> cells \<Longrightarrow> load_block as s = map (\<lambda>a. fst (rd a s)) as"
  by (induction as arbitrary: s) (auto simp: rd_ok rd_rd)

lemma rd_store_block:
  assumes "ok s" "fst ` set xs \<subseteq> cells" "b \<in> cells" "distinct (map fst xs)"
  shows "fst (rd b (store_block xs s)) = (case map_of xs b of Some w \<Rightarrow> Some w | None \<Rightarrow> fst (rd b s))"
  using assms
proof (induction xs arbitrary: s)
  case (Cons x xs)
  have "map_of xs (fst x) = None"
    using Cons.prems(4) by (simp add: map_of_eq_None_iff)
  moreover have "fst (rd b (store_block xs (snd (wr (fst x) (snd x) s)))) =
      (case map_of xs b of Some w \<Rightarrow> Some w | None \<Rightarrow> fst (rd b (snd (wr (fst x) (snd x) s))))"
    using Cons.prems by (intro Cons.IH) (auto simp: wr_ok)
  ultimately show ?case
    using Cons.prems by (cases x) (auto simp: rd_wr split: option.splits)
qed simp

theorem block_roundtrip:
  assumes "ok s" "fst ` set xs \<subseteq> cells" "distinct (map fst xs)"
  shows "load_block (map fst xs) (store_block xs s) = map (Some \<circ> snd) xs"
proof -
  have "fst (rd (fst x) (store_block xs s)) = Some (snd x)" if "x \<in> set xs" for x
  proof -
    have "map_of xs (fst x) = Some (snd x)"
      using that assms(3) by (intro map_of_is_SomeI) simp_all
    moreover have "fst x \<in> cells" using that assms(2) by auto
    ultimately show ?thesis using rd_store_block[OF assms(1,2) _ assms(3), of "fst x"]
      by (simp del: map_of_eq_Some_iff)
  qed
  then have "map (\<lambda>a. fst (rd a (store_block xs s))) (map fst xs) = map (Some \<circ> snd) xs" by simp
  moreover have "load_block (map fst xs) (store_block xs s) = map (\<lambda>a. fst (rd a (store_block xs s))) (map fst xs)"
    using assms by (intro load_block_eq) (auto simp: store_block_ok)
  ultimately show ?thesis by simp
qed

end

text \<open>The emulated memory card: the even addresses of range 0, with no adapter in front.\<close>

definition card_ok :: "u32 \<Rightarrow> u32 \<Rightarrow> 'a mailbox_event_deviceregister_t_scheme \<Rightarrow> bool" where
  "card_ok lo hi s \<longleftrightarrow> memory_start_addr s 0 = lo \<and> memory_limit_addr s 0 = hi \<and> unibus_map_active s = 0"

definition card_cells :: "u32 \<Rightarrow> u32 \<Rightarrow> u32 set" where
  "card_cells lo hi = {a. lo \<le> a \<and> a < hi \<and> a < 0x400000 \<and> even (unat a)}"

lemma card_reaches: "card_ok lo hi s \<Longrightarrow> a \<in> card_cells lo hi \<Longrightarrow> reaches s a = InMemory a"
  by (simp add: reaches_def map_target_def card_ok_def card_cells_def DDRMEM_ADDR_IN_SLOT_def)

lemma card_in_ddr: "a \<in> card_cells lo hi \<Longrightarrow> in_ddr a"
  by (simp add: card_cells_def in_ddr_def QUNIBUS_MAX_WORDCOUNT_def unat_div word_less_nat_alt less_mult_imp_div_less)

lemma card_inside: "card_ok lo hi s \<Longrightarrow> a \<in> card_cells lo hi \<Longrightarrow> inside s a"
  by (simp add: inside_def card_reaches card_in_ddr)

lemma card_ok_config: "same_config s t \<Longrightarrow> card_ok lo hi t = card_ok lo hi s"
  by (simp add: card_ok_def same_config_def)

lemma card_half_inj: "a \<in> card_cells lo hi \<Longrightarrow> b \<in> card_cells lo hi \<Longrightarrow> a div 2 = b div 2 \<longleftrightarrow> a = b"
  by (auto simp: card_cells_def word_unat_eq_iff unat_div elim!: evenE)

lemma write_w_config: "inside s a \<Longrightarrow> same_config s (snd (emulated_addr_write_w a w s))"
  using write_w_spec[of w a s] by (simp add: write_effect_def)

lemma write_b_config: "inside s a \<Longrightarrow> same_config s (snd (emulated_addr_write_b a b s))"
  using write_b_spec[of a b s] by (simp add: write_effect_def)

interpretation card: word_store emulated_addr_read emulated_addr_write_w "card_ok lo hi" "card_cells lo hi"
  for lo hi :: u32
proof (unfold_locales, goal_cases)
  case (1 s a w)
  then show ?case using write_w_spec[of w a s] by (simp add: write_effect_def card_reaches)
next
  case (2 s a w)
  then show ?case using card_ok_config[OF write_w_config[OF card_inside, of lo hi s a w]] by simp
next
  case (3 s a)
  then show ?case using card_ok_config[OF read_keeps(3)[of s a]] by simp
next
  case (4 s a b w)
  note r = read_after_write_w[OF refl card_inside[OF 4(1,2)], where b = b and w = w] read_spec[of b s]
  show ?case
    unfolding r using 4 by (simp add: card_reaches card_half_inj)
next
  case (5 s a b)
  then have "card_ok lo hi (snd (emulated_addr_read a s))"
    using card_ok_config[OF read_keeps(3)[of s a]] by simp
  then show ?case
    using 5 by (simp add: read_spec card_reaches ddr_read_in card_in_ddr read_keeps)
qed


section \<open>The two bytes of a word\<close>

lemma half_drop_bit: "(x :: u32) div 2 = drop_bit 1 x"
  by (simp add: drop_bit_eq_div)

lemma bit_one_word: "bit (1 :: 'a::len word) n \<longleftrightarrow> n = 0"
  by (simp add: bit_1_iff)

lemma or1_half: "((x :: u32) OR 1) div 2 = x div 2"
  by (rule bit_word_eqI) (simp add: half_drop_bit bit_drop_bit_eq bit_or_iff bit_one_word)

lemma or1_drop: "0 < k \<Longrightarrow> drop_bit k ((x :: u32) OR 1) = drop_bit k x"
  by (rule bit_word_eqI) (simp add: bit_drop_bit_eq bit_or_iff bit_one_word)

lemma or1_and_half: "((x OR 1) AND 0x1FFF :: u32) div 2 = (x AND 0x1FFF) div 2"
  by (rule bit_word_eqI) (simp add: half_drop_bit bit_drop_bit_eq bit_or_iff bit_and_iff bit_one_word)

lemma MAP_APPLY_or1: "DDRMEM_MAP_APPLY e (x OR 1) = DDRMEM_MAP_APPLY e x OR 1"
  by (rule bit_word_eqI) (auto simp: bit_MAP_APPLY bit_or_iff bit_one_word)

lemma even_unat_iff: "even (unat (x :: u32)) \<longleftrightarrow> even x"
  using bit_unsigned_iff[where w = x and n = 0] by (simp add: bit_0)

lemma unat_or1: "even (unat (x :: u32)) \<Longrightarrow> unat (x OR 1) = unat x + 1"
proof -
  assume e: "even (unat x)"
  then have "x AND 1 = 0"
    by (simp add: and_one_bit bit_0 even_unat_iff)
  then have "x OR 1 = x + 1"
    by (metis disjunctive_add_eq_or)
  moreover have "unat x + 1 < 2 ^ 32"
  proof -
    have "unat x < 2 ^ 32" using unsigned_less[of x, where ?'a = nat] by simp
    then show ?thesis using e by (auto elim!: evenE)
  qed
  ultimately show ?thesis
    by (simp add: unat_word_ariths)
qed

definition even_ranges :: "'a ddrmem_t_scheme \<Rightarrow> bool" where
  "even_ranges s \<longleftrightarrow> (\<forall>i < 2. even (unat (memory_start_addr s i)) \<and> even (unat (memory_limit_addr s i))) \<and>
     even (unat (iopage_start_addr s))"

lemma even_less_Suc: "even (m :: nat) \<Longrightarrow> even n \<Longrightarrow> m + 1 < n \<longleftrightarrow> m < n"
  "even m \<Longrightarrow> even n \<Longrightarrow> n \<le> m + 1 \<longleftrightarrow> n \<le> m"
  by presburger+

lemma slot_or1:
  assumes "even_ranges s" "even (unat a)" "i < 2"
  shows "DDRMEM_ADDR_IN_SLOT s (a OR 1) i = DDRMEM_ADDR_IN_SLOT s a i"
  using assms
  by (simp add: DDRMEM_ADDR_IN_SLOT_def even_ranges_def word_less_nat_alt word_le_nat_alt unat_or1 even_less_Suc
      del: add_Suc_right One_nat_def)

lemma reaches_or1:
  assumes "even_ranges s" "even (unat a)"
  shows "reaches s (a OR 1) = (case reaches s a of InMemory p \<Rightarrow> InMemory (p OR 1) | r \<Rightarrow> r)"
proof -
  note slot = slot_or1[OF assms]
  have io: "a OR 1 \<ge> iopage_start_addr s \<longleftrightarrow> a \<ge> iopage_start_addr s"
    using assms by (simp add: even_ranges_def word_le_nat_alt unat_or1 even_less_Suc del: One_nat_def)
  have reg: "IOPAGE_REGISTER_ENTRY s (a OR 1) = IOPAGE_REGISTER_ENTRY s a"
    by (simp add: IOPAGE_REGISTER_ENTRY_def or1_and_half)
  have map: "map_target s (a OR 1) = map_option (\<lambda>p. p OR 1) (map_target s a)"
    by (simp add: map_target_def DDRMEM_MAP_COVERS_def DDRMEM_MAP_ENTRY_def UNIBUS_MAP_PAGE_SHIFT_def or1_drop
        MAP_APPLY_or1)
  show ?thesis
    using slot[of 0] slot[of 1] by (simp add: reaches_def io reg map split: option.splits)
qed


lemma in_ddr_or1: "in_ddr (p OR 1) = in_ddr p"
  by (simp add: in_ddr_def or1_half)

lemma odd_half:
  assumes "even_ranges s" "even (unat a)"
  shows "inside s (a OR 1) = inside s a" "slot_hit s (a OR 1) = slot_hit s a" "event_wanted s (a OR 1) = event_wanted s a"
  using slot_or1[OF assms] reaches_or1[OF assms]
  by (auto simp: inside_def slot_hit_def event_wanted_def in_ddr_or1 fun_eq_iff split: reach.splits)

text \<open>A cycle inside the memory leaves counters and events of a later one as they were to be.\<close>

lemma after_write_b:
  fixes s :: "'a mailbox_event_deviceregister_t_scheme" and b :: u8
  assumes "inside s a"
  defines "t \<equiv> snd (emulated_addr_write_b a b s)"
  shows "slot_hit t x = slot_hit s x" "event_wanted t x = event_wanted s x"
proof -
  have cfg: "same_config s t" using write_b_config[OF assms(1)] by (simp add: t_def)
  note re = same_config_reaches[OF cfg]
  show "slot_hit t x = slot_hit s x"
    using cfg by (simp add: slot_hit_def re fun_eq_iff DDRMEM_ADDR_IN_SLOT_def same_config_def)
  have "reg_event_flags (registers t h) = reg_event_flags (registers s h)" for h
    using write_b_spec[of a b s] by (auto simp: write_effect_def t_def split: reach.split)
  then show "event_wanted t x = event_wanted s x"
    by (simp add: event_wanted_def re split: reach.split)
qed

section \<open>The page frame behind the memory\<close>

lemma single_bit: "bit (0x400000 :: u32) n \<longleftrightarrow> n = 22" "bit (0x2000000 :: u32) n \<longleftrightarrow> n = 25"
proof -
  have "bit (2 ^ 22 :: u32) n \<longleftrightarrow> n = 22" "bit (2 ^ 25 :: u32) n \<longleftrightarrow> n = 25"
    by (simp_all only: bit_exp_iff possible_bit_word) auto
  then show "bit (0x400000 :: u32) n \<longleftrightarrow> n = 22" "bit (0x2000000 :: u32) n \<longleftrightarrow> n = 25" by simp_all
qed

lemma write_behind_memory:
  fixes a e :: u32
  assumes "e AND UNIBUS_MAP_FRAME = 0x2000"
  defines "reg \<equiv> unat (a AND 0x1FF) div 4"
  shows "unibus_map (DDRMEM_MEMSET_W (DDRMEM_MAP_APPLY e a) w s) =
    (unibus_map s)(reg := set_half_of (bit a 1) w (unibus_map s reg))"
proof -
  have m: "a AND 0x1FF = a AND mask 9" by (simp add: mask_eq_exp_minus_1)
  have lt: "unat (a AND 0x1FF) < 512" unfolding m using unat_and_mask_lt[of 9 a] by simp
  have "DDRMEM_MAP_APPLY e a = 0x400000 OR (a AND 0x1FF)"
    using assms(1) by (simp add: DDRMEM_MAP_APPLY_def UNIBUS_MAP_PAGE_SHIFT_def)
  also have "\<dots> = 0x400000 + (a AND 0x1FF)"
  proof (rule disjunctive_add_eq_or[symmetric])
    show "0x400000 AND (a AND 0x1FF) = 0"
      unfolding m by (rule bit_word_eqI) (simp only: bit_and_iff bit_mask_iff single_bit(1), auto)
  qed
  finally have p: "unat (DDRMEM_MAP_APPLY e a) = 0x400000 + unat (a AND 0x1FF)"
    using lt by (simp add: unat_word_ariths)
  have k: "unat (DDRMEM_MAP_APPLY e a div 2) = QUNIBUS_MAX_WORDCOUNT + unat (a AND 0x1FF) div 2"
    unfolding unat_div p QUNIBUS_MAX_WORDCOUNT_def by simp
  have "odd (unat (a AND 0x1FF) div 2) = bit (a AND 0x1FF) 1"
    using bit_iff_odd[of "unat (a AND 0x1FF)" 1] bit_unsigned_iff[of "a AND 0x1FF" 1, where 'a = nat] by simp
  also have "\<dots> = bit a 1" unfolding m by (simp add: bit_and_iff bit_mask_iff)
  finally have hi: "odd (unat (a AND 0x1FF) div 2) = bit a 1" .
  have "unat (a AND 0x1FF) div 2 < 2 * unat UNIBUS_MAP_REGISTERS" using lt by (simp add: UNIBUS_MAP_REGISTERS_def)
  then show ?thesis
    unfolding DDRMEM_MEMSET_W_def k ddrmem_set_word_def Let_def
    by (simp add: hi reg_def div_mult2_eq[symmetric])
qed

section \<open>Sequences of bus cycles\<close>

datatype bus_cycle = Dati u32 | Dato u32 u16 | Datob u32 u8

fun do_cycle :: "bus_cycle \<Rightarrow> 'a mailbox_event_deviceregister_t_scheme \<Rightarrow> 'a mailbox_event_deviceregister_t_scheme" where
  "do_cycle (Dati a) s = snd (emulated_addr_read a s)"
| "do_cycle (Dato a w) s = snd (emulated_addr_write_w a w s)"
| "do_cycle (Datob a b) s = snd (emulated_addr_write_b a b s)"

text \<open>What no cycle changes: everything of a register but the writable bits of its value.\<close>

definition guarded_part :: "pru_iopage_register_t \<Rightarrow> pru_iopage_register_t" where
  "guarded_part reg = reg\<lparr>reg_value := reg_value reg AND NOT (reg_writable_bits reg)\<rparr>"

lemma guarded_part_upd:
  assumes "x AND NOT (reg_writable_bits reg) = reg_value reg AND NOT (reg_writable_bits reg)"
  shows "guarded_part (reg\<lparr>reg_value := x\<rparr>) = guarded_part reg"
  using assms by (simp add: guarded_part_def)

lemma merge_within: "m AND wr = m \<Longrightarrow> merge_bits v x m AND NOT wr = v AND NOT (wr :: u16)"
proof (rule bit_word_eqI)
  fix n assume m: "m AND wr = m" and n: "n < LENGTH(16)"
  have "bit m n \<Longrightarrow> bit wr n" using m by (metis bit_and_iff)
  then show "bit (merge_bits v x m AND NOT wr) n = bit (v AND NOT wr) n"
    by (auto simp: bit_and_iff bit_not_iff bit_merge_bits)
qed

lemma within_and: "(wr AND c) AND wr = wr AND (c :: u16)"
  by (metis and.assoc and.commute and.idem)

lemma write_effect_guarded:
  assumes "write_effect fm fr addr s r" and "\<And>reg. fr reg AND NOT (reg_writable_bits reg) = reg_value reg AND NOT (reg_writable_bits reg)"
  shows "guarded_part (registers (snd r) h) = guarded_part (registers s h)"
  using assms by (auto simp: write_effect_def guarded_part_upd split: reach.splits)

lemma do_cycle_config: "\<forall>a. inside s a \<Longrightarrow> same_config s (do_cycle c s)"
  by (cases c) (simp_all add: read_keeps write_w_config write_b_config)

lemma do_cycle_guarded: "guarded_part (registers (do_cycle c s) h) = guarded_part (registers s h)"
proof (cases c)
  case (Dati a) then show ?thesis by (simp add: read_keeps)
next
  case (Dato a w)
  then show ?thesis by (simp add: write_effect_guarded[OF write_w_spec])
next
  case (Datob a b)
  have "guarded_part (registers (snd (emulated_addr_write_b a b s)) h) = guarded_part (registers s h)"
    by (rule write_effect_guarded[OF write_b_spec]) (simp add: merge_within within_and)
  with Datob show ?thesis by simp
qed

lemma do_cycle_words:
  assumes "\<forall>a. inside s a" "\<forall>a phys. reaches s a = InMemory phys \<longrightarrow> unat (phys div 2) \<noteq> i"
  shows "ddr_words (do_cycle c s) i = ddr_words s i"
proof (cases c)
  case (Dati a) then show ?thesis by (simp add: read_keeps)
next
  case (Dato a w)
  then show ?thesis using assms write_w_spec[of w a s] by (auto simp: write_effect_def split: reach.splits)
next
  case (Datob a b)
  then show ?thesis using assms write_b_spec[of a b s] by (auto simp: write_effect_def split: reach.splits)
qed

section \<open>Fill pattern\<close>

lemma fill_pattern_loop_eq:
  "fill_pattern_loop k n f i = (if n \<le> i \<and> i < n + k then of_nat i else f i)"
  by (induction k arbitrary: n f) auto

end
