(* ===== verification/PruMemory_Props.thy ===== *)
theory PruMemory_Props
  imports PruMemory_Lemmas
begin

unbundle bit_operations_syntax

text \<open>
  Properties of the emulated memory and device registers, each with a witness on a small
  configuration: a memory card at the bottom of the address space, one device register
  and one ROM cell.
\<close>

section \<open>A concrete configuration\<close>

definition demo_mem :: mailbox_event_deviceregister_t where
  "demo_mem = \<lparr>memory_start_addr = \<lambda>_. 0, memory_limit_addr = (\<lambda>i. if i = 0 then 0x8000 else 0),
     memory_read_count = \<lambda>_. 0, memory_write_count = \<lambda>_. 0, rom_access_count = 0,
     map_refused_count = 0, map_byte_offset_count = 0, iopage_start_addr = 0x3E000,
     register_handles = (\<lambda>i. if i = 8 then 1 else if i = 9 then 0xFF else 0),
     registers = (\<lambda>_. \<lparr>reg_value = 0x1234, reg_reset_value = 0x80, reg_writable_bits = 0x0F0F,
       reg_event_register_handle = 5, reg_event_flags = 3\<rparr>),
     ddr_words = (\<lambda>_. 0), unibus_map = (\<lambda>i. if i = 0 then 0x80000003 else if i = 1 then 0x80002000 else 0),
     unibus_map_active = 0, array_oob = False,
     ev_deviceregister = \<lparr>signaled = 7, acked = 7\<rparr>, ev_unibus_control = 0, ev_register_handle = 0,
     ev_data = 0, ev_addr = 0, deviceregister_signal_cycle = 0, iep_tmr_cnt = 99, arm_interrupts = 0\<rparr>"

lemma demo_mem_fields [simp]:
  "memory_start_addr demo_mem i = 0" "memory_limit_addr demo_mem i = (if i = 0 then 0x8000 else 0)"
  "iopage_start_addr demo_mem = 0x3E000" "unibus_map_active demo_mem = 0"
  "ev_deviceregister demo_mem = \<lparr>signaled = 7, acked = 7\<rparr>" "array_oob demo_mem = False"
  by (simp_all add: demo_mem_def)

lemmas demo_simps = demo_mem_def reaches_def map_target_def DDRMEM_ADDR_IN_SLOT_def IOPAGE_REGISTER_ENTRY_def
  IOPAGE_REGISTER_HANDLE_ROM_def DDRMEM_MAP_ENTRY_def DDRMEM_MAP_COVERS_def DDRMEM_MAP_APPLY_def
  UNIBUS_MAP_PAGE_SHIFT_def UNIBUS_MAP_FRAME_def UNIBUS_MAP_VALID_def UNIBUS_MAP_REGISTERS_def
  UNIBUS_MAP_BYTE_OFFSET_def in_ddr_def QUNIBUS_MAX_WORDCOUNT_def

section \<open>Transfers through the map of an adapter\<close>

text \<open>C17.
  With the adapter's map active, memory is addressed through the map registers: a word a
  device writes at one bus address is what a later cycle at another reads back exactly
  when both pages have valid registers that send the two addresses to the same word; a
  page without a valid register answers neither; every other word keeps its value. The
  frame written to lies in the memory, and the registers do not ask for a transfer moved
  up by a byte, which the firmware does not make (\<open>byte_offset_not_applied\<close>).
\<close>

theorem map_read_after_write:
  assumes active: "unibus_map_active s \<noteq> 0"
    and a: "DDRMEM_ADDR_IN_SLOT s a 0 \<or> DDRMEM_ADDR_IN_SLOT s a 1"
    and b: "DDRMEM_ADDR_IN_SLOT s b 0 \<or> DDRMEM_ADDR_IN_SLOT s b 1"
    and frame: "DDRMEM_MAP_ENTRY s a AND UNIBUS_MAP_FRAME < 0x2000"
    and unmoved: "DDRMEM_MAP_ENTRY s a AND UNIBUS_MAP_BYTE_OFFSET = 0" "DDRMEM_MAP_ENTRY s b AND UNIBUS_MAP_BYTE_OFFSET = 0"
  defines "valid \<equiv> \<lambda>x. DDRMEM_MAP_COVERS x \<and> DDRMEM_MAP_ENTRY s x AND UNIBUS_MAP_VALID \<noteq> 0"
    and "phys \<equiv> \<lambda>x. DDRMEM_MAP_APPLY (DDRMEM_MAP_ENTRY s x) x"
  shows "fst (emulated_addr_read b (snd (emulated_addr_write_w a w s))) =
    (if \<not> valid b then None
     else if valid a \<and> phys a div 2 = phys b div 2 then Some w
     else fst (emulated_addr_read b s))"
proof -
  have "reaches s x = (if valid x then InMemory (phys x) else Nothing)"
    if "DDRMEM_ADDR_IN_SLOT s x 0 \<or> DDRMEM_ADDR_IN_SLOT s x 1" for x
    using that active by (auto simp: reaches_def map_target_def valid_def phys_def)
  note ra = this[OF a] and rb = this[OF b]
  have "inside s a"
    using frame by (simp add: inside_def ra phys_def MAP_APPLY_in_ddr)
  note r = read_after_write_w[OF refl this, where b = b and w = w] read_spec[of b s]
  show ?thesis
    unfolding r ra rb by simp
qed

theorem map_read_after_write_witness:
  "fst (emulated_addr_read 0x10 (snd (emulated_addr_write_w 0x11 7 (demo_mem\<lparr>unibus_map_active := 1\<rparr>)))) = Some 7"
  by (subst map_read_after_write) (simp_all add: demo_simps)

text \<open>
  A register with the byte offset bit: the cycle reaches the place the same register without
  the bit sends it to, the transfer is only counted. The adapter moves it up by one byte.
\<close>

theorem byte_offset_not_applied:
  assumes "unibus_map_active s \<noteq> 0" "DDRMEM_MAP_COVERS a" "DDRMEM_MAP_ENTRY s a = e OR UNIBUS_MAP_BYTE_OFFSET"
    "e AND UNIBUS_MAP_VALID \<noteq> 0"
  shows "ddrmem_map a s = (Some (DDRMEM_MAP_APPLY e a), s\<lparr>map_byte_offset_count := map_byte_offset_count s + 1\<rparr>)"
proof -
  have place: "DDRMEM_MAP_APPLY (e OR UNIBUS_MAP_BYTE_OFFSET) a = DDRMEM_MAP_APPLY e a"
  proof (rule bit_word_eqI)
    fix n assume "n < LENGTH(32)"
    show "bit (DDRMEM_MAP_APPLY (e OR UNIBUS_MAP_BYTE_OFFSET) a) n = bit (DDRMEM_MAP_APPLY e a) n"
      by (simp only: bit_MAP_APPLY bit_or_iff UNIBUS_MAP_BYTE_OFFSET_def single_bit(2), auto)
  qed
  have "(e OR UNIBUS_MAP_BYTE_OFFSET) AND UNIBUS_MAP_VALID \<noteq> 0"
    using assms(4) by (simp add: bit.conj_disj_distrib2 UNIBUS_MAP_BYTE_OFFSET_def UNIBUS_MAP_VALID_def)
  moreover have "(e OR UNIBUS_MAP_BYTE_OFFSET) AND UNIBUS_MAP_BYTE_OFFSET \<noteq> 0"
    by (simp add: bit.conj_disj_distrib2 UNIBUS_MAP_BYTE_OFFSET_def)
  ultimately show ?thesis
    using assms(1-3) by (simp add: ddrmem_map_def Let_def place)
qed

text \<open>C18.
  A cycle through a valid map register stays inside the board's memory exactly when the
  page frame is below the 8192 pages of that memory. Nothing in the cycle checks it: a
  larger frame reads, and writes, outside the array. The first frame behind it is the map
  itself: a word written through it replaces half of a map register.
\<close>

theorem map_frame_bounds:
  assumes active: "unibus_map_active s \<noteq> 0" and sane: "\<not> array_oob s"
    and a: "DDRMEM_ADDR_IN_SLOT s a 0 \<or> DDRMEM_ADDR_IN_SLOT s a 1"
    and valid: "DDRMEM_MAP_COVERS a" "DDRMEM_MAP_ENTRY s a AND UNIBUS_MAP_VALID \<noteq> 0"
  defines "outside \<equiv> DDRMEM_MAP_ENTRY s a AND UNIBUS_MAP_FRAME \<ge> 0x2000"
    and "reg \<equiv> unat (a AND 0x1FF) div 4"
  shows "array_oob (snd (emulated_addr_read a s)) = outside \<and>
    array_oob (snd (emulated_addr_write_w a w s)) = outside \<and>
    array_oob (snd (emulated_addr_write_b a c s)) = outside \<and>
    (DDRMEM_MAP_ENTRY s a AND UNIBUS_MAP_FRAME = 0x2000 \<longrightarrow>
      unibus_map (snd (emulated_addr_write_w a w s)) =
        (unibus_map s)(reg := set_half_of (bit a 1) w (unibus_map s reg)))"
proof (intro conjI impI)
  have re: "reaches s a = InMemory (DDRMEM_MAP_APPLY (DDRMEM_MAP_ENTRY s a) a)"
    using active a valid by (auto simp: reaches_def map_target_def)
  have "in_ddr (DDRMEM_MAP_APPLY (DDRMEM_MAP_ENTRY s a) a) \<longleftrightarrow> \<not> outside"
    by (simp add: outside_def MAP_APPLY_in_ddr not_le)
  then show "array_oob (snd (emulated_addr_read a s)) = outside" "array_oob (snd (emulated_addr_write_w a w s)) = outside"
    "array_oob (snd (emulated_addr_write_b a c s)) = outside"
    using re sane by (simp_all add: read_oob write_w_oob write_b_oob)
  assume frame: "DDRMEM_MAP_ENTRY s a AND UNIBUS_MAP_FRAME = 0x2000"
  show "unibus_map (snd (emulated_addr_write_w a w s)) = (unibus_map s)(reg := set_half_of (bit a 1) w (unibus_map s reg))"
    unfolding reg_def using a re
    by (rule_tac ddrmem_map_cases[of s a])
      (simp_all add: emulated_addr_write_w_def Let_def split_def DDRMEM_COUNT_WRITE_def reaches_def
        write_behind_memory[OF frame])
qed

theorem map_frame_bounds_witness:
  "array_oob (snd (emulated_addr_read 0x200 (demo_mem\<lparr>unibus_map_active := 1\<rparr>))) \<and>
   unibus_map (snd (emulated_addr_write_w 0x206 5 (demo_mem\<lparr>unibus_map_active := 1\<rparr>))) 1 = 0x00052000"
proof
  show "array_oob (snd (emulated_addr_read 0x200 (demo_mem\<lparr>unibus_map_active := 1\<rparr>)))"
    using map_frame_bounds[of "demo_mem\<lparr>unibus_map_active := 1\<rparr>" "0x200" 0 0]
    by (simp add: demo_simps)
  show "unibus_map (snd (emulated_addr_write_w 0x206 5 (demo_mem\<lparr>unibus_map_active := 1\<rparr>))) 1 = 0x00052000"
    using map_frame_bounds[of "demo_mem\<lparr>unibus_map_active := 1\<rparr>" "0x206" 5 0]
    by (simp add: demo_simps set_half_of_def bit_numeral_rec)
qed

section \<open>Byte cycles\<close>

text \<open>C19.
  At an address that stays inside the memory, two DATOB cycles to the bytes of a word leave
  memory, device registers and configuration as one DATO of the word does, in either order,
  and are answered when it is; they count two writes and raise two events where the DATO
  counts and raises one.
\<close>

theorem byte_writes_are_word_write:
  fixes s :: "'a mailbox_event_deviceregister_t_scheme" and w :: u16
  assumes even: "even (unat a)" and inside: "inside s a"
    and ranges: "\<forall>i < 2. even (unat (memory_start_addr s i)) \<and> even (unat (memory_limit_addr s i))"
      "even (unat (iopage_start_addr s))"
  defines "lo \<equiv> ucast w :: u8" and "hi \<equiv> ucast (drop_bit 8 w) :: u8"
  defines "t \<equiv> snd (emulated_addr_write_w a w s)"
    and "u \<equiv> snd (emulated_addr_write_b (a OR 1) hi (snd (emulated_addr_write_b a lo s)))"
    and "v \<equiv> snd (emulated_addr_write_b a lo (snd (emulated_addr_write_b (a OR 1) hi s)))"
    and "same \<equiv> \<lambda>x y. ddr_words x = ddr_words y \<and> registers x = registers y \<and> same_config x y"
    and "twice \<equiv> \<lambda>x y. (\<forall>i. memory_write_count x i - memory_write_count s i = 2 * (memory_write_count y i - memory_write_count s i)) \<and>
      arm_interrupts x - arm_interrupts s = 2 * (arm_interrupts y - arm_interrupts s)"
    and "answered \<equiv> fst (emulated_addr_write_w a w s)"
  shows "same u t \<and> same v t \<and> twice u t \<and> twice v t \<and>
    fst (emulated_addr_write_b a lo s) = answered \<and> fst (emulated_addr_write_b (a OR 1) hi s) = answered"
proof -
  have even': "even_ranges s" using ranges by (simp add: even_ranges_def)
  have "a AND 1 = 0" "(a OR 1) AND 1 \<noteq> 0"
    using even by (auto simp: and_one_bit bit_0 even_unat_iff bit_or_iff)
  note parity = this
  note r1 = reaches_or1[OF even' even]
  note odd = odd_half[OF even' even]
  have ins: "inside s (a OR 1)" using inside by (simp add: odd)
  note cfg1 = write_b_config[OF inside] and cfg2 = write_b_config[OF ins]
  note re = same_config_reaches[OF cfg1] same_config_reaches[OF cfg2]
  note in2 = same_config_inside[OF cfg1] same_config_inside[OF cfg2]
  note eff = write_w_spec[of w a s] write_b_spec[of a lo s] write_b_spec[of "a OR 1" hi s]
    write_b_spec[of "a OR 1" hi "snd (emulated_addr_write_b a lo s)"]
    write_b_spec[of a lo "snd (emulated_addr_write_b (a OR 1) hi s)"]
  note eff' = eff[unfolded write_effect_def re in2, folded t_def u_def v_def]
  have "ddr_words u = ddr_words t \<and> registers u = registers t \<and> ddr_words v = ddr_words t \<and> registers v = registers t \<and>
    fst (emulated_addr_write_b a lo s) = answered \<and> fst (emulated_addr_write_b (a OR 1) hi s) = answered"
    using eff' parity inside ins unfolding answered_def
    by (cases "reaches s a")
      (simp_all add: r1 or1_half set_both_bytes word_of_bytes lo_def hi_def merge_both_bytes)
  moreover have "same_config u t" "same_config v t"
    using eff' inside ins cfg1[of lo] cfg2[of hi] by (simp_all add: same_config_def)
  moreover have "twice u t" "twice v t"
    by (simp_all add: twice_def u_def v_def t_def write_counts after_write_b[OF inside] after_write_b[OF ins] odd)
  ultimately show ?thesis by (simp add: same_def)
qed

theorem byte_writes_are_word_write_witness:
  "registers (snd (emulated_addr_write_b 0x3E011 (ucast (drop_bit 8 (0xABCD :: u16)))
      (snd (emulated_addr_write_b 0x3E010 (ucast (0xABCD :: u16)) demo_mem)))) =
   registers (snd (emulated_addr_write_w 0x3E010 0xABCD demo_mem))"
proof -
  have "inside demo_mem 0x3E010" by (simp add: inside_def demo_simps)
  then show ?thesis using byte_writes_are_word_write[of "0x3E010" demo_mem "0xABCD"] by auto
qed

section \<open>What bus cycles cannot change\<close>

text \<open>C20.
  As long as every address the board answers from memory lies in the memory - which no bus
  cycle can then change, and which an adapter's map breaks with a frame of 8192 or more -
  whatever bus cycles are performed, the configuration, the map included, the protected bits
  of every device register, and every word that no address of the two ranges reaches - the
  cells behind ROM addresses among them - keep their values.
\<close>

theorem bus_cycles_keep_protected:
  assumes "\<forall>a. inside s a" "\<forall>a phys. reaches s a = InMemory phys \<longrightarrow> unat (phys div 2) \<noteq> i"
  shows "same_config s (fold do_cycle cs s) \<and>
    guarded_part (registers (fold do_cycle cs s) h) = guarded_part (registers s h) \<and>
    ddr_words (fold do_cycle cs s) i = ddr_words s i"
  using assms
proof (induction cs arbitrary: s)
  case (Cons c cs)
  note cfg = do_cycle_config[OF Cons.prems(1), of c]
  have "\<forall>a. inside (do_cycle c s) a" "\<forall>a phys. reaches (do_cycle c s) a = InMemory phys \<longrightarrow> unat (phys div 2) \<noteq> i"
    using Cons.prems same_config_reaches[OF cfg] same_config_inside[OF cfg] by simp_all
  from Cons.IH[OF this] show ?case
    using do_cycle_words[OF Cons.prems] do_cycle_guarded[of c s h] cfg
    by (auto intro: same_config_trans)
qed simp

theorem bus_cycles_keep_protected_witness:
  "ddr_words (fold do_cycle [Dato 0x3E012 5, Datob 0x7FFF 1] demo_mem) 0x1F009 = ddr_words demo_mem 0x1F009"
proof -
  have low: "phys < 0x8000" if "reaches demo_mem a = InMemory phys" for a phys
    using that by (auto simp: demo_simps split: if_splits)
  have "\<forall>a. inside demo_mem a" "\<forall>a phys. reaches demo_mem a = InMemory phys \<longrightarrow> unat (phys div 2) \<noteq> 0x1F009"
    using low by (fastforce simp: inside_def in_ddr_def QUNIBUS_MAX_WORDCOUNT_def word_less_nat_alt unat_div)+
  then show ?thesis
    using bus_cycles_keep_protected[of demo_mem "0x1F009" "[Dato 0x3E012 5, Datob 0x7FFF 1]"] by blast
qed

section \<open>Unanswered cycles and register events\<close>

text \<open>
  A cycle that nothing answers - no such address, a page without a valid map register, a
  write to ROM - changes nothing but the counter of refused pages.
\<close>

theorem unanswered_cycle_changes_nothing:
  "(fst (emulated_addr_read a s) = None \<longrightarrow>
      (\<exists>n. snd (emulated_addr_read a s) = s\<lparr>map_refused_count := n\<rparr>)) \<and>
   (\<not> fst (emulated_addr_write_w a w s) \<longrightarrow>
      (\<exists>n. snd (emulated_addr_write_w a w s) = s\<lparr>map_refused_count := n\<rparr>)) \<and>
   (\<not> fst (emulated_addr_write_b a b s) \<longrightarrow>
      (\<exists>n. snd (emulated_addr_write_b a b s) = s\<lparr>map_refused_count := n\<rparr>))"
proof -
  have same: "\<exists>n. s = s\<lparr>map_refused_count := n\<rparr>" by (rule exI[of _ "map_refused_count s"]) simp
  have refused: "\<exists>n. snd (ddrmem_map a s) = s\<lparr>map_refused_count := n\<rparr>" if "map_target s a = None"
    using that same by (auto simp: ddrmem_map_def map_target_def Let_def split: if_splits)
  have r: "\<exists>n. snd (emulated_addr_read a s) = s\<lparr>map_refused_count := n\<rparr>" if "reaches s a = Nothing"
    using that refused same
    by (auto simp: reaches_def emulated_addr_read_def Let_def split_def split: if_splits option.splits)
  have w: "\<exists>n. snd (emulated_addr_write_w a w s) = s\<lparr>map_refused_count := n\<rparr>"
    if "reaches s a = Nothing \<or> reaches s a = InRom"
    using that refused same
    by (auto simp: reaches_def emulated_addr_write_w_def Let_def split_def split: if_splits option.splits)
  have b: "\<exists>n. snd (emulated_addr_write_b a b s) = s\<lparr>map_refused_count := n\<rparr>"
    if "reaches s a = Nothing \<or> reaches s a = InRom"
    using that refused same
    by (auto simp: reaches_def emulated_addr_write_b_def Let_def split_def split: if_splits option.splits)
  show ?thesis
    using r w b write_w_spec[of w a s] write_b_spec[of a b s]
    by (auto simp: read_spec write_effect_def split: reach.splits)
qed

theorem unanswered_cycle_changes_nothing_witness:
  "\<exists>n. snd (emulated_addr_write_w 0x3E012 7 demo_mem) = demo_mem\<lparr>map_refused_count := n\<rparr>"
  using unanswered_cycle_changes_nothing[where a = "0x3E012" and s = demo_mem and w = 7]
  by (simp add: emulated_addr_write_w_def demo_simps Let_def)

text \<open>
  An access to a device register raises one event for the ARM exactly when the register
  asks for events of that direction; the event carries the cycle, the register's handle,
  the address and the value the register has afterwards, and stays open until the ARM
  counts its acknowledge. No other access raises an event.
\<close>

theorem register_access_event:
  fixes w :: u16 and b :: u8
  assumes reg: "reaches s a = InRegister h" and idle: "EVENT_IS_ACKED (ev_deviceregister s)"
  defines "wants \<equiv> \<lambda>flag. reg_event_flags (registers s h) AND flag \<noteq> 0"
    and "raised \<equiv> \<lambda>cyc t. \<not> EVENT_IS_ACKED (ev_deviceregister t) \<and>
      EVENT_IS_ACKED (EVENT_ACK (ev_deviceregister t)) \<and>
      ev_unibus_control t = cyc \<and> ev_register_handle t = reg_event_register_handle (registers s h) \<and>
      ev_addr t = a \<and> ev_data t = reg_value (registers t h) \<and> arm_interrupts t = Suc (arm_interrupts s)"
    and "quiet \<equiv> \<lambda>t. ev_deviceregister t = ev_deviceregister s \<and> arm_interrupts t = arm_interrupts s"
  defines "rd \<equiv> snd (emulated_addr_read a s)" and "wr \<equiv> snd (emulated_addr_write_w a w s)"
    and "wb \<equiv> snd (emulated_addr_write_b a b s)"
  shows "(if wants IOPAGEREGISTER_EVENT_FLAG_DATI then raised QUNIBUS_CYCLE_DATI rd else quiet rd) \<and>
    (if wants IOPAGEREGISTER_EVENT_FLAG_DATO
     then raised QUNIBUS_CYCLE_DATO wr \<and> raised QUNIBUS_CYCLE_DATOB wb else quiet wr \<and> quiet wb)"
proof -
  have cell: "\<not> (DDRMEM_ADDR_IN_SLOT s a 0 \<or> DDRMEM_ADDR_IN_SLOT s a 1)" "a \<ge> iopage_start_addr s"
    "IOPAGE_REGISTER_ENTRY s a \<noteq> 0" "IOPAGE_REGISTER_ENTRY s a \<noteq> IOPAGE_REGISTER_HANDLE_ROM"
    "unat (IOPAGE_REGISTER_ENTRY s a) = h"
    using reg by (auto simp: reaches_def split: if_splits option.splits)
  show ?thesis
    using cell idle
    by (auto simp: rd_def wr_def wb_def wants_def raised_def quiet_def emulated_addr_read_def emulated_addr_write_w_def
        emulated_addr_write_b_def Let_def split_def DO_EVENT_DEVICEREGISTER_def PRU2ARM_INTERRUPT_def
        EVENT_IS_ACKED_def EVENT_ACK_def EVENT_SIGNAL_def)
qed

theorem register_access_event_witness:
  "\<not> EVENT_IS_ACKED (ev_deviceregister (snd (emulated_addr_read 0x3E010 demo_mem)))"
  using register_access_event[of demo_mem "0x3E010" 1]
  by (simp add: demo_simps EVENT_IS_ACKED_def IOPAGEREGISTER_EVENT_FLAG_DATI_def)

section \<open>Test pattern\<close>

text \<open>
  The fill pattern writes the low sixteen bits of its index to every word of the memory and
  to nothing beyond it, so a cycle to an emulated memory address reads half the address.
\<close>

theorem fill_pattern_contents:
  assumes "s' = ddrmem_fill_pattern s"
  shows "(\<forall>i. ddr_words s' i = (if i < QUNIBUS_MAX_WORDCOUNT then of_nat i else ddr_words s i)) \<and>
    (\<forall>a \<in> card_cells lo hi. card_ok lo hi s \<longrightarrow> fst (emulated_addr_read a s') = Some (ucast (a div 2)))"
proof (intro conjI ballI impI allI)
  fix i
  show "ddr_words s' i = (if i < QUNIBUS_MAX_WORDCOUNT then of_nat i else ddr_words s i)"
    by (simp add: assms ddrmem_fill_pattern_def fill_pattern_loop_eq)
next
  fix a assume a: "a \<in> card_cells lo hi" and "card_ok lo hi s"
  then have "card_ok lo hi s'"
    by (simp add: assms ddrmem_fill_pattern_def card_ok_def)
  then show "fst (emulated_addr_read a s') = Some (ucast (a div 2))"
    using a card_in_ddr[OF a]
    by (simp add: read_spec card_reaches ddr_read_in in_ddr_def assms ddrmem_fill_pattern_def fill_pattern_loop_eq
        unsigned_ucast_eq word_unat_eq_iff unat_of_nat)
qed

theorem fill_pattern_contents_witness:
  "fst (emulated_addr_read 0x246 (ddrmem_fill_pattern demo_mem)) = Some 0x123"
  using fill_pattern_contents[OF refl, of demo_mem 0 "0x8000"]
  by (auto simp: card_cells_def card_ok_def demo_mem_def)

end
