(* ===== verification/PruLatches.thy ===== *)
theory PruLatches
  imports PruMemory
begin

unbundle bit_operations_syntax

text \<open>
  The bus latches (\<open>pru1_u/pru1_buslatches.c\<close>, \<open>pru1_u/pru1_buslatches.h\<close>). Eight 8-bit
  latches drive the UNIBUS lines; reading selects the same eight registers on the input
  side. The firmware keeps a cache \<open>cur_reg_val\<close> of the latches it sets bit-wise and
  none for the four byte latches (address and data).

  What a read returns is the state of the bus, which other cards drive too. It is a
  parameter \<open>bus\<close> of the model: \<open>bus n out r\<close> is what the \<open>n\<close>-th read of the
  machine's life sees in register \<open>r\<close> while the board's own latches hold \<open>out\<close>. So
  the lines may change between any two reads.
\<close>

section \<open>State\<close>

type_synonym bus_lines = "nat \<Rightarrow> (nat \<Rightarrow> u8) \<Rightarrow> nat \<Rightarrow> u8"

record buslatches_t = mailbox_event_deviceregister_t +
  cur_reg_val :: "nat \<Rightarrow> u8"          \<comment> \<open>8 entries\<close>
  latch_out :: "nat \<Rightarrow> u8"            \<comment> \<open>what the 74LS377 latches hold\<close>
  bus_reads :: nat                    \<comment> \<open>ghost: reads of the bus so far\<close>
  address_overlay :: u32

section \<open>Signals\<close>

definition BIT :: "nat \<Rightarrow> u8" where "BIT n = push_bit n 1"

definition PRIORITY_ARBITRATION_BIT_NP :: u8 where "PRIORITY_ARBITRATION_BIT_NP = 0x10"
definition PRIORITY_ARBITRATION_INTR_MASK :: u8 where "PRIORITY_ARBITRATION_INTR_MASK = 0x0F"
definition PRIORITY_ARBITRATION_BIT_MASK :: u8 where "PRIORITY_ARBITRATION_BIT_MASK = 0x1F"

definition BUSLATCHES_REG_IS_BYTE :: "nat \<Rightarrow> bool" where
  "BUSLATCHES_REG_IS_BYTE reg_sel \<longleftrightarrow> reg_sel = 2 \<or> reg_sel = 3 \<or> reg_sel = 5 \<or> reg_sel = 6"

section \<open>Access\<close>

definition buslatches_getbyte :: "bus_lines \<Rightarrow> nat \<Rightarrow> 'a buslatches_t_scheme \<Rightarrow> u8 \<times> 'a buslatches_t_scheme" where
  "buslatches_getbyte bus reg_sel s =
     (bus (bus_reads s) (latch_out s) reg_sel, s\<lparr>bus_reads := Suc (bus_reads s)\<rparr>)"

definition buslatches_setbits_helper :: "u8 \<Rightarrow> nat \<Rightarrow> 'a buslatches_t_scheme \<Rightarrow> 'a buslatches_t_scheme" where
  "buslatches_setbits_helper val reg_sel s =
     s\<lparr>cur_reg_val := (cur_reg_val s)(reg_sel := val), latch_out := (latch_out s)(reg_sel := val)\<rparr>"

definition buslatches_setbits :: "nat \<Rightarrow> u8 \<Rightarrow> u8 \<Rightarrow> 'a buslatches_t_scheme \<Rightarrow> 'a buslatches_t_scheme" where
  "buslatches_setbits reg_sel bitmask val s =
     buslatches_setbits_helper ((cur_reg_val s reg_sel AND NOT bitmask) OR (val AND bitmask)) reg_sel s"

definition buslatches_setbyte :: "nat \<Rightarrow> u8 \<Rightarrow> 'a buslatches_t_scheme \<Rightarrow> 'a buslatches_t_scheme" where
  "buslatches_setbyte reg_sel val s = s\<lparr>latch_out := (latch_out s)(reg_sel := val)\<rparr>"

definition buslatches_reset :: "'a buslatches_t_scheme \<Rightarrow> 'a buslatches_t_scheme" where
  "buslatches_reset s =
    (let s = buslatches_setbits 0 0xFF 0x1F s;
         s = buslatches_setbits 1 0xFF 0x00 s;
         s = buslatches_setbyte 2 0x00 s;
         s = buslatches_setbyte 3 0x00 s;
         s = buslatches_setbits 4 0xFF 0x00 s;
         s = buslatches_setbyte 5 0x00 s;
         s = buslatches_setbyte 6 0x00 s;
         s = buslatches_setbits 7 0xFF 0x00 s
     in s\<lparr>address_overlay := 0\<rparr>)"

text \<open>
  The switch \<open>NO_PHYSICAL_BUS\<close> builds the firmware for a board without a backplane: a
  read returns what was written, through the inverting drivers of latch 0.
\<close>

definition no_physical_bus :: bus_lines where
  "no_physical_bus n out reg_sel = (if reg_sel = 0 then NOT (out reg_sel) else out reg_sel)"

section \<open>Latch exerciser\<close>

text \<open>
  \<open>mailbox.buslatch_exerciser\<close>: eight accesses in one of four write and read patterns.
  \<open>Byte\<close> and \<open>Bits\<close> write, \<open>Get\<close> reads; the argument is the index into the lists.
\<close>

record mailbox_buslatch_exerciser_t =
  ex_pattern :: u8
  ex_addr :: "nat \<Rightarrow> u8"
  ex_writeval :: "nat \<Rightarrow> u8"
  ex_readval :: "nat \<Rightarrow> u8"

datatype exerciser_access = Byte nat | Bits nat | Get nat

definition exerciser_gets :: "exerciser_access list" where
  "exerciser_gets = [Get 0, Get 1, Get 2, Get 3, Get 4, Get 5, Get 6, Get 7]"

definition exerciser_accesses :: "u8 \<Rightarrow> exerciser_access list" where
  "exerciser_accesses pat =
    (if pat mod 4 = 0 then
       [Byte 0, Byte 1, Byte 2, Byte 3, Byte 4, Byte 5, Byte 6, Byte 7] @ exerciser_gets
     else if pat mod 4 = 1 then
       [Bits 0, Bits 1, Bits 2, Bits 3, Bits 4, Bits 5, Bits 6, Bits 7] @ exerciser_gets
     else if pat mod 4 = 2 then
       [Byte 0, Byte 1, Bits 2, Byte 3, Byte 4, Bits 5, Bits 6, Bits 7] @ exerciser_gets
     else
       [Bits 0, Bits 1, Byte 2, Byte 3, Get 0, Bits 4, Get 1, Byte 5, Get 2, Bits 6, Get 3, Byte 7,
        Get 4, Get 5, Get 6, Get 7])"

text \<open>The locals \<open>val0 .. val7\<close> hold the write values until a read overwrites them.\<close>

fun exerciser_run :: "bus_lines \<Rightarrow> exerciser_access list \<Rightarrow> (nat \<Rightarrow> u8) \<Rightarrow> (nat \<Rightarrow> u8) \<Rightarrow>
    'a buslatches_t_scheme \<Rightarrow> (nat \<Rightarrow> u8) \<times> 'a buslatches_t_scheme" where
  "exerciser_run bus [] addr val s = (val, s)"
| "exerciser_run bus (Byte i # xs) addr val s =
     exerciser_run bus xs addr val (buslatches_setbyte (unat (addr i)) (val i) s)"
| "exerciser_run bus (Bits i # xs) addr val s =
     exerciser_run bus xs addr val (buslatches_setbits (unat (addr i)) 0xFF (val i) s)"
| "exerciser_run bus (Get i # xs) addr val s =
     (let (v, s) = buslatches_getbyte bus (unat (addr i)) s in exerciser_run bus xs addr (val(i := v)) s)"

definition buslatches_exerciser :: "bus_lines \<Rightarrow> mailbox_buslatch_exerciser_t \<Rightarrow> 'a buslatches_t_scheme \<Rightarrow>
    mailbox_buslatch_exerciser_t \<times> 'a buslatches_t_scheme" where
  "buslatches_exerciser bus ex s =
    (let (val, s) = exerciser_run bus (exerciser_accesses (ex_pattern ex)) (ex_addr ex) (ex_writeval ex) s
     in (ex\<lparr>ex_readval := val\<rparr>, s))"

end
