(* ===== verification/PruTimeouts.thy ===== *)
theory PruTimeouts
  imports PruLatches
begin

unbundle bit_operations_syntax

text \<open>
  Timeouts (\<open>pru1_u/pru1_timeouts.c\<close>): target values of the single cycle counter of the
  core. The counter runs at 200 MHz, can be cleared only while it is stopped, and stops
  at its maximum; the firmware clears it whenever it starts the first of the timeouts.
\<close>

section \<open>State\<close>

record timeouts_t = buslatches_t +
  timeouts_active :: u8
  timeout_target_cycles :: "nat \<Rightarrow> u32"   \<comment> \<open>\<open>TIMEOUT_COUNT\<close> = 3 entries\<close>
  ctrl_cycle :: u32                       \<comment> \<open>\<open>PRU1_CTRL.CYCLE\<close>\<close>
  ctrl_ctr_en :: bool                     \<comment> \<open>\<open>PRU1_CTRL.CTRL_bit.CTR_EN\<close>\<close>

definition TIMEOUT_COUNT :: nat where "TIMEOUT_COUNT = 3"
definition TIMEOUT_DMA :: nat where "TIMEOUT_DMA = 0"
definition TIMEOUT_SACK :: nat where "TIMEOUT_SACK = 1"
definition TIMEOUT_INTERNAL_CYCLES :: u32 where "TIMEOUT_INTERNAL_CYCLES = 24"
definition MICROSECS :: "u32 \<Rightarrow> u32" where "MICROSECS n = n * 1000 div 5"
definition MILLISECS :: "u32 \<Rightarrow> u32" where "MILLISECS n = n * 1000000 div 5"

text \<open>The hardware: \<open>n\<close> cycles pass.\<close>

definition cycles_pass :: "nat \<Rightarrow> 'a timeouts_t_scheme \<Rightarrow> 'a timeouts_t_scheme" where
  "cycles_pass n s =
     (if ctrl_ctr_en s then s\<lparr>ctrl_cycle := of_nat (min (unat (ctrl_cycle s) + n) 0xFFFFFFFF)\<rparr> else s)"

section \<open>Operations\<close>

definition timeout_set :: "nat \<Rightarrow> u32 \<Rightarrow> 'a timeouts_t_scheme \<Rightarrow> 'a timeouts_t_scheme" where
  "timeout_set t delta_cycles s =
    (let s = (if timeout_target_cycles s t > 0
              then s\<lparr>timeout_target_cycles := (timeout_target_cycles s)(t := 0),
                     timeouts_active := timeouts_active s - 1\<rparr>
              else s);
         s = (if timeouts_active s = 0 then s\<lparr>ctrl_ctr_en := False, ctrl_cycle := 0\<rparr> else s);
         delta_cycles = (if delta_cycles < TIMEOUT_INTERNAL_CYCLES then 0
                         else delta_cycles - TIMEOUT_INTERNAL_CYCLES)
     in s\<lparr>timeout_target_cycles := (timeout_target_cycles s)(t := ctrl_cycle s + delta_cycles),
          ctrl_ctr_en := True,
          timeouts_active := timeouts_active s + 1\<rparr>)"

definition timeout_active :: "nat \<Rightarrow> 'a timeouts_t_scheme \<Rightarrow> bool" where
  "timeout_active t s \<longleftrightarrow> timeout_target_cycles s t > 0"

definition timeout_cleanup :: "nat \<Rightarrow> 'a timeouts_t_scheme \<Rightarrow> 'a timeouts_t_scheme" where
  "timeout_cleanup t s =
     (if timeout_target_cycles s t > 0
      then s\<lparr>timeout_target_cycles := (timeout_target_cycles s)(t := 0),
             timeouts_active := timeouts_active s - 1\<rparr>
      else s)"

definition timeout_reached :: "nat \<Rightarrow> 'a timeouts_t_scheme \<Rightarrow> bool \<times> 'a timeouts_t_scheme" where
  "timeout_reached t s =
     (if ctrl_cycle s < timeout_target_cycles s t then (False, s)
      else if timeout_target_cycles s t = 0 then (True, s)
      else (True, s\<lparr>timeout_target_cycles := (timeout_target_cycles s)(t := 0),
                    timeouts_active := timeouts_active s - 1\<rparr>))"

definition timeout_init :: "'a timeouts_t_scheme \<Rightarrow> 'a timeouts_t_scheme" where
  "timeout_init s = s\<lparr>timeouts_active := 0,
     timeout_target_cycles := (\<lambda>i. if i < TIMEOUT_COUNT then 0 else timeout_target_cycles s i)\<rparr>"

end
