(* ===== verification/PruArbitration.thy ===== *)
theory PruArbitration
  imports PruTimeouts
begin

unbundle bit_operations_syntax

text \<open>
  Priority arbitration (\<open>pru1_u/pru1_statemachine_arbitration.c\<close>): the five request and
  grant signals BR4 to BR7 and NPR as bit masks, the worker of the emulated devices, the
  worker that ignores the protocol, and the arbitrator of an emulated CPU.
\<close>

section \<open>State\<close>

record mailbox_arbitrator_t = timeouts_t +
  ifs_priority_level :: u8
  ifs_intr_arbitration_pending :: u8

record statemachine_arbitration_t = mailbox_arbitrator_t +
  device_request_mask :: u8
  device_request_signalled_mask :: u8
  device_forwarded_grant_mask :: u8
  grant_bbsy_ssyn_wait_grant_mask :: u8
  cpu_request :: u8
  arbitrator_grant_mask :: u8
  granted_intr_level :: u8

definition CPU_PRIORITY_LEVEL_FETCHING :: u8 where "CPU_PRIORITY_LEVEL_FETCHING = 0xFF"
definition ARB_MASTER_SACK_TIMOUT_MS :: u32 where "ARB_MASTER_SACK_TIMOUT_MS = 10"

text \<open>\<open>__lmbd(x, 1)\<close>, the leftmost bit detect instruction: the position of the highest 1, or 32.\<close>

definition lmbd :: "u8 \<Rightarrow> nat" where
  "lmbd x = (case find (bit x) [7, 6, 5, 4, 3, 2, 1, 0] of None \<Rightarrow> 32 | Some i \<Rightarrow> i)"

definition PRIORITY_ARBITRATION_INTR_BIT2IDX :: "u8 \<Rightarrow> nat" where
  "PRIORITY_ARBITRATION_INTR_BIT2IDX grant_mask = lmbd grant_mask"

section \<open>Reset\<close>

definition sm_arb_reset :: "'a statemachine_arbitration_t_scheme \<Rightarrow> 'a statemachine_arbitration_t_scheme" where
  "sm_arb_reset s =
    (let s = buslatches_setbits 1 (PRIORITY_ARBITRATION_BIT_MASK OR BIT 5) 0 s;
         s = s\<lparr>device_request_mask := 0, device_forwarded_grant_mask := 0,
               device_request_signalled_mask := 0, grant_bbsy_ssyn_wait_grant_mask := 0,
               cpu_request := 0, arbitrator_grant_mask := 0\<rparr>
     in timeout_cleanup TIMEOUT_SACK s)"

section \<open>Workers of the emulated devices\<close>

text \<open>The result is the mask of the requests that have been granted the bus.\<close>

definition sm_arb_worker_none :: "u8 \<Rightarrow> 'a statemachine_arbitration_t_scheme \<Rightarrow>
    u8 \<times> 'a statemachine_arbitration_t_scheme" where
  "sm_arb_worker_none grant_mask s =
    (let s = buslatches_setbits 0 PRIORITY_ARBITRATION_BIT_MASK (NOT grant_mask) s in
     if device_request_mask s AND PRIORITY_ARBITRATION_BIT_NP \<noteq> 0
     then (PRIORITY_ARBITRATION_BIT_NP,
           s\<lparr>device_request_mask := device_request_mask s AND NOT PRIORITY_ARBITRATION_BIT_NP\<rparr>)
     else (0, s))"

text \<open>
  The first part of \<open>sm_arb_worker_device\<close>: an access of the emulated CPU goes ahead
  without a grant when the bus is idle. The flag tells whether it did.
\<close>

definition sm_arb_cpu_access :: "bus_lines \<Rightarrow> 'a statemachine_arbitration_t_scheme \<Rightarrow>
    bool \<times> 'a statemachine_arbitration_t_scheme" where
  "sm_arb_cpu_access bus s =
    (if cpu_request s \<noteq> 0 then
       (let (latch1val, s) = buslatches_getbyte bus 1 s;
            granted = (if latch1val AND 0x70 \<noteq> 0 then False
                       else if latch1val AND 0x0F \<noteq> 0 \<and> ifs_intr_arbitration_pending s \<noteq> 0 then False
                       else True)
        in if granted then (True, s\<lparr>cpu_request := 0\<rparr>) else (False, s))
     else (False, s))"

text \<open>State 1 of the worker: wait for a grant and accept it.\<close>

definition sm_arb_wait_grant :: "u8 \<Rightarrow> 'a statemachine_arbitration_t_scheme \<Rightarrow>
    'a statemachine_arbitration_t_scheme" where
  "sm_arb_wait_grant granted_requests_mask s =
    (let device_grant_mask = granted_requests_mask AND device_request_mask s
           AND NOT (device_forwarded_grant_mask s) in
     if device_grant_mask \<noteq> 0 then
       (let s = buslatches_setbits 1
              ((PRIORITY_ARBITRATION_BIT_MASK AND device_request_mask s) OR BIT 5)
              (NOT device_grant_mask OR BIT 5) s
        in s\<lparr>device_request_mask := device_request_mask s AND NOT device_grant_mask,
             grant_bbsy_ssyn_wait_grant_mask := device_grant_mask\<rparr>)
     else s)"

text \<open>State 2: the grant is taken; wait until GRANT, BBSY and SSYN are negated.\<close>

definition sm_arb_wait_bus :: "bus_lines \<Rightarrow> u8 \<Rightarrow> 'a statemachine_arbitration_t_scheme \<Rightarrow>
    u8 \<times> 'a statemachine_arbitration_t_scheme" where
  "sm_arb_wait_bus bus granted_requests_mask s =
    (if granted_requests_mask AND grant_bbsy_ssyn_wait_grant_mask s \<noteq> 0 then (0, s)
     else let (l1, s) = buslatches_getbyte bus 1 s in
     if l1 AND BIT 6 \<noteq> 0 then (0, s)
     else let (l4, s) = buslatches_getbyte bus 4 s in
     if l4 AND BIT 5 \<noteq> 0 then (0, s)
     else (grant_bbsy_ssyn_wait_grant_mask s, s\<lparr>grant_bbsy_ssyn_wait_grant_mask := 0\<rparr>))"

definition sm_arb_worker_device :: "bus_lines \<Rightarrow> u8 \<Rightarrow> 'a statemachine_arbitration_t_scheme \<Rightarrow>
    u8 \<times> 'a statemachine_arbitration_t_scheme" where
  "sm_arb_worker_device bus granted_requests_mask s =
    (let (cpu_granted, s) = sm_arb_cpu_access bus s in
     if cpu_granted then (PRIORITY_ARBITRATION_BIT_NP, s)
     else
       let s = buslatches_setbits 1 PRIORITY_ARBITRATION_BIT_MASK (device_request_mask s) s;
           s = s\<lparr>device_request_signalled_mask := device_request_mask s\<rparr>
       in if grant_bbsy_ssyn_wait_grant_mask s = 0
          then (0, sm_arb_wait_grant granted_requests_mask s)
          else sm_arb_wait_bus bus granted_requests_mask s)"

section \<open>Arbitrator of the emulated CPU\<close>

text \<open>The level of the highest of the requests BR4 to BR7, and the grant line of a level.\<close>

definition requested_intr_level :: "u8 \<Rightarrow> u8" where
  "requested_intr_level intr_request_mask = of_nat (lmbd intr_request_mask) + 4"

definition sm_arb_grant_intr :: "u8 \<Rightarrow> 'a statemachine_arbitration_t_scheme \<Rightarrow>
    'a statemachine_arbitration_t_scheme" where
  "sm_arb_grant_intr intr_request_mask s =
    (if arbitrator_grant_mask s = 0 then
       (let level = requested_intr_level intr_request_mask in
        if level > ifs_priority_level s \<and> level \<noteq> CPU_PRIORITY_LEVEL_FETCHING
        then timeout_set TIMEOUT_SACK (MILLISECS ARB_MASTER_SACK_TIMOUT_MS)
               (s\<lparr>arbitrator_grant_mask := BIT (unat (level - 4)), granted_intr_level := level\<rparr>)
        else s)
     else s)"

text \<open>What the arbitrator does about the sampled lines of latch 1.\<close>

definition sm_arb_arbitrate :: "u8 \<Rightarrow> 'a statemachine_arbitration_t_scheme \<Rightarrow>
    'a statemachine_arbitration_t_scheme" where
  "sm_arb_arbitrate latch1val s =
    (let do_intr_arbitration = ifs_intr_arbitration_pending s \<noteq> 0;
         intr_request_mask = latch1val AND PRIORITY_ARBITRATION_INTR_MASK in
     if latch1val AND BIT 5 \<noteq> 0 then
       timeout_cleanup TIMEOUT_SACK (s\<lparr>arbitrator_grant_mask := 0\<rparr>)
     else if latch1val AND PRIORITY_ARBITRATION_BIT_NP \<noteq> 0 then
       (if arbitrator_grant_mask s = 0
        then timeout_set TIMEOUT_SACK (MILLISECS ARB_MASTER_SACK_TIMOUT_MS)
               (s\<lparr>arbitrator_grant_mask := PRIORITY_ARBITRATION_BIT_NP\<rparr>)
        else s)
     else if do_intr_arbitration \<and> intr_request_mask \<noteq> 0 then
       sm_arb_grant_intr intr_request_mask s
     else if arbitrator_grant_mask s \<noteq> 0 then
       (let (reached, s) = timeout_reached TIMEOUT_SACK s in
        if reached then timeout_cleanup TIMEOUT_SACK (s\<lparr>arbitrator_grant_mask := 0\<rparr>) else s)
     else s)"

definition sm_arb_worker_cpu :: "bus_lines \<Rightarrow> 'a statemachine_arbitration_t_scheme \<Rightarrow>
    u8 \<times> 'a statemachine_arbitration_t_scheme" where
  "sm_arb_worker_cpu bus s =
    (let (latch1val, s) = buslatches_getbyte bus 1 s;
         s = sm_arb_arbitrate latch1val s;
         s = buslatches_setbits 0 PRIORITY_ARBITRATION_BIT_MASK (NOT (arbitrator_grant_mask s)) s;
         s = s\<lparr>ifs_intr_arbitration_pending := 0\<rparr>
     in (arbitrator_grant_mask s, s))"

end
