(* ===== verification/PruMaster.thy ===== *)
theory PruMaster
  imports PruArbitration
begin

unbundle bit_operations_syntax

text \<open>
  The state machines that run while the board is bus master: DMA transfers
  (\<open>pru1_u/pru1_statemachine_dma.c\<close>) and interrupt vectors
  (\<open>pru1_u/pru1_statemachine_intr_master.c\<close>).

  A state function of the firmware returns the next state function or \<open>NULL\<close>. Here it
  returns \<open>(next, s)\<close> with \<open>next = None\<close> for \<open>NULL\<close>; where the code waits in a loop
  inside a state function, the whole result is an option and \<open>None\<close> says that it
  never comes back.
\<close>

section \<open>State\<close>

definition DMA_STATE_READY :: u8 where "DMA_STATE_READY = 0"
definition DMA_STATE_ARBITRATING :: u8 where "DMA_STATE_ARBITRATING = 1"
definition DMA_STATE_RUNNING :: u8 where "DMA_STATE_RUNNING = 2"
definition DMA_STATE_TIMEOUTSTOP :: u8 where "DMA_STATE_TIMEOUTSTOP = 3"
definition DMA_STATE_INITSTOP :: u8 where "DMA_STATE_INITSTOP = 4"
definition DMA_STATE_CANCELED :: u8 where "DMA_STATE_CANCELED = 5"
definition PRU_MAX_DMA_WORDCOUNT :: nat where "PRU_MAX_DMA_WORDCOUNT = 8 * 512"
definition UNIBUS_TIMEOUT_PERIOD_US :: u32 where "UNIBUS_TIMEOUT_PERIOD_US = 20"

record mailbox_dma_t = statemachine_arbitration_t +
  dma_cur_status :: u8
  dma_buscycle :: u8
  dma_wordcount :: u16
  dma_cpu_access :: u8
  dma_cur_addr :: u32
  dma_startaddr :: u32
  dma_words :: "nat \<Rightarrow> u16"             \<comment> \<open>\<open>PRU_MAX_DMA_WORDCOUNT\<close> entries\<close>
  ev_dma :: event_channel

text \<open>\<open>dataptr\<close> points into \<open>mailbox.dma.words\<close>: it is kept as the index.\<close>

record statemachine_dma_t = mailbox_dma_t +
  state_timeout :: bool
  dataptr :: nat
  cur_wordsleft :: u16

record mailbox_intr_t = statemachine_dma_t +
  intr_vector :: "nat \<Rightarrow> u16"           \<comment> \<open>4 entries, BR4 to BR7\<close>
  intr_priority_arbitration_bit :: u8
  intr_iopage_register_value :: u16
  intr_iopage_register_handle :: u8
  ev_intr_master :: "nat \<Rightarrow> event_channel"

record statemachine_intr_master_t = mailbox_intr_t +
  sm_intr_vector :: u16
  sm_intr_level_index :: nat

datatype master_state = Dma_start | Dma_1 | Dma_11 | Dma_21 | Dma_99
  | Intr_start | Intr_1 | Intr_2

section \<open>DMA\<close>

text \<open>\<open>*sm_dma.dataptr\<close>\<close>

definition dataptr_get :: "'a statemachine_dma_t_scheme \<Rightarrow> u16 \<times> 'a statemachine_dma_t_scheme" where
  "dataptr_get s = (if dataptr s < PRU_MAX_DMA_WORDCOUNT then (dma_words s (dataptr s), s)
                    else (0, s\<lparr>array_oob := True\<rparr>))"

definition dataptr_put :: "u16 \<Rightarrow> 'a statemachine_dma_t_scheme \<Rightarrow> 'a statemachine_dma_t_scheme" where
  "dataptr_put w s = (if dataptr s < PRU_MAX_DMA_WORDCOUNT then s\<lparr>dma_words := (dma_words s)(dataptr s := w)\<rparr>
                      else s\<lparr>array_oob := True\<rparr>)"

definition sm_dma_start :: "'a statemachine_dma_t_scheme \<Rightarrow> master_state option \<times> 'a statemachine_dma_t_scheme" where
  "sm_dma_start s =
    (let s = s\<lparr>dma_cur_addr := dma_startaddr s, dataptr := 0, cur_wordsleft := dma_wordcount s,
               dma_cur_status := DMA_STATE_RUNNING\<rparr>
     in (Some Dma_1, buslatches_setbits 1 (BIT 6) (BIT 6) s))"

text \<open>\<open>while (buslatches_getbyte(4) & BIT(5)) ;\<close>\<close>

partial_function (option) wait_ssyn_inactive ::
  "bus_lines \<Rightarrow> 'a buslatches_t_scheme \<Rightarrow> 'a buslatches_t_scheme option" where
  "wait_ssyn_inactive bus s =
    (let (l4, s) = buslatches_getbyte bus 4 s in
     if l4 AND BIT 5 \<noteq> 0 then wait_ssyn_inactive bus s else Some s)"

text \<open>The end of a cycle that was answered by the board itself: SSYN, MSYN and data come and go.\<close>

definition sm_dma_internal_end :: "'a statemachine_dma_t_scheme \<Rightarrow> 'a statemachine_dma_t_scheme" where
  "sm_dma_internal_end s =
    (let s = buslatches_setbits 4 (BIT 5) (BIT 5) s;
         s = buslatches_setbits 4 (BIT 4) 0 s;
         s = buslatches_setbyte 5 0 s;
         s = buslatches_setbyte 6 0 s
     in buslatches_setbits 4 (BIT 5) 0 s)"

text \<open>The DATO and DATOB branch of state 1, from placing the control lines on.\<close>

definition sm_dma_dato :: "bus_lines \<Rightarrow> u32 \<Rightarrow> u8 \<Rightarrow> 'a statemachine_dma_t_scheme \<Rightarrow>
    (master_state option \<times> 'a statemachine_dma_t_scheme) option" where
  "sm_dma_dato bus addr buscycle s =
    (let is_datob = (buscycle = QUNIBUS_CYCLE_DATOB);
         tmpval = ucast (drop_bit 16 addr AND 3) OR (if is_datob then BIT 3 OR BIT 2 else BIT 3);
         s = buslatches_setbits 4 0x3F tmpval s;
         (d, s) = dataptr_get s;
         s = buslatches_setbyte 5 (ucast d) s;
         s = buslatches_setbyte 6 (ucast (drop_bit 8 d)) s
     in case wait_ssyn_inactive bus s of
          None \<Rightarrow> None
        | Some s \<Rightarrow>
           (let s = buslatches_setbits 4 (BIT 4) (BIT 4) s;
                (internal, s) =
                  (if is_datob
                   then emulated_addr_write_b addr (if addr AND 1 \<noteq> 0 then ucast (drop_bit 8 d) else ucast d) s
                   else emulated_addr_write_w addr d s)
            in if internal then Some (Some Dma_99, sm_dma_internal_end s)
               else Some (Some Dma_21, timeout_set TIMEOUT_DMA (MICROSECS UNIBUS_TIMEOUT_PERIOD_US) s)))"

definition sm_dma_dati :: "u32 \<Rightarrow> 'a statemachine_dma_t_scheme \<Rightarrow>
    master_state option \<times> 'a statemachine_dma_t_scheme" where
  "sm_dma_dati addr s =
    (let s = buslatches_setbits 4 0x3F (ucast (drop_bit 16 addr AND 3)) s;
         s = buslatches_setbits 4 (BIT 4) (BIT 4) s
     in case emulated_addr_read addr s of
          (Some d, s) \<Rightarrow>
            (let s = buslatches_setbyte 5 (ucast d) s;
                 s = buslatches_setbyte 6 (ucast (drop_bit 8 d)) s;
                 s = dataptr_put d s
             in (Some Dma_99, sm_dma_internal_end s))
        | (None, s) \<Rightarrow> (Some Dma_11, timeout_set TIMEOUT_DMA (MICROSECS UNIBUS_TIMEOUT_PERIOD_US) s))"

definition sm_dma_state_1 :: "bus_lines \<Rightarrow> 'a statemachine_dma_t_scheme \<Rightarrow>
    (master_state option \<times> 'a statemachine_dma_t_scheme) option" where
  "sm_dma_state_1 bus s =
    (let addr = dma_cur_addr s; buscycle = dma_buscycle s in
     if dma_cur_status s \<noteq> DMA_STATE_RUNNING \<or> dma_wordcount s = 0 then Some (None, s)
     else
       let s = (if cur_wordsleft s = 1 then buslatches_setbits 1 (BIT 5) 0 s else s);
           s = s\<lparr>state_timeout := False\<rparr>;
           addr = addr OR address_overlay s;
           s = buslatches_setbyte 2 (ucast addr) s;
           s = buslatches_setbyte 3 (ucast (drop_bit 8 addr)) s
       in if QUNIBUS_CYCLE_IS_DATO buscycle then sm_dma_dato bus addr buscycle s
          else Some (sm_dma_dati addr s))"

definition sm_dma_state_11 :: "bus_lines \<Rightarrow> 'a statemachine_dma_t_scheme \<Rightarrow>
    master_state option \<times> 'a statemachine_dma_t_scheme" where
  "sm_dma_state_11 bus s =
    (let (t, s) = timeout_reached TIMEOUT_DMA s;
         s = s\<lparr>state_timeout := t\<rparr>;
         (wait, s) = (if t then (False, s)
                      else let (l4, s) = buslatches_getbyte bus 4 s in (l4 AND BIT 5 = 0, s))
     in if wait then (Some Dma_11, s)
        else
          let (l5, s) = buslatches_getbyte bus 5 s;
              (l6, s) = buslatches_getbyte bus 6 s;
              s = dataptr_put (ucast l5 OR push_bit 8 (ucast l6)) s
          in (Some Dma_99, buslatches_setbits 4 (BIT 4) 0 s))"

definition sm_dma_state_21 :: "bus_lines \<Rightarrow> 'a statemachine_dma_t_scheme \<Rightarrow>
    master_state option \<times> 'a statemachine_dma_t_scheme" where
  "sm_dma_state_21 bus s =
    (let (t, s) = timeout_reached TIMEOUT_DMA s;
         s = s\<lparr>state_timeout := t\<rparr>;
         (wait, s) = (if t then (False, s)
                      else let (l4, s) = buslatches_getbyte bus 4 s in (l4 AND BIT 5 = 0, s))
     in if wait then (Some Dma_21, s)
        else
          let s = buslatches_setbits 4 (BIT 4) 0 s;
              s = buslatches_setbyte 5 0 s
          in (Some Dma_99, buslatches_setbyte 6 0 s))"

text \<open>State 99 first decides how the transfer goes on, then continues or ends it.\<close>

definition sm_dma_final_state :: "bus_lines \<Rightarrow> 'a statemachine_dma_t_scheme \<Rightarrow> u8 \<times> 'a statemachine_dma_t_scheme" where
  "sm_dma_final_state bus s =
    (if state_timeout s then (DMA_STATE_TIMEOUTSTOP, buslatches_setbits 1 (BIT 5) 0 s)
     else
       let s = s\<lparr>dataptr := dataptr s + 1, cur_wordsleft := cur_wordsleft s - 1\<rparr> in
       if cur_wordsleft s = 0 then (DMA_STATE_READY, s)
       else let (l7, s) = buslatches_getbyte bus 7 s in
       if l7 AND BIT 3 \<noteq> 0 then (DMA_STATE_INITSTOP, buslatches_setbits 1 (BIT 5) 0 s)
       else (DMA_STATE_RUNNING, s))"

definition sm_dma_state_99 :: "bus_lines \<Rightarrow> 'a statemachine_dma_t_scheme \<Rightarrow>
    master_state option \<times> 'a statemachine_dma_t_scheme" where
  "sm_dma_state_99 bus s =
    (let (final_dma_state, s) = sm_dma_final_state bus s in
     if final_dma_state = DMA_STATE_RUNNING then (Some Dma_1, s\<lparr>dma_cur_addr := dma_cur_addr s + 2\<rparr>)
     else
       let s = buslatches_setbyte 2 0 s;
           s = buslatches_setbyte 3 0 s;
           s = buslatches_setbits 4 0x3F 0 s;
           s = buslatches_setbits 1 (BIT 6) 0 s;
           s = timeout_cleanup TIMEOUT_DMA s;
           s = s\<lparr>dma_cur_status := final_dma_state, ev_dma := EVENT_SIGNAL (ev_dma s)\<rparr>
       in (None, if dma_cpu_access s = 0 then PRU2ARM_INTERRUPT s else s))"

section \<open>Interrupts\<close>

definition sm_intr_master_start :: "'a statemachine_intr_master_t_scheme \<Rightarrow>
    master_state option \<times> 'a statemachine_intr_master_t_scheme" where
  "sm_intr_master_start s = (Some Intr_1, buslatches_setbits 1 (BIT 6) (BIT 6) s)"

definition sm_intr_master_state_1 :: "'a statemachine_intr_master_t_scheme \<Rightarrow>
    master_state option \<times> 'a statemachine_intr_master_t_scheme" where
  "sm_intr_master_state_1 s =
    (let s = buslatches_setbyte 5 (ucast (sm_intr_vector s)) s;
         s = buslatches_setbyte 6 (ucast (drop_bit 8 (sm_intr_vector s))) s;
         s = buslatches_setbits 7 (BIT 0) (BIT 0) s;
         s = buslatches_setbits 1 (BIT 5) 0 s
     in (Some Intr_2, s))"

definition sm_intr_master_release :: "'a statemachine_intr_master_t_scheme \<Rightarrow> 'a statemachine_intr_master_t_scheme" where
  "sm_intr_master_release s =
    (let s = buslatches_setbyte 5 0 s;
         s = buslatches_setbyte 6 0 s;
         s = buslatches_setbits 7 (BIT 0) 0 s
     in buslatches_setbits 1 (BIT 6) 0 s)"

definition sm_intr_master_state_2 :: "bus_lines \<Rightarrow> 'a statemachine_intr_master_t_scheme \<Rightarrow>
    master_state option \<times> 'a statemachine_intr_master_t_scheme" where
  "sm_intr_master_state_2 bus s =
    (let (l4, s) = buslatches_getbyte bus 4 s in
     if l4 AND BIT 5 = 0 then
       (let (l7, s) = buslatches_getbyte bus 7 s in
        if l7 AND BIT 3 \<noteq> 0 then (None, sm_intr_master_release s)
        else (Some Intr_2, s))
     else if \<not> EVENT_IS_ACKED (ev_intr_master s (sm_intr_level_index s)) then (Some Intr_2, s)
     else
       let s = sm_intr_master_release s;
           s = s\<lparr>ev_intr_master := (ev_intr_master s)(sm_intr_level_index s :=
                   EVENT_SIGNAL (ev_intr_master s (sm_intr_level_index s)))\<rparr>
       in (None, PRU2ARM_INTERRUPT s))"

section \<open>One step of the master\<close>

text \<open>\<open>sm_data_master_state = sm_data_master_state()\<close> of the main loop.\<close>

fun master_step :: "bus_lines \<Rightarrow> master_state \<Rightarrow> 'a statemachine_intr_master_t_scheme \<Rightarrow>
    (master_state option \<times> 'a statemachine_intr_master_t_scheme) option" where
  "master_step bus Dma_start s = Some (sm_dma_start s)"
| "master_step bus Dma_1 s = sm_dma_state_1 bus s"
| "master_step bus Dma_11 s = Some (sm_dma_state_11 bus s)"
| "master_step bus Dma_21 s = Some (sm_dma_state_21 bus s)"
| "master_step bus Dma_99 s = Some (sm_dma_state_99 bus s)"
| "master_step bus Intr_start s = Some (sm_intr_master_start s)"
| "master_step bus Intr_1 s = Some (sm_intr_master_state_1 s)"
| "master_step bus Intr_2 s = Some (sm_intr_master_state_2 bus s)"

end
