(* ===== verification/PruSlave.thy ===== *)
theory PruSlave
  imports PruMaster
begin

unbundle bit_operations_syntax

text \<open>
  The parts that watch the bus: data cycles of other masters
  (\<open>pru1_u/pru1_statemachine_data_slave.c\<close>), interrupt vectors sent to an emulated CPU
  (\<open>pru1_u/pru1_statemachine_intr_slave.c\<close>), and the INIT, ACLO and DCLO lines
  (\<open>pru1_u/pru1_utils.c\<close>).
\<close>

section \<open>State\<close>

record mailbox_events_t = statemachine_intr_master_t +
  ev_intr_slave :: event_channel
  ev_intr_slave_vector :: u16
  ev_intr_slave_level :: u8
  ev_init :: event_channel
  ev_power :: event_channel
  power_signals_prev :: u8
  power_signals_cur :: u8
  init_signal_cur :: u8

datatype slave_state = Slave_start | Slave_10 | Slave_20 | Slave_99
datatype intr_slave_state = Intr_slave_start | Intr_slave_1

section \<open>Data cycles of other masters\<close>

text \<open>The address on the latches, decoded as the code does.\<close>

definition slave_addr :: "u8 \<Rightarrow> u8 \<Rightarrow> u8 \<Rightarrow> u32" where
  "slave_addr latch2val latch3val latch4val =
     ucast latch2val OR push_bit 8 (ucast latch3val) OR push_bit 16 (ucast (latch4val AND 3))"

text \<open>The \<open>switch (control)\<close>: the answer to an address the board may emulate.\<close>

definition sm_data_slave_cycle :: "bus_lines \<Rightarrow> u32 \<Rightarrow> u8 \<Rightarrow> 'a mailbox_events_t_scheme \<Rightarrow>
    slave_state option \<times> 'a mailbox_events_t_scheme" where
  "sm_data_slave_cycle bus addr control s =
    (if control = QUNIBUS_CYCLE_DATI \<or> control = QUNIBUS_CYCLE_DATIP then
       (case emulated_addr_read addr s of
          (Some d, s) \<Rightarrow>
            (let s = buslatches_setbyte 5 (ucast d) s;
                 s = buslatches_setbyte 6 (ucast (drop_bit 8 d)) s
             in (Some Slave_20, buslatches_setbits 4 (BIT 5) (BIT 5) s))
        | (None, s) \<Rightarrow> (None, s))
     else if control = QUNIBUS_CYCLE_DATO then
       (let (l5, s) = buslatches_getbyte bus 5 s;
            (l6, s) = buslatches_getbyte bus 6 s;
            (ok, s) = emulated_addr_write_w addr (ucast l5 OR push_bit 8 (ucast l6)) s
        in if ok then (Some Slave_10, buslatches_setbits 4 (BIT 5) (BIT 5) s) else (None, s))
     else if control = QUNIBUS_CYCLE_DATOB then
       (let (b, s) = (if addr AND 1 \<noteq> 0 then buslatches_getbyte bus 6 s else buslatches_getbyte bus 5 s);
            (ok, s) = emulated_addr_write_b addr b s
        in if ok then (Some Slave_10, buslatches_setbits 4 (BIT 5) (BIT 5) s) else (None, s))
     else (None, s))"

definition sm_data_slave_start :: "bus_lines \<Rightarrow> 'a mailbox_events_t_scheme \<Rightarrow>
    slave_state option \<times> 'a mailbox_events_t_scheme" where
  "sm_data_slave_start bus s =
    (let (latch4val, s) = buslatches_getbyte bus 4 s in
     if latch4val AND BIT 4 = 0 then (None, s)
     else if latch4val AND BIT 5 \<noteq> 0 then (None, s)
     else
       let (latch2val, s) = buslatches_getbyte bus 2 s;
           (latch3val, s) = buslatches_getbyte bus 3 s
       in sm_data_slave_cycle bus (slave_addr latch2val latch3val latch4val)
            (drop_bit 2 latch4val AND 3) s)"

definition sm_data_slave_state_10 :: "bus_lines \<Rightarrow> 'a mailbox_events_t_scheme \<Rightarrow>
    slave_state option \<times> 'a mailbox_events_t_scheme" where
  "sm_data_slave_state_10 bus s =
    (let (l4, s) = buslatches_getbyte bus 4 s in
     if l4 AND BIT 4 \<noteq> 0 then (Some Slave_10, s)
     else if \<not> EVENT_IS_ACKED (ev_deviceregister s) then (Some Slave_10, s)
     else (None, buslatches_setbits 4 (BIT 5) 0 s))"

definition sm_data_slave_state_20 :: "bus_lines \<Rightarrow> 'a mailbox_events_t_scheme \<Rightarrow>
    slave_state option \<times> 'a mailbox_events_t_scheme" where
  "sm_data_slave_state_20 bus s =
    (let (l4, s) = buslatches_getbyte bus 4 s in
     if l4 AND BIT 4 \<noteq> 0 then (Some Slave_20, s)
     else if \<not> EVENT_IS_ACKED (ev_deviceregister s) then (Some Slave_20, s)
     else
       let s = buslatches_setbyte 5 0 s;
           s = buslatches_setbyte 6 0 s
       in (None, buslatches_setbits 4 (BIT 5) 0 s))"

text \<open>\<open>sm_data_slave_state_99\<close> is in the source, but no state leads to it.\<close>

definition sm_data_slave_state_99 :: "bus_lines \<Rightarrow> 'a mailbox_events_t_scheme \<Rightarrow>
    slave_state option \<times> 'a mailbox_events_t_scheme" where
  "sm_data_slave_state_99 bus s =
    (let (l4, s) = buslatches_getbyte bus 4 s in
     if l4 AND BIT 4 \<noteq> 0 then (Some Slave_99, s) else (None, s))"

fun slave_step :: "bus_lines \<Rightarrow> slave_state \<Rightarrow> 'a mailbox_events_t_scheme \<Rightarrow>
    slave_state option \<times> 'a mailbox_events_t_scheme" where
  "slave_step bus Slave_start s = sm_data_slave_start bus s"
| "slave_step bus Slave_10 s = sm_data_slave_state_10 bus s"
| "slave_step bus Slave_20 s = sm_data_slave_state_20 bus s"
| "slave_step bus Slave_99 s = sm_data_slave_state_99 bus s"

section \<open>Interrupts to the emulated CPU\<close>

definition sm_intr_slave_start :: "bus_lines \<Rightarrow> 'a mailbox_events_t_scheme \<Rightarrow>
    intr_slave_state option \<times> 'a mailbox_events_t_scheme" where
  "sm_intr_slave_start bus s =
    (let (l7, s) = buslatches_getbyte bus 7 s in
     if l7 AND BIT 0 = 0 then (None, s)
     else
       let (latch5val, s) = buslatches_getbyte bus 5 s;
           (latch6val, s) = buslatches_getbyte bus 6 s;
           s = buslatches_setbits 4 (BIT 5) (BIT 5) s;
           s = s\<lparr>ifs_priority_level := CPU_PRIORITY_LEVEL_FETCHING,
                 ev_intr_slave_vector := push_bit 8 (ucast latch6val) OR ucast latch5val,
                 ev_intr_slave_level := granted_intr_level s,
                 ev_intr_slave := EVENT_SIGNAL (ev_intr_slave s)\<rparr>
       in (Some Intr_slave_1, PRU2ARM_INTERRUPT s))"

definition sm_intr_slave_state_1 :: "bus_lines \<Rightarrow> 'a mailbox_events_t_scheme \<Rightarrow>
    intr_slave_state option \<times> 'a mailbox_events_t_scheme" where
  "sm_intr_slave_state_1 bus s =
    (if \<not> EVENT_IS_ACKED (ev_intr_slave s) then (Some Intr_slave_1, s)
     else let (l7, s) = buslatches_getbyte bus 7 s in
     if l7 AND BIT 0 \<noteq> 0 then (Some Intr_slave_1, s)
     else (None, buslatches_setbits 4 (BIT 5) 0 s))"

fun intr_slave_step :: "bus_lines \<Rightarrow> intr_slave_state \<Rightarrow> 'a mailbox_events_t_scheme \<Rightarrow>
    intr_slave_state option \<times> 'a mailbox_events_t_scheme" where
  "intr_slave_step bus Intr_slave_start s = sm_intr_slave_start bus s"
| "intr_slave_step bus Intr_slave_1 s = sm_intr_slave_state_1 bus s"

section \<open>INIT, ACLO and DCLO\<close>

definition INITIALIZATIONSIGNAL_INIT :: u8 where "INITIALIZATIONSIGNAL_INIT = BIT 3"
definition INITIALIZATIONSIGNAL_ACLO :: u8 where "INITIALIZATIONSIGNAL_ACLO = BIT 4"
definition INITIALIZATIONSIGNAL_DCLO :: u8 where "INITIALIZATIONSIGNAL_DCLO = BIT 5"

text \<open>INIT voids the requests and a grant that still waits for the bus.\<close>

definition init_voids_requests :: "'a mailbox_events_t_scheme \<Rightarrow> 'a mailbox_events_t_scheme" where
  "init_voids_requests s =
    (let s = s\<lparr>device_request_mask := 0\<rparr> in
     if grant_bbsy_ssyn_wait_grant_mask s \<noteq> 0
     then buslatches_setbits 1 (BIT 5) 0 (s\<lparr>grant_bbsy_ssyn_wait_grant_mask := 0\<rparr>)
     else s)"

definition power_event :: "u8 \<Rightarrow> 'a mailbox_events_t_scheme \<Rightarrow> 'a mailbox_events_t_scheme" where
  "power_event bussignals_cur s =
    (let powersignals_prev = power_signals_cur s;
         power_mask = INITIALIZATIONSIGNAL_DCLO OR INITIALIZATIONSIGNAL_ACLO in
     if (powersignals_prev XOR bussignals_cur) AND power_mask \<noteq> 0
     then PRU2ARM_INTERRUPT (s\<lparr>power_signals_prev := powersignals_prev,
            power_signals_cur := bussignals_cur AND power_mask, ev_power := EVENT_SIGNAL (ev_power s)\<rparr>)
     else s)"

definition init_event :: "u8 \<Rightarrow> 'a mailbox_events_t_scheme \<Rightarrow> 'a mailbox_events_t_scheme" where
  "init_event bussignals_cur s =
    (let initsignal_prev = init_signal_cur s in
     if (initsignal_prev XOR bussignals_cur) AND INITIALIZATIONSIGNAL_INIT \<noteq> 0
     then (let s = (if initsignal_prev = 0 then iopageregisters_reset_values s else s)
           in PRU2ARM_INTERRUPT (s\<lparr>init_signal_cur := bussignals_cur AND INITIALIZATIONSIGNAL_INIT,
                ev_init := EVENT_SIGNAL (ev_init s)\<rparr>))
     else s)"

definition do_event_initializationsignals :: "bus_lines \<Rightarrow> 'a mailbox_events_t_scheme \<Rightarrow> 'a mailbox_events_t_scheme" where
  "do_event_initializationsignals bus s =
    (let (l7, s) = buslatches_getbyte bus 7 s;
         bussignals_cur = l7 AND 0x38;
         s = (if bussignals_cur AND INITIALIZATIONSIGNAL_INIT \<noteq> 0 then init_voids_requests s else s);
         s = power_event bussignals_cur s
     in init_event bussignals_cur s)"

end
