(* ===== verification/PruMain.thy ===== *)
theory PruMain
  imports PruSlave
begin

unbundle bit_operations_syntax

text \<open>
  The main loop of the UNIBUS firmware (\<open>pru1_u/pru1_main_unibus.c\<close>): one pass watches
  the bus and arbitrates, or runs one step of the bus master, then serves the interrupt
  slave and one command of the ARM.
\<close>

section \<open>State\<close>

datatype arb_worker = Arb_worker_none | Arb_worker_device

text \<open>
  The union at the end of the mailbox is three double words: \<open>buslatch\<close> has them as
  \<open>addr\<close>, \<open>bitmask\<close> and \<open>val\<close>, \<open>initializationsignal\<close> has \<open>id\<close> and \<open>val\<close> in the halves of
  the first, which is also \<open>param\<close>.
\<close>

record pru = mailbox_events_t +
  arm2pru_req :: u32
  mb_address_overlay :: u32
  mb_union :: "nat \<Rightarrow> u32"
  diag_magic :: u32
  diag_loop_passes :: u32
  diag_arbitration_passes :: u32
  diag_master_passes :: u32
  sm_device_arb_worker :: arb_worker
  sm_data_slave_state :: "slave_state option"
  sm_data_master_state :: "master_state option"
  sm_intr_slave_state :: "intr_slave_state option"
  emulate_cpu :: bool
  halted :: bool                       \<comment> \<open>\<open>__halt()\<close> was reached\<close>

definition MAILBOX_DIAG_MAGIC :: u32 where "MAILBOX_DIAG_MAGIC = 0x50444941"

definition MAILBOX_DIAG_RESET :: "'a pru_scheme \<Rightarrow> 'a pru_scheme" where
  "MAILBOX_DIAG_RESET s = s\<lparr>diag_loop_passes := 0, diag_arbitration_passes := 0, diag_master_passes := 0,
     diag_magic := MAILBOX_DIAG_MAGIC\<rparr>"

definition initsig_id :: "'a pru_scheme \<Rightarrow> u16" where "initsig_id s = ucast (mb_union s 0)"
definition initsig_val :: "'a pru_scheme \<Rightarrow> u16" where "initsig_val s = ucast (drop_bit 16 (mb_union s 0))"

section \<open>Commands of the ARM (\<open>shared/mailbox.h\<close>)\<close>

definition ARM2PRU_NONE :: u8 where "ARM2PRU_NONE = 0"
definition ARM2PRU_NOP :: u8 where "ARM2PRU_NOP = 1"
definition ARM2PRU_HALT :: u8 where "ARM2PRU_HALT = 2"
definition ARM2PRU_BUSLATCH_SET :: u8 where "ARM2PRU_BUSLATCH_SET = 5"
definition ARM2PRU_BUSLATCH_GET :: u8 where "ARM2PRU_BUSLATCH_GET = 6"
definition ARM2PRU_INITALIZATIONSIGNAL_SET :: u8 where "ARM2PRU_INITALIZATIONSIGNAL_SET = 9"
definition ARM2PRU_ADDRESS_OVERLAY :: u8 where "ARM2PRU_ADDRESS_OVERLAY = 10"
definition ARM2PRU_ARB_MODE_NONE :: u8 where "ARM2PRU_ARB_MODE_NONE = 11"
definition ARM2PRU_ARB_MODE_CLIENT :: u8 where "ARM2PRU_ARB_MODE_CLIENT = 12"
definition ARM2PRU_DMA :: u8 where "ARM2PRU_DMA = 13"
definition ARM2PRU_INTR :: u8 where "ARM2PRU_INTR = 14"
definition ARM2PRU_INTR_CANCEL :: u8 where "ARM2PRU_INTR_CANCEL = 15"
definition ARM2PRU_CPU_ENABLE :: u8 where "ARM2PRU_CPU_ENABLE = 16"
definition ARM2PRU_ARB_GRANT_INTR_REQUESTS :: u8 where "ARM2PRU_ARB_GRANT_INTR_REQUESTS = 19"
definition ARM2PRU_DMA_CANCEL :: u8 where "ARM2PRU_DMA_CANCEL = 21"

definition cmd_dma :: "'a pru_scheme \<Rightarrow> 'a pru_scheme" where
  "cmd_dma s =
    (let s = (if dma_cpu_access s \<noteq> 0 then s\<lparr>cpu_request := 1\<rparr>
              else s\<lparr>device_request_mask := device_request_mask s OR PRIORITY_ARBITRATION_BIT_NP\<rparr>)
     in s\<lparr>dma_cur_status := DMA_STATE_ARBITRATING\<rparr>)"

definition cmd_dma_cancel :: "'a pru_scheme \<Rightarrow> 'a pru_scheme" where
  "cmd_dma_cancel s =
    (if sm_data_master_state s = None \<and> dma_cur_status s = DMA_STATE_ARBITRATING then
       (let s = (if dma_cpu_access s \<noteq> 0 then s\<lparr>cpu_request := 0\<rparr>
                 else
                   let s = s\<lparr>device_request_mask := device_request_mask s AND NOT PRIORITY_ARBITRATION_BIT_NP\<rparr> in
                   if grant_bbsy_ssyn_wait_grant_mask s AND PRIORITY_ARBITRATION_BIT_NP \<noteq> 0
                   then buslatches_setbits 1 (BIT 5) 0 (s\<lparr>grant_bbsy_ssyn_wait_grant_mask := 0\<rparr>)
                   else s)
        in s\<lparr>dma_cur_status := DMA_STATE_CANCELED\<rparr>)
     else s)"

definition cmd_intr :: "'a pru_scheme \<Rightarrow> 'a pru_scheme" where
  "cmd_intr s =
    (let s = s\<lparr>device_request_mask := device_request_mask s OR intr_priority_arbitration_bit s\<rparr>;
         h = unat (intr_iopage_register_handle s) in
     if h = 0 then s
     else if h < MAX_IOPAGE_REGISTER_COUNT
     then s\<lparr>registers := (registers s)(h := (registers s h)\<lparr>reg_value := intr_iopage_register_value s\<rparr>)\<rparr>
     else s\<lparr>array_oob := True\<rparr>)"

definition cmd_intr_cancel :: "'a pru_scheme \<Rightarrow> 'a pru_scheme" where
  "cmd_intr_cancel s =
     s\<lparr>device_request_mask := device_request_mask s AND NOT (intr_priority_arbitration_bit s)\<rparr>"

definition cmd_initializationsignal_set :: "'a pru_scheme \<Rightarrow> 'a pru_scheme" where
  "cmd_initializationsignal_set s =
    (if initsig_id s = ucast INITIALIZATIONSIGNAL_ACLO
     then buslatches_setbits 7 (BIT 4) (if initsig_val s \<noteq> 0 then BIT 4 else 0) s
     else if initsig_id s = ucast INITIALIZATIONSIGNAL_DCLO
     then buslatches_setbits 7 (BIT 5) (if initsig_val s \<noteq> 0 then BIT 5 else 0) s
     else if initsig_id s = ucast INITIALIZATIONSIGNAL_INIT
     then buslatches_setbits 7 (BIT 3) (if initsig_val s \<noteq> 0 then BIT 3 else 0) s
     else s)"

text \<open>\<open>emulate_cpu\<close> is a C \<open>bool\<close>: it compares as 0 or 1 with the whole word \<open>param\<close>.\<close>

definition cmd_cpu_enable :: "'a pru_scheme \<Rightarrow> 'a pru_scheme" where
  "cmd_cpu_enable s =
    (if of_bool (emulate_cpu s) \<noteq> mb_union s 0
     then sm_arb_reset (s\<lparr>emulate_cpu := (mb_union s 0 \<noteq> 0)\<rparr>) else s)"

definition cmd_address_overlay :: "'a pru_scheme \<Rightarrow> 'a pru_scheme" where
  "cmd_address_overlay s =
    (let s = s\<lparr>address_overlay := mb_address_overlay s\<rparr>;
         s = buslatches_setbyte 2 (ucast (address_overlay s)) s;
         s = buslatches_setbyte 3 (ucast (drop_bit 8 (address_overlay s))) s
     in buslatches_setbits 4 0x03 (ucast (drop_bit 16 (address_overlay s) AND 3)) s)"

definition cmd_buslatch_get :: "bus_lines \<Rightarrow> 'a pru_scheme \<Rightarrow> 'a pru_scheme" where
  "cmd_buslatch_get bus s =
    (let (v, s) = buslatches_getbyte bus (unat (mb_union s 0 AND 7)) s
     in s\<lparr>mb_union := (mb_union s)(2 := ucast v)\<rparr>)"

definition cmd_buslatch_set :: "bus_lines \<Rightarrow> 'a pru_scheme \<Rightarrow> 'a pru_scheme" where
  "cmd_buslatch_set bus s =
     cmd_buslatch_get bus
       (buslatches_setbits (unat (mb_union s 0 AND 7)) (ucast (mb_union s 1)) (ucast (mb_union s 2)) s)"

text \<open>
  The request is cached in eight bits. A request the switch does not know stays in the
  mailbox; \<open>ARM2PRU_NONE\<close> is no request.
\<close>

definition arm2pru_command :: "bus_lines \<Rightarrow> 'a pru_scheme \<Rightarrow> 'a pru_scheme option" where
  "arm2pru_command bus s =
    (let req = ucast (arm2pru_req s); arb_mode = (\<lambda>w s. s\<lparr>sm_device_arb_worker := w\<rparr>) in
     if req = ARM2PRU_NOP then Some s
     else if req = ARM2PRU_ARB_MODE_NONE then Some (arb_mode Arb_worker_none s)
     else if req = ARM2PRU_ARB_MODE_CLIENT then Some (arb_mode Arb_worker_device s)
     else if req = ARM2PRU_DMA then Some (cmd_dma s)
     else if req = ARM2PRU_DMA_CANCEL then Some (cmd_dma_cancel s)
     else if req = ARM2PRU_INTR then Some (cmd_intr s)
     else if req = ARM2PRU_INTR_CANCEL then Some (cmd_intr_cancel s)
     else if req = ARM2PRU_ARB_GRANT_INTR_REQUESTS
     then Some (if emulate_cpu s then s\<lparr>ifs_intr_arbitration_pending := 1\<rparr> else s)
     else if req = ARM2PRU_INITALIZATIONSIGNAL_SET then Some (cmd_initializationsignal_set s)
     else if req = ARM2PRU_CPU_ENABLE then Some (cmd_cpu_enable s)
     else if req = ARM2PRU_ADDRESS_OVERLAY then Some (cmd_address_overlay s)
     else if req = ARM2PRU_BUSLATCH_SET then Some (cmd_buslatch_set bus s)
     else if req = ARM2PRU_BUSLATCH_GET then Some (cmd_buslatch_get bus s)
     else if req = ARM2PRU_HALT then Some (s\<lparr>halted := True\<rparr>)
     else None)"

definition process_arm2pru :: "bus_lines \<Rightarrow> 'a pru_scheme \<Rightarrow> 'a pru_scheme" where
  "process_arm2pru bus s =
    (case arm2pru_command bus s of
       None \<Rightarrow> s
     | Some s \<Rightarrow> s\<lparr>arm2pru_req := ucast ARM2PRU_NONE\<rparr>)"

section \<open>The passes of the main loop\<close>

text \<open>
  The slave loop: steps follow each other until the cycle has ended or a register
  access waits for the ARM. It may wait for MSYN as long as a bus master likes.
\<close>

partial_function (option) data_slave_loop :: "bus_lines \<Rightarrow> slave_state \<Rightarrow> 'a mailbox_events_t_scheme \<Rightarrow>
    (slave_state option \<times> 'a mailbox_events_t_scheme) option" where
  "data_slave_loop bus st s =
    (case slave_step bus st s of (next_st, s) \<Rightarrow>
      (case next_st of
         None \<Rightarrow> Some (None, s)
       | Some st \<Rightarrow> if EVENT_IS_ACKED (ev_deviceregister s) then data_slave_loop bus st s
                   else Some (Some st, s)))"

definition slave_pass :: "bus_lines \<Rightarrow> 'a pru_scheme \<Rightarrow> 'a pru_scheme option" where
  "slave_pass bus s =
    map_option (\<lambda>(st, s). s\<lparr>sm_data_slave_state := st\<rparr>)
      (data_slave_loop bus (case sm_data_slave_state s of None \<Rightarrow> Slave_start | Some st \<Rightarrow> st) s)"

text \<open>Grants of a physical CPU: those not asked for are passed on, and stay passed.\<close>

definition forward_grants :: "bus_lines \<Rightarrow> 'a pru_scheme \<Rightarrow> u8 \<times> 'a pru_scheme" where
  "forward_grants bus s =
    (let (l0, s) = buslatches_getbyte bus 0 s;
         cpu_grant_mask = l0 AND PRIORITY_ARBITRATION_BIT_MASK;
         s = s\<lparr>device_forwarded_grant_mask := cpu_grant_mask
               AND (NOT (device_request_signalled_mask s) OR device_forwarded_grant_mask s)\<rparr>
     in (cpu_grant_mask,
         buslatches_setbits 0 PRIORITY_ARBITRATION_BIT_MASK (NOT (device_forwarded_grant_mask s)) s))"

definition device_worker :: "bus_lines \<Rightarrow> u8 \<Rightarrow> 'a pru_scheme \<Rightarrow> u8 \<times> 'a pru_scheme" where
  "device_worker bus grants s =
    (case sm_device_arb_worker s of
       Arb_worker_none \<Rightarrow> sm_arb_worker_none grants s
     | Arb_worker_device \<Rightarrow> sm_arb_worker_device bus grants s)"

text \<open>What a granted request starts.\<close>

definition start_master :: "u8 \<Rightarrow> 'a pru_scheme \<Rightarrow> 'a pru_scheme" where
  "start_master granted_request s =
    (if granted_request AND PRIORITY_ARBITRATION_BIT_NP \<noteq> 0
     then s\<lparr>sm_data_master_state := Some Dma_start\<rparr>
     else if granted_request AND PRIORITY_ARBITRATION_INTR_MASK \<noteq> 0 then
       (let idx = PRIORITY_ARBITRATION_INTR_BIT2IDX granted_request;
            s = (if idx < 4 then s else s\<lparr>array_oob := True\<rparr>)
        in s\<lparr>sm_intr_vector := intr_vector s idx, sm_intr_level_index := idx,
             sm_data_master_state := Some Intr_start\<rparr>)
     else s)"

definition arbitration_pass :: "bus_lines \<Rightarrow> 'a pru_scheme \<Rightarrow> 'a pru_scheme" where
  "arbitration_pass bus s =
    (let (cpu_grant_mask, s) = (if \<not> emulate_cpu s then forward_grants bus s else (0, s)) in
     if EVENT_IS_ACKED (ev_deviceregister s) then
       (let s = s\<lparr>diag_arbitration_passes := diag_arbitration_passes s + 1\<rparr>;
            (cpu_grant_mask, s) = (if emulate_cpu s then sm_arb_worker_cpu bus s else (cpu_grant_mask, s));
            (granted_request, s) = device_worker bus cpu_grant_mask s
        in start_master granted_request s)
     else s)"

definition bus_pass :: "bus_lines \<Rightarrow> 'a pru_scheme \<Rightarrow> 'a pru_scheme option" where
  "bus_pass bus s =
    (case sm_data_master_state s of
       None \<Rightarrow>
         map_option (\<lambda>s. arbitration_pass bus (do_event_initializationsignals bus s)) (slave_pass bus s)
     | Some st \<Rightarrow>
         map_option (\<lambda>(st, s). s\<lparr>sm_data_master_state := st\<rparr>)
           (master_step bus st (s\<lparr>diag_master_passes := diag_master_passes s + 1\<rparr>)))"

definition intr_slave_pass :: "bus_lines \<Rightarrow> 'a pru_scheme \<Rightarrow> 'a pru_scheme" where
  "intr_slave_pass bus s =
    (if emulate_cpu s then
       (let (st, s) = intr_slave_step bus
              (case sm_intr_slave_state s of None \<Rightarrow> Intr_slave_start | Some st \<Rightarrow> st) s
        in s\<lparr>sm_intr_slave_state := st\<rparr>)
     else s)"

text \<open>One pass. \<open>None\<close>: the pass waits on the bus forever. A halted core does nothing.\<close>

definition main_pass :: "bus_lines \<Rightarrow> 'a pru_scheme \<Rightarrow> 'a pru_scheme option" where
  "main_pass bus s =
    (if halted s then Some s
     else map_option (\<lambda>s. process_arm2pru bus (intr_slave_pass bus s))
       (bus_pass bus (s\<lparr>diag_loop_passes := diag_loop_passes s + 1\<rparr>)))"

text \<open>What \<open>main\<close> does before the loop.\<close>

definition main_init :: "'a pru_scheme \<Rightarrow> 'a pru_scheme" where
  "main_init s =
    (let s = s\<lparr>sm_device_arb_worker := Arb_worker_device, sm_data_slave_state := None,
               sm_data_master_state := None, sm_intr_slave_state := None, emulate_cpu := False,
               halted := False\<rparr>;
         s = timeout_init s;
         s = iopageregisters_init s;
         s = buslatches_reset s;
         s = sm_arb_reset s
     in MAILBOX_DIAG_RESET s)"

end
