(* ===== verification/PruBus_Lemmas.thy ===== *)
theory PruBus_Lemmas
  imports PruMain
begin

unbundle bit_operations_syntax

text \<open>
  Facts on the latches and the timers, shared by the proofs on the state machines: the
  bits an access leaves in the latches, and when a timer counts as reached.
\<close>

section \<open>Single bits\<close>

lemma bit_BIT [simp]: "bit (BIT k) n \<longleftrightarrow> n = k \<and> k < 8"
  by (auto simp: BIT_def bit_simps)

lemma and_BIT: "x AND BIT k \<noteq> 0 \<longleftrightarrow> bit x k" "x AND BIT k = 0 \<longleftrightarrow> \<not> bit x k"
  by (simp_all add: BIT_def and_exp_eq_0_iff_not_bit)

section \<open>Latches\<close>

lemma setbits_cur [simp]:
  "cur_reg_val (buslatches_setbits r m v s) = (cur_reg_val s)(r := merge_bits (cur_reg_val s r) v m)"
  "latch_out (buslatches_setbits r m v s) = (latch_out s)(r := merge_bits (cur_reg_val s r) v m)"
  by (simp_all add: buslatches_setbits_def buslatches_setbits_helper_def merge_bits_def)

lemma setbyte_out [simp]:
  "cur_reg_val (buslatches_setbyte r v s) = cur_reg_val s"
  "latch_out (buslatches_setbyte r v s) = (latch_out s)(r := v)"
  by (simp_all add: buslatches_setbyte_def)

text \<open>The latch operations leave every other part of the state alone.\<close>

lemma setbits_update:
  "buslatches_setbits r m v s = s\<lparr>cur_reg_val := (cur_reg_val s)(r := merge_bits (cur_reg_val s r) v m),
     latch_out := (latch_out s)(r := merge_bits (cur_reg_val s r) v m)\<rparr>"
  by (simp add: buslatches_setbits_def buslatches_setbits_helper_def merge_bits_def)

section \<open>Timers\<close>

lemma timeout_set_fields [simp]:
  "timeout_target_cycles (timeout_set t d s) i = (if i = t then
     (if timeouts_active (timeout_cleanup t s) = 0 then 0 else ctrl_cycle s) +
       (if d < TIMEOUT_INTERNAL_CYCLES then 0 else d - TIMEOUT_INTERNAL_CYCLES)
     else timeout_target_cycles s i)"
  "ctrl_cycle (timeout_set t d s) = (if timeouts_active (timeout_cleanup t s) = 0 then 0 else ctrl_cycle s)"
  "ctrl_ctr_en (timeout_set t d s)"
  "timeouts_active (timeout_set t d s) = timeouts_active (timeout_cleanup t s) + 1"
  by (simp_all add: timeout_set_def timeout_cleanup_def Let_def)

lemma cycles_pass_fields [simp]:
  "timeout_target_cycles (cycles_pass n s) = timeout_target_cycles s"
  "timeouts_active (cycles_pass n s) = timeouts_active s"
  "ctrl_ctr_en (cycles_pass n s) = ctrl_ctr_en s"
  "ctrl_ctr_en s \<Longrightarrow> unat (ctrl_cycle (cycles_pass n s)) = min (unat (ctrl_cycle s) + n) 0xFFFFFFFF"
  by (simp_all add: cycles_pass_def unat_of_nat take_bit_nat_eq_self min_def)

lemma timeout_reached_fst: "fst (timeout_reached t s) \<longleftrightarrow> timeout_target_cycles s t \<le> ctrl_cycle s"
  by (auto simp: timeout_reached_def not_less)

lemma timer_fires:
  assumes "TIMEOUT_INTERNAL_CYCLES < d" and room: "unat (ctrl_cycle s) + unat d < 2 ^ 32"
  shows "fst (timeout_reached t (cycles_pass n (timeout_set t d s))) \<longleftrightarrow> unat d - 24 \<le> n"
proof -
  let ?s = "timeout_set t d s"
  let ?base = "if timeouts_active (timeout_cleanup t s) = 0 then 0 else ctrl_cycle s"
  have sub: "unat (d - TIMEOUT_INTERNAL_CYCLES) = unat d - 24" "24 < unat d"
    using assms(1) by (auto simp: TIMEOUT_INTERNAL_CYCLES_def unat_sub_if' word_less_nat_alt word_le_nat_alt)
  have "unat ?base + unat (d - TIMEOUT_INTERNAL_CYCLES) < 2 ^ LENGTH(32)"
    unfolding sub(1) using sub(2) room by auto
  then have "unat (?base + (d - TIMEOUT_INTERNAL_CYCLES)) = unat ?base + (unat d - 24)"
    unfolding sub(1)[symmetric] by (rule unat_add_lem[THEN iffD1])
  then have target: "unat (timeout_target_cycles (cycles_pass n ?s) t) = unat ?base + (unat d - 24)"
    using assms(1) sub(1) by (simp add: not_less split: if_splits)
  have cycle: "unat (ctrl_cycle (cycles_pass n ?s)) = min (unat ?base + n) 0xFFFFFFFF"
    by simp
  have arith: "B + (D - 24) \<le> min (B + n) 0xFFFFFFFF \<longleftrightarrow> D - 24 \<le> n"
    if "B + D < 2 ^ 32" "24 < D" for B D :: nat
  proof -
    obtain e where e: "D = 24 + e" using \<open>24 < D\<close> by (auto simp: less_iff_Suc_add)
    have "B + e \<le> 0xFFFFFFFF" using that(1) e by simp
    then show ?thesis unfolding e by simp
  qed
  have "unat ?base + unat d < 2 ^ 32" using room by auto
  then show ?thesis
    unfolding timeout_reached_fst word_le_nat_alt target cycle using sub(2) by (rule arith)
qed

text \<open>
  The bookkeeping: \<open>timeouts_active\<close> is the number of timers with a target, and the
  counter runs while there is one.
\<close>

definition timers_ok :: "'a timeouts_t_scheme \<Rightarrow> bool" where
  "timers_ok s \<longleftrightarrow> unat (timeouts_active s) = card {i. i < TIMEOUT_COUNT \<and> timeout_active i s} \<and>
     (\<forall>i < TIMEOUT_COUNT. timeout_active i s \<longrightarrow> ctrl_ctr_en s)"

lemma active_set_card: "card {i. i < TIMEOUT_COUNT \<and> P i} \<le> 3"
proof -
  have "card {i. i < TIMEOUT_COUNT \<and> P i} \<le> card {..<TIMEOUT_COUNT}"
    by (rule card_mono) auto
  then show ?thesis by (simp add: TIMEOUT_COUNT_def)
qed

lemma timers_ok_cleanup:
  assumes ok: "timers_ok s" and t: "t < TIMEOUT_COUNT"
  shows "timers_ok (timeout_cleanup t s)" "\<not> timeout_active t (timeout_cleanup t s)"
proof -
  show "\<not> timeout_active t (timeout_cleanup t s)"
    by (simp add: timeout_active_def timeout_cleanup_def)
  show "timers_ok (timeout_cleanup t s)"
  proof (cases "timeout_active t s")
    case False
    then show ?thesis using ok by (simp add: timeout_active_def timeout_cleanup_def)
  next
    case True
    let ?A = "{i. i < TIMEOUT_COUNT \<and> timeout_active i s}"
    have A: "{i. i < TIMEOUT_COUNT \<and> timeout_active i (timeout_cleanup t s)} = ?A - {t}"
      using True by (auto simp: timeout_active_def timeout_cleanup_def)
    have "finite ?A" "t \<in> ?A" using True t by auto
    then have "card (?A - {t}) = card ?A - 1" "card ?A > 0"
      by (simp_all add: card_gt_0_iff) blast
    moreover have "timeouts_active (timeout_cleanup t s) = timeouts_active s - 1"
      using True by (simp add: timeout_active_def timeout_cleanup_def)
    moreover have "unat (timeouts_active s - 1) = unat (timeouts_active s) - 1"
    proof (rule unat_minus_one)
      have "unat (timeouts_active s) = card ?A" using ok by (simp add: timers_ok_def)
      then show "timeouts_active s \<noteq> 0" using \<open>card ?A > 0\<close> by (metis less_irrefl unat_0)
    qed
    ultimately show ?thesis
      using ok A True
      by (auto simp: timers_ok_def timeout_active_def timeout_cleanup_def)
  qed
qed

lemma timers_ok_set:
  assumes ok: "timers_ok s" and t: "t < TIMEOUT_COUNT"
    and d: "TIMEOUT_INTERNAL_CYCLES < d" "unat (ctrl_cycle s) + unat d < 2 ^ 32"
  shows "timers_ok (timeout_set t d s)" "timeout_active t (timeout_set t d s)"
proof -
  let ?c = "timeout_cleanup t s"
  let ?base = "if timeouts_active ?c = 0 then 0 else ctrl_cycle s"
  have sub: "unat (d - TIMEOUT_INTERNAL_CYCLES) = unat d - 24" "24 < unat d"
    using d(1) by (auto simp: TIMEOUT_INTERNAL_CYCLES_def unat_sub_if' word_less_nat_alt word_le_nat_alt)
  have "unat ?base + unat (d - TIMEOUT_INTERNAL_CYCLES) < 2 ^ LENGTH(32)"
    unfolding sub(1) using sub(2) d(2) by auto
  then have "unat (?base + (d - TIMEOUT_INTERNAL_CYCLES)) = unat ?base + (unat d - 24)"
    unfolding sub(1)[symmetric] by (rule unat_add_lem[THEN iffD1])
  then have "unat (timeout_target_cycles (timeout_set t d s) t) = unat ?base + (unat d - 24)"
    using d(1) sub(1) by (simp add: not_less split: if_splits)
  then have target: "timeout_target_cycles (timeout_set t d s) t \<noteq> 0"
    using sub(2) by (metis add_is_0 diff_is_0_eq not_less unat_0)
  then show act: "timeout_active t (timeout_set t d s)"
    by (simp only: timeout_active_def word_gt_0 not_False_eq_True)
  let ?A = "{i. i < TIMEOUT_COUNT \<and> timeout_active i ?c}"
  have "{i. i < TIMEOUT_COUNT \<and> timeout_active i (timeout_set t d s)} = insert t ?A"
    using act t by (auto simp: timeout_active_def timeout_cleanup_def split: if_splits)
  moreover have "t \<notin> ?A" using timers_ok_cleanup(2)[OF ok t] by simp
  moreover have "unat (timeouts_active ?c) = card ?A"
    using timers_ok_cleanup(1)[OF ok t] by (simp add: timers_ok_def)
  moreover have "unat (timeouts_active ?c + 1) = unat (timeouts_active ?c) + 1"
    using active_set_card[of "\<lambda>i. timeout_active i ?c"] calculation(3) by (simp add: unat_word_ariths)
  ultimately show "timers_ok (timeout_set t d s)"
    by (simp add: timers_ok_def)
qed

lemma timers_ok_reached:
  assumes "timers_ok s" "t < TIMEOUT_COUNT"
  shows "timers_ok (snd (timeout_reached t s))"
proof -
  have "snd (timeout_reached t s) = s \<or> snd (timeout_reached t s) = timeout_cleanup t s"
    by (auto simp: timeout_reached_def timeout_cleanup_def word_gt_0)
  then show ?thesis using assms timers_ok_cleanup(1) by metis
qed

lemma timers_ok_pass: "timers_ok s \<Longrightarrow> timers_ok (cycles_pass n s)"
  by (simp add: timers_ok_def timeout_active_def)

lemma timers_ok_init: "timers_ok (timeout_init s)"
  by (auto simp: timers_ok_def timeout_init_def timeout_active_def)

text \<open>The operations of the firmware on the timers, in any order and with time passing.\<close>

datatype timer_op = Set nat u32 | Cleanup nat | Reached nat | Elapse nat

fun timer_apply :: "timer_op \<Rightarrow> 'a timeouts_t_scheme \<Rightarrow> 'a timeouts_t_scheme" where
  "timer_apply (Set t d) s = timeout_set t d s"
| "timer_apply (Cleanup t) s = timeout_cleanup t s"
| "timer_apply (Reached t) s = snd (timeout_reached t s)"
| "timer_apply (Elapse n) s = cycles_pass n s"

text \<open>Delays above the overhead, and no counter overflow while a timer runs.\<close>

fun timer_legal :: "timer_op \<Rightarrow> 'a timeouts_t_scheme \<Rightarrow> bool" where
  "timer_legal (Set t d) s \<longleftrightarrow> t < TIMEOUT_COUNT \<and> TIMEOUT_INTERNAL_CYCLES < d \<and>
     unat (ctrl_cycle s) + unat d < 2 ^ 32"
| "timer_legal (Cleanup t) s \<longleftrightarrow> t < TIMEOUT_COUNT"
| "timer_legal (Reached t) s \<longleftrightarrow> t < TIMEOUT_COUNT"
| "timer_legal (Elapse n) s \<longleftrightarrow> True"

fun timer_run :: "timer_op list \<Rightarrow> 'a timeouts_t_scheme \<Rightarrow> 'a timeouts_t_scheme" where
  "timer_run [] s = s"
| "timer_run (op # ops) s = timer_run ops (timer_apply op s)"

fun timer_run_legal :: "timer_op list \<Rightarrow> 'a timeouts_t_scheme \<Rightarrow> bool" where
  "timer_run_legal [] s \<longleftrightarrow> True"
| "timer_run_legal (op # ops) s \<longleftrightarrow> timer_legal op s \<and> timer_run_legal ops (timer_apply op s)"

lemma timers_ok_apply: "timers_ok s \<Longrightarrow> timer_legal op s \<Longrightarrow> timers_ok (timer_apply op s)"
  by (cases op) (simp_all add: timers_ok_set timers_ok_cleanup timers_ok_reached timers_ok_pass)

lemma timers_ok_run: "timers_ok s \<Longrightarrow> timer_run_legal ops s \<Longrightarrow> timers_ok (timer_run ops s)"
  by (induction ops arbitrary: s) (auto simp: timers_ok_apply)

end
