(* ===== verification/PruArb_Lemmas.thy ===== *)
theory PruArb_Lemmas
  imports PruBus_Lemmas
begin

unbundle bit_operations_syntax

text \<open>
  Facts on the arbitration workers: the highest request, the fields each worker changes,
  and the bits of the request and grant lines.
\<close>

section \<open>The highest request\<close>

text \<open>The number of the highest of the request lines BR4 to BR7 among the lines of latch 1.\<close>

definition top_request :: "u8 \<Rightarrow> nat" where
  "top_request l = (if bit l 3 then 3 else if bit l 2 then 2 else if bit l 1 then 1 else 0)"

definition any_request :: "u8 \<Rightarrow> bool" where
  "any_request l \<longleftrightarrow> bit l 0 \<or> bit l 1 \<or> bit l 2 \<or> bit l 3"

lemma intr_mask_bits: "bit (l AND PRIORITY_ARBITRATION_INTR_MASK) n \<longleftrightarrow> n < 4 \<and> bit l n"
proof -
  have m: "PRIORITY_ARBITRATION_INTR_MASK = mask 4"
    by (simp add: PRIORITY_ARBITRATION_INTR_MASK_def mask_eq_exp_minus_1)
  show ?thesis unfolding m bit_and_iff bit_mask_iff by (auto dest: bit_imp_le_length)
qed

lemma intr_mask_nonzero: "l AND PRIORITY_ARBITRATION_INTR_MASK \<noteq> 0 \<longleftrightarrow> any_request l"
  unfolding word8_eq_iff intr_mask_bits by (auto simp: any_request_def)

lemma lmbd_intr_mask: "any_request l \<Longrightarrow> lmbd (l AND PRIORITY_ARBITRATION_INTR_MASK) = top_request l"
  by (auto simp: lmbd_def intr_mask_bits any_request_def top_request_def)

lemma requested_level:
  assumes "any_request l"
  shows "requested_intr_level (l AND PRIORITY_ARBITRATION_INTR_MASK) = of_nat (top_request l + 4)"
    "unat (requested_intr_level (l AND PRIORITY_ARBITRATION_INTR_MASK)) = top_request l + 4"
    "requested_intr_level (l AND PRIORITY_ARBITRATION_INTR_MASK) \<noteq> CPU_PRIORITY_LEVEL_FETCHING"
    "requested_intr_level (l AND PRIORITY_ARBITRATION_INTR_MASK) - 4 = of_nat (top_request l)"
  by (simp_all add: requested_intr_level_def lmbd_intr_mask assms top_request_def CPU_PRIORITY_LEVEL_FETCHING_def)

lemma top_request_lt: "top_request l < 4"
  by (simp add: top_request_def)

lemma NP_bit: "PRIORITY_ARBITRATION_BIT_NP = BIT 4"
  by (simp add: PRIORITY_ARBITRATION_BIT_NP_def BIT_def)

lemma and_NP: "x AND PRIORITY_ARBITRATION_BIT_NP \<noteq> 0 \<longleftrightarrow> bit x 4" "x AND PRIORITY_ARBITRATION_BIT_NP = 0 \<longleftrightarrow> \<not> bit x 4"
  by (simp_all add: NP_bit and_BIT)

lemma bit_mask_lines [simp]: "bit PRIORITY_ARBITRATION_BIT_MASK n \<longleftrightarrow> n < 5"
proof -
  have m: "PRIORITY_ARBITRATION_BIT_MASK = mask 5"
    by (simp add: PRIORITY_ARBITRATION_BIT_MASK_def mask_eq_exp_minus_1)
  show ?thesis unfolding m bit_mask_iff by auto
qed

section \<open>The arbitrator\<close>

text \<open>The specification of \<open>sm_arb_arbitrate\<close>: the grant after one look at the lines.\<close>

definition next_grant :: "u8 \<Rightarrow> 'a statemachine_arbitration_t_scheme \<Rightarrow> u8" where
  "next_grant l s =
     (if bit l 5 then 0
      else if arbitrator_grant_mask s \<noteq> 0 then
        (if \<not> bit l 4 \<and> \<not> (ifs_intr_arbitration_pending s \<noteq> 0 \<and> any_request l) \<and>
            timeout_target_cycles s TIMEOUT_SACK \<le> ctrl_cycle s then 0 else arbitrator_grant_mask s)
      else if bit l 4 then BIT 4
      else if ifs_intr_arbitration_pending s \<noteq> 0 \<and> any_request l \<and>
          unat (ifs_priority_level s) < top_request l + 4 then BIT (top_request l)
      else 0)"

lemma timer_arb_fields [simp]:
  "arbitrator_grant_mask (timeout_set t d s) = arbitrator_grant_mask s"
  "arbitrator_grant_mask (timeout_cleanup t s) = arbitrator_grant_mask s"
  "arbitrator_grant_mask (snd (timeout_reached t s)) = arbitrator_grant_mask s"
  "ifs_priority_level (timeout_set t d s) = ifs_priority_level s"
  "ifs_priority_level (timeout_cleanup t s) = ifs_priority_level s"
  "ifs_priority_level (snd (timeout_reached t s)) = ifs_priority_level s"
  by (simp_all add: timeout_set_def timeout_cleanup_def timeout_reached_def Let_def)

lemma arbitrate_grant: "arbitrator_grant_mask (sm_arb_arbitrate l s) = next_grant l s"
proof -
  have "unat (of_nat (top_request l) :: u8) = top_request l"
    using top_request_lt[of l] by (simp add: unat_of_nat take_bit_nat_eq_self)
  then show ?thesis
    by (simp add: sm_arb_arbitrate_def next_grant_def Let_def and_BIT and_NP intr_mask_nonzero sm_arb_grant_intr_def
        requested_level(2-4) split_def timeout_reached_fst word_less_nat_alt NP_bit)
qed

lemma worker_cpu_grant:
  "fst (sm_arb_worker_cpu bus s) = next_grant (bus (bus_reads s) (latch_out s) 1) s"
  "arbitrator_grant_mask (snd (sm_arb_worker_cpu bus s)) = next_grant (bus (bus_reads s) (latch_out s) 1) s"
proof -
  have "next_grant l (s\<lparr>bus_reads := n\<rparr>) = next_grant l s" for l n
    by (simp add: next_grant_def)
  then show "fst (sm_arb_worker_cpu bus s) = next_grant (bus (bus_reads s) (latch_out s) 1) s"
    "arbitrator_grant_mask (snd (sm_arb_worker_cpu bus s)) = next_grant (bus (bus_reads s) (latch_out s) 1) s"
    by (simp_all add: sm_arb_worker_cpu_def buslatches_getbyte_def setbits_update arbitrate_grant Let_def)
qed

lemma worker_cpu_fields:
  "ifs_priority_level (snd (sm_arb_worker_cpu bus s)) = ifs_priority_level s"
  "ifs_intr_arbitration_pending (snd (sm_arb_worker_cpu bus s)) = 0"
  by (simp_all add: sm_arb_worker_cpu_def buslatches_getbyte_def setbits_update sm_arb_arbitrate_def
      sm_arb_grant_intr_def Let_def split_def)

text \<open>The arbitrator's own line drivers: latch 0, inverted.\<close>

lemma worker_cpu_lines:
  assumes "n < 5"
  shows "bit (latch_out (snd (sm_arb_worker_cpu bus s)) 0) n \<longleftrightarrow> \<not> bit (fst (sm_arb_worker_cpu bus s)) n"
  using assms by (simp add: sm_arb_worker_cpu_def buslatches_getbyte_def setbits_update bit_merge_bits bit_not_iff Let_def)

section \<open>The worker of the devices\<close>

lemma worker_device_idle:
  fixes g :: u8
  assumes "cpu_request s = 0" "grant_bbsy_ssyn_wait_grant_mask s = 0"
  defines "m \<equiv> g AND device_request_mask s AND NOT (device_forwarded_grant_mask s)"
  shows "fst (sm_arb_worker_device bus g s) = 0"
    "grant_bbsy_ssyn_wait_grant_mask (snd (sm_arb_worker_device bus g s)) = m"
    "device_request_mask (snd (sm_arb_worker_device bus g s)) = device_request_mask s AND NOT m"
    "device_forwarded_grant_mask (snd (sm_arb_worker_device bus g s)) = device_forwarded_grant_mask s"
    "latch_out (snd (sm_arb_worker_device bus g s)) 0 = latch_out s 0"
    "n < 5 \<Longrightarrow> bit (latch_out (snd (sm_arb_worker_device bus g s)) 1) n \<longleftrightarrow> bit (device_request_mask s AND NOT m) n"
    "bit (latch_out (snd (sm_arb_worker_device bus g s)) 1) 5 \<longleftrightarrow> m \<noteq> 0 \<or> bit (cur_reg_val s 1) 5"
  using assms(1,2)
  by (auto simp: sm_arb_worker_device_def sm_arb_cpu_access_def sm_arb_wait_grant_def setbits_update Let_def m_def[symmetric]
      bit_merge_bits bit_and_iff bit_or_iff bit_not_iff)

lemma worker_device_waiting:
  assumes "cpu_request s = 0" "grant_bbsy_ssyn_wait_grant_mask s \<noteq> 0"
    and "fst (sm_arb_worker_device bus g s) \<noteq> 0"
  shows "g AND grant_bbsy_ssyn_wait_grant_mask s = 0"
    "fst (sm_arb_worker_device bus g s) = grant_bbsy_ssyn_wait_grant_mask s"
    "\<exists>out. \<not> bit (bus (bus_reads s) out 1) 6 \<and> \<not> bit (bus (Suc (bus_reads s)) out 4) 5"
  using assms
  by (auto simp: sm_arb_worker_device_def sm_arb_cpu_access_def sm_arb_wait_bus_def setbits_update
      buslatches_getbyte_def Let_def and_BIT split: if_splits)

end
