(* ===== verification/PruFrames.thy ===== *)
theory PruFrames
  imports PruArb_Lemmas PruMemory_Lemmas
begin

unbundle bit_operations_syntax

text \<open>
  Which part of the firmware's state an operation may change. Every component's record
  extends the records below it, so the operations on the emulated memory leave the whole
  extension above it - latches, timers, requests, state machines - as it was.
\<close>

section \<open>Operations on the emulated memory\<close>

lemma map_more: "mailbox_event_deviceregister_t.more (snd (ddrmem_map a s)) = mailbox_event_deviceregister_t.more s"
  by (simp add: ddrmem_map_def Let_def)

lemma read_more [simp]:
  "mailbox_event_deviceregister_t.more (snd (emulated_addr_read a s)) = mailbox_event_deviceregister_t.more s"
  by (simp add: emulated_addr_read_def Let_def split_def DDRMEM_COUNT_READ_def DDRMEM_MEMGET_W_def map_more
      DO_EVENT_DEVICEREGISTER_def PRU2ARM_INTERRUPT_def split: option.split)

lemma write_w_more [simp]:
  "mailbox_event_deviceregister_t.more (snd (emulated_addr_write_w a w s)) = mailbox_event_deviceregister_t.more s"
  by (simp add: emulated_addr_write_w_def Let_def split_def DDRMEM_COUNT_WRITE_def DDRMEM_MEMSET_W_def ddrmem_set_word_def map_more
      DO_EVENT_DEVICEREGISTER_def PRU2ARM_INTERRUPT_def split: option.split)

lemma write_b_more [simp]:
  "mailbox_event_deviceregister_t.more (snd (emulated_addr_write_b a b s)) = mailbox_event_deviceregister_t.more s"
  by (simp add: emulated_addr_write_b_def Let_def split_def DDRMEM_COUNT_WRITE_def DDRMEM_MEMSET_B_def ddrmem_set_word_def map_more
      DO_EVENT_DEVICEREGISTER_def PRU2ARM_INTERRUPT_def split: option.split)

lemma reset_values_more [simp]:
  "mailbox_event_deviceregister_t.more (iopageregisters_reset_values s) = mailbox_event_deviceregister_t.more s"
proof -
  have "mailbox_event_deviceregister_t.more (fold (\<lambda>i s. s\<lparr>registers := (registers s)(i :=
      (registers s i)\<lparr>reg_value := reg_reset_value (registers s i)\<rparr>)\<rparr>) is s) = mailbox_event_deviceregister_t.more s" for "is"
    by (induction "is" arbitrary: s) simp_all
  then show ?thesis by (simp add: iopageregisters_reset_values_def)
qed

text \<open>What equal extensions mean for the components.\<close>

lemma latch_frame:
  fixes s t :: "'a buslatches_t_scheme"
  assumes "mailbox_event_deviceregister_t.more t = mailbox_event_deviceregister_t.more s"
  shows "cur_reg_val t = cur_reg_val s" "latch_out t = latch_out s" "bus_reads t = bus_reads s"
    "address_overlay t = address_overlay s"
  using assms by (cases s, cases t, simp)+

lemma timer_frame:
  fixes s t :: "'a timeouts_t_scheme"
  assumes "mailbox_event_deviceregister_t.more t = mailbox_event_deviceregister_t.more s"
  shows "timeouts_active t = timeouts_active s" "timeout_target_cycles t = timeout_target_cycles s"
    "ctrl_cycle t = ctrl_cycle s" "ctrl_ctr_en t = ctrl_ctr_en s"
  using assms by (cases s, cases t, simp)+

lemma arb_frame:
  fixes s t :: "'a statemachine_arbitration_t_scheme"
  assumes "mailbox_event_deviceregister_t.more t = mailbox_event_deviceregister_t.more s"
  shows "ifs_priority_level t = ifs_priority_level s" "arbitrator_grant_mask t = arbitrator_grant_mask s"
    "grant_bbsy_ssyn_wait_grant_mask t = grant_bbsy_ssyn_wait_grant_mask s"
    "device_request_mask t = device_request_mask s" "cpu_request t = cpu_request s"
    "granted_intr_level t = granted_intr_level s"
  using assms by (cases s, cases t, simp)+

lemma dma_frame:
  fixes s t :: "'a statemachine_dma_t_scheme"
  assumes "mailbox_event_deviceregister_t.more t = mailbox_event_deviceregister_t.more s"
  shows "dma_cur_status t = dma_cur_status s" "dma_buscycle t = dma_buscycle s" "dma_wordcount t = dma_wordcount s"
    "dma_cpu_access t = dma_cpu_access s" "dma_cur_addr t = dma_cur_addr s" "dma_startaddr t = dma_startaddr s"
    "dma_words t = dma_words s" "ev_dma t = ev_dma s" "dataptr t = dataptr s" "cur_wordsleft t = cur_wordsleft s"
    "state_timeout t = state_timeout s"
  using assms by (cases s, cases t, simp)+

lemma slave_frame:
  fixes s t :: "'a mailbox_events_t_scheme"
  assumes "mailbox_event_deviceregister_t.more t = mailbox_event_deviceregister_t.more s"
  shows "ev_intr_slave t = ev_intr_slave s" "sm_intr_vector t = sm_intr_vector s" "init_signal_cur t = init_signal_cur s"
    "power_signals_cur t = power_signals_cur s" "sm_intr_level_index t = sm_intr_level_index s"
    "ev_intr_master t = ev_intr_master s"
  using assms by (cases s, cases t, simp)+

lemma main_frame:
  fixes s t :: "'a pru_scheme"
  assumes "mailbox_event_deviceregister_t.more t = mailbox_event_deviceregister_t.more s"
  shows "emulate_cpu t = emulate_cpu s" "sm_data_master_state t = sm_data_master_state s"
    "sm_data_slave_state t = sm_data_slave_state s" "sm_intr_slave_state t = sm_intr_slave_state s"
    "arm2pru_req t = arm2pru_req s" "mb_union t = mb_union s" "halted t = halted s"
    "sm_device_arb_worker t = sm_device_arb_worker s"
    "diag_loop_passes t = diag_loop_passes s" "diag_arbitration_passes t = diag_arbitration_passes s"
    "diag_master_passes t = diag_master_passes s"
  using assms by (cases s, cases t, simp)+

lemmas read_frame [simp] = latch_frame[OF read_more] timer_frame[OF read_more] arb_frame[OF read_more]
  dma_frame[OF read_more] slave_frame[OF read_more] main_frame[OF read_more]
lemmas write_w_frame [simp] = latch_frame[OF write_w_more] timer_frame[OF write_w_more] arb_frame[OF write_w_more]
  dma_frame[OF write_w_more] slave_frame[OF write_w_more] main_frame[OF write_w_more]
lemmas write_b_frame [simp] = latch_frame[OF write_b_more] timer_frame[OF write_b_more] arb_frame[OF write_b_more]
  dma_frame[OF write_b_more] slave_frame[OF write_b_more] main_frame[OF write_b_more]
lemmas reset_values_frame [simp] = latch_frame[OF reset_values_more] timer_frame[OF reset_values_more]
  arb_frame[OF reset_values_more] dma_frame[OF reset_values_more] slave_frame[OF reset_values_more]
  main_frame[OF reset_values_more]

end
