(* ===== verification/PruDma_Lemmas.thy ===== *)
theory PruDma_Lemmas
  imports PruFrames
begin

unbundle bit_operations_syntax

text \<open>
  How the DMA state machine moves words: runs of the bus master, the step that transfers a
  word to or from the emulated memory card, and the transfer of a block by induction over
  its words.
\<close>

section \<open>Runs of the bus master\<close>

text \<open>At most \<open>k\<close> state functions in a row, fewer when the master stops.\<close>

fun master_run :: "nat \<Rightarrow> bus_lines \<Rightarrow> master_state \<Rightarrow> 'a statemachine_intr_master_t_scheme \<Rightarrow>
    (master_state option \<times> 'a statemachine_intr_master_t_scheme) option" where
  "master_run 0 bus st s = Some (Some st, s)"
| "master_run (Suc k) bus st s =
    (case master_step bus st s of
       None \<Rightarrow> None
     | Some (None, s) \<Rightarrow> Some (None, s)
     | Some (Some st, s) \<Rightarrow> master_run k bus st s)"

text \<open>A backplane on which no other card answers and nobody asserts INIT.\<close>

definition quiet_bus :: "bus_lines \<Rightarrow> bool" where
  "quiet_bus bus \<longleftrightarrow> (\<forall>n out. (\<not> bit (out 4) 5 \<longrightarrow> \<not> bit (bus n out 4) 5) \<and> \<not> bit (bus n out 7) 3)"

text \<open>The open collector lines of an otherwise idle backplane; the grants come from elsewhere.\<close>

definition idle_bus :: bus_lines where
  "idle_bus n out r = (if r = 0 \<or> r = 7 then 0 else out r)"

lemma quiet_idle_bus: "quiet_bus idle_bus"
  by (simp add: quiet_bus_def idle_bus_def)

section \<open>Waiting for SSYN\<close>

lemma wait_ssyn_step:
  "wait_ssyn_inactive bus s =
     (if bit (bus (bus_reads s) (latch_out s) 4) 5
      then wait_ssyn_inactive bus (s\<lparr>bus_reads := Suc (bus_reads s)\<rparr>)
      else Some (s\<lparr>bus_reads := Suc (bus_reads s)\<rparr>))"
  by (subst wait_ssyn_inactive.simps) (simp add: buslatches_getbyte_def and_BIT)

lemma wait_ssyn_ends:
  assumes "\<forall>j < k. bit (bus (bus_reads s + j) (latch_out s) 4) 5" "\<not> bit (bus (bus_reads s + k) (latch_out s) 4) 5"
  shows "wait_ssyn_inactive bus s = Some (s\<lparr>bus_reads := bus_reads s + Suc k\<rparr>)"
  using assms
proof (induction k arbitrary: s)
  case 0
  then show ?case by (subst wait_ssyn_step) simp
next
  case (Suc k)
  let ?s = "s\<lparr>bus_reads := Suc (bus_reads s)\<rparr>"
  have first: "bit (bus (bus_reads s) (latch_out s) 4) 5"
    using Suc.prems(1) by (metis add.right_neutral zero_less_Suc)
  have "\<forall>j < k. bit (bus (bus_reads ?s + j) (latch_out ?s) 4) 5"
  proof (intro allI impI)
    fix j assume "j < k"
    then show "bit (bus (bus_reads ?s + j) (latch_out ?s) 4) 5"
      using Suc.prems(1)[rule_format, of "Suc j"] by simp
  qed
  moreover have "\<not> bit (bus (bus_reads ?s + k) (latch_out ?s) 4) 5"
    using Suc.prems(2) by simp
  ultimately have "wait_ssyn_inactive bus ?s = Some (?s\<lparr>bus_reads := bus_reads ?s + Suc k\<rparr>)"
    by (rule Suc.IH)
  then show ?case
    by (subst wait_ssyn_step) (simp add: first)
qed

text \<open>If SSYN never goes away the wait never ends: fixpoint induction on the loop.\<close>

lemma wait_ssyn_returns:
  assumes "wait_ssyn_inactive bus s = Some t"
  shows "\<exists>k. \<not> bit (bus (bus_reads s + k) (latch_out s) 4) 5"
proof (rule wait_ssyn_inactive.raw_induct[where
      P = "\<lambda>bus s t. \<exists>k. \<not> bit (bus (bus_reads s + k) (latch_out s) 4) 5", OF _ assms], goal_cases)
  case (1 wait bus s t)
  show ?case
  proof (cases "bit (bus (bus_reads s) (latch_out s) 4) 5")
    case True
    then have "wait bus (s\<lparr>bus_reads := Suc (bus_reads s)\<rparr>) = Some t"
      using 1(2) by (simp add: buslatches_getbyte_def and_BIT)
    from 1(1)[OF this] obtain k where "\<not> bit (bus (Suc (bus_reads s) + k) (latch_out s) 4) 5" by auto
    then show ?thesis by (intro exI[of _ "Suc k"]) simp
  next
    case False
    then show ?thesis by (intro exI[of _ 0]) simp
  qed
qed

lemma wait_ssyn_quiet:
  "quiet_bus bus \<Longrightarrow> \<not> bit (latch_out s 4) 5 \<Longrightarrow>
   wait_ssyn_inactive bus s = Some (s\<lparr>bus_reads := Suc (bus_reads s)\<rparr>)"
  by (subst wait_ssyn_step) (simp add: quiet_bus_def)

section \<open>One word to or from the memory card\<close>

text \<open>
  What the two cycles leave: the word is stored on the card or in the mailbox, the board
  holds neither MSYN nor SSYN, and SACK is dropped with the last word.
\<close>

definition word_moved :: "u32 \<Rightarrow> 'a statemachine_intr_master_t_scheme \<Rightarrow> 'a statemachine_intr_master_t_scheme \<Rightarrow> bool" where
  "word_moved addr s t \<longleftrightarrow>
     (if QUNIBUS_CYCLE_IS_DATO (dma_buscycle s)
      then ddr_words t = (ddr_words s)(unat (addr div 2) := dma_words s (dataptr s)) \<and> dma_words t = dma_words s
      else ddr_words t = ddr_words s \<and> dma_words t = (dma_words s)(dataptr s := ddr_words s (unat (addr div 2))))"

definition dma_setup_kept :: "'a statemachine_intr_master_t_scheme \<Rightarrow> 'a statemachine_intr_master_t_scheme \<Rightarrow> bool" where
  "dma_setup_kept s t \<longleftrightarrow> dma_wordcount t = dma_wordcount s \<and> dma_buscycle t = dma_buscycle s \<and>
     dma_startaddr t = dma_startaddr s \<and> dma_cpu_access t = dma_cpu_access s \<and>
     address_overlay t = address_overlay s \<and> ev_dma t = ev_dma s \<and> same_config s t"

lemma setbits_config [simp]: "same_config u (buslatches_setbits r m v s) = same_config u s"
  "same_config u (buslatches_setbyte r v s) = same_config u s"
  by (simp_all add: setbits_update buslatches_setbyte_def same_config_def)

lemma reaches_latch [simp]: "reaches (buslatches_setbits r m v s) a = reaches s a"
  "reaches (buslatches_setbyte r v s) a = reaches s a"
  by (rule same_config_reaches; simp)+

lemma card_ok_latch [simp]: "card_ok lo hi (buslatches_setbits r m v s) = card_ok lo hi s"
  "card_ok lo hi (buslatches_setbyte r v s) = card_ok lo hi s"
  by (simp_all add: setbits_update buslatches_setbyte_def card_ok_def)

lemma card_write:
  assumes "card_ok lo hi s" "a \<in> card_cells lo hi"
  shows "fst (emulated_addr_write_w a w s)"
    "ddr_words (snd (emulated_addr_write_w a w s)) = (ddr_words s)(unat (a div 2) := w)"
    "same_config s (snd (emulated_addr_write_w a w s))"
  using write_w_spec[of w a s] card_reaches[OF assms] card_inside[OF assms]
  by (simp_all add: write_effect_def)

lemma card_read:
  assumes "card_ok lo hi s" "a \<in> card_cells lo hi"
  shows "fst (emulated_addr_read a s) = Some (ddr_words s (unat (a div 2)))"
  using card_reaches[OF assms] card_in_ddr[OF assms(2)] by (simp add: read_spec ddr_read_in)

lemma internal_end_fields:
  "r \<noteq> 4 \<Longrightarrow> cur_reg_val (sm_dma_internal_end s) r = cur_reg_val s r"
  "\<not> bit (latch_out (sm_dma_internal_end s) 4) 4" "\<not> bit (latch_out (sm_dma_internal_end s) 4) 5"
  "\<not> bit (cur_reg_val (sm_dma_internal_end s) 4) 4" "\<not> bit (cur_reg_val (sm_dma_internal_end s) 4) 5"
  "ddr_words (sm_dma_internal_end s) = ddr_words s" "dma_words (sm_dma_internal_end s) = dma_words s"
  by (simp_all add: sm_dma_internal_end_def setbits_update buslatches_setbyte_def bit_merge_bits)

lemma internal_end_more:
  "dma_cur_status (sm_dma_internal_end s) = dma_cur_status s" "dma_cur_addr (sm_dma_internal_end s) = dma_cur_addr s"
  "dataptr (sm_dma_internal_end s) = dataptr s" "cur_wordsleft (sm_dma_internal_end s) = cur_wordsleft s"
  "state_timeout (sm_dma_internal_end s) = state_timeout s"
  "dma_setup_kept u (sm_dma_internal_end v) = dma_setup_kept u v"
  by (simp_all add: sm_dma_internal_end_def setbits_update buslatches_setbyte_def dma_setup_kept_def same_config_def)


text \<open>The fields of the state before the cycle, with the address and control lines set up.\<close>

lemma dma_dato_word:
  assumes card: "card_ok lo hi s" "addr \<in> card_cells lo hi" and quiet: "quiet_bus bus"
    and ptr: "dataptr s < PRU_MAX_DMA_WORDCOUNT" and dato: "dma_buscycle s = QUNIBUS_CYCLE_DATO"
  obtains t where "sm_dma_dato bus addr QUNIBUS_CYCLE_DATO s = Some (Some Dma_99, t)"
    "word_moved addr s t" "dma_setup_kept s t" "cur_reg_val t 1 = cur_reg_val s 1"
    "\<not> bit (latch_out t 4) 4" "\<not> bit (latch_out t 4) 5"
    "\<not> bit (cur_reg_val t 4) 4" "\<not> bit (cur_reg_val t 4) 5"
    "dma_cur_status t = dma_cur_status s" "dma_cur_addr t = dma_cur_addr s" "dataptr t = dataptr s"
    "cur_wordsleft t = cur_wordsleft s" "state_timeout t = state_timeout s"
proof -
  let ?d = "dma_words s (dataptr s)"
  let ?a = "buslatches_setbyte 6 (ucast (drop_bit 8 ?d)) (buslatches_setbyte 5 (ucast ?d)
      (buslatches_setbits 4 0x3F (ucast (drop_bit 16 addr AND 3) OR BIT 3) s))"
  let ?b = "buslatches_setbits 4 (BIT 4) (BIT 4) (?a\<lparr>bus_reads := Suc (bus_reads ?a)\<rparr>)"
  define c where "c = snd (emulated_addr_write_w addr ?d ?b)"
  let ?t = "sm_dma_internal_end c"
  have "bit (0x3F :: u8) 5" by simp
  then have "\<not> bit (latch_out ?a 4) 5"
    by (simp add: bit_merge_bits bit_or_iff bit_ucast_iff bit_and_iff)
  then have wait: "wait_ssyn_inactive bus ?a = Some (?a\<lparr>bus_reads := Suc (bus_reads ?a)\<rparr>)"
    by (rule wait_ssyn_quiet[OF quiet])
  have card_b: "card_ok lo hi ?b" using card(1)
    by (simp add: card_ok_def setbits_update buslatches_setbyte_def)
  have w: "emulated_addr_write_w addr ?d ?b = (True, c)"
    using card_write(1)[OF card_b card(2)] by (simp add: prod_eq_iff c_def)
  have frame: "mailbox_event_deviceregister_t.more c = mailbox_event_deviceregister_t.more ?b"
    unfolding c_def by (rule write_w_more)
  note upper [simp] = latch_frame[OF frame] dma_frame[OF frame]
  have kept: "ddr_words c = (ddr_words s)(unat (addr div 2) := ?d)" "same_config s c"
    using card_write(2,3)[OF card_b card(2)] by (simp_all add: c_def setbits_update buslatches_setbyte_def same_config_def)
  have get: "dataptr_get (buslatches_setbits 4 m v s) = (?d, buslatches_setbits 4 m v s)" for m v
    using ptr by (simp add: dataptr_get_def setbits_update)
  have eq: "sm_dma_dato bus addr QUNIBUS_CYCLE_DATO s = Some (Some Dma_99, ?t)"
    by (simp add: sm_dma_dato_def QUNIBUS_CYCLE_DATO_def QUNIBUS_CYCLE_DATOB_def Let_def get wait w)
  show ?thesis
  proof (rule that[OF eq])
    show "word_moved addr s ?t"
      using kept(1) dato by (simp add: word_moved_def QUNIBUS_CYCLE_IS_DATO_def QUNIBUS_CYCLE_DATO_def
          internal_end_fields setbits_update buslatches_setbyte_def)
    show "dma_setup_kept s ?t"
      unfolding internal_end_more using kept(2) by (simp add: dma_setup_kept_def setbits_update buslatches_setbyte_def)
    show "cur_reg_val ?t 1 = cur_reg_val s 1"
      by (simp add: internal_end_fields)
  qed (simp_all add: internal_end_fields internal_end_more setbits_update buslatches_setbyte_def)
qed

lemma dma_dati_word:
  assumes card: "card_ok lo hi s" "addr \<in> card_cells lo hi"
    and ptr: "dataptr s < PRU_MAX_DMA_WORDCOUNT" and dati: "dma_buscycle s = QUNIBUS_CYCLE_DATI"
  obtains t where "sm_dma_dati addr s = (Some Dma_99, t)"
    "word_moved addr s t" "dma_setup_kept s t" "cur_reg_val t 1 = cur_reg_val s 1"
    "\<not> bit (latch_out t 4) 4" "\<not> bit (latch_out t 4) 5"
    "\<not> bit (cur_reg_val t 4) 4" "\<not> bit (cur_reg_val t 4) 5"
    "dma_cur_status t = dma_cur_status s" "dma_cur_addr t = dma_cur_addr s" "dataptr t = dataptr s"
    "cur_wordsleft t = cur_wordsleft s" "state_timeout t = state_timeout s"
proof -
  let ?b = "buslatches_setbits 4 (BIT 4) (BIT 4)
      (buslatches_setbits 4 0x3F (ucast (drop_bit 16 addr AND 3)) s)"
  define c where "c = snd (emulated_addr_read addr ?b)"
  let ?d = "ddr_words s (unat (addr div 2))"
  let ?e = "buslatches_setbyte 6 (ucast (drop_bit 8 ?d)) (buslatches_setbyte 5 (ucast ?d) c)"
  let ?t = "sm_dma_internal_end (dataptr_put ?d ?e)"
  have card_b: "card_ok lo hi ?b" using card(1)
    by (simp add: card_ok_def setbits_update)
  have r: "emulated_addr_read addr ?b = (Some ?d, c)"
    using card_read[OF card_b card(2)] by (simp add: prod_eq_iff c_def setbits_update)
  have frame: "mailbox_event_deviceregister_t.more c = mailbox_event_deviceregister_t.more ?b"
    unfolding c_def by (rule read_more)
  note upper [simp] = latch_frame[OF frame] dma_frame[OF frame]
  have keeps: "ddr_words c = ddr_words s" "same_config s c"
    using read_keeps[where addr = addr and s = ?b] by (simp_all add: c_def setbits_update same_config_def)
  have put: "dataptr_put ?d ?e = ?e\<lparr>dma_words := (dma_words s)(dataptr s := ?d)\<rparr>"
    using ptr by (simp add: dataptr_put_def setbits_update buslatches_setbyte_def)
  have eq: "sm_dma_dati addr s = (Some Dma_99, ?t)"
    by (simp add: sm_dma_dati_def Let_def r)
  show ?thesis
  proof (rule that[OF eq])
    show "word_moved addr s ?t"
      unfolding put using keeps(1) dati by (simp add: word_moved_def QUNIBUS_CYCLE_IS_DATO_def QUNIBUS_CYCLE_DATI_def
          internal_end_fields setbits_update buslatches_setbyte_def)
    show "dma_setup_kept s ?t"
      unfolding internal_end_more put using keeps(2)
      by (simp add: dma_setup_kept_def same_config_def setbits_update buslatches_setbyte_def)
    show "cur_reg_val ?t 1 = cur_reg_val s 1"
      unfolding put by (simp add: internal_end_fields)
  qed (unfold put, simp_all add: internal_end_fields internal_end_more setbits_update buslatches_setbyte_def)
qed


section \<open>A block\<close>

text \<open>
  The state between two words of a transfer of \<open>n\<close> words from \<open>start\<close>: \<open>i\<close> words are done,
  the next state function is \<open>Dma_1\<close>.
\<close>

definition dma_between :: "u32 \<Rightarrow> u32 \<Rightarrow> nat \<Rightarrow> nat \<Rightarrow> 'a statemachine_intr_master_t_scheme \<Rightarrow> bool" where
  "dma_between lo hi n i s \<longleftrightarrow> card_ok lo hi s \<and> address_overlay s = 0 \<and>
     dma_buscycle s \<in> {QUNIBUS_CYCLE_DATI, QUNIBUS_CYCLE_DATO} \<and> unat (dma_wordcount s) = n \<and>
     dma_cur_status s = DMA_STATE_RUNNING \<and> i < n \<and> n \<le> PRU_MAX_DMA_WORDCOUNT \<and> dataptr s = i \<and>
     unat (cur_wordsleft s) = n - i \<and> dma_cur_addr s = dma_startaddr s + 2 * of_nat i"

text \<open>SACK comes off with the last word; nothing else of latch 1 changes.\<close>

definition sack_after :: "'a statemachine_intr_master_t_scheme \<Rightarrow> 'b statemachine_intr_master_t_scheme \<Rightarrow> bool" where
  "sack_after s t \<longleftrightarrow> cur_reg_val t 1 =
     (if cur_wordsleft s = 1 then merge_bits (cur_reg_val s 1) 0 (BIT 5) else cur_reg_val s 1)"

lemma dma_1_word:
  assumes I: "dma_between lo hi n i s" and cell: "dma_cur_addr s \<in> card_cells lo hi" and quiet: "quiet_bus bus"
  obtains t where "master_step bus Dma_1 s = Some (Some Dma_99, t)"
    "word_moved (dma_cur_addr s) s t" "dma_setup_kept s t" "sack_after s t"
    "\<not> bit (latch_out t 4) 4" "\<not> bit (latch_out t 4) 5"
    "\<not> bit (cur_reg_val t 4) 4" "\<not> bit (cur_reg_val t 4) 5"
    "dma_cur_status t = DMA_STATE_RUNNING" "dma_cur_addr t = dma_cur_addr s" "dataptr t = dataptr s"
    "cur_wordsleft t = cur_wordsleft s" "\<not> state_timeout t"
proof -
  let ?s1 = "if cur_wordsleft s = 1 then buslatches_setbits 1 (BIT 5) 0 s else s"
  let ?a = "dma_cur_addr s"
  let ?s2 = "buslatches_setbyte 3 (ucast (drop_bit 8 ?a)) (buslatches_setbyte 2 (ucast ?a) (?s1\<lparr>state_timeout := False\<rparr>))"
  have fields: "dma_words ?s2 = dma_words s" "ddr_words ?s2 = ddr_words s" "dma_buscycle ?s2 = dma_buscycle s"
    "dataptr ?s2 = dataptr s" "cur_wordsleft ?s2 = cur_wordsleft s" "dma_cur_addr ?s2 = ?a"
    "dma_cur_status ?s2 = dma_cur_status s" "\<not> state_timeout ?s2" "address_overlay ?s2 = address_overlay s"
    "dma_setup_kept ?s2 t \<longleftrightarrow> dma_setup_kept s t" "card_ok lo hi ?s2 = card_ok lo hi s"
    "word_moved ?a ?s2 t = word_moved ?a s t"
    "cur_reg_val ?s2 1 = (if cur_wordsleft s = 1 then merge_bits (cur_reg_val s 1) 0 (BIT 5) else cur_reg_val s 1)" for t
    by (simp_all add: setbits_update buslatches_setbyte_def dma_setup_kept_def card_ok_def word_moved_def
        same_config_def)
  have card2: "card_ok lo hi ?s2" using I fields(11) by (simp add: dma_between_def)
  have nz: "dma_wordcount s \<noteq> 0" using I by (auto simp: dma_between_def)
  have ptr: "dataptr ?s2 < PRU_MAX_DMA_WORDCOUNT" using I fields(4) by (simp add: dma_between_def)
  have step: "master_step bus Dma_1 s = (if QUNIBUS_CYCLE_IS_DATO (dma_buscycle s)
      then sm_dma_dato bus ?a (dma_buscycle s) ?s2 else Some (sm_dma_dati ?a ?s2))"
    using I nz by (simp add: sm_dma_state_1_def dma_between_def Let_def setbits_update)
  consider "dma_buscycle s = QUNIBUS_CYCLE_DATO" | "dma_buscycle s = QUNIBUS_CYCLE_DATI"
    using I by (auto simp: dma_between_def)
  then show ?thesis
  proof cases
    case 1
    then have "dma_buscycle ?s2 = QUNIBUS_CYCLE_DATO" using fields(3) by simp
    from dma_dato_word[OF card2 cell quiet ptr this] obtain t where
      t: "sm_dma_dato bus ?a QUNIBUS_CYCLE_DATO ?s2 = Some (Some Dma_99, t)" and
      f: "word_moved ?a ?s2 t" "dma_setup_kept ?s2 t" "cur_reg_val t 1 = cur_reg_val ?s2 1"
        "\<not> bit (latch_out t 4) 4" "\<not> bit (latch_out t 4) 5" "\<not> bit (cur_reg_val t 4) 4" "\<not> bit (cur_reg_val t 4) 5"
        "dma_cur_status t = dma_cur_status ?s2" "dma_cur_addr t = dma_cur_addr ?s2" "dataptr t = dataptr ?s2"
        "cur_wordsleft t = cur_wordsleft ?s2" "state_timeout t = state_timeout ?s2" by metis
    have "QUNIBUS_CYCLE_IS_DATO (dma_buscycle s)" using 1 by (simp add: QUNIBUS_CYCLE_IS_DATO_def QUNIBUS_CYCLE_DATO_def)
    then have "master_step bus Dma_1 s = Some (Some Dma_99, t)" using step t 1 by simp
    then show ?thesis
      by (rule that) (use f I in \<open>simp_all add: fields sack_after_def dma_between_def\<close>)
  next
    case 2
    then have "dma_buscycle ?s2 = QUNIBUS_CYCLE_DATI" using fields(3) by simp
    from dma_dati_word[OF card2 cell ptr this] obtain t where
      t: "sm_dma_dati ?a ?s2 = (Some Dma_99, t)" and
      f: "word_moved ?a ?s2 t" "dma_setup_kept ?s2 t" "cur_reg_val t 1 = cur_reg_val ?s2 1"
        "\<not> bit (latch_out t 4) 4" "\<not> bit (latch_out t 4) 5" "\<not> bit (cur_reg_val t 4) 4" "\<not> bit (cur_reg_val t 4) 5"
        "dma_cur_status t = dma_cur_status ?s2" "dma_cur_addr t = dma_cur_addr ?s2" "dataptr t = dataptr ?s2"
        "cur_wordsleft t = cur_wordsleft ?s2" "state_timeout t = state_timeout ?s2" by metis
    have "\<not> QUNIBUS_CYCLE_IS_DATO (dma_buscycle s)" using 2 by (simp add: QUNIBUS_CYCLE_IS_DATO_def QUNIBUS_CYCLE_DATI_def)
    then have "master_step bus Dma_1 s = Some (Some Dma_99, t)" using step t 2 by simp
    then show ?thesis
      by (rule that) (use f I in \<open>simp_all add: fields sack_after_def dma_between_def\<close>)
  qed
qed


lemma dma_99_next:
  assumes left: "cur_wordsleft s \<noteq> 1" and quiet: "quiet_bus bus" and "\<not> state_timeout s"
  shows "master_step bus Dma_99 s = Some (Some Dma_1, s\<lparr>dataptr := dataptr s + 1, cur_wordsleft := cur_wordsleft s - 1,
      bus_reads := Suc (bus_reads s), dma_cur_addr := dma_cur_addr s + 2\<rparr>)"
proof -
  have "cur_wordsleft s - 1 \<noteq> 0" using left by simp
  then show ?thesis
    using assms by (simp add: sm_dma_state_99_def sm_dma_final_state_def Let_def buslatches_getbyte_def and_BIT
        quiet_bus_def DMA_STATE_RUNNING_def DMA_STATE_READY_def DMA_STATE_INITSTOP_def)
qed

text \<open>The end of a transfer: the lines are released and the ARM is told.\<close>

definition dma_released :: "u8 \<Rightarrow> 'a statemachine_intr_master_t_scheme \<Rightarrow> 'a statemachine_intr_master_t_scheme \<Rightarrow> bool" where
  "dma_released final s t \<longleftrightarrow> dma_cur_status t = final \<and> dma_cur_addr t = dma_cur_addr s \<and>
     ev_dma t = EVENT_SIGNAL (ev_dma s) \<and> \<not> bit (latch_out t 1) 6 \<and> \<not> bit (cur_reg_val t 1) 6 \<and>
     bit (latch_out t 1) 5 = bit (cur_reg_val t 1) 5 \<and>
     latch_out t 2 = 0 \<and> latch_out t 3 = 0 \<and> latch_out t 4 AND 0x3F = 0 \<and>
     ddr_words t = ddr_words s \<and> dma_words t = dma_words s \<and> same_config s t \<and>
     (arm_interrupts t = (if dma_cpu_access s = 0 then Suc (arm_interrupts s) else arm_interrupts s)) \<and>
     address_overlay t = address_overlay s \<and> dma_wordcount t = dma_wordcount s \<and> dma_startaddr t = dma_startaddr s \<and>
     dma_cpu_access t = dma_cpu_access s \<and> dma_buscycle t = dma_buscycle s"

lemma dma_99_end_fields:
  assumes "fst (sm_dma_final_state bus s) = final" "final \<noteq> DMA_STATE_RUNNING"
    and u: "snd (sm_dma_final_state bus s) = u"
    and same: "dma_cur_addr u = dma_cur_addr s" "ev_dma u = ev_dma s" "ddr_words u = ddr_words s" "dma_words u = dma_words s"
      "same_config s u" "arm_interrupts u = arm_interrupts s" "dma_cpu_access u = dma_cpu_access s"
      "address_overlay u = address_overlay s" "dma_wordcount u = dma_wordcount s" "dma_startaddr u = dma_startaddr s"
      "dma_buscycle u = dma_buscycle s"
  obtains t where "master_step bus Dma_99 s = Some (None, t)" "dma_released final s t"
    "bit (cur_reg_val t 1) 5 = bit (cur_reg_val u 1) 5"
proof -
  obtain t where t: "master_step bus Dma_99 s = Some (None, t)"
    using assms(1,2) by (simp add: sm_dma_state_99_def Let_def split_def)
  have z: "merge_bits x 0 63 AND 63 = (0 :: u8)" for x by simp
  have "dma_released final s t \<and> bit (cur_reg_val t 1) 5 = bit (cur_reg_val u 1) 5"
    using t assms(1,2) same
    by (auto simp: sm_dma_state_99_def Let_def split_def u setbits_update buslatches_setbyte_def timeout_cleanup_def
        PRU2ARM_INTERRUPT_def dma_released_def bit_merge_bits z same_config_def split: if_splits)
  with t show ?thesis using that by blast
qed

lemma dma_99_last:
  assumes "cur_wordsleft s = 1" "\<not> state_timeout s" "\<not> bit (cur_reg_val s 1) 5"
  obtains t where "master_step bus Dma_99 s = Some (None, t)" "dma_released DMA_STATE_READY s t"
    "\<not> bit (latch_out t 1) 5"
proof -
  let ?u = "s\<lparr>dataptr := dataptr s + 1, cur_wordsleft := cur_wordsleft s - 1\<rparr>"
  have f: "sm_dma_final_state bus s = (DMA_STATE_READY, ?u)"
    using assms(1,2) by (simp add: sm_dma_final_state_def Let_def)
  obtain t where t: "master_step bus Dma_99 s = Some (None, t)" "dma_released DMA_STATE_READY s t"
    "bit (cur_reg_val t 1) 5 = bit (cur_reg_val ?u 1) 5"
    by (rule dma_99_end_fields[of bus s DMA_STATE_READY ?u])
      (simp_all add: f DMA_STATE_READY_def DMA_STATE_RUNNING_def same_config_def)
  then have "\<not> bit (latch_out t 1) 5" using assms(3) by (simp add: dma_released_def)
  with t show ?thesis using that by blast
qed

text \<open>The words \<open>i\<close> to \<open>n - 1\<close> of the block have been moved, and nothing else.\<close>

definition block_moved :: "nat \<Rightarrow> nat \<Rightarrow> 'a statemachine_intr_master_t_scheme \<Rightarrow> 'a statemachine_intr_master_t_scheme \<Rightarrow> bool" where
  "block_moved i n s t \<longleftrightarrow>
     (let addr = (\<lambda>j. dma_startaddr s + 2 * of_nat j); cell = (\<lambda>j. unat (addr j div 2)) in
      if QUNIBUS_CYCLE_IS_DATO (dma_buscycle s)
      then (\<forall>j. i \<le> j \<and> j < n \<longrightarrow> ddr_words t (cell j) = dma_words s j) \<and>
        (\<forall>k. (\<forall>j. i \<le> j \<and> j < n \<longrightarrow> k \<noteq> cell j) \<longrightarrow> ddr_words t k = ddr_words s k) \<and> dma_words t = dma_words s
      else (\<forall>j. dma_words t j = (if i \<le> j \<and> j < n then ddr_words s (cell j) else dma_words s j)) \<and>
        ddr_words t = ddr_words s)"

lemma cell_distinct:
  assumes "start + 2 * of_nat i \<in> card_cells lo hi" "start + 2 * of_nat j \<in> card_cells lo hi"
    and "i < 0x1000" "j < 0x1000" "i \<noteq> j"
  shows "unat ((start + 2 * of_nat i :: u32) div 2) \<noteq> unat ((start + 2 * of_nat j) div 2)"
proof
  assume "unat ((start + 2 * of_nat i :: u32) div 2) = unat ((start + 2 * of_nat j) div 2)"
  then have "start + 2 * of_nat i = start + 2 * of_nat j"
    using card_half_inj[OF assms(1,2)] by (simp add: unat_half_eq)
  then have "unat (2 * of_nat i :: u32) = unat (2 * of_nat j :: u32)" by simp
  then have "2 * i = 2 * j"
    using assms(3,4) by (simp add: unat_word_ariths unat_of_nat take_bit_nat_eq_self)
  with assms(5) show False by simp
qed

lemma block_moved_step:
  assumes w: "word_moved (dma_startaddr s + 2 * of_nat i) s u" and ptr: "dataptr s = i" and k: "dma_setup_kept s u"
    and rest: "block_moved (Suc i) n v t" "ddr_words v = ddr_words u" "dma_words v = dma_words u"
      "dma_startaddr v = dma_startaddr u" "dma_buscycle v = dma_buscycle u"
    and i: "i < n"
    and distinct: "\<And>j. Suc i \<le> j \<Longrightarrow> j < n \<Longrightarrow>
      unat ((dma_startaddr s + 2 * of_nat i) div 2) \<noteq> unat ((dma_startaddr s + 2 * of_nat j) div 2)"
  shows "block_moved i n s t"
proof (cases "QUNIBUS_CYCLE_IS_DATO (dma_buscycle s)")
  case True
  let ?cell = "\<lambda>j. unat ((dma_startaddr s + 2 * of_nat j) div 2)"
  from True w ptr have u: "ddr_words u = (ddr_words s)(?cell i := dma_words s i)" "dma_words u = dma_words s"
    by (simp_all add: word_moved_def)
  have cyc: "dma_buscycle v = dma_buscycle s" "dma_startaddr v = dma_startaddr s"
    using rest k by (simp_all add: dma_setup_kept_def)
  have r: "\<And>j. Suc i \<le> j \<Longrightarrow> j < n \<Longrightarrow> ddr_words t (?cell j) = dma_words s j"
    "\<And>k. (\<forall>j. Suc i \<le> j \<and> j < n \<longrightarrow> k \<noteq> ?cell j) \<Longrightarrow> ddr_words t k = ddr_words u k" "dma_words t = dma_words s"
    using rest(1,2,3) True cyc u(2) by (simp_all add: block_moved_def Let_def)
  have "ddr_words t (?cell i) = dma_words s i"
    using r(2)[of "?cell i"] distinct u(1) by (metis fun_upd_same)
  then have "ddr_words t (?cell j) = dma_words s j" if "i \<le> j" "j < n" for j
    using r(1)[of j] that by (cases "j = i") simp_all
  moreover have "ddr_words t k = ddr_words s k" if "\<forall>j. i \<le> j \<and> j < n \<longrightarrow> k \<noteq> ?cell j" for k
    using r(2)[of k] that u(1) i by auto
  ultimately show ?thesis using True r(3) by (simp add: block_moved_def Let_def)
next
  case False
  let ?cell = "\<lambda>j. unat ((dma_startaddr s + 2 * of_nat j) div 2)"
  from False w ptr have u: "ddr_words u = ddr_words s" "dma_words u = (dma_words s)(i := ddr_words s (?cell i))"
    by (simp_all add: word_moved_def)
  have cyc: "dma_buscycle v = dma_buscycle s" "dma_startaddr v = dma_startaddr s"
    using rest k by (simp_all add: dma_setup_kept_def)
  have "dma_words t j = (if Suc i \<le> j \<and> j < n then ddr_words s (?cell j) else dma_words u j)" "ddr_words t = ddr_words s" for j
    using rest(1,2,3) False cyc u(1) by (simp_all add: block_moved_def Let_def)
  then show ?thesis
    using False u(2) i by (auto simp: block_moved_def Let_def)
qed


text \<open>From any point of a transfer to its end, two state functions a word.\<close>

lemma dma_words_run:
  assumes "dma_between lo hi n i s" and "quiet_bus bus"
    and "\<And>j. j < n \<Longrightarrow> dma_startaddr s + 2 * of_nat j \<in> card_cells lo hi"
  obtains t where "master_run (2 * (n - i)) bus Dma_1 s = Some (None, t)" "block_moved i n s t"
    "dma_cur_status t = DMA_STATE_READY" "dma_cur_addr t = dma_startaddr s + 2 * of_nat (n - 1)"
    "ev_dma t = EVENT_SIGNAL (ev_dma s)" "same_config s t"
    "\<not> bit (latch_out t 1) 5" "\<not> bit (latch_out t 1) 6" "latch_out t 4 AND 0x3F = 0"
    "address_overlay t = 0" "dma_wordcount t = dma_wordcount s" "dma_startaddr t = dma_startaddr s"
    "dma_buscycle t = dma_buscycle s"
proof -
  have "\<exists>t. master_run (2 * (n - i)) bus Dma_1 s = Some (None, t) \<and> block_moved i n s t \<and>
    dma_cur_status t = DMA_STATE_READY \<and> dma_cur_addr t = dma_startaddr s + 2 * of_nat (n - 1) \<and>
    ev_dma t = EVENT_SIGNAL (ev_dma s) \<and> same_config s t \<and>
    \<not> bit (latch_out t 1) 5 \<and> \<not> bit (latch_out t 1) 6 \<and> latch_out t 4 AND 0x3F = 0 \<and>
    address_overlay t = 0 \<and> dma_wordcount t = dma_wordcount s \<and> dma_startaddr t = dma_startaddr s \<and>
    dma_buscycle t = dma_buscycle s"
    using assms
  proof (induction "n - i" arbitrary: i s)
    case 0
    then show ?case by (simp add: dma_between_def)
  next
    case (Suc m)
    note I = Suc.prems(1)[unfolded dma_between_def]
    have i: "i < n" "n \<le> 0x1000" using I by (simp_all add: PRU_MAX_DMA_WORDCOUNT_def)
    have cur: "dma_cur_addr s = dma_startaddr s + 2 * of_nat i" using I by simp
    have cell: "dma_cur_addr s \<in> card_cells lo hi" using Suc.prems(3)[OF i(1)] cur by simp
    have distinct: "unat ((dma_startaddr s + 2 * of_nat i) div 2) \<noteq> unat ((dma_startaddr s + 2 * of_nat j) div 2)"
      if "Suc i \<le> j" "j < n" for j
      using Suc.prems(3)[OF i(1)] Suc.prems(3)[OF that(2)] i that by (intro cell_distinct) auto
    from dma_1_word[OF Suc.prems(1) cell Suc.prems(2)] obtain u where
      u: "master_step bus Dma_1 s = Some (Some Dma_99, u)" "word_moved (dma_cur_addr s) s u" "dma_setup_kept s u"
        "sack_after s u" "dma_cur_status u = DMA_STATE_RUNNING" "dma_cur_addr u = dma_cur_addr s" "dataptr u = dataptr s"
        "cur_wordsleft u = cur_wordsleft s" "\<not> state_timeout u" by metis
    have ptr: "dataptr s = i" using I by simp
    have left: "unat (cur_wordsleft s) = n - i" using I by simp
    show ?case
    proof (cases "n - i = 1")
      case True
      then have one: "cur_wordsleft u = 1" using u(8) left by (simp add: word_unat_eq_iff)
      have "\<not> bit (cur_reg_val u 1) 5"
        using u(4,8) one by (simp add: sack_after_def bit_merge_bits)
      from dma_99_last[OF one u(9) this] obtain t where
        t: "master_step bus Dma_99 u = Some (None, t)" "dma_released DMA_STATE_READY u t" "\<not> bit (latch_out t 1) 5" by metis
      have n: "n - 1 = i" using True by simp
      have none: "block_moved (Suc i) n t t"
      proof -
        have "\<not> (Suc i \<le> j \<and> j < n)" for j using True by linarith
        then have "(Suc i \<le> j \<and> j < n) = False" for j by blast
        then show ?thesis by (simp only: block_moved_def Let_def) simp
      qed
      have "block_moved i n s t"
        by (rule block_moved_step[OF u(2)[unfolded cur] ptr u(3) none _ _ _ _ i(1) distinct])
          (use t(2) in \<open>simp_all add: dma_released_def\<close>)
      then show ?thesis
        using u t(1,2,3) I cur n True
        by (simp add: dma_released_def dma_setup_kept_def numeral_2_eq_2 same_config_def)
    next
      case False
      then have more: "cur_wordsleft u \<noteq> 1" using u(8) left by (auto simp: word_unat_eq_iff)
      let ?v = "u\<lparr>dataptr := dataptr u + 1, cur_wordsleft := cur_wordsleft u - 1,
          bus_reads := Suc (bus_reads u), dma_cur_addr := dma_cur_addr u + 2\<rparr>"
      have v: "master_step bus Dma_99 u = Some (Some Dma_1, ?v)"
        by (rule dma_99_next[OF more Suc.prems(2) u(9)])
      have next_left: "unat (cur_wordsleft s - 1) = n - Suc i"
        using left i(1) by (subst unat_minus_one) auto
      have kept: "same_config s ?v" "dma_startaddr ?v = dma_startaddr s" "dma_buscycle ?v = dma_buscycle s"
        "dma_wordcount ?v = dma_wordcount s" "address_overlay ?v = address_overlay s" "ev_dma ?v = ev_dma s"
        using u(3) by (simp_all add: dma_setup_kept_def same_config_def)
      have addr: "dma_cur_addr ?v = dma_startaddr ?v + 2 * of_nat (Suc i)"
        using u(6) cur kept(2) by (simp add: algebra_simps)
      have "dma_between lo hi n (Suc i) ?v"
        unfolding dma_between_def
        using I kept u(5,7,8) next_left False i(1) addr card_ok_config[OF kept(1), of lo hi] by simp
      moreover have "dma_startaddr ?v + 2 * of_nat j \<in> card_cells lo hi" if "j < n" for j
        using Suc.prems(3)[OF that] kept(2) by simp
      moreover have "m = n - Suc i" using Suc.hyps(2) by simp
      ultimately obtain t where t: "master_run (2 * (n - Suc i)) bus Dma_1 ?v = Some (None, t)"
        "block_moved (Suc i) n ?v t" and rest: "dma_cur_status t = DMA_STATE_READY"
        "dma_cur_addr t = dma_startaddr ?v + 2 * of_nat (n - 1)" "ev_dma t = EVENT_SIGNAL (ev_dma ?v)" "same_config ?v t"
        "\<not> bit (latch_out t 1) 5" "\<not> bit (latch_out t 1) 6" "latch_out t 4 AND 0x3F = 0"
        "address_overlay t = 0" "dma_wordcount t = dma_wordcount ?v" "dma_startaddr t = dma_startaddr ?v"
        "dma_buscycle t = dma_buscycle ?v"
        using Suc.hyps(1)[of "Suc i" ?v] Suc.prems(2) by blast
      have "2 * (n - i) = Suc (Suc (2 * (n - Suc i)))" using i(1) by simp
      then have run: "master_run (2 * (n - i)) bus Dma_1 s = Some (None, t)"
        using u(1) v t(1) by simp
      have "block_moved i n s t"
        by (rule block_moved_step[OF u(2)[unfolded cur] ptr u(3) t(2) _ _ _ _ i(1) distinct]) simp_all
      moreover have "same_config s t" using kept(1) rest(4) by (rule same_config_trans)
      ultimately show ?thesis using run rest kept by auto
    qed
  qed
  then show ?thesis using that by blast
qed

end
