(* ===== verification/PruArb_Props.thy ===== *)
theory PruArb_Props
  imports PruFrames
begin

unbundle bit_operations_syntax

text \<open>Properties of the timeouts and of the priority arbitration.\<close>

section \<open>A concrete board\<close>

text \<open>The state after start-up, from a machine with cleared memory.\<close>

definition blank_pru :: pru where
  "blank_pru = main_init \<lparr>memory_start_addr = \<lambda>_. 0, memory_limit_addr = \<lambda>_. 0,
     memory_read_count = \<lambda>_. 0, memory_write_count = \<lambda>_. 0, rom_access_count = 0,
     map_refused_count = 0, map_byte_offset_count = 0, iopage_start_addr = 0,
     register_handles = \<lambda>_. 0,
     registers = (\<lambda>_. \<lparr>reg_value = 0, reg_reset_value = 0, reg_writable_bits = 0,
       reg_event_register_handle = 0, reg_event_flags = 0\<rparr>),
     ddr_words = (\<lambda>_. 0), unibus_map = (\<lambda>_. 0), unibus_map_active = 0, array_oob = False,
     ev_deviceregister = \<lparr>signaled = 0, acked = 0\<rparr>, ev_unibus_control = 0, ev_register_handle = 0,
     ev_data = 0, ev_addr = 0, deviceregister_signal_cycle = 0, iep_tmr_cnt = 0, arm_interrupts = 0,
     cur_reg_val = \<lambda>_. 0, latch_out = \<lambda>_. 0, bus_reads = 0, address_overlay = 0,
     timeouts_active = 0, timeout_target_cycles = \<lambda>_. 0, ctrl_cycle = 0, ctrl_ctr_en = False,
     ifs_priority_level = 7, ifs_intr_arbitration_pending = 0,
     device_request_mask = 0, device_request_signalled_mask = 0, device_forwarded_grant_mask = 0,
     grant_bbsy_ssyn_wait_grant_mask = 0, cpu_request = 0, arbitrator_grant_mask = 0, granted_intr_level = 0,
     dma_cur_status = 0, dma_buscycle = 0, dma_wordcount = 0, dma_cpu_access = 0, dma_cur_addr = 0,
     dma_startaddr = 0, dma_words = \<lambda>_. 0, ev_dma = \<lparr>signaled = 0, acked = 0\<rparr>,
     state_timeout = False, dataptr = 0, cur_wordsleft = 0,
     intr_vector = \<lambda>_. 0, intr_priority_arbitration_bit = 0, intr_iopage_register_value = 0,
     intr_iopage_register_handle = 0, ev_intr_master = \<lambda>_. \<lparr>signaled = 0, acked = 0\<rparr>,
     sm_intr_vector = 0, sm_intr_level_index = 0,
     ev_intr_slave = \<lparr>signaled = 0, acked = 0\<rparr>, ev_intr_slave_vector = 0, ev_intr_slave_level = 0,
     ev_init = \<lparr>signaled = 0, acked = 0\<rparr>, ev_power = \<lparr>signaled = 0, acked = 0\<rparr>,
     power_signals_prev = 0, power_signals_cur = 0, init_signal_cur = 0,
     arm2pru_req = 0, mb_address_overlay = 0, mb_union = \<lambda>_. 0, diag_magic = 0, diag_loop_passes = 0,
     diag_arbitration_passes = 0, diag_master_passes = 0, sm_device_arb_worker = Arb_worker_device,
     sm_data_slave_state = None, sm_data_master_state = None, sm_intr_slave_state = None,
     emulate_cpu = False, halted = False\<rparr>"

lemma blank_pru_fields [simp]:
  "cur_reg_val blank_pru 1 = 0" "latch_out blank_pru 1 = 0" "bus_reads blank_pru = 0"
  "timeouts_active blank_pru = 0" "timeout_target_cycles blank_pru i = 0" "ctrl_cycle blank_pru = 0"
  "ifs_priority_level blank_pru = 7" "arbitrator_grant_mask blank_pru = 0"
  "ifs_intr_arbitration_pending blank_pru = 0" "emulate_cpu blank_pru = False"
  "ev_deviceregister blank_pru = \<lparr>signaled = 0, acked = 0\<rparr>" "sm_device_arb_worker blank_pru = Arb_worker_device"
  "device_request_signalled_mask blank_pru = 0" "sm_data_master_state blank_pru = None"
  "halted blank_pru = False" "sm_data_slave_state blank_pru = None"
  by (simp_all add: blank_pru_def main_init_def Let_def timeout_init_def iopageregisters_init_def buslatches_reset_def
      sm_arb_reset_def MAILBOX_DIAG_RESET_def setbits_update buslatches_setbyte_def timeout_cleanup_def
      merge_bits_def TIMEOUT_SACK_def TIMEOUT_COUNT_def PRIORITY_ARBITRATION_BIT_MASK_def BIT_def)

section \<open>Timeouts\<close>

text \<open>
  A timeout set to more than the 24 cycles of its own overhead fires exactly when the
  requested time less that overhead has passed - not before, and at any poll from then on -
  as long as the cycle counter, which is shared with the other timeouts and stops at its
  maximum, has room for it. Setting it moves no other timeout.
\<close>

theorem timeout_fires_on_time:
  assumes "TIMEOUT_INTERNAL_CYCLES < d" and room: "unat (ctrl_cycle s) + unat d < 2 ^ 32"
  shows "(fst (timeout_reached t (cycles_pass n (timeout_set t d s))) \<longleftrightarrow> unat d - 24 \<le> n)
    \<and> (i \<noteq> t \<longrightarrow> timeout_target_cycles (timeout_set t d s) i = timeout_target_cycles s i)"
  using timer_fires[OF assms] by simp

theorem timeout_fires_on_time_witness:
  "fst (timeout_reached TIMEOUT_DMA (cycles_pass 3976 (timeout_set TIMEOUT_DMA 4000 blank_pru)))"
  using timeout_fires_on_time[of 4000 blank_pru TIMEOUT_DMA 3976] by (simp add: TIMEOUT_INTERNAL_CYCLES_def)



section \<open>The arbitrator\<close>

text \<open>C26.
  One look of the emulated CPU's arbitrator at the bus lines: with SACK asserted no grant
  stands; a grant that stands is never exchanged for another; a new grant goes to NPR
  before any BR, to the highest BR only when the ARM has allowed interrupts and its level
  is above the CPU's, and to nobody else. The grant lines carry exactly that grant, and the
  ARM must allow interrupts anew each time.
\<close>

theorem arbitrator_grants_by_priority:
  fixes s :: "'a statemachine_arbitration_t_scheme" and bus :: bus_lines
  defines "l \<equiv> bus (bus_reads s) (latch_out s) 1"
    and "grant \<equiv> fst (sm_arb_worker_cpu bus s)" and "s' \<equiv> snd (sm_arb_worker_cpu bus s)"
  shows "(bit l 5 \<longrightarrow> grant = 0) \<and>
    (arbitrator_grant_mask s \<noteq> 0 \<longrightarrow> grant = 0 \<or> grant = arbitrator_grant_mask s) \<and>
    (arbitrator_grant_mask s = 0 \<and> \<not> bit l 5 \<longrightarrow> grant =
      (if bit l 4 then BIT 4
       else if ifs_intr_arbitration_pending s \<noteq> 0 \<and> any_request l \<and>
         unat (ifs_priority_level s) < top_request l + 4 then BIT (top_request l)
       else 0)) \<and>
    arbitrator_grant_mask s' = grant \<and> (\<forall>n < 5. bit (latch_out s' 0) n \<longleftrightarrow> \<not> bit grant n) \<and>
    ifs_intr_arbitration_pending s' = 0"
  unfolding l_def grant_def s'_def
  by (simp add: worker_cpu_grant worker_cpu_fields worker_cpu_lines next_grant_def)

theorem arbitrator_grants_by_priority_witness:
  "fst (sm_arb_worker_cpu (\<lambda>_ _ _. 0x06) (blank_pru\<lparr>ifs_intr_arbitration_pending := 1, ifs_priority_level := 5\<rparr>)) = 4"
  using arbitrator_grants_by_priority[of "\<lambda>_ _ _. 0x06"
      "blank_pru\<lparr>ifs_intr_arbitration_pending := 1, ifs_priority_level := 5\<rparr>"]
  by (simp add: any_request_def top_request_def BIT_def)

text \<open>C27.
  The arbitrator does not time out a grant while the request it answers stays asserted: with
  NPR held and SACK never raised, the grant stands after any number of looks and any time.
\<close>

fun arbitrator_looks :: "bus_lines \<Rightarrow> nat list \<Rightarrow> 'a statemachine_arbitration_t_scheme \<Rightarrow>
    'a statemachine_arbitration_t_scheme" where
  "arbitrator_looks bus [] s = s"
| "arbitrator_looks bus (n # ns) s = arbitrator_looks bus ns (cycles_pass n (snd (sm_arb_worker_cpu bus s)))"

lemma cycles_pass_grant [simp]: "arbitrator_grant_mask (cycles_pass n s) = arbitrator_grant_mask s"
  "latch_out (cycles_pass n s) = latch_out s"
  by (simp_all add: cycles_pass_def)

theorem held_request_is_never_timed_out:
  assumes held: "\<And>k out. bit (bus k out 1) 4" "\<And>k out. \<not> bit (bus k out 1) 5"
    and granted: "arbitrator_grant_mask s \<noteq> 0"
  shows "arbitrator_grant_mask (arbitrator_looks bus ns s) = arbitrator_grant_mask s"
  using granted
proof (induction ns arbitrary: s)
  case (Cons n ns)
  have "arbitrator_grant_mask (snd (sm_arb_worker_cpu bus s)) = arbitrator_grant_mask s"
    using held Cons.prems by (simp add: worker_cpu_grant next_grant_def)
  then show ?case using Cons by simp
qed simp

theorem held_request_is_never_timed_out_witness:
  "arbitrator_grant_mask (arbitrator_looks (\<lambda>_ _ _. 0x10) [1000000000, 1000000000]
     (blank_pru\<lparr>arbitrator_grant_mask := BIT 4\<rparr>)) = BIT 4"
  by (subst held_request_is_never_timed_out) (simp_all add: BIT_def bit_simps)

section \<open>Grants of a physical CPU\<close>

text \<open>
  The lines after a pass with a physical CPU, from the lines and requests before it.
\<close>

lemma start_master_fields [simp]:
  "device_forwarded_grant_mask (start_master g s) = device_forwarded_grant_mask s"
  "grant_bbsy_ssyn_wait_grant_mask (start_master g s) = grant_bbsy_ssyn_wait_grant_mask s"
  "latch_out (start_master g s) = latch_out s"
  by (simp_all add: start_master_def Let_def)

lemma worker_device_lines:
  "device_forwarded_grant_mask (snd (sm_arb_worker_device bus g s)) = device_forwarded_grant_mask s"
  "latch_out (snd (sm_arb_worker_device bus g s)) 0 = latch_out s 0"
  "bit (grant_bbsy_ssyn_wait_grant_mask (snd (sm_arb_worker_device bus g s))) k \<Longrightarrow>
   bit (grant_bbsy_ssyn_wait_grant_mask s) k \<or>
   bit g k \<and> bit (device_request_mask s) k \<and> \<not> bit (device_forwarded_grant_mask s) k"
  by (auto simp: sm_arb_worker_device_def sm_arb_cpu_access_def sm_arb_wait_grant_def sm_arb_wait_bus_def
      setbits_update buslatches_getbyte_def Let_def bit_and_iff bit_not_iff split: if_splits)

text \<open>C28.
  The grant chain, with a physical CPU: in each pass a grant the board has not asked for,
  or has passed on before, is passed to the next card and not accepted, whatever the board
  requests by then; a grant it did ask for is held back, and only such a grant is accepted.
  A grant passed on stays passed until the CPU drops it.
\<close>

theorem grants_passed_or_accepted:
  fixes s :: "'a pru_scheme" and bus :: bus_lines
  assumes client: "\<not> emulate_cpu s" "sm_device_arb_worker s = Arb_worker_device" and k: "k < 5"
  defines "granted \<equiv> bit (bus (bus_reads s) (latch_out s) 0) k"
    and "passed \<equiv> \<lambda>t. bit (device_forwarded_grant_mask t) k"
    and "grant_out \<equiv> \<lambda>t. \<not> bit (latch_out t 0) k"
    and "accepted \<equiv> \<lambda>t. bit (grant_bbsy_ssyn_wait_grant_mask t) k"
    and "s' \<equiv> arbitration_pass bus s"
  shows "passed s' = (granted \<and> (passed s \<or> \<not> bit (device_request_signalled_mask s) k)) \<and>
    grant_out s' = passed s' \<and>
    (accepted s' \<and> \<not> accepted s \<longrightarrow> granted \<and> \<not> passed s' \<and> bit (device_request_mask s) k)"
proof -
  let ?f = "forward_grants bus s"
  have f: "bit (fst ?f) k = granted" "passed (snd ?f) = (granted \<and> (passed s \<or> \<not> bit (device_request_signalled_mask s) k))"
    "grant_out (snd ?f) = passed (snd ?f)" "accepted (snd ?f) = accepted s"
    "device_request_mask (snd ?f) = device_request_mask s"
    "sm_device_arb_worker (snd ?f) = Arb_worker_device" "\<not> emulate_cpu (snd ?f)"
    using k client by (auto simp: forward_grants_def buslatches_getbyte_def setbits_update Let_def granted_def passed_def
        grant_out_def accepted_def bit_and_iff bit_or_iff bit_not_iff bit_merge_bits)
  have s': "s' = (if EVENT_IS_ACKED (ev_deviceregister (snd ?f))
      then let r = sm_arb_worker_device bus (fst ?f) ((snd ?f)\<lparr>diag_arbitration_passes := diag_arbitration_passes (snd ?f) + 1\<rparr>)
        in start_master (fst r) (snd r)
      else snd ?f)"
    using client f(6,7) by (simp add: s'_def arbitration_pass_def device_worker_def Let_def split_def)
  note w = worker_device_lines[of bus "fst ?f" "(snd ?f)\<lparr>diag_arbitration_passes := diag_arbitration_passes (snd ?f) + 1\<rparr>"]
  have "passed s' = passed (snd ?f)" "grant_out s' = grant_out (snd ?f)"
    by (simp_all add: s' w Let_def passed_def grant_out_def)
  moreover have "granted \<and> \<not> passed s' \<and> bit (device_request_mask s) k" if "accepted s'" "\<not> accepted s"
  proof (cases "EVENT_IS_ACKED (ev_deviceregister (snd ?f))")
    case True
    then show ?thesis
      using that w(3)[of k] f calculation(1) by (auto simp: s' Let_def accepted_def passed_def)
  next
    case False
    then show ?thesis using that f(4) by (simp add: s')
  qed
  ultimately show ?thesis using f(2,3) by blast
qed

theorem grants_passed_or_accepted_witness:
  "bit (device_forwarded_grant_mask (arbitration_pass (\<lambda>_ _ _. 0x10) blank_pru)) 4"
proof -
  have "bit (0x10 :: u8) 4" by simp
  then show ?thesis
    using grants_passed_or_accepted[of blank_pru 4 "\<lambda>_ _ _. 0x10"] by simp
qed

end
