(* ===== verification/PruDma_Props.thy ===== *)
theory PruDma_Props
  imports PruDma_Lemmas PruArb_Props
begin

unbundle bit_operations_syntax

text \<open>Properties of DMA transfers: whole blocks, bus timeouts, and the wait for SSYN.\<close>

section \<open>Blocks\<close>

lemma dma_start_between:
  assumes "card_ok lo hi s" "address_overlay s = 0" "dma_buscycle s \<in> {QUNIBUS_CYCLE_DATI, QUNIBUS_CYCLE_DATO}"
    and "0 < unat (dma_wordcount s)" "unat (dma_wordcount s) \<le> PRU_MAX_DMA_WORDCOUNT"
  obtains v where "master_step bus Dma_start s = Some (Some Dma_1, v)"
    "dma_between lo hi (unat (dma_wordcount s)) 0 v" "same_config s v"
    "dma_startaddr v = dma_startaddr s" "dma_wordcount v = dma_wordcount s" "dma_buscycle v = dma_buscycle s"
    "dma_words v = dma_words s" "ddr_words v = ddr_words s" "ev_dma v = ev_dma s"
  using assms that[of "snd (sm_dma_start s)"]
  by (simp add: sm_dma_start_def Let_def setbits_update dma_between_def card_ok_def same_config_def)

text \<open>
  A DMA request for \<open>n\<close> words, run to its end on an otherwise quiet bus.
\<close>

lemma dma_run:
  assumes "card_ok lo hi s" "address_overlay s = 0" "dma_buscycle s \<in> {QUNIBUS_CYCLE_DATI, QUNIBUS_CYCLE_DATO}"
    and "0 < unat (dma_wordcount s)" "unat (dma_wordcount s) \<le> PRU_MAX_DMA_WORDCOUNT" and quiet: "quiet_bus bus"
    and cells: "\<And>j. j < unat (dma_wordcount s) \<Longrightarrow> dma_startaddr s + 2 * of_nat j \<in> card_cells lo hi"
  defines "n \<equiv> unat (dma_wordcount s)"
  obtains t where "master_run (2 * n + 1) bus Dma_start s = Some (None, t)" "block_moved 0 n s t"
    "dma_cur_status t = DMA_STATE_READY" "dma_cur_addr t = dma_startaddr s + 2 * of_nat (n - 1)"
    "ev_dma t = EVENT_SIGNAL (ev_dma s)" "same_config s t"
    "\<not> bit (latch_out t 1) 5" "\<not> bit (latch_out t 1) 6" "latch_out t 4 AND 0x3F = 0"
    "address_overlay t = 0" "dma_wordcount t = dma_wordcount s" "dma_startaddr t = dma_startaddr s"
proof -
  from dma_start_between[OF assms(1-5), of bus] obtain v where
    v: "master_step bus Dma_start s = Some (Some Dma_1, v)" "dma_between lo hi n 0 v" "same_config s v"
      "dma_startaddr v = dma_startaddr s" "dma_wordcount v = dma_wordcount s" "dma_buscycle v = dma_buscycle s"
      "dma_words v = dma_words s" "ddr_words v = ddr_words s" "ev_dma v = ev_dma s"
    unfolding n_def by metis
  have cells': "dma_startaddr v + 2 * of_nat j \<in> card_cells lo hi" if "j < n" for j
    using cells that v(4) by (simp add: n_def)
  from dma_words_run[OF v(2) quiet cells'] obtain t where
    t: "master_run (2 * n) bus Dma_1 v = Some (None, t)" "block_moved 0 n v t"
      "dma_cur_status t = DMA_STATE_READY" "dma_cur_addr t = dma_startaddr v + 2 * of_nat (n - 1)"
      "ev_dma t = EVENT_SIGNAL (ev_dma v)" "same_config v t"
      "\<not> bit (latch_out t 1) 5" "\<not> bit (latch_out t 1) 6" "latch_out t 4 AND 0x3F = 0"
      "address_overlay t = 0" "dma_wordcount t = dma_wordcount v" "dma_startaddr t = dma_startaddr v"
    by (metis diff_zero)
  have "block_moved 0 n s t"
    using t(2) v(4,6,7,8) by (simp add: block_moved_def Let_def)
  moreover have "master_run (2 * n + 1) bus Dma_start s = Some (None, t)"
    using v(1) t(1) by simp
  ultimately show ?thesis
    using that t v same_config_trans[OF v(3) t(6)] by simp
qed

text \<open>C29.
  A DMA to the board's own memory card moves every word of the block to or from its
  address and changes no other word. It takes two state functions a word; at the end the
  request is READY with the address of the last word, BBSY, SACK, MSYN and SSYN are
  released, and the ARM has one event.
\<close>

theorem dma_block_transfer:
  assumes card: "card_ok lo hi s" and plain: "address_overlay s = 0"
    and cyc: "dma_buscycle s \<in> {QUNIBUS_CYCLE_DATI, QUNIBUS_CYCLE_DATO}"
    and count: "0 < unat (dma_wordcount s)" "unat (dma_wordcount s) \<le> PRU_MAX_DMA_WORDCOUNT"
    and quiet: "quiet_bus bus"
    and cells: "\<And>j. j < unat (dma_wordcount s) \<Longrightarrow> dma_startaddr s + 2 * of_nat j \<in> card_cells lo hi"
  defines "n \<equiv> unat (dma_wordcount s)" and "addr \<equiv> \<lambda>j. dma_startaddr s + 2 * of_nat j"
  shows "\<exists>t. master_run (2 * n + 1) bus Dma_start s = Some (None, t) \<and>
    (if dma_buscycle s = QUNIBUS_CYCLE_DATO
     then (\<forall>j < n. ddr_read t (addr j) = dma_words s j) \<and>
       (\<forall>k. (\<forall>j < n. k \<noteq> unat (addr j div 2)) \<longrightarrow> ddr_words t k = ddr_words s k)
     else (\<forall>j. dma_words t j = (if j < n then ddr_read s (addr j) else dma_words s j)) \<and> ddr_words t = ddr_words s) \<and>
    dma_cur_status t = DMA_STATE_READY \<and> dma_cur_addr t = addr (n - 1) \<and> ev_dma t = EVENT_SIGNAL (ev_dma s) \<and>
    \<not> bit (latch_out t 1) 5 \<and> \<not> bit (latch_out t 1) 6 \<and> latch_out t 4 AND 0x3F = 0"
proof -
  from dma_run[OF card plain cyc count quiet cells] obtain t where
    t: "master_run (2 * n + 1) bus Dma_start s = Some (None, t)" "block_moved 0 n s t"
      "dma_cur_status t = DMA_STATE_READY" "dma_cur_addr t = addr (n - 1)"
      "ev_dma t = EVENT_SIGNAL (ev_dma s)" "\<not> bit (latch_out t 1) 5" "\<not> bit (latch_out t 1) 6" "latch_out t 4 AND 0x3F = 0"
    unfolding n_def addr_def by metis
  have "QUNIBUS_CYCLE_IS_DATO (dma_buscycle s) \<longleftrightarrow> dma_buscycle s = QUNIBUS_CYCLE_DATO"
    using cyc by (auto simp: QUNIBUS_CYCLE_IS_DATO_def QUNIBUS_CYCLE_DATO_def QUNIBUS_CYCLE_DATI_def)
  then have "if dma_buscycle s = QUNIBUS_CYCLE_DATO
     then (\<forall>j < n. ddr_read t (addr j) = dma_words s j) \<and>
       (\<forall>k. (\<forall>j < n. k \<noteq> unat (addr j div 2)) \<longrightarrow> ddr_words t k = ddr_words s k)
     else (\<forall>j. dma_words t j = (if j < n then ddr_read s (addr j) else dma_words s j)) \<and> ddr_words t = ddr_words s"
    using t(2) card_in_ddr[OF cells] by (simp add: block_moved_def Let_def ddr_read_in addr_def n_def)
  with t show ?thesis by blast
qed

definition demo_dma :: pru where
  "demo_dma = blank_pru\<lparr>memory_limit_addr := (\<lambda>i. if i = 0 then 0x20000 else 0), dma_buscycle := 2,
     dma_wordcount := 3, dma_startaddr := 0x1000, dma_words := (\<lambda>i. of_nat (100 + i))\<rparr>"

lemma demo_dma_ok:
  "card_ok 0 0x20000 demo_dma" "address_overlay demo_dma = 0" "dma_buscycle demo_dma = 2"
  "unat (dma_wordcount demo_dma) = 3" "dma_wordcount demo_dma = 3"
  "dma_startaddr demo_dma = 0x1000" "dma_words demo_dma j = of_nat (100 + j)"
  "j < 3 \<Longrightarrow> dma_startaddr demo_dma + 2 * of_nat j \<in> card_cells 0 0x20000"
proof -
  show "card_ok 0 0x20000 demo_dma" "address_overlay demo_dma = 0" "dma_buscycle demo_dma = 2"
    "unat (dma_wordcount demo_dma) = 3" "dma_wordcount demo_dma = 3" "dma_startaddr demo_dma = 0x1000"
    "dma_words demo_dma j = of_nat (100 + j)"
    by (simp_all add: demo_dma_def card_ok_def blank_pru_def main_init_def Let_def iopageregisters_init_def
        buslatches_reset_def sm_arb_reset_def MAILBOX_DIAG_RESET_def setbits_update buslatches_setbyte_def
        timeout_cleanup_def timeout_init_def TIMEOUT_SACK_def TIMEOUT_COUNT_def)
  then show "j < 3 \<Longrightarrow> dma_startaddr demo_dma + 2 * of_nat j \<in> card_cells 0 0x20000"
    by (auto simp: less_Suc_eq numeral_3_eq_3 card_cells_def)
qed

theorem dma_block_transfer_witness:
  "\<exists>t. master_run 7 idle_bus Dma_start demo_dma = Some (None, t) \<and> ddr_read t 0x1004 = 102"
proof -
  have "dma_startaddr demo_dma + 2 * of_nat j \<in> card_cells 0 0x20000" if "j < unat (dma_wordcount demo_dma)" for j
    using that demo_dma_ok(8) by (simp add: demo_dma_ok(4))
  from dma_block_transfer[OF demo_dma_ok(1,2) _ _ _ quiet_idle_bus this]
  have "\<exists>t. master_run (2 * 3 + 1) idle_bus Dma_start demo_dma = Some (None, t) \<and>
      (\<forall>j < 3. ddr_read t (0x1000 + 2 * of_nat j) = dma_words demo_dma j)"
    by (simp add: demo_dma_ok QUNIBUS_CYCLE_DATO_def PRU_MAX_DMA_WORDCOUNT_def) blast
  then obtain t where t: "master_run (2 * 3 + 1) idle_bus Dma_start demo_dma = Some (None, t)"
    "\<forall>j < 3. ddr_read t (0x1000 + 2 * of_nat j) = dma_words demo_dma j" by blast
  have "ddr_read t 0x1004 = 102" using t(2)[rule_format, of 2] by (simp add: demo_dma_ok(7))
  with t(1) show ?thesis by auto
qed

text \<open>
  What a DMA write stores, a DMA read of the same block brings back, word for word,
  whatever the buffer held in between.
\<close>

theorem dma_write_read_roundtrip:
  assumes card: "card_ok lo hi s" and plain: "address_overlay s = 0" and dato: "dma_buscycle s = QUNIBUS_CYCLE_DATO"
    and count: "0 < unat (dma_wordcount s)" "unat (dma_wordcount s) \<le> PRU_MAX_DMA_WORDCOUNT"
    and quiet: "quiet_bus bus"
    and cells: "\<And>j. j < unat (dma_wordcount s) \<Longrightarrow> dma_startaddr s + 2 * of_nat j \<in> card_cells lo hi"
  defines "n \<equiv> unat (dma_wordcount s)"
  shows "\<exists>t u. master_run (2 * n + 1) bus Dma_start s = Some (None, t) \<and>
    master_run (2 * n + 1) bus Dma_start (t\<lparr>dma_buscycle := QUNIBUS_CYCLE_DATI, dma_words := junk\<rparr>) = Some (None, u) \<and>
    (\<forall>j < n. dma_words u j = dma_words s j)"
proof -
  from dma_run[OF card plain _ count quiet cells] obtain t where
    t: "master_run (2 * n + 1) bus Dma_start s = Some (None, t)" "block_moved 0 n s t" "same_config s t"
      "address_overlay t = 0" "dma_wordcount t = dma_wordcount s" "dma_startaddr t = dma_startaddr s"
    using dato unfolding n_def by blast
  let ?t = "t\<lparr>dma_buscycle := QUNIBUS_CYCLE_DATI, dma_words := junk\<rparr>"
  have t': "card_ok lo hi ?t" "address_overlay ?t = 0" "dma_buscycle ?t \<in> {QUNIBUS_CYCLE_DATI, QUNIBUS_CYCLE_DATO}"
    "0 < unat (dma_wordcount ?t)" "unat (dma_wordcount ?t) \<le> PRU_MAX_DMA_WORDCOUNT"
    "\<And>j. j < unat (dma_wordcount ?t) \<Longrightarrow> dma_startaddr ?t + 2 * of_nat j \<in> card_cells lo hi"
    using card card_ok_config[OF t(3), of lo hi] count cells t by (simp_all add: card_ok_def)
  from dma_run[OF t'(1-5) quiet t'(6)] obtain u where
    u: "master_run (2 * n + 1) bus Dma_start ?t = Some (None, u)" "block_moved 0 n ?t u"
    using t(5) unfolding n_def by auto
  have "dma_words u j = dma_words s j" if "j < n" for j
  proof -
    have "dma_words u j = ddr_words t (unat ((dma_startaddr s + 2 * of_nat j) div 2))"
      using u(2) that t(6) by (simp add: block_moved_def Let_def QUNIBUS_CYCLE_IS_DATO_def QUNIBUS_CYCLE_DATI_def)
    also have "\<dots> = dma_words s j"
      using t(2) that dato by (simp add: block_moved_def Let_def QUNIBUS_CYCLE_IS_DATO_def
          QUNIBUS_CYCLE_DATO_def n_def)
    finally show ?thesis .
  qed
  with t(1) u(1) show ?thesis by blast
qed

theorem dma_write_read_roundtrip_witness:
  "\<exists>t u. master_run 7 idle_bus Dma_start demo_dma = Some (None, t) \<and>
    master_run 7 idle_bus Dma_start (t\<lparr>dma_buscycle := QUNIBUS_CYCLE_DATI, dma_words := \<lambda>_. 0\<rparr>) = Some (None, u) \<and>
    dma_words u 1 = 101"
proof -
  have "dma_startaddr demo_dma + 2 * of_nat j \<in> card_cells 0 0x20000" if "j < unat (dma_wordcount demo_dma)" for j
    using that demo_dma_ok(8) by (simp add: demo_dma_ok(4))
  from dma_write_read_roundtrip[OF demo_dma_ok(1,2) _ _ _ quiet_idle_bus this, of "\<lambda>_. 0"]
  obtain t u where "master_run (2 * 3 + 1) idle_bus Dma_start demo_dma = Some (None, t)"
    "master_run (2 * 3 + 1) idle_bus Dma_start (t\<lparr>dma_buscycle := QUNIBUS_CYCLE_DATI, dma_words := \<lambda>_. 0\<rparr>) = Some (None, u)"
    "\<forall>j < 3. dma_words u j = dma_words demo_dma j"
    by (auto simp: demo_dma_ok QUNIBUS_CYCLE_DATO_def PRU_MAX_DMA_WORDCOUNT_def)
  then show ?thesis by (auto simp: demo_dma_ok(7))
qed


section \<open>Bus timeouts\<close>

lemma timeout_set_keeps:
  fixes s :: "'a statemachine_dma_t_scheme"
  shows "latch_out (timeout_set i d s) = latch_out s" "cur_reg_val (timeout_set i d s) = cur_reg_val s"
    "dma_cur_addr (timeout_set i d s) = dma_cur_addr s" "ev_dma (timeout_set i d s) = ev_dma s"
    "ddr_words (timeout_set i d s) = ddr_words s" "dma_cur_status (timeout_set i d s) = dma_cur_status s"
  by (simp_all add: timeout_set_def Let_def)

lemma cycles_pass_keeps:
  fixes s :: "'a statemachine_dma_t_scheme"
  shows "cur_reg_val (cycles_pass n s) = cur_reg_val s" "dma_cur_addr (cycles_pass n s) = dma_cur_addr s"
    "ev_dma (cycles_pass n s) = ev_dma s" "ddr_words (cycles_pass n s) = ddr_words s"
    "dma_cur_status (cycles_pass n s) = dma_cur_status s" "state_timeout (cycles_pass n s) = state_timeout s"
  by (simp_all add: cycles_pass_def)

text \<open>The two states that wait for the SSYN of an external slave.\<close>

lemma poll_waits:
  assumes "w \<in> {Dma_11, Dma_21}" "\<not> fst (timeout_reached TIMEOUT_DMA s)" "quiet_bus bus" "\<not> bit (latch_out s 4) 5"
  shows "master_step bus w s = Some (Some w, s\<lparr>state_timeout := False, bus_reads := Suc (bus_reads s)\<rparr>)"
proof -
  have "timeout_reached TIMEOUT_DMA s = (False, s)"
    using assms(2) by (auto simp: timeout_reached_def split: if_splits)
  then show ?thesis
    using assms(1,3,4) by (auto simp: sm_dma_state_11_def sm_dma_state_21_def Let_def buslatches_getbyte_def and_BIT quiet_bus_def)
qed

lemma poll_times_out:
  assumes "w \<in> {Dma_11, Dma_21}" "fst (timeout_reached TIMEOUT_DMA s)"
  obtains u where "master_step bus w s = Some (Some Dma_99, u)" "state_timeout u" "dma_cur_addr u = dma_cur_addr s"
    "ev_dma u = ev_dma s" "ddr_words u = ddr_words s"
proof -
  let ?t = "snd (timeout_reached TIMEOUT_DMA s)"
  have t: "timeout_reached TIMEOUT_DMA s = (True, ?t)" using assms(2) by (simp add: prod_eq_iff)
  have keep: "dma_cur_addr ?t = dma_cur_addr s" "ev_dma ?t = ev_dma s" "ddr_words ?t = ddr_words s"
    by (simp_all add: timeout_reached_def)
  define r where "r = ?t"
  have t': "timeout_reached TIMEOUT_DMA s = (True, r)" using t by (simp add: r_def)
  show ?thesis
    using assms(1) that keep
    by (auto simp: sm_dma_state_11_def sm_dma_state_21_def Let_def t' buslatches_getbyte_def dataptr_put_def
        setbits_update buslatches_setbyte_def r_def[symmetric])
qed

lemma dma_99_timeout:
  assumes "state_timeout s"
  obtains t where "master_step bus Dma_99 s = Some (None, t)" "dma_released DMA_STATE_TIMEOUTSTOP s t"
    "\<not> bit (latch_out t 1) 5"
proof -
  let ?u = "buslatches_setbits 1 (BIT 5) 0 s"
  have f: "sm_dma_final_state bus s = (DMA_STATE_TIMEOUTSTOP, ?u)"
    using assms by (simp add: sm_dma_final_state_def)
  obtain t where t: "master_step bus Dma_99 s = Some (None, t)" "dma_released DMA_STATE_TIMEOUTSTOP s t"
    "bit (cur_reg_val t 1) 5 = bit (cur_reg_val ?u 1) 5"
    by (rule dma_99_end_fields[of bus s DMA_STATE_TIMEOUTSTOP ?u])
      (simp_all add: f DMA_STATE_TIMEOUTSTOP_def DMA_STATE_RUNNING_def same_config_def setbits_update)
  then have "\<not> bit (latch_out t 1) 5" by (simp add: dma_released_def bit_merge_bits)
  with t show ?thesis using that by blast
qed

text \<open>State 1 at an address the board does not answer: MSYN is on the bus and the timer is set.\<close>

lemma dma_1_external:
  assumes run: "dma_cur_status s = DMA_STATE_RUNNING" "dma_wordcount s \<noteq> 0" and plain: "address_overlay s = 0"
    and nobody: "reaches s (dma_cur_addr s) = Nothing" and quiet: "quiet_bus bus"
  obtains w r where "w \<in> {Dma_11, Dma_21}"
    "master_step bus Dma_1 s = Some (Some w, timeout_set TIMEOUT_DMA (MICROSECS UNIBUS_TIMEOUT_PERIOD_US) r)"
    "ctrl_cycle r = ctrl_cycle s" "\<not> bit (latch_out r 4) 5" "bit (latch_out r 4) 4" "dma_cur_addr r = dma_cur_addr s"
    "ev_dma r = ev_dma s" "ddr_words r = ddr_words s"
proof -
  let ?s1 = "if cur_wordsleft s = 1 then buslatches_setbits 1 (BIT 5) 0 s else s"
  let ?a = "dma_cur_addr s"
  let ?s2 = "buslatches_setbyte 3 (ucast (drop_bit 8 ?a)) (buslatches_setbyte 2 (ucast ?a) (?s1\<lparr>state_timeout := False\<rparr>))"
  have f2: "reaches ?s2 ?a = Nothing" "ctrl_cycle ?s2 = ctrl_cycle s" "dma_cur_addr ?s2 = ?a" "ev_dma ?s2 = ev_dma s"
    "ddr_words ?s2 = ddr_words s" "dma_buscycle ?s2 = dma_buscycle s"
  proof -
    have "reaches ?s2 ?a = reaches s ?a"
      by (rule same_config_reaches) (simp add: setbits_update buslatches_setbyte_def same_config_def)
    then show "reaches ?s2 ?a = Nothing" using nobody by simp
  qed (simp_all add: setbits_update buslatches_setbyte_def)
  define s2 where "s2 = ?s2"
  note f2 = f2[folded s2_def]
  have step: "master_step bus Dma_1 s = (if QUNIBUS_CYCLE_IS_DATO (dma_buscycle s)
      then sm_dma_dato bus ?a (dma_buscycle s) s2 else Some (sm_dma_dati ?a s2))"
    using run plain by (simp add: sm_dma_state_1_def Let_def setbits_update s2_def)
  have three: "bit (0x3F :: u8) 5" "bit (0x3F :: u8) 4" by simp_all
  show ?thesis
  proof (cases "QUNIBUS_CYCLE_IS_DATO (dma_buscycle s)")
    case False
    let ?b = "buslatches_setbits 4 (BIT 4) (BIT 4) (buslatches_setbits 4 0x3F (ucast (drop_bit 16 ?a AND 3)) s2)"
    let ?r = "snd (emulated_addr_read ?a ?b)"
    have cb: "reaches ?b ?a = Nothing"
      using f2(1) by simp
    define r where "r = ?r"
    have e: "emulated_addr_read ?a ?b = (None, r)"
      using cb by (simp add: prod_eq_iff read_spec r_def)
    have frame: "mailbox_event_deviceregister_t.more r = mailbox_event_deviceregister_t.more ?b"
      unfolding r_def by (rule read_more)
    have words: "ddr_words r = ddr_words s"
      using f2(5) by (simp add: r_def read_keeps setbits_update)
    have "master_step bus Dma_1 s = Some (Some Dma_11, timeout_set TIMEOUT_DMA (MICROSECS UNIBUS_TIMEOUT_PERIOD_US) r)"
      unfolding step using False by (simp add: sm_dma_dati_def Let_def e)
    then show ?thesis
      by (rule that[rotated])
        (use f2 words in \<open>simp_all add: latch_frame[OF frame] dma_frame[OF frame]
          timer_frame[OF frame] bit_merge_bits three bit_ucast_iff bit_and_iff setbits_update\<close>)
  next
    case True
    let ?cyc = "dma_buscycle s"
    let ?v = "ucast (drop_bit 16 ?a AND 3) OR (if ?cyc = QUNIBUS_CYCLE_DATOB then BIT 3 OR BIT 2 else BIT 3)"
    define g where "g = dataptr_get (buslatches_setbits 4 0x3F ?v s2)"
    define h where "h = buslatches_setbyte 6 (ucast (drop_bit 8 (fst g))) (buslatches_setbyte 5 (ucast (fst g)) (snd g))"
    have g: "latch_out (snd g) 4 = merge_bits (cur_reg_val s2 4) ?v 0x3F" "cur_reg_val (snd g) 4 = merge_bits (cur_reg_val s2 4) ?v 0x3F"
      "ctrl_cycle (snd g) = ctrl_cycle s2" "dma_cur_addr (snd g) = dma_cur_addr s2" "ev_dma (snd g) = ev_dma s2"
      "ddr_words (snd g) = ddr_words s2" "same_config s2 (snd g)"
      by (simp_all add: g_def dataptr_get_def setbits_update same_config_def)
    have "\<not> bit (latch_out h 4) 5" by (simp add: h_def g bit_merge_bits three bit_or_iff bit_ucast_iff bit_and_iff)
    then have wait: "wait_ssyn_inactive bus h = Some (h\<lparr>bus_reads := Suc (bus_reads h)\<rparr>)"
      by (rule wait_ssyn_quiet[OF quiet])
    define b where "b = buslatches_setbits 4 (BIT 4) (BIT 4) (h\<lparr>bus_reads := Suc (bus_reads h)\<rparr>)"
    have b: "bit (latch_out b 4) 4" "\<not> bit (latch_out b 4) 5" "ctrl_cycle b = ctrl_cycle s" "dma_cur_addr b = ?a"
      "ev_dma b = ev_dma s" "ddr_words b = ddr_words s"
      using f2 by (simp_all add: b_def h_def g bit_merge_bits three bit_or_iff bit_ucast_iff bit_and_iff
          setbits_update buslatches_setbyte_def)
    have "same_config s2 b" using g(7) by (simp add: b_def h_def same_config_def setbits_update buslatches_setbyte_def)
    then have nob: "reaches b ?a = Nothing" using f2(1) same_config_reaches[of s2 b] by simp
    define r where "r = snd (if ?cyc = QUNIBUS_CYCLE_DATOB
        then emulated_addr_write_b ?a (if ?a AND 1 \<noteq> 0 then ucast (drop_bit 8 (fst g)) else ucast (fst g)) b
        else emulated_addr_write_w ?a (fst g) b)"
    have frame: "mailbox_event_deviceregister_t.more r = mailbox_event_deviceregister_t.more b"
      by (simp add: r_def)
    have e: "(if ?cyc = QUNIBUS_CYCLE_DATOB
        then emulated_addr_write_b ?a (if ?a AND 1 \<noteq> 0 then ucast (drop_bit 8 (fst g)) else ucast (fst g)) b
        else emulated_addr_write_w ?a (fst g) b) = (False, r)" and words: "ddr_words r = ddr_words b"
      using nob write_w_spec[of "fst g" ?a b]
        write_b_spec[of ?a "if ?a AND 1 \<noteq> 0 then ucast (drop_bit 8 (fst g)) else ucast (fst g)" b]
      by (auto simp: prod_eq_iff r_def write_effect_def inside_def)
    have "sm_dma_dato bus ?a ?cyc s2 = Some (Some Dma_21, timeout_set TIMEOUT_DMA (MICROSECS UNIBUS_TIMEOUT_PERIOD_US) r)"
      by (simp only: sm_dma_dato_def Let_def split_def g_def[symmetric] h_def[symmetric] wait option.case
          b_def[symmetric] e fst_conv snd_conv if_False)
    then have "master_step bus Dma_1 s = Some (Some Dma_21, timeout_set TIMEOUT_DMA (MICROSECS UNIBUS_TIMEOUT_PERIOD_US) r)"
      unfolding step using True by simp
    then show ?thesis
      by (rule that[rotated])
        (use b words in \<open>simp_all add: latch_frame[OF frame] dma_frame[OF frame] timer_frame[OF frame]\<close>)
  qed
qed

text \<open>C31.
  A bus timeout: when nobody answers the address of a transfer, the master waits - it keeps
  MSYN, watches SSYN, and polls the timer as often as it likes - until 20 microseconds less
  the timer overhead have passed, and the next poll ends the transfer. It is reported as
  TIMEOUTSTOP with the offending address, the memory is untouched, and BBSY, SACK, MSYN and
  the address lines are released.
\<close>

theorem dma_bus_timeout:
  assumes run: "dma_cur_status s = DMA_STATE_RUNNING" "dma_wordcount s \<noteq> 0" and plain: "address_overlay s = 0"
    and nobody: "reaches s (dma_cur_addr s) = Nothing" and quiet: "quiet_bus bus"
    and room: "unat (ctrl_cycle s) + 4000 < 2 ^ 32"
  shows "\<exists>w t. master_step bus Dma_1 s = Some (Some w, t) \<and> bit (latch_out t 4) 4 \<and>
    (\<forall>n < 3976. master_step bus w (cycles_pass n t) =
       Some (Some w, (cycles_pass n t)\<lparr>state_timeout := False, bus_reads := Suc (bus_reads (cycles_pass n t))\<rparr>)) \<and>
    (\<forall>n \<ge> 3976. \<exists>v. master_run 2 bus w (cycles_pass n t) = Some (None, v) \<and>
       dma_cur_status v = DMA_STATE_TIMEOUTSTOP \<and> dma_cur_addr v = dma_cur_addr s \<and> ddr_words v = ddr_words s \<and>
       ev_dma v = EVENT_SIGNAL (ev_dma s) \<and> \<not> bit (latch_out v 1) 5 \<and> \<not> bit (latch_out v 1) 6 \<and>
       latch_out v 2 = 0 \<and> latch_out v 3 = 0 \<and> latch_out v 4 AND 0x3F = 0)"
proof -
  from dma_1_external[OF run plain nobody quiet] obtain w r where
    w: "w \<in> {Dma_11, Dma_21}" and
    t: "master_step bus Dma_1 s = Some (Some w, timeout_set TIMEOUT_DMA (MICROSECS UNIBUS_TIMEOUT_PERIOD_US) r)" and
    r: "ctrl_cycle r = ctrl_cycle s" "\<not> bit (latch_out r 4) 5" "bit (latch_out r 4) 4" "dma_cur_addr r = dma_cur_addr s"
      "ev_dma r = ev_dma s" "ddr_words r = ddr_words s" by metis
  let ?t = "timeout_set TIMEOUT_DMA (MICROSECS UNIBUS_TIMEOUT_PERIOD_US) r"
  have us: "MICROSECS UNIBUS_TIMEOUT_PERIOD_US = 4000" by (simp add: MICROSECS_def UNIBUS_TIMEOUT_PERIOD_US_def)
  have reached: "fst (timeout_reached TIMEOUT_DMA (cycles_pass n ?t)) \<longleftrightarrow> 3976 \<le> n" for n
    using timer_fires[of "MICROSECS UNIBUS_TIMEOUT_PERIOD_US" r TIMEOUT_DMA n] room r(1)
    by (simp add: us TIMEOUT_INTERNAL_CYCLES_def)
  have early: "master_step bus w (cycles_pass n ?t) =
      Some (Some w, (cycles_pass n ?t)\<lparr>state_timeout := False, bus_reads := Suc (bus_reads (cycles_pass n ?t))\<rparr>)"
    if "n < 3976" for n
    using poll_waits[OF w _ quiet, of "cycles_pass n ?t"] reached[of n] that r(2) by (simp add: timeout_set_keeps)
  have late: "\<exists>v. master_run 2 bus w (cycles_pass n ?t) = Some (None, v) \<and>
       dma_cur_status v = DMA_STATE_TIMEOUTSTOP \<and> dma_cur_addr v = dma_cur_addr s \<and> ddr_words v = ddr_words s \<and>
       ev_dma v = EVENT_SIGNAL (ev_dma s) \<and> \<not> bit (latch_out v 1) 5 \<and> \<not> bit (latch_out v 1) 6 \<and>
       latch_out v 2 = 0 \<and> latch_out v 3 = 0 \<and> latch_out v 4 AND 0x3F = 0" if "3976 \<le> n" for n
  proof -
    from poll_times_out[OF w, of "cycles_pass n ?t" bus] reached[of n] that obtain u where
      u: "master_step bus w (cycles_pass n ?t) = Some (Some Dma_99, u)" "state_timeout u"
        "dma_cur_addr u = dma_cur_addr s" "ev_dma u = ev_dma s" "ddr_words u = ddr_words s"
      using r(4-6) by (metis timeout_set_keeps(3-5) cycles_pass_keeps(2-4))
    from dma_99_timeout[OF u(2), of bus] obtain v where
      v: "master_step bus Dma_99 u = Some (None, v)" "dma_released DMA_STATE_TIMEOUTSTOP u v" "\<not> bit (latch_out v 1) 5" by metis
    have "master_run 2 bus w (cycles_pass n ?t) = Some (None, v)"
      using u(1) v(1) by (simp add: numeral_2_eq_2)
    then show ?thesis using v(2,3) u(3-5) by (auto simp: dma_released_def)
  qed
  show ?thesis
    using t early late r(3) by (intro exI[of _ w] exI[of _ ?t]) (auto simp: timeout_set_keeps)
qed


theorem dma_bus_timeout_witness:
  "\<exists>w t v. master_step idle_bus Dma_1 (demo_dma\<lparr>dma_cur_status := 2, dma_cur_addr := 0x30000\<rparr>) = Some (Some w, t) \<and>
    master_run 2 idle_bus w (cycles_pass 4000 t) = Some (None, v) \<and> dma_cur_addr v = 0x30000"
proof -
  let ?s = "demo_dma\<lparr>dma_cur_status := 2, dma_cur_addr := 0x30000\<rparr>"
  have s: "dma_cur_status ?s = DMA_STATE_RUNNING" "dma_wordcount ?s \<noteq> 0" "address_overlay ?s = 0"
    "unat (ctrl_cycle ?s) + 4000 < 2 ^ 32" "dma_cur_addr ?s = 0x30000" "reaches ?s (dma_cur_addr ?s) = Nothing"
    by (simp_all add: demo_dma_ok DMA_STATE_RUNNING_def)
      (simp_all add: demo_dma_def reaches_def DDRMEM_ADDR_IN_SLOT_def IOPAGE_REGISTER_ENTRY_def blank_pru_def
        main_init_def Let_def iopageregisters_init_def buslatches_reset_def sm_arb_reset_def MAILBOX_DIAG_RESET_def
        setbits_update buslatches_setbyte_def timeout_cleanup_def timeout_init_def TIMEOUT_SACK_def TIMEOUT_COUNT_def)
  from dma_bus_timeout[OF s(1-3,6) quiet_idle_bus s(4)] obtain w t where
    w: "master_step idle_bus Dma_1 ?s = Some (Some w, t)" and late: "\<forall>n \<ge> 3976. \<exists>v. master_run 2 idle_bus w (cycles_pass n t) = Some (None, v) \<and>
       dma_cur_status v = DMA_STATE_TIMEOUTSTOP \<and> dma_cur_addr v = dma_cur_addr ?s" by blast
  have "(3976 :: nat) \<le> 4000" by simp
  with late have "\<exists>v. master_run 2 idle_bus w (cycles_pass 4000 t) = Some (None, v) \<and>
      dma_cur_status v = DMA_STATE_TIMEOUTSTOP \<and> dma_cur_addr v = dma_cur_addr ?s" by blast
  then show ?thesis using w unfolding s(5) by blast
qed

text \<open>
  Before a DMA write puts MSYN on the bus it waits in place for the SSYN of the cycle
  before. That wait returns exactly when some later look at the lines finds SSYN negated,
  and then it has looked until the first such moment and changed nothing else; with SSYN
  held forever the firmware hangs there.
\<close>

theorem ssyn_wait_terminates_iff:
  "(\<exists>t. wait_ssyn_inactive bus s = Some t) =
     (\<exists>k. \<not> bit (bus (bus_reads s + k) (latch_out s) 4) 5) \<and>
   (\<forall>k. (\<forall>j < k. bit (bus (bus_reads s + j) (latch_out s) 4) 5) \<and> \<not> bit (bus (bus_reads s + k) (latch_out s) 4) 5 \<longrightarrow>
     wait_ssyn_inactive bus s = Some (s\<lparr>bus_reads := bus_reads s + Suc k\<rparr>))"
proof (intro conjI allI impI iffI)
  assume "\<exists>t. wait_ssyn_inactive bus s = Some t"
  then show "\<exists>k. \<not> bit (bus (bus_reads s + k) (latch_out s) 4) 5" by (auto dest: wait_ssyn_returns)
next
  assume "\<exists>k. \<not> bit (bus (bus_reads s + k) (latch_out s) 4) 5"
  from this[unfolded exists_least_iff[of "\<lambda>k. \<not> bit (bus (bus_reads s + k) (latch_out s) 4) 5"]]
  obtain k where "\<not> bit (bus (bus_reads s + k) (latch_out s) 4) 5"
    "\<forall>j < k. bit (bus (bus_reads s + j) (latch_out s) 4) 5" by blast
  then show "\<exists>t. wait_ssyn_inactive bus s = Some t" using wait_ssyn_ends by blast
next
  fix k
  assume "(\<forall>j < k. bit (bus (bus_reads s + j) (latch_out s) 4) 5) \<and> \<not> bit (bus (bus_reads s + k) (latch_out s) 4) 5"
  then show "wait_ssyn_inactive bus s = Some (s\<lparr>bus_reads := bus_reads s + Suc k\<rparr>)"
    using wait_ssyn_ends by blast
qed

theorem ssyn_wait_terminates_iff_witness:
  "\<exists>t. wait_ssyn_inactive (\<lambda>n _ _. if n < 5 then 0x20 else 0) blank_pru = Some t"
proof -
  have "\<not> bit ((if (0 :: nat) + 5 < 5 then 0x20 else 0 :: u8)) 5" by simp
  then show ?thesis
    using ssyn_wait_terminates_iff[of "\<lambda>n _ _. if n < 5 then 0x20 else 0" blank_pru]
    by (metis (no_types, lifting) blank_pru_fields(3))
qed

end
