(* ===== verification/PruSlave_Props.thy ===== *)
theory PruSlave_Props
  imports PruDma_Props
begin

unbundle bit_operations_syntax

text \<open>Properties of interrupt transfers and of the answers to other bus masters.\<close>

section \<open>Interrupt vectors\<close>

text \<open>
  A backplane with no other card driving the data section: SSYN, INTR and the data lines
  show what the board drives, INIT is negated.
\<close>

definition own_lines :: "bus_lines \<Rightarrow> bool" where
  "own_lines bus \<longleftrightarrow> (\<forall>n out. bit (bus n out 4) 5 = bit (out 4) 5 \<and> bus n out 5 = out 5 \<and> bus n out 6 = out 6 \<and>
     bit (bus n out 7) 0 = bit (out 7) 0 \<and> \<not> bit (bus n out 7) 3)"

text \<open>C33.
  An interrupt of an emulated device reaches the emulated CPU of the same board: the vector
  the master puts on the bus is the vector reported to the ARM, with the level it was
  granted at; from then on the CPU's level counts as unknown. The master ends only when
  the CPU side asserts SSYN and the last event of that level was acknowledged, the CPU side
  only when its event is acknowledged and INTR is gone; then every line is released.
\<close>

theorem intr_vector_roundtrip:
  assumes own: "own_lines bus" and free: "EVENT_IS_ACKED (ev_intr_master s (sm_intr_level_index s))"
    "EVENT_IS_ACKED (ev_intr_slave s)"
  shows "\<exists>s1 s2 s3 s4. master_run 2 bus Intr_start s = Some (Some Intr_2, s1) \<and>
    intr_slave_step bus Intr_slave_start s1 = (Some Intr_slave_1, s2) \<and>
    ev_intr_slave_vector s2 = sm_intr_vector s \<and> ev_intr_slave_level s2 = granted_intr_level s \<and>
    ifs_priority_level s2 = CPU_PRIORITY_LEVEL_FETCHING \<and> \<not> EVENT_IS_ACKED (ev_intr_slave s2) \<and>
    intr_slave_step bus Intr_slave_1 s2 = (Some Intr_slave_1, s2) \<and>
    master_step bus Intr_2 s2 = Some (None, s3) \<and>
    ev_intr_master s3 = (ev_intr_master s)(sm_intr_level_index s :=
      EVENT_SIGNAL (ev_intr_master s (sm_intr_level_index s))) \<and>
    \<not> bit (latch_out s3 1) 5 \<and> \<not> bit (latch_out s3 1) 6 \<and> \<not> bit (latch_out s3 7) 0 \<and> latch_out s3 5 = 0 \<and> latch_out s3 6 = 0 \<and>
    intr_slave_step bus Intr_slave_1 (s3\<lparr>ev_intr_slave := EVENT_ACK (ev_intr_slave s3)\<rparr>) = (None, s4) \<and>
    \<not> bit (latch_out s4 4) 5"
proof -
  let ?v = "sm_intr_vector s"
  define s1 where "s1 = snd (sm_intr_master_state_1 (snd (sm_intr_master_start s)))"
  have run: "master_run 2 bus Intr_start s = Some (Some Intr_2, s1)"
    by (simp add: numeral_2_eq_2 s1_def sm_intr_master_start_def sm_intr_master_state_1_def Let_def)
  have f1: "latch_out s1 5 = ucast ?v" "latch_out s1 6 = ucast (drop_bit 8 ?v)" "bit (latch_out s1 7) 0"
    "\<not> bit (cur_reg_val s1 1) 5" "ev_intr_slave s1 = ev_intr_slave s" "granted_intr_level s1 = granted_intr_level s"
    "sm_intr_level_index s1 = sm_intr_level_index s" "ev_intr_master s1 = ev_intr_master s"
    by (simp_all add: s1_def sm_intr_master_start_def sm_intr_master_state_1_def Let_def setbits_update
        buslatches_setbyte_def bit_merge_bits)
  define s2 where "s2 = snd (sm_intr_slave_start bus s1)"
  have line: "bit (bus n (latch_out s1) 7) 0" "bus n (latch_out s1) 5 = ucast ?v" "bus n (latch_out s1) 6 = ucast (drop_bit 8 ?v)" for n
    using own f1 by (simp_all add: own_lines_def)
  have start: "intr_slave_step bus Intr_slave_start s1 = (Some Intr_slave_1, s2)"
    using line by (simp add: s2_def sm_intr_slave_start_def buslatches_getbyte_def Let_def and_BIT)
  have f2: "ev_intr_slave_vector s2 = ?v" "ev_intr_slave_level s2 = granted_intr_level s"
    "ifs_priority_level s2 = CPU_PRIORITY_LEVEL_FETCHING" "ev_intr_slave s2 = EVENT_SIGNAL (ev_intr_slave s)"
    "bit (latch_out s2 4) 5" "bit (cur_reg_val s2 4) 5" "\<not> bit (cur_reg_val s2 1) 5"
    "sm_intr_level_index s2 = sm_intr_level_index s" "ev_intr_master s2 = ev_intr_master s"
    using f1 line by (simp_all add: s2_def sm_intr_slave_start_def buslatches_getbyte_def Let_def and_BIT setbits_update
        PRU2ARM_INTERRUPT_def bit_merge_bits word_of_bytes)
  have open_event: "\<not> EVENT_IS_ACKED (ev_intr_slave s2)"
    using free(2) f2(4) by (simp add: EVENT_IS_ACKED_def EVENT_SIGNAL_def)
  have wait: "intr_slave_step bus Intr_slave_1 s2 = (Some Intr_slave_1, s2)"
    using open_event by (simp add: sm_intr_slave_state_1_def)
  define s3 where "s3 = snd (sm_intr_master_state_2 bus s2)"
  have ssyn: "bit (bus n (latch_out s2) 4) 5" for n using own f2(5) by (simp add: own_lines_def)
  have acked: "EVENT_IS_ACKED (ev_intr_master s2 (sm_intr_level_index s2))" using free(1) f2(8,9) by simp
  have finish: "master_step bus Intr_2 s2 = Some (None, s3)"
    using ssyn acked by (simp add: s3_def sm_intr_master_state_2_def buslatches_getbyte_def Let_def and_BIT)
  have f3: "ev_intr_master s3 = (ev_intr_master s)(sm_intr_level_index s :=
      EVENT_SIGNAL (ev_intr_master s (sm_intr_level_index s)))" "\<not> bit (latch_out s3 1) 5" "\<not> bit (latch_out s3 1) 6"
    "\<not> bit (latch_out s3 7) 0" "latch_out s3 5 = 0" "latch_out s3 6 = 0" "ev_intr_slave s3 = EVENT_SIGNAL (ev_intr_slave s)"
    using ssyn acked f2 by (simp_all add: s3_def sm_intr_master_state_2_def buslatches_getbyte_def Let_def and_BIT
        sm_intr_master_release_def setbits_update buslatches_setbyte_def PRU2ARM_INTERRUPT_def bit_merge_bits)
  let ?s3 = "s3\<lparr>ev_intr_slave := EVENT_ACK (ev_intr_slave s3)\<rparr>"
  have "EVENT_IS_ACKED (ev_intr_slave ?s3)"
    using free(2) f3(7) by (simp add: EVENT_IS_ACKED_def EVENT_SIGNAL_def EVENT_ACK_def)
  moreover have "\<not> bit (bus n (latch_out s3) 7) 0" for n using own f3(4) by (simp add: own_lines_def)
  ultimately have "intr_slave_step bus Intr_slave_1 ?s3 =
      (None, buslatches_setbits 4 (BIT 5) 0 (?s3\<lparr>bus_reads := Suc (bus_reads s3)\<rparr>))"
    by (simp add: sm_intr_slave_state_1_def buslatches_getbyte_def Let_def and_BIT)
  moreover have "\<not> bit (latch_out (buslatches_setbits 4 (BIT 5) 0 (?s3\<lparr>bus_reads := Suc (bus_reads s3)\<rparr>)) 4) 5"
    by (simp add: bit_merge_bits)
  ultimately show ?thesis
    using run start f2(1-3) open_event wait finish f3(1-6) by blast
qed

theorem intr_vector_roundtrip_witness:
  "\<exists>s1 s2. master_run 2 (\<lambda>n out r. if r = 7 then out r AND 1 else out r) Intr_start
      (blank_pru\<lparr>sm_intr_vector := 0x60\<rparr>) = Some (Some Intr_2, s1) \<and>
    intr_slave_step (\<lambda>n out r. if r = 7 then out r AND 1 else out r) Intr_slave_start s1 = (Some Intr_slave_1, s2) \<and>
    ev_intr_slave_vector s2 = 0x60"
proof -
  let ?s = "blank_pru\<lparr>sm_intr_vector := 0x60\<rparr>"
  have "own_lines (\<lambda>n out r. if r = 7 then out r AND 1 else out r)"
    by (simp add: own_lines_def bit_and_iff bit_1_iff)
  moreover have "EVENT_IS_ACKED (ev_intr_master ?s (sm_intr_level_index ?s))" "EVENT_IS_ACKED (ev_intr_slave ?s)"
    by (simp_all add: EVENT_IS_ACKED_def blank_pru_def main_init_def Let_def iopageregisters_init_def
        buslatches_reset_def sm_arb_reset_def MAILBOX_DIAG_RESET_def setbits_update buslatches_setbyte_def
        timeout_cleanup_def timeout_init_def TIMEOUT_SACK_def TIMEOUT_COUNT_def)
  ultimately show ?thesis
    using intr_vector_roundtrip[of "\<lambda>n out r. if r = 7 then out r AND 1 else out r" ?s] by auto
qed

section \<open>Cycles of other masters\<close>

lemma cycle_cases:
  fixes l :: u8
  defines "c \<equiv> drop_bit 2 l AND 3"
  shows "bit l 3 \<Longrightarrow> c = QUNIBUS_CYCLE_DATO \<or> c = QUNIBUS_CYCLE_DATOB"
    "\<not> bit l 3 \<Longrightarrow> c = QUNIBUS_CYCLE_DATI \<or> c = QUNIBUS_CYCLE_DATIP"
  unfolding c_def QUNIBUS_CYCLE_DATO_def QUNIBUS_CYCLE_DATOB_def QUNIBUS_CYCLE_DATI_def QUNIBUS_CYCLE_DATIP_def
    word8_eq_iff by (auto simp: bit_simps)

text \<open>The answer to a cycle, once its address is sampled.\<close>

lemma slave_read_cycle:
  fixes s :: "'a mailbox_events_t_scheme" and addr :: u32 and bus :: bus_lines and c :: u8
  assumes c: "c = QUNIBUS_CYCLE_DATI \<or> c = QUNIBUS_CYCLE_DATIP"
  defines "r \<equiv> sm_data_slave_cycle bus addr c s"
  shows "fst r = (if reaches s addr = Nothing then None else Some Slave_20)"
    "reaches s addr = Nothing \<Longrightarrow> latch_out (snd r) = latch_out s"
    "reaches s addr \<noteq> Nothing \<Longrightarrow> bit (latch_out (snd r) 4) 5 \<and> (\<exists>w. fst (emulated_addr_read addr s) = Some w \<and>
       latch_out (snd r) 5 = ucast w \<and> latch_out (snd r) 6 = ucast (drop_bit 8 w))"
proof -
  define t where "t = snd (emulated_addr_read addr s)"
  have frame: "latch_out t = latch_out s" by (simp add: t_def)
  have none: "fst (emulated_addr_read addr s) = None \<longleftrightarrow> reaches s addr = Nothing"
    by (simp add: read_spec split: reach.splits)
  obtain v where e: "emulated_addr_read addr s = (v, t)" by (metis prod.collapse t_def)
  show "fst r = (if reaches s addr = Nothing then None else Some Slave_20)"
    "reaches s addr = Nothing \<Longrightarrow> latch_out (snd r) = latch_out s"
    "reaches s addr \<noteq> Nothing \<Longrightarrow> bit (latch_out (snd r) 4) 5 \<and> (\<exists>w. fst (emulated_addr_read addr s) = Some w \<and>
       latch_out (snd r) 5 = ucast w \<and> latch_out (snd r) 6 = ucast (drop_bit 8 w))"
    using c none by (cases v; simp add: r_def sm_data_slave_cycle_def e frame Let_def bit_merge_bits)+
qed

lemma slave_write_cycle:
  fixes s :: "'a mailbox_events_t_scheme" and addr :: u32 and bus :: bus_lines and c :: u8
  assumes c: "c = QUNIBUS_CYCLE_DATO \<or> c = QUNIBUS_CYCLE_DATOB"
  defines "r \<equiv> sm_data_slave_cycle bus addr c s"
    and "ok \<equiv> (case reaches s addr of InMemory _ \<Rightarrow> True | InRegister _ \<Rightarrow> True | _ \<Rightarrow> False)"
  shows "fst r = (if ok then Some Slave_10 else None)"
    "\<not> ok \<Longrightarrow> latch_out (snd r) = latch_out s"
    "ok \<Longrightarrow> bit (latch_out (snd r) 4) 5"
proof -
  have re: "reaches (s\<lparr>bus_reads := n\<rparr>) addr = reaches s addr" for n
    by (rule same_config_reaches) (simp add: same_config_def)
  have w: "fst (emulated_addr_write_w addr x (s\<lparr>bus_reads := n\<rparr>)) = ok" for x n
    using write_w_spec[of x addr "s\<lparr>bus_reads := n\<rparr>"] by (simp add: write_effect_def re ok_def)
  have b: "fst (emulated_addr_write_b addr x (s\<lparr>bus_reads := n\<rparr>)) = ok" for x n
    using write_b_spec[of addr x "s\<lparr>bus_reads := n\<rparr>"] by (simp add: write_effect_def re ok_def)
  have neq: "QUNIBUS_CYCLE_DATO \<noteq> QUNIBUS_CYCLE_DATI" "QUNIBUS_CYCLE_DATO \<noteq> QUNIBUS_CYCLE_DATIP"
    "QUNIBUS_CYCLE_DATOB \<noteq> QUNIBUS_CYCLE_DATI" "QUNIBUS_CYCLE_DATOB \<noteq> QUNIBUS_CYCLE_DATIP"
    "QUNIBUS_CYCLE_DATOB \<noteq> QUNIBUS_CYCLE_DATO"
    by (simp_all add: QUNIBUS_CYCLE_DATI_def QUNIBUS_CYCLE_DATIP_def QUNIBUS_CYCLE_DATO_def QUNIBUS_CYCLE_DATOB_def)
  show "fst r = (if ok then Some Slave_10 else None)"
    "\<not> ok \<Longrightarrow> latch_out (snd r) = latch_out s"
    "ok \<Longrightarrow> bit (latch_out (snd r) 4) 5"
    using c by (auto simp: r_def sm_data_slave_cycle_def neq Let_def split_def buslatches_getbyte_def w b bit_merge_bits)
qed

text \<open>C34.
  The board as bus slave: it answers a cycle - asserts SSYN - exactly when MSYN is up, no
  other slave has answered, and the address belongs to it, and a DATI then has the word of
  that address on the data lines. It holds SSYN until the master drops MSYN and the ARM has
  acknowledged the register event, and then releases the lines.
\<close>

theorem slave_cycle_handshake:
  fixes s :: "'a mailbox_events_t_scheme" and bus :: bus_lines
  defines "l4 \<equiv> bus (bus_reads s) (latch_out s) 4"
    and "addr \<equiv> slave_addr (bus (Suc (bus_reads s)) (latch_out s) 2) (bus (Suc (Suc (bus_reads s))) (latch_out s) 3)
      (bus (bus_reads s) (latch_out s) 4)"
  defines "addressed \<equiv> bit l4 4 \<and> \<not> bit l4 5"
    and "answers \<equiv> (case reaches s addr of Nothing \<Rightarrow> False | InRom \<Rightarrow> \<not> bit l4 3 | _ \<Rightarrow> True)"
    and "r \<equiv> slave_step bus Slave_start s"
  shows "(fst r = (if addressed \<and> answers then Some (if bit l4 3 then Slave_10 else Slave_20) else None)) \<and>
    (fst r = None \<longrightarrow> latch_out (snd r) = latch_out s) \<and>
    (fst r \<noteq> None \<longrightarrow> bit (latch_out (snd r) 4) 5) \<and>
    (fst r = Some Slave_20 \<longrightarrow> (\<exists>w. fst (emulated_addr_read addr s) = Some w \<and>
       latch_out (snd r) 5 = ucast w \<and> latch_out (snd r) 6 = ucast (drop_bit 8 w))) \<and>
    (st \<in> {Slave_10, Slave_20} \<longrightarrow>
      (if bit l4 4 \<or> \<not> EVENT_IS_ACKED (ev_deviceregister s)
       then fst (slave_step bus st s) = Some st \<and> latch_out (snd (slave_step bus st s)) = latch_out s
       else fst (slave_step bus st s) = None \<and> \<not> bit (latch_out (snd (slave_step bus st s)) 4) 5 \<and>
         (st = Slave_20 \<longrightarrow> latch_out (snd (slave_step bus st s)) 5 = 0 \<and> latch_out (snd (slave_step bus st s)) 6 = 0)))"
proof (intro conjI)
  let ?s = "s\<lparr>bus_reads := Suc (Suc (Suc (bus_reads s)))\<rparr>"
  let ?c = "drop_bit 2 l4 AND 3"
  have step: "r = (if addressed then sm_data_slave_cycle bus addr ?c ?s else (None, s\<lparr>bus_reads := Suc (bus_reads s)\<rparr>))"
    by (simp add: r_def sm_data_slave_start_def buslatches_getbyte_def Let_def and_BIT addressed_def l4_def addr_def)
  have re: "reaches ?s addr = reaches s addr"
    by (rule same_config_reaches) (simp add: same_config_def)
  have rd: "fst (emulated_addr_read addr ?s) = fst (emulated_addr_read addr s)"
    by (simp add: read_spec re ddr_read_def ddrmem_word_def Let_def split: reach.splits)
  note w = slave_write_cycle[OF cycle_cases(1)[of l4], where bus = bus and addr = addr and s = ?s, unfolded re]
  note d = slave_read_cycle[OF cycle_cases(2)[of l4], where bus = bus and addr = addr and s = ?s, unfolded re rd]
  show "fst r = (if addressed \<and> answers then Some (if bit l4 3 then Slave_10 else Slave_20) else None)"
    using w(1) d(1) by (auto simp: step answers_def split: reach.splits)
  show "fst r = None \<longrightarrow> latch_out (snd r) = latch_out s"
    using w(1,2) d(1,2) by (cases "bit l4 3") (auto simp: step split: if_splits)
  show "fst r \<noteq> None \<longrightarrow> bit (latch_out (snd r) 4) 5"
    using w(1,3) d(1,3) by (cases "bit l4 3") (auto simp: step split: if_splits)
  show "fst r = Some Slave_20 \<longrightarrow> (\<exists>w. fst (emulated_addr_read addr s) = Some w \<and>
       latch_out (snd r) 5 = ucast w \<and> latch_out (snd r) 6 = ucast (drop_bit 8 w))"
    using w(1) d(1,3) by (cases "bit l4 3") (auto simp: step split: if_splits)
  show "st \<in> {Slave_10, Slave_20} \<longrightarrow>
      (if bit l4 4 \<or> \<not> EVENT_IS_ACKED (ev_deviceregister s)
       then fst (slave_step bus st s) = Some st \<and> latch_out (snd (slave_step bus st s)) = latch_out s
       else fst (slave_step bus st s) = None \<and> \<not> bit (latch_out (snd (slave_step bus st s)) 4) 5 \<and>
         (st = Slave_20 \<longrightarrow> latch_out (snd (slave_step bus st s)) 5 = 0 \<and> latch_out (snd (slave_step bus st s)) 6 = 0))"
    by (auto simp: sm_data_slave_state_10_def sm_data_slave_state_20_def buslatches_getbyte_def Let_def and_BIT l4_def
        bit_merge_bits)
qed

theorem slave_cycle_handshake_witness:
  "fst (slave_step (\<lambda>_ _ r. if r = 4 then 0x10 else if r = 3 then 0x10 else 0) Slave_start demo_dma) = Some Slave_20"
proof -
  have reach: "reaches demo_dma (slave_addr 0 0x10 0x10) = InMemory 0x1000"
  proof -
    have "slave_addr 0 0x10 0x10 = 0x1000" by (simp add: slave_addr_def)
    moreover have "(0x1000 :: u32) \<in> card_cells 0 0x20000" by (simp add: card_cells_def)
    ultimately show ?thesis using card_reaches[OF demo_dma_ok(1)] by simp
  qed
  have bits: "bit (0x10 :: u8) 4" "\<not> bit (0x10 :: u8) 5" "\<not> bit (0x10 :: u8) 3" by simp_all
  show ?thesis
    using slave_cycle_handshake[of "\<lambda>_ _ r. if r = 4 then 0x10 else if r = 3 then 0x10 else 0" demo_dma Slave_10]
    by (simp add: reach)
qed

end
