(* ===== verification/PruMain_Lemmas.thy ===== *)
theory PruMain_Lemmas
  imports PruDma_Lemmas
begin

unbundle bit_operations_syntax

text \<open>
  The invariant of the main loop: which bus lines the board drives in which state. Each
  state function keeps it; the passes of the loop are composed from them.
\<close>

section \<open>The lines a state may drive\<close>

text \<open>
  \<open>cur\<close> and \<open>out\<close> are the latch cache and the latches, \<open>wait\<close> the grant that waits for the
  bus, \<open>arb\<close> the grant of the arbitrator, \<open>left\<close> the words left of a DMA. BBSY is bit 6 and SACK bit 5 of latch 1, SSYN bit 5
  and MSYN bit 4 of latch 4, INTR bit 0 of latch 7.
\<close>

definition owns_bus :: "master_state option \<Rightarrow> bool" where
  "owns_bus m \<longleftrightarrow> m \<in> {Some Dma_1, Some Dma_11, Some Dma_21, Some Dma_99, Some Intr_1, Some Intr_2}"

definition may_hold_sack :: "u8 \<Rightarrow> u16 \<Rightarrow> master_state option \<Rightarrow> bool" where
  "may_hold_sack wait left m \<longleftrightarrow> wait \<noteq> 0 \<or> m \<in> {Some Dma_start, Some Dma_1, Some Intr_start, Some Intr_1} \<or>
     m \<in> {Some Dma_11, Some Dma_21, Some Dma_99} \<and> left \<noteq> 1"

definition grant_lines :: "u8 \<Rightarrow> bool" where "grant_lines x \<longleftrightarrow> (\<forall>k. bit x k \<longrightarrow> k < 5)"

definition lines_ok :: "(nat \<Rightarrow> u8) \<Rightarrow> (nat \<Rightarrow> u8) \<Rightarrow> u8 \<Rightarrow> u8 \<Rightarrow> u16 \<Rightarrow> master_state option \<Rightarrow> slave_state option \<Rightarrow>
    intr_slave_state option \<Rightarrow> bool" where
  "lines_ok cur out wait arb left m sl is \<longleftrightarrow> grant_lines wait \<and> grant_lines arb \<and>
     out 0 = cur 0 \<and> out 1 = cur 1 \<and> out 4 = cur 4 \<and> out 7 = cur 7 \<and>
     (bit (cur 1) 6 \<longleftrightarrow> owns_bus m) \<and>
     (bit (cur 1) 5 \<longrightarrow> may_hold_sack wait left m) \<and>
     (bit (cur 4) 4 \<longrightarrow> m = Some Dma_11 \<or> m = Some Dma_21) \<and>
     (bit (cur 4) 5 \<longrightarrow> sl = Some Slave_10 \<or> sl = Some Slave_20 \<or> is = Some Intr_slave_1) \<and>
     (bit (cur 7) 0 \<longleftrightarrow> m = Some Intr_2)"

lemma grant_lines_simps [simp]:
  "grant_lines 0" "grant_lines (x AND PRIORITY_ARBITRATION_BIT_MASK)" "grant_lines x \<Longrightarrow> grant_lines (x AND y)"
  "grant_lines (BIT k) \<longleftrightarrow> k < 5 \<or> 8 \<le> k"
  by (auto simp: grant_lines_def bit_and_iff)

abbreviation state_ok :: "'a statemachine_dma_t_scheme \<Rightarrow> master_state option \<Rightarrow> slave_state option \<Rightarrow>
    intr_slave_state option \<Rightarrow> bool" where
  "state_ok s \<equiv> lines_ok (cur_reg_val s) (latch_out s) (grant_bbsy_ssyn_wait_grant_mask s)
     (arbitrator_grant_mask s) (cur_wordsleft s)"

section \<open>The bus master\<close>

lemma wait_ssyn_frame:
  assumes "wait_ssyn_inactive bus s = Some t"
  obtains n where "t = s\<lparr>bus_reads := n\<rparr>"
proof -
  have "\<exists>n. t = s\<lparr>bus_reads := n\<rparr>"
  proof (rule wait_ssyn_inactive.raw_induct[where P = "\<lambda>bus s t. \<exists>n. t = s\<lparr>bus_reads := n\<rparr>", OF _ assms], goal_cases)
    case (1 wait bus s t)
    show ?case
    proof (cases "bit (bus (bus_reads s) (latch_out s) 4) 5")
      case True
      then have "wait bus (s\<lparr>bus_reads := Suc (bus_reads s)\<rparr>) = Some t"
        using 1(2) by (simp add: buslatches_getbyte_def and_BIT)
      from 1(1)[OF this] show ?thesis by auto
    next
      case False
      then show ?thesis using 1(2) by (auto simp: buslatches_getbyte_def and_BIT)
    qed
  qed
  then show ?thesis using that by blast
qed

text \<open>How state 1 leaves the lines: only latch 4, the address and the data latches change.\<close>

definition cycle_lines :: "'a statemachine_dma_t_scheme \<Rightarrow> master_state option \<Rightarrow> 'a statemachine_dma_t_scheme \<Rightarrow> bool" where
  "cycle_lines s m t \<longleftrightarrow>
     (m = Some Dma_99 \<and> \<not> bit (cur_reg_val t 4) 4 \<or> m = Some Dma_11 \<or> m = Some Dma_21) \<and> \<not> bit (cur_reg_val t 4) 5 \<and>
     latch_out t 4 = cur_reg_val t 4 \<and> (\<forall>r. r \<noteq> 4 \<longrightarrow> cur_reg_val t r = cur_reg_val s r) \<and>
     (\<forall>r \<in> {0, 1, 7}. latch_out t r = latch_out s r) \<and>
     grant_bbsy_ssyn_wait_grant_mask t = grant_bbsy_ssyn_wait_grant_mask s \<and>
     arbitrator_grant_mask t = arbitrator_grant_mask s \<and> cur_wordsleft t = cur_wordsleft s"

lemma timeout_set_lines:
  fixes s :: "'a statemachine_dma_t_scheme"
  shows "cur_reg_val (timeout_set i d s) = cur_reg_val s" "latch_out (timeout_set i d s) = latch_out s"
    "grant_bbsy_ssyn_wait_grant_mask (timeout_set i d s) = grant_bbsy_ssyn_wait_grant_mask s"
    "cur_wordsleft (timeout_set i d s) = cur_wordsleft s"
  by (simp_all add: timeout_set_def Let_def)

lemma timeout_other_lines:
  fixes s :: "'a statemachine_dma_t_scheme"
  shows "cur_reg_val (timeout_cleanup i s) = cur_reg_val s" "latch_out (timeout_cleanup i s) = latch_out s"
    "grant_bbsy_ssyn_wait_grant_mask (timeout_cleanup i s) = grant_bbsy_ssyn_wait_grant_mask s"
    "cur_wordsleft (timeout_cleanup i s) = cur_wordsleft s"
    "cur_reg_val (snd (timeout_reached i s)) = cur_reg_val s" "latch_out (snd (timeout_reached i s)) = latch_out s"
    "grant_bbsy_ssyn_wait_grant_mask (snd (timeout_reached i s)) = grant_bbsy_ssyn_wait_grant_mask s"
    "cur_wordsleft (snd (timeout_reached i s)) = cur_wordsleft s"
  by (simp_all add: timeout_cleanup_def timeout_reached_def)

lemma internal_end_lines:
  "latch_out (sm_dma_internal_end s) 4 = cur_reg_val (sm_dma_internal_end s) 4"
  "r \<in> {0, 1, 7} \<Longrightarrow> latch_out (sm_dma_internal_end s) r = latch_out s r"
  "grant_bbsy_ssyn_wait_grant_mask (sm_dma_internal_end s) = grant_bbsy_ssyn_wait_grant_mask s"
  "arbitrator_grant_mask (sm_dma_internal_end s) = arbitrator_grant_mask s"
  by (auto simp: sm_dma_internal_end_def setbits_update buslatches_setbyte_def)

lemma dataptr_lines:
  "cur_reg_val (snd (dataptr_get s)) = cur_reg_val s" "latch_out (snd (dataptr_get s)) = latch_out s"
  "grant_bbsy_ssyn_wait_grant_mask (snd (dataptr_get s)) = grant_bbsy_ssyn_wait_grant_mask s"
  "cur_wordsleft (snd (dataptr_get s)) = cur_wordsleft s"
  "cur_reg_val (dataptr_put w s) = cur_reg_val s" "latch_out (dataptr_put w s) = latch_out s"
  "grant_bbsy_ssyn_wait_grant_mask (dataptr_put w s) = grant_bbsy_ssyn_wait_grant_mask s"
  "cur_wordsleft (dataptr_put w s) = cur_wordsleft s"
  "arbitrator_grant_mask (dataptr_put w s) = arbitrator_grant_mask s"
  "arbitrator_grant_mask (snd (dataptr_get s)) = arbitrator_grant_mask s"
  by (simp_all add: dataptr_get_def dataptr_put_def)

lemma wordsleft_latch:
  fixes s :: "'a statemachine_dma_t_scheme"
  shows "cur_wordsleft (buslatches_setbits r m v s) = cur_wordsleft s"
    "cur_wordsleft (buslatches_setbyte r v s) = cur_wordsleft s"
    "grant_bbsy_ssyn_wait_grant_mask (buslatches_setbits r m v s) = grant_bbsy_ssyn_wait_grant_mask s"
    "grant_bbsy_ssyn_wait_grant_mask (buslatches_setbyte r v s) = grant_bbsy_ssyn_wait_grant_mask s"
    "arbitrator_grant_mask (buslatches_setbits r m v s) = arbitrator_grant_mask s"
    "arbitrator_grant_mask (buslatches_setbyte r v s) = arbitrator_grant_mask s"
  by (simp_all add: setbits_update buslatches_setbyte_def)

lemmas line_simps = timeout_set_lines timeout_other_lines internal_end_lines internal_end_fields(1-5) internal_end_more(4)
  dataptr_lines wordsleft_latch bit_merge_bits

lemma dma_dato_lines:
  assumes "sm_dma_dato bus a c s = Some (m, t)"
  shows "cycle_lines s m t"
proof -
  let ?v = "ucast (drop_bit 16 a AND 3) OR (if c = QUNIBUS_CYCLE_DATOB then BIT 3 OR BIT 2 else BIT 3)"
  define g where "g = dataptr_get (buslatches_setbits 4 0x3F ?v s)"
  define h where "h = buslatches_setbyte 6 (ucast (drop_bit 8 (fst g))) (buslatches_setbyte 5 (ucast (fst g)) (snd g))"
  have three: "bit (0x3F :: u8) 5" "bit (0x3F :: u8) 4" by simp_all
  from assms obtain u where wait: "wait_ssyn_inactive bus h = Some u"
    by (auto simp: sm_dma_dato_def Let_def split_def g_def h_def split: option.splits)
  then obtain n where u: "u = h\<lparr>bus_reads := n\<rparr>" by (rule wait_ssyn_frame)
  define b where "b = buslatches_setbits 4 (BIT 4) (BIT 4) u"
  define r where "r = (if c = QUNIBUS_CYCLE_DATOB
        then emulated_addr_write_b a (if a AND 1 \<noteq> 0 then ucast (drop_bit 8 (fst g)) else ucast (fst g)) b
        else emulated_addr_write_w a (fst g) b)"
  have frame: "mailbox_event_deviceregister_t.more (snd r) = mailbox_event_deviceregister_t.more b"
    by (simp add: r_def)
  note upper = latch_frame[OF frame] dma_frame[OF frame] arb_frame[OF frame]
  have b: "cur_reg_val b = (cur_reg_val s)(4 := cur_reg_val b 4)" "\<not> bit (cur_reg_val b 4) 5"
    "latch_out b 4 = cur_reg_val b 4" "\<forall>r \<in> {0, 1, 7}. latch_out b r = latch_out s r"
    "grant_bbsy_ssyn_wait_grant_mask b = grant_bbsy_ssyn_wait_grant_mask s" "arbitrator_grant_mask b = arbitrator_grant_mask s"
    "cur_wordsleft b = cur_wordsleft s"
    by (simp_all add: b_def u h_def g_def line_simps three bit_or_iff bit_ucast_iff bit_and_iff)
  have res: "Some (m, t) = (if fst r then Some (Some Dma_99, sm_dma_internal_end (snd r))
      else Some (Some Dma_21, timeout_set TIMEOUT_DMA (MICROSECS UNIBUS_TIMEOUT_PERIOD_US) (snd r)))"
    using assms by (simp only: sm_dma_dato_def Let_def split_def g_def[symmetric] h_def[symmetric] wait option.case
          b_def[symmetric] r_def[symmetric])
  show ?thesis
  proof (cases "fst r")
    case True
    then show ?thesis
      using res b by (simp add: cycle_lines_def line_simps upper) (metis fun_upd_other)
  next
    case False
    then show ?thesis
      using res b by (simp add: cycle_lines_def line_simps upper) (metis fun_upd_other)
  qed
qed

lemma dma_dati_lines:
  assumes "sm_dma_dati a s = (m, t)"
  shows "cycle_lines s m t"
proof -
  define b where "b = buslatches_setbits 4 (BIT 4) (BIT 4) (buslatches_setbits 4 0x3F (ucast (drop_bit 16 a AND 3)) s)"
  have three: "bit (0x3F :: u8) 5" "bit (0x3F :: u8) 4" by simp_all
  have b: "cur_reg_val b = (cur_reg_val s)(4 := cur_reg_val b 4)" "\<not> bit (cur_reg_val b 4) 5"
    "latch_out b 4 = cur_reg_val b 4" "\<forall>r \<in> {0, 1, 7}. latch_out b r = latch_out s r"
    "grant_bbsy_ssyn_wait_grant_mask b = grant_bbsy_ssyn_wait_grant_mask s" "arbitrator_grant_mask b = arbitrator_grant_mask s"
    "cur_wordsleft b = cur_wordsleft s"
    by (simp_all add: b_def line_simps three bit_or_iff bit_ucast_iff bit_and_iff)
  define r where "r = emulated_addr_read a b"
  note upper = latch_frame[OF read_more[of a b], folded r_def] dma_frame[OF read_more[of a b], folded r_def]
    arb_frame[OF read_more[of a b], folded r_def]
  have res: "(m, t) = (case fst r of
      Some d \<Rightarrow> (Some Dma_99, sm_dma_internal_end (dataptr_put d
        (buslatches_setbyte 6 (ucast (drop_bit 8 d)) (buslatches_setbyte 5 (ucast d) (snd r)))))
    | None \<Rightarrow> (Some Dma_11, timeout_set TIMEOUT_DMA (MICROSECS UNIBUS_TIMEOUT_PERIOD_US) (snd r)))"
    using assms by (simp add: sm_dma_dati_def Let_def b_def[symmetric] r_def[symmetric] split: option.splits prod.splits)
  show ?thesis
  proof (cases "fst r")
    case None
    then show ?thesis
      using res b by (simp add: cycle_lines_def line_simps upper) (metis fun_upd_other)
  next
    case (Some d)
    then show ?thesis
      using res b by (simp add: cycle_lines_def line_simps upper) (metis fun_upd_other)
  qed
qed

lemma cycle_lines_ok:
  assumes cyc: "cycle_lines u m t" and ok: "state_ok u (Some Dma_1) sl is" and last: "cur_wordsleft u = 1 \<longrightarrow> \<not> bit (cur_reg_val u 1) 5"
  shows "state_ok t m sl is"
  using assms unfolding cycle_lines_def lines_ok_def owns_bus_def may_hold_sack_def by auto

lemma dma_1_lines:
  assumes "sm_dma_state_1 bus s = Some (m, t)" "state_ok s (Some Dma_1) sl is"
    and run: "dma_cur_status s = DMA_STATE_RUNNING" "dma_wordcount s \<noteq> 0"
  shows "state_ok t m sl is"
proof -
  let ?a = "dma_cur_addr s OR address_overlay s"
  define u where "u = buslatches_setbyte 3 (ucast (drop_bit 8 ?a)) (buslatches_setbyte 2 (ucast ?a)
    ((if cur_wordsleft s = 1 then buslatches_setbits 1 (BIT 5) 0 s else s)\<lparr>state_timeout := False\<rparr>))"
  have res: "(if QUNIBUS_CYCLE_IS_DATO (dma_buscycle s) then sm_dma_dato bus ?a (dma_buscycle s) u
      else Some (sm_dma_dati ?a u)) = Some (m, t)"
    using assms(1) run by (simp add: sm_dma_state_1_def Let_def u_def setbits_update split: if_splits)
  have u: "state_ok u (Some Dma_1) sl is" "cur_wordsleft u = 1 \<longrightarrow> \<not> bit (cur_reg_val u 1) 5"
    using assms(2) by (auto simp: u_def lines_ok_def line_simps owns_bus_def may_hold_sack_def)
  have "cycle_lines u m t"
    using res by (auto split: if_splits dest: dma_dato_lines dma_dati_lines)
  then show ?thesis by (rule cycle_lines_ok) (rule u)+
qed

lemma dma_start_lines:
  assumes "state_ok s (Some Dma_start) sl is"
  shows "state_ok (snd (sm_dma_start s)) (fst (sm_dma_start s)) sl is"
  using assms by (auto simp: sm_dma_start_def Let_def lines_ok_def line_simps owns_bus_def may_hold_sack_def)

lemma dma_wait_lines:
  "state_ok s (Some Dma_11) sl is \<Longrightarrow> state_ok (snd (sm_dma_state_11 bus s)) (fst (sm_dma_state_11 bus s)) sl is"
  "state_ok s (Some Dma_21) sl is \<Longrightarrow> state_ok (snd (sm_dma_state_21 bus s)) (fst (sm_dma_state_21 bus s)) sl is"
  by (auto simp: sm_dma_state_11_def sm_dma_state_21_def Let_def split_def lines_ok_def line_simps owns_bus_def
      may_hold_sack_def buslatches_getbyte_def)

lemma dma_99_lines:
  assumes "state_ok s (Some Dma_99) sl is"
  shows "state_ok (snd (sm_dma_state_99 bus s)) (fst (sm_dma_state_99 bus s)) sl is"
proof -
  have three: "bit (0x3F :: u8) 5" "bit (0x3F :: u8) 4" by simp_all
  show ?thesis
  using assms by (simp add: sm_dma_state_99_def sm_dma_final_state_def Let_def split_def lines_ok_def line_simps owns_bus_def
      may_hold_sack_def buslatches_getbyte_def PRU2ARM_INTERRUPT_def three DMA_STATE_RUNNING_def DMA_STATE_READY_def
      DMA_STATE_INITSTOP_def DMA_STATE_TIMEOUTSTOP_def) auto
qed

lemma intr_master_lines:
  "state_ok s (Some Intr_start) sl is \<Longrightarrow> state_ok (snd (sm_intr_master_start s)) (fst (sm_intr_master_start s)) sl is"
  "state_ok s (Some Intr_1) sl is \<Longrightarrow> state_ok (snd (sm_intr_master_state_1 s)) (fst (sm_intr_master_state_1 s)) sl is"
  "state_ok s (Some Intr_2) sl is \<Longrightarrow> state_ok (snd (sm_intr_master_state_2 bus s)) (fst (sm_intr_master_state_2 bus s)) sl is"
  by (auto simp: sm_intr_master_start_def sm_intr_master_state_1_def sm_intr_master_state_2_def sm_intr_master_release_def
      Let_def split_def lines_ok_def line_simps owns_bus_def may_hold_sack_def buslatches_getbyte_def PRU2ARM_INTERRUPT_def)

text \<open>A master in the middle of a DMA relies on the ARM: the words and the status of its block stand.\<close>

definition dma_block_stands :: "'a statemachine_dma_t_scheme \<Rightarrow> master_state option \<Rightarrow> bool" where
  "dma_block_stands s m \<longleftrightarrow> (m = Some Dma_1 \<longrightarrow> dma_cur_status s = DMA_STATE_RUNNING \<and> dma_wordcount s \<noteq> 0)"

lemma master_lines:
  assumes "master_step bus st s = Some (m, t)" "state_ok s (Some st) sl is" "dma_block_stands s (Some st)"
  shows "state_ok t m sl is"
  using assms dma_wait_lines[of s sl "is" bus] dma_99_lines[of s sl "is" bus] intr_master_lines(1,2)[of s sl "is"]
    intr_master_lines(3)[of s sl "is" bus] dma_start_lines[of s sl "is"]
  by (cases st) (auto simp: dma_block_stands_def dest: dma_1_lines)

section \<open>The data slave\<close>

lemma slave_answer_lines:
  fixes s t :: "'a mailbox_events_t_scheme"
  assumes "mailbox_event_deviceregister_t.more t = mailbox_event_deviceregister_t.more s" "state_ok s m sl is"
  shows "state_ok t m sl is"
  using assms(2) latch_frame[OF assms(1)] arb_frame[OF assms(1)] dma_frame[OF assms(1)] by simp

text \<open>The answer to a cycle drives the data lines and SSYN only.\<close>

definition same_lines :: "'a statemachine_dma_t_scheme \<Rightarrow> 'a statemachine_dma_t_scheme \<Rightarrow> bool" where
  "same_lines s t \<longleftrightarrow> cur_reg_val t = cur_reg_val s \<and> (\<forall>r \<in> {0, 1, 4, 7}. latch_out t r = latch_out s r) \<and>
     grant_bbsy_ssyn_wait_grant_mask t = grant_bbsy_ssyn_wait_grant_mask s \<and>
     arbitrator_grant_mask t = arbitrator_grant_mask s \<and> cur_wordsleft t = cur_wordsleft s"

lemma same_lines_ok: "same_lines s t \<Longrightarrow> state_ok s m sl is \<Longrightarrow> state_ok t m sl is"
  by (simp add: same_lines_def lines_ok_def)

lemma ssyn_lines_ok:
  assumes "same_lines s t" "state_ok s m sl is" "sl' \<in> {Some Slave_10, Some Slave_20}"
  shows "state_ok (buslatches_setbits 4 (BIT 5) (BIT 5) t) m sl' is"
  using assms by (auto simp: same_lines_def lines_ok_def line_simps)

lemma slave_cycle_lines:
  assumes ok: "state_ok s m sl is" and idle: "bit (cur_reg_val s 4) 5 \<longrightarrow> is = Some Intr_slave_1"
  shows "state_ok (snd (sm_data_slave_cycle bus a c s)) m (fst (sm_data_slave_cycle bus a c s)) is"
proof -
  have none: "state_ok s m None is" using ok idle by (auto simp: lines_ok_def)
  have "\<exists>t. same_lines s t \<and> (sm_data_slave_cycle bus a c s = (None, t) \<or>
      (\<exists>sl' \<in> {Some Slave_10, Some Slave_20}. sm_data_slave_cycle bus a c s = (sl', buslatches_setbits 4 (BIT 5) (BIT 5) t)))"
  proof (cases "c = QUNIBUS_CYCLE_DATI \<or> c = QUNIBUS_CYCLE_DATIP")
    case True
    define r where "r = emulated_addr_read a s"
    have "sm_data_slave_cycle bus a c s = (case fst r of None \<Rightarrow> (None, snd r) | Some d \<Rightarrow> (Some Slave_20,
        buslatches_setbits 4 (BIT 5) (BIT 5) (buslatches_setbyte 6 (ucast (drop_bit 8 d)) (buslatches_setbyte 5 (ucast d) (snd r)))))"
      using True by (simp only: sm_data_slave_cycle_def r_def[symmetric] if_True Let_def prod.case_eq_if)
    moreover have "same_lines s (snd r)"
      by (simp add: same_lines_def r_def)
    moreover have "same_lines s (buslatches_setbyte 6 x (buslatches_setbyte 5 y (snd r)))" for x y
      by (simp add: same_lines_def r_def line_simps)
    ultimately show ?thesis by (cases "fst r") auto
  next
    case False
    let ?r = "\<lambda>n. s\<lparr>bus_reads := n\<rparr>"
    let ?n = "bus_reads s"
    let ?b5 = "bus ?n (latch_out s) 5" and ?b6 = "bus ?n (latch_out s) 6" and ?b6' = "bus (Suc ?n) (latch_out s) 6"
    define w where "w = (if c = QUNIBUS_CYCLE_DATO
      then emulated_addr_write_w a (ucast ?b5 OR push_bit 8 (ucast ?b6')) (?r (Suc (Suc ?n)))
      else if c = QUNIBUS_CYCLE_DATOB
      then emulated_addr_write_b a (if a AND 1 \<noteq> 0 then ?b6 else ?b5) (?r (Suc ?n)) else (False, s))"
    have "sm_data_slave_cycle bus a c s =
        (if fst w then (Some Slave_10, buslatches_setbits 4 (BIT 5) (BIT 5) (snd w)) else (None, snd w))"
      using False by (simp add: sm_data_slave_cycle_def w_def Let_def split_def buslatches_getbyte_def)
    moreover have "same_lines s (snd w)"
      by (simp add: same_lines_def w_def)
    ultimately show ?thesis by auto
  qed
  then show ?thesis using same_lines_ok[OF _ none] ssyn_lines_ok[OF _ none] by auto
qed

lemma slave_step_lines:
  assumes "state_ok s m (case sl of Slave_start \<Rightarrow> None | _ \<Rightarrow> Some sl) is"
  shows "state_ok (snd (slave_step bus sl s)) m (fst (slave_step bus sl s)) is"
proof (cases sl)
  case Slave_start
  let ?r = "\<lambda>n. s\<lparr>bus_reads := n\<rparr>"
  have ok: "state_ok (?r n) m None is" "bit (cur_reg_val (?r n) 4) 5 \<longrightarrow> is = Some Intr_slave_1" for n
    using assms Slave_start by (simp_all add: lines_ok_def)
  show ?thesis
    using ok slave_cycle_lines[OF ok] by (simp add: Slave_start sm_data_slave_start_def Let_def split_def buslatches_getbyte_def)
qed (use assms in \<open>auto simp: sm_data_slave_state_10_def sm_data_slave_state_20_def sm_data_slave_state_99_def Let_def split_def
      buslatches_getbyte_def lines_ok_def line_simps\<close>)

definition slave_from :: "slave_state option \<Rightarrow> slave_state" where
  "slave_from sl = (case sl of None \<Rightarrow> Slave_start | Some st \<Rightarrow> st)"

lemma slave_from_lines: "state_ok s m sl is \<Longrightarrow> state_ok s m (case slave_from sl of Slave_start \<Rightarrow> None | _ \<Rightarrow> Some (slave_from sl)) is"
  by (auto simp: slave_from_def lines_ok_def split: option.splits slave_state.splits)

lemma slave_loop_lines:
  assumes "data_slave_loop bus sl s = Some (sl', t)" "state_ok s m (case sl of Slave_start \<Rightarrow> None | _ \<Rightarrow> Some sl) is"
  shows "state_ok t m sl' is"
proof -
  let ?P = "\<lambda>bus sl s r. state_ok s m (case sl of Slave_start \<Rightarrow> None | _ \<Rightarrow> Some sl) is \<longrightarrow> state_ok (snd r) m (fst r) is"
  have "?P bus sl s (sl', t)"
  proof (rule data_slave_loop.raw_induct[where P = ?P, OF _ assms(1)], goal_cases)
    case (1 loop bus sl s r)
    show ?case
    proof
      assume ok: "state_ok s m (case sl of Slave_start \<Rightarrow> None | _ \<Rightarrow> Some sl) is"
      define u where "u = slave_step bus sl s"
      have u: "state_ok (snd u) m (fst u) is" unfolding u_def by (rule slave_step_lines[OF ok])
      show "state_ok (snd r) m (fst r) is"
      proof (cases "\<exists>st. fst u = Some st \<and> EVENT_IS_ACKED (ev_deviceregister (snd u))")
        case True
        then obtain st where st: "fst u = Some st" "loop bus st (snd u) = Some r"
          using 1(2) unfolding u_def[symmetric] by (auto simp: split_def)
        have "slave_from (fst u) = st" by (simp add: slave_from_def st(1))
        from slave_from_lines[OF u, unfolded this] show ?thesis using 1(1)[OF st(2)] by simp
      next
        case False
        then show ?thesis using 1(2) u unfolding u_def[symmetric] by (auto simp: split_def split: option.splits if_splits)
      qed
    qed
  qed
  then show ?thesis using assms(2) by simp
qed

section \<open>INIT, grants and commands\<close>

lemma sack_down_lines:
  assumes "state_ok s m sl is"
  shows "state_ok (buslatches_setbits 1 (BIT 5) 0 (s\<lparr>grant_bbsy_ssyn_wait_grant_mask := 0\<rparr>)) m sl is"
  using assms by (simp add: lines_ok_def line_simps)

lemma init_voids_lines: "state_ok s m sl is \<Longrightarrow> state_ok (init_voids_requests s) m sl is"
  using sack_down_lines[of "s\<lparr>device_request_mask := 0\<rparr>" m sl "is"]
  by (cases "grant_bbsy_ssyn_wait_grant_mask s = 0") (simp_all add: init_voids_requests_def Let_def)

lemma init_signals_lines:
  assumes "state_ok s m sl is"
  shows "state_ok (do_event_initializationsignals bus s) m sl is"
proof -
  let ?l = "bus (bus_reads s) (latch_out s) 7 AND 0x38"
  let ?s = "s\<lparr>bus_reads := Suc (bus_reads s)\<rparr>"
  define t where "t = (if ?l AND INITIALIZATIONSIGNAL_INIT \<noteq> 0 then init_voids_requests ?s else ?s)"
  have t: "state_ok t m sl is"
    using assms init_voids_lines[of ?s m sl "is"] by (simp add: t_def)
  have p: "state_ok (power_event ?l t) m sl is"
    using t by (simp add: power_event_def Let_def PRU2ARM_INTERRUPT_def)
  have "do_event_initializationsignals bus s = init_event ?l (power_event ?l t)"
    by (simp only: do_event_initializationsignals_def buslatches_getbyte_def Let_def prod.case t_def)
  then show ?thesis
    using p by (simp add: init_event_def Let_def PRU2ARM_INTERRUPT_def)
qed

text \<open>A grant is the NPR line or one of the four BR lines.\<close>

lemma grant_line_cases:
  assumes "grant_lines g" "g \<noteq> 0"
  shows "bit g 4 \<or> g AND PRIORITY_ARBITRATION_INTR_MASK \<noteq> 0"
proof -
  obtain k where k: "bit g k" using assms(2) by (auto simp: bit_eq_iff)
  with assms(1) have "k < 5" by (simp add: grant_lines_def)
  then have "k = 0 \<or> k = 1 \<or> k = 2 \<or> k = 3 \<or> k = 4" by arith
  with k show ?thesis unfolding intr_mask_nonzero any_request_def by (elim disjE) simp_all
qed

definition granted_ok :: "u8 \<Rightarrow> 'a pru_scheme \<Rightarrow> slave_state option \<Rightarrow> intr_slave_state option \<Rightarrow> bool" where
  "granted_ok g s sl is \<longleftrightarrow> grant_lines g \<and>
     (if g = 0 then state_ok s None sl is else state_ok s (Some Dma_start) sl is \<and> state_ok s (Some Intr_start) sl is)"

lemma start_master_lines:
  assumes "granted_ok g s sl is" "sm_data_master_state s = None"
  shows "state_ok (start_master g s) (sm_data_master_state (start_master g s)) sl is"
  using assms grant_line_cases[of g]
  by (auto simp: granted_ok_def start_master_def Let_def and_NP split: if_splits)

lemma forward_lines:
  assumes "state_ok s m sl is"
  shows "state_ok (snd (forward_grants bus s)) m sl is" "grant_lines (fst (forward_grants bus s))"
  using assms by (auto simp: forward_grants_def buslatches_getbyte_def Let_def lines_ok_def line_simps setbits_update)

lemma next_grant_lines: "grant_lines (arbitrator_grant_mask s) \<Longrightarrow> grant_lines (next_grant l s)"
  using top_request_lt[of l] by (simp add: next_grant_def)

lemma arbitrate_lines: "cur_reg_val (sm_arb_arbitrate l s) = cur_reg_val s" "latch_out (sm_arb_arbitrate l s) = latch_out s"
  "grant_bbsy_ssyn_wait_grant_mask (sm_arb_arbitrate l s) = grant_bbsy_ssyn_wait_grant_mask s"
  by (simp_all add: sm_arb_arbitrate_def sm_arb_grant_intr_def Let_def split_def timeout_set_def timeout_cleanup_def
      timeout_reached_def)

lemma arbitrate_left:
  fixes s :: "'a statemachine_dma_t_scheme"
  shows "cur_wordsleft (sm_arb_arbitrate l s) = cur_wordsleft s"
  by (simp add: sm_arb_arbitrate_def sm_arb_grant_intr_def Let_def split_def timeout_set_lines timeout_other_lines)

lemma worker_cpu_lines_ok:
  fixes s :: "'a pru_scheme"
  assumes "state_ok s m sl is"
  shows "state_ok (snd (sm_arb_worker_cpu bus s)) m sl is" "grant_lines (fst (sm_arb_worker_cpu bus s))"
proof -
  let ?l = "bus (bus_reads s) (latch_out s) 1"
  let ?a = "sm_arb_arbitrate ?l (s\<lparr>bus_reads := Suc (bus_reads s)\<rparr>)"
  have grant: "grant_lines (next_grant ?l (s\<lparr>bus_reads := Suc (bus_reads s)\<rparr>))"
    using assms by (intro next_grant_lines) (simp add: lines_ok_def)
  show "state_ok (snd (sm_arb_worker_cpu bus s)) m sl is"
    using assms grant
    by (simp add: sm_arb_worker_cpu_def buslatches_getbyte_def Let_def lines_ok_def line_simps setbits_update
        arbitrate_lines arbitrate_left arbitrate_grant)
  show "grant_lines (fst (sm_arb_worker_cpu bus s))"
    using assms by (simp add: worker_cpu_grant next_grant_lines lines_ok_def)
qed

lemma cpu_access_lines:
  fixes s :: "'a pru_scheme"
  shows "same_lines s (snd (sm_arb_cpu_access bus s))"
  by (simp add: same_lines_def sm_arb_cpu_access_def buslatches_getbyte_def Let_def split_def)

lemma bus_free_granted:
  assumes "state_ok s None sl is" "grant_lines g"
  shows "granted_ok PRIORITY_ARBITRATION_BIT_NP s sl is"
  using assms by (auto simp: granted_ok_def lines_ok_def owns_bus_def may_hold_sack_def NP_bit PRIORITY_ARBITRATION_BIT_NP_def[symmetric])

lemma wait_grant_lines:
  fixes s :: "'a pru_scheme"
  assumes "state_ok s None sl is" "grant_lines g"
  shows "state_ok (sm_arb_wait_grant g s) None sl is"
  using assms
  by (auto simp: sm_arb_wait_grant_def Let_def lines_ok_def line_simps setbits_update may_hold_sack_def bit_or_iff bit_and_iff
      owns_bus_def)

lemma wait_bus_granted:
  fixes s :: "'a pru_scheme"
  assumes "state_ok s None sl is" "grant_bbsy_ssyn_wait_grant_mask s \<noteq> 0"
  shows "granted_ok (fst (sm_arb_wait_bus bus g s)) (snd (sm_arb_wait_bus bus g s)) sl is"
  using assms
  by (auto simp: sm_arb_wait_bus_def granted_ok_def buslatches_getbyte_def Let_def lines_ok_def owns_bus_def may_hold_sack_def
      split_def)

lemma worker_device_granted:
  fixes s :: "'a pru_scheme"
  assumes ok: "state_ok s None sl is" and g: "grant_lines g"
  shows "granted_ok (fst (sm_arb_worker_device bus g s)) (snd (sm_arb_worker_device bus g s)) sl is"
proof -
  define c where "c = sm_arb_cpu_access bus s"
  have c: "state_ok (snd c) None sl is"
    unfolding c_def by (rule same_lines_ok[OF cpu_access_lines ok])
  define u where "u = (buslatches_setbits 1 PRIORITY_ARBITRATION_BIT_MASK (device_request_mask (snd c)) (snd c))
    \<lparr>device_request_signalled_mask := device_request_mask (snd c)\<rparr>"
  have u: "state_ok u None sl is"
    using c by (auto simp: u_def lines_ok_def line_simps setbits_update)
  have "sm_arb_worker_device bus g s = (if fst c then (PRIORITY_ARBITRATION_BIT_NP, snd c)
      else if grant_bbsy_ssyn_wait_grant_mask u = 0 then (0, sm_arb_wait_grant g u) else sm_arb_wait_bus bus g u)"
    by (simp add: sm_arb_worker_device_def c_def u_def Let_def split_def setbits_update)
  moreover have "granted_ok PRIORITY_ARBITRATION_BIT_NP (snd c) sl is"
    by (rule bus_free_granted[OF c g])
  moreover have "granted_ok 0 (sm_arb_wait_grant g u) sl is"
    using wait_grant_lines[OF u g] by (simp add: granted_ok_def)
  moreover have "grant_bbsy_ssyn_wait_grant_mask u \<noteq> 0 \<Longrightarrow>
      granted_ok (fst (sm_arb_wait_bus bus g u)) (snd (sm_arb_wait_bus bus g u)) sl is"
    by (rule wait_bus_granted[OF u])
  ultimately show ?thesis by simp
qed

lemma worker_none_granted:
  fixes s :: "'a pru_scheme"
  assumes "state_ok s None sl is" "grant_lines g"
  shows "granted_ok (fst (sm_arb_worker_none g s)) (snd (sm_arb_worker_none g s)) sl is"
proof -
  let ?u = "buslatches_setbits 0 PRIORITY_ARBITRATION_BIT_MASK (NOT g) s"
  have u: "state_ok ?u None sl is" using assms(1) by (simp add: lines_ok_def line_simps)
  have r: "state_ok (?u\<lparr>device_request_mask := x\<rparr>) None sl is" for x using u by simp
  show ?thesis
    using u bus_free_granted[OF r assms(2)] by (simp add: sm_arb_worker_none_def Let_def) (simp add: granted_ok_def)
qed

lemma worker_master_none:
  fixes s :: "'a pru_scheme"
  shows "sm_data_master_state (snd (sm_arb_worker_device bus g s)) = sm_data_master_state s"
    "sm_data_master_state (snd (sm_arb_worker_none g s)) = sm_data_master_state s"
    "sm_data_master_state (snd (sm_arb_worker_cpu bus s)) = sm_data_master_state s"
    "sm_data_master_state (snd (forward_grants bus s)) = sm_data_master_state s"
    "sm_data_slave_state (snd (sm_arb_worker_device bus g s)) = sm_data_slave_state s"
    "sm_data_slave_state (snd (sm_arb_worker_none g s)) = sm_data_slave_state s"
    "sm_data_slave_state (snd (sm_arb_worker_cpu bus s)) = sm_data_slave_state s"
    "sm_data_slave_state (snd (forward_grants bus s)) = sm_data_slave_state s"
    "sm_intr_slave_state (snd (sm_arb_worker_device bus g s)) = sm_intr_slave_state s"
    "sm_intr_slave_state (snd (sm_arb_worker_none g s)) = sm_intr_slave_state s"
    "sm_intr_slave_state (snd (sm_arb_worker_cpu bus s)) = sm_intr_slave_state s"
    "sm_intr_slave_state (snd (forward_grants bus s)) = sm_intr_slave_state s"
  by (simp_all add: sm_arb_worker_device_def sm_arb_cpu_access_def sm_arb_wait_grant_def sm_arb_wait_bus_def
      sm_arb_worker_none_def sm_arb_worker_cpu_def sm_arb_arbitrate_def sm_arb_grant_intr_def timeout_set_def
      timeout_cleanup_def timeout_reached_def forward_grants_def setbits_update buslatches_getbyte_def Let_def split_def)

section \<open>The main loop's own variables\<close>

lemma upper_frame:
  fixes s t :: "'a pru_scheme"
  assumes "mailbox_events_t.more t = mailbox_events_t.more s"
  shows "sm_data_master_state t = sm_data_master_state s" "sm_data_slave_state t = sm_data_slave_state s"
    "sm_intr_slave_state t = sm_intr_slave_state s" "emulate_cpu t = emulate_cpu s"
    "sm_device_arb_worker t = sm_device_arb_worker s" "halted t = halted s" "arm2pru_req t = arm2pru_req s"
    "diag_loop_passes t = diag_loop_passes s" "diag_arbitration_passes t = diag_arbitration_passes s"
    "diag_master_passes t = diag_master_passes s"
  using assms by (cases s, cases t, simp)+

lemma events_more:
  fixes s t :: "'a mailbox_events_t_scheme"
  assumes "mailbox_event_deviceregister_t.more t = mailbox_event_deviceregister_t.more s"
  shows "mailbox_events_t.more t = mailbox_events_t.more s"
  using assms by (cases s, cases t, simp)

lemma latch_more:
  fixes s :: "'a mailbox_events_t_scheme"
  shows "mailbox_events_t.more (buslatches_setbits r m v s) = mailbox_events_t.more s"
    "mailbox_events_t.more (buslatches_setbyte r v s) = mailbox_events_t.more s"
    "mailbox_events_t.more (PRU2ARM_INTERRUPT s) = mailbox_events_t.more s"
    "mailbox_events_t.more (timeout_set i d s) = mailbox_events_t.more s"
    "mailbox_events_t.more (timeout_cleanup i s) = mailbox_events_t.more s"
    "mailbox_events_t.more (snd (timeout_reached i s)) = mailbox_events_t.more s"
    "mailbox_events_t.more (snd (dataptr_get s)) = mailbox_events_t.more s"
    "mailbox_events_t.more (dataptr_put w s) = mailbox_events_t.more s"
    "mailbox_events_t.more (sm_dma_internal_end s) = mailbox_events_t.more s"
  by (simp_all add: setbits_update buslatches_setbyte_def PRU2ARM_INTERRUPT_def timeout_set_def Let_def timeout_cleanup_def
      timeout_reached_def dataptr_get_def dataptr_put_def sm_dma_internal_end_def)

lemmas memory_more = events_more[OF read_more] events_more[OF write_w_more] events_more[OF write_b_more]
  events_more[OF reset_values_more]

lemma wait_ssyn_more:
  fixes s t :: "'a mailbox_events_t_scheme"
  assumes "wait_ssyn_inactive bus s = Some t"
  shows "mailbox_events_t.more t = mailbox_events_t.more s"
  by (rule wait_ssyn_frame[OF assms]) simp

lemma dati_more:
  fixes s :: "'a mailbox_events_t_scheme"
  shows "mailbox_events_t.more (snd (sm_dma_dati a s)) = mailbox_events_t.more s"
proof -
  define b where "b = buslatches_setbits 4 (BIT 4) (BIT 4) (buslatches_setbits 4 0x3F (ucast (drop_bit 16 a AND 3)) s)"
  have "mailbox_events_t.more b = mailbox_events_t.more s" by (simp add: b_def latch_more)
  then show ?thesis
    by (simp add: sm_dma_dati_def Let_def b_def[symmetric] split_def latch_more memory_more split: option.split)
qed

lemma dato_more:
  fixes s t :: "'a mailbox_events_t_scheme"
  assumes "sm_dma_dato bus a c s = Some (m, t)"
  shows "mailbox_events_t.more t = mailbox_events_t.more s"
  using assms
  by (auto simp: sm_dma_dato_def Let_def split_def latch_more memory_more dest!: wait_ssyn_more split: option.splits if_splits)

lemma master_more:
  fixes s t :: "'a mailbox_events_t_scheme"
  assumes "master_step bus st s = Some (m, t)"
  shows "mailbox_events_t.more t = mailbox_events_t.more s"
proof (cases st)
  case Dma_1
  let ?a = "dma_cur_addr s OR address_overlay s"
  define u where "u = buslatches_setbyte 3 (ucast (drop_bit 8 ?a)) (buslatches_setbyte 2 (ucast ?a)
    ((if cur_wordsleft s = 1 then buslatches_setbits 1 (BIT 5) 0 s else s)\<lparr>state_timeout := False\<rparr>))"
  have "t = s \<or> (if QUNIBUS_CYCLE_IS_DATO (dma_buscycle s) then sm_dma_dato bus ?a (dma_buscycle s) u
      else Some (sm_dma_dati ?a u)) = Some (m, t)"
    using assms Dma_1 by (simp add: sm_dma_state_1_def Let_def u_def setbits_update split: if_splits)
  moreover have "mailbox_events_t.more u = mailbox_events_t.more s"
    by (simp add: u_def latch_more)
  moreover have "sm_dma_dati ?a u = (m, t) \<Longrightarrow> mailbox_events_t.more t = mailbox_events_t.more u"
    using dati_more[of ?a u] by simp
  ultimately show ?thesis by (auto dest: dato_more split: if_splits)
qed (use assms in \<open>auto simp: sm_dma_start_def sm_dma_state_11_def sm_dma_state_21_def sm_dma_state_99_def sm_dma_final_state_def
      sm_intr_master_start_def sm_intr_master_state_1_def sm_intr_master_state_2_def sm_intr_master_release_def
      buslatches_getbyte_def Let_def split_def latch_more split: if_splits\<close>)

lemma slave_cycle_more: "mailbox_events_t.more (snd (sm_data_slave_cycle bus a c s)) = mailbox_events_t.more s"
  by (simp add: sm_data_slave_cycle_def Let_def split_def buslatches_getbyte_def latch_more memory_more split: option.split)

lemma slave_more: "mailbox_events_t.more (snd (slave_step bus sl s)) = mailbox_events_t.more s"
  by (cases sl) (simp_all add: sm_data_slave_start_def sm_data_slave_state_10_def sm_data_slave_state_20_def
      sm_data_slave_state_99_def Let_def split_def buslatches_getbyte_def latch_more slave_cycle_more)

lemma slave_loop_more:
  assumes "data_slave_loop bus sl s = Some r"
  shows "mailbox_events_t.more (snd r) = mailbox_events_t.more s"
proof (rule data_slave_loop.raw_induct[where P = "\<lambda>bus sl s r. mailbox_events_t.more (snd r) = mailbox_events_t.more s",
      OF _ assms], goal_cases)
  case (1 loop bus sl s r)
  show ?case
    using 1(2) slave_more[of bus sl s] by (auto simp: split_def split: option.splits if_splits dest!: 1(1))
qed

lemma intr_slave_more: "mailbox_events_t.more (snd (intr_slave_step bus st s)) = mailbox_events_t.more s"
  by (cases st) (simp_all add: sm_intr_slave_start_def sm_intr_slave_state_1_def Let_def split_def buslatches_getbyte_def latch_more)

lemma init_signals_more: "mailbox_events_t.more (do_event_initializationsignals bus s) = mailbox_events_t.more s"
  by (simp add: do_event_initializationsignals_def init_voids_requests_def power_event_def init_event_def Let_def
      buslatches_getbyte_def latch_more memory_more)

section \<open>One pass\<close>

definition pass_ok :: "'a pru_scheme \<Rightarrow> bool" where
  "pass_ok s \<longleftrightarrow> state_ok s (sm_data_master_state s) (sm_data_slave_state s) (sm_intr_slave_state s)"

lemma worker_step_granted:
  assumes "state_ok s None sl is" "grant_lines g"
  shows "granted_ok (fst (device_worker bus g s)) (snd (device_worker bus g s)) sl is"
  using worker_device_granted[OF assms, of bus] worker_none_granted[OF assms]
  by (simp add: device_worker_def split: arb_worker.split)

lemma start_master_states:
  "sm_data_slave_state (start_master g s) = sm_data_slave_state s"
  "sm_intr_slave_state (start_master g s) = sm_intr_slave_state s"
  by (simp_all add: start_master_def Let_def)

lemma arbitration_pass_ok:
  assumes ok: "pass_ok s" and idle: "sm_data_master_state s = None"
  shows "pass_ok (arbitration_pass bus s)"
proof -
  let ?sl = "sm_data_slave_state s" and ?is = "sm_intr_slave_state s"
  define f where "f = (if \<not> emulate_cpu s then forward_grants bus s else (0, s))"
  have f: "state_ok (snd f) None ?sl ?is" "grant_lines (fst f)" "sm_data_master_state (snd f) = None"
    "sm_data_slave_state (snd f) = ?sl" "sm_intr_slave_state (snd f) = ?is"
    using ok idle by (simp_all add: f_def pass_ok_def forward_lines worker_master_none)
  define u where "u = (snd f)\<lparr>diag_arbitration_passes := diag_arbitration_passes (snd f) + 1\<rparr>"
  have u: "state_ok u None ?sl ?is" "sm_data_master_state u = None" "sm_data_slave_state u = ?sl" "sm_intr_slave_state u = ?is"
    using f by (simp_all add: u_def)
  define c where "c = (if emulate_cpu u then sm_arb_worker_cpu bus u else (fst f, u))"
  have c: "state_ok (snd c) None ?sl ?is" "grant_lines (fst c)" "sm_data_master_state (snd c) = None"
    "sm_data_slave_state (snd c) = ?sl" "sm_intr_slave_state (snd c) = ?is"
    using u f(2) by (simp_all add: c_def worker_cpu_lines_ok worker_master_none)
  define d where "d = device_worker bus (fst c) (snd c)"
  have d: "granted_ok (fst d) (snd d) ?sl ?is" "sm_data_master_state (snd d) = None"
    "sm_data_slave_state (snd d) = ?sl" "sm_intr_slave_state (snd d) = ?is"
    using worker_step_granted[OF c(1,2), of bus] c
    by (simp_all add: d_def device_worker_def worker_master_none split: arb_worker.split)
  have "arbitration_pass bus s = (if EVENT_IS_ACKED (ev_deviceregister (snd f)) then start_master (fst d) (snd d) else snd f)"
    by (simp add: arbitration_pass_def f_def u_def c_def d_def Let_def split_def)
  then show ?thesis
    using start_master_lines[OF d(1,2)] f d by (simp add: pass_ok_def start_master_states)
qed

lemma bus_pass_ok:
  assumes pass: "bus_pass bus s = Some t" and ok: "pass_ok s" and block: "dma_block_stands s (sm_data_master_state s)"
  shows "pass_ok t"
proof (cases "sm_data_master_state s")
  case None
  define st where "st = slave_from (sm_data_slave_state s)"
  from pass None obtain sl u where loop: "data_slave_loop bus st s = Some (sl, u)"
    and t: "t = arbitration_pass bus (do_event_initializationsignals bus (u\<lparr>sm_data_slave_state := sl\<rparr>))"
    by (auto simp: bus_pass_def slave_pass_def st_def slave_from_def)
  have "state_ok u None sl (sm_intr_slave_state s)"
    by (rule slave_loop_lines[OF loop], unfold st_def, rule slave_from_lines)
      (use ok None in \<open>simp add: pass_ok_def\<close>)
  moreover note upper_frame[OF slave_loop_more[OF loop, simplified]]
  ultimately have u: "pass_ok (u\<lparr>sm_data_slave_state := sl\<rparr>)" "sm_data_master_state (u\<lparr>sm_data_slave_state := sl\<rparr>) = None"
    using None by (simp_all add: pass_ok_def)
  note frame = upper_frame[OF init_signals_more, of bus "u\<lparr>sm_data_slave_state := sl\<rparr>"]
  have "pass_ok (do_event_initializationsignals bus (u\<lparr>sm_data_slave_state := sl\<rparr>))"
    using u(1) unfolding pass_ok_def frame by (rule init_signals_lines)
  then show ?thesis
    unfolding t by (rule arbitration_pass_ok) (use frame u(2) in simp)
next
  case (Some st)
  let ?s = "s\<lparr>diag_master_passes := diag_master_passes s + 1\<rparr>"
  from pass Some obtain m u where step: "master_step bus st ?s = Some (m, u)" and t: "t = u\<lparr>sm_data_master_state := m\<rparr>"
    by (auto simp: bus_pass_def)
  have "state_ok u m (sm_data_slave_state s) (sm_intr_slave_state s)"
    by (rule master_lines[OF step]) (use ok block Some in \<open>simp_all add: pass_ok_def dma_block_stands_def\<close>)
  with upper_frame[OF master_more[OF step]] show ?thesis
    by (simp add: t pass_ok_def)
qed

lemma intr_slave_pass_ok:
  assumes "pass_ok s"
  shows "pass_ok (intr_slave_pass bus s)"
proof -
  define st where "st = (case sm_intr_slave_state s of None \<Rightarrow> Intr_slave_start | Some st \<Rightarrow> st)"
  let ?r = "intr_slave_step bus st s"
  have "state_ok (snd ?r) (sm_data_master_state s) (sm_data_slave_state s) (fst ?r)"
    using assms
    by (cases st) (auto simp: st_def pass_ok_def sm_intr_slave_start_def sm_intr_slave_state_1_def Let_def split_def lines_ok_def
        line_simps buslatches_getbyte_def PRU2ARM_INTERRUPT_def split: option.splits)
  then show ?thesis
    using assms upper_frame[OF intr_slave_more, of bus st s]
    by (simp add: intr_slave_pass_def st_def[symmetric] Let_def split_def pass_ok_def)
qed

lemma command_ok:
  assumes "arm2pru_command bus s = Some t" "pass_ok s" "ucast (arm2pru_req s) \<noteq> ARM2PRU_BUSLATCH_SET"
  shows "pass_ok t"
proof -
  have cancel: "pass_ok (cmd_dma_cancel s)"
    using assms(2) by (auto simp: cmd_dma_cancel_def Let_def pass_ok_def lines_ok_def line_simps setbits_update)
  have dma: "pass_ok (cmd_dma s)" "pass_ok (cmd_intr s)" "pass_ok (cmd_intr_cancel s)" "pass_ok (cmd_buslatch_get bus s)"
    using assms(2) by (simp_all add: cmd_dma_def cmd_intr_def cmd_intr_cancel_def cmd_buslatch_get_def buslatches_getbyte_def
        Let_def pass_ok_def)
  have init: "pass_ok (cmd_initializationsignal_set s)"
    using assms(2) by (simp add: cmd_initializationsignal_set_def pass_ok_def lines_ok_def line_simps setbits_update)
  have overlay: "pass_ok (cmd_address_overlay s)"
    using assms(2) by (simp add: cmd_address_overlay_def Let_def pass_ok_def lines_ok_def line_simps setbits_update buslatches_setbyte_def)
  have enable: "pass_ok (cmd_cpu_enable s)"
    using assms(2) by (auto simp: cmd_cpu_enable_def sm_arb_reset_def Let_def pass_ok_def lines_ok_def line_simps setbits_update
        timeout_cleanup_def bit_or_iff)
  show ?thesis
    using assms cancel dma init overlay enable
    by (auto simp: arm2pru_command_def Let_def pass_ok_def split: if_splits)
qed

text \<open>A pass does not touch the command of the ARM before it serves it.\<close>

lemma arbitration_pass_req: "arm2pru_req (arbitration_pass bus s) = arm2pru_req s"
proof -
  have w: "arm2pru_req (snd (forward_grants bus u)) = arm2pru_req u" "arm2pru_req (snd (sm_arb_worker_cpu bus u)) = arm2pru_req u"
    "arm2pru_req (snd (device_worker bus g u)) = arm2pru_req u" "arm2pru_req (start_master g u) = arm2pru_req u"
    for u :: "'a pru_scheme" and g
    by (simp_all add: device_worker_def start_master_def sm_arb_worker_device_def sm_arb_cpu_access_def sm_arb_wait_grant_def
        sm_arb_wait_bus_def sm_arb_worker_none_def sm_arb_worker_cpu_def sm_arb_arbitrate_def sm_arb_grant_intr_def timeout_set_def
        timeout_cleanup_def timeout_reached_def forward_grants_def setbits_update buslatches_getbyte_def Let_def split_def
        split: arb_worker.split)
  show ?thesis by (simp add: arbitration_pass_def Let_def split_def w)
qed

lemma bus_pass_req:
  assumes "bus_pass bus s = Some t"
  shows "arm2pru_req t = arm2pru_req s"
proof (cases "sm_data_master_state s")
  case None
  with assms obtain sl u where "data_slave_loop bus (slave_from (sm_data_slave_state s)) s = Some (sl, u)"
    and t: "t = arbitration_pass bus (do_event_initializationsignals bus (u\<lparr>sm_data_slave_state := sl\<rparr>))"
    by (auto simp: bus_pass_def slave_pass_def slave_from_def)
  from upper_frame(7)[OF slave_loop_more[OF this(1), simplified]] show ?thesis
    by (simp add: t arbitration_pass_req upper_frame(7)[OF init_signals_more])
next
  case (Some st)
  with assms obtain m u where "master_step bus st (s\<lparr>diag_master_passes := diag_master_passes s + 1\<rparr>) = Some (m, u)"
    and t: "t = u\<lparr>sm_data_master_state := m\<rparr>"
    by (auto simp: bus_pass_def)
  from upper_frame(7)[OF master_more[OF this(1)]] show ?thesis by (simp add: t)
qed

lemma main_pass_ok:
  assumes pass: "main_pass bus s = Some t" and ok: "pass_ok s" and block: "dma_block_stands s (sm_data_master_state s)"
    and plain: "ucast (arm2pru_req s) \<noteq> ARM2PRU_BUSLATCH_SET"
  shows "pass_ok t"
proof (cases "halted s")
  case True
  then show ?thesis using pass ok by (simp add: main_pass_def)
next
  case False
  let ?s = "s\<lparr>diag_loop_passes := diag_loop_passes s + 1\<rparr>"
  from pass False obtain u where u: "bus_pass bus ?s = Some u" and t: "t = process_arm2pru bus (intr_slave_pass bus u)"
    by (auto simp: main_pass_def)
  have "pass_ok (intr_slave_pass bus u)"
    by (intro intr_slave_pass_ok bus_pass_ok[OF u]) (use ok block in \<open>simp_all add: pass_ok_def dma_block_stands_def\<close>)
  moreover have "arm2pru_req (intr_slave_pass bus u) = arm2pru_req s"
    using bus_pass_req[OF u] upper_frame(7)[OF intr_slave_more, of bus _ u]
    by (simp add: intr_slave_pass_def Let_def split_def)
  ultimately show ?thesis
    using command_ok[of bus "intr_slave_pass bus u"] plain
    by (auto simp: t process_arm2pru_def pass_ok_def split: option.split)
qed

lemma reset_lines:
  fixes s :: "'a statemachine_dma_t_scheme"
  shows "cur_reg_val (buslatches_reset s) = (cur_reg_val s)(0 := 0x1F, 1 := 0, 4 := 0, 7 := 0)"
    "r \<in> {0, 1, 4, 7} \<Longrightarrow> latch_out (buslatches_reset s) r = cur_reg_val (buslatches_reset s) r"
proof -
  have ones: "(0xFF :: u8) = - 1" by simp
  have full: "merge_bits c v 0xFF = v" for c v :: u8
    unfolding ones by (simp add: merge_bits_def)
  show "cur_reg_val (buslatches_reset s) = (cur_reg_val s)(0 := 0x1F, 1 := 0, 4 := 0, 7 := 0)"
    "r \<in> {0, 1, 4, 7} \<Longrightarrow> latch_out (buslatches_reset s) r = cur_reg_val (buslatches_reset s) r"
    by (auto simp: buslatches_reset_def Let_def full)
qed

lemma arb_reset_lines:
  fixes s :: "'a pru_scheme"
  assumes "latch_out s 0 = cur_reg_val s 0" "latch_out s 4 = 0" "latch_out s 7 = 0" "cur_reg_val s 1 = 0"
    "cur_reg_val s 4 = 0" "cur_reg_val s 7 = 0"
  shows "state_ok (sm_arb_reset s) None None None"
  using assms by (simp add: sm_arb_reset_def Let_def lines_ok_def line_simps owns_bus_def merge_bits_def)

lemma main_init_ok: "pass_ok (main_init s)"
proof -
  define u where "u = iopageregisters_init (timeout_init (s\<lparr>sm_device_arb_worker := Arb_worker_device, sm_data_slave_state := None,
    sm_data_master_state := None, sm_intr_slave_state := None, emulate_cpu := False, halted := False\<rparr>))"
  have none: "sm_data_slave_state u = None" "sm_data_master_state u = None" "sm_intr_slave_state u = None"
    by (simp_all add: u_def iopageregisters_init_def timeout_init_def)
  have "state_ok (sm_arb_reset (buslatches_reset u)) None None None"
    by (rule arb_reset_lines) (simp_all add: reset_lines)
  moreover have "main_init s = MAILBOX_DIAG_RESET (sm_arb_reset (buslatches_reset u))"
    by (simp add: main_init_def u_def Let_def)
  moreover have "sm_data_slave_state (sm_arb_reset (buslatches_reset u)) = None"
    "sm_data_master_state (sm_arb_reset (buslatches_reset u)) = None"
    "sm_intr_slave_state (sm_arb_reset (buslatches_reset u)) = None"
    using none by (simp_all add: sm_arb_reset_def buslatches_reset_def Let_def timeout_cleanup_def setbits_update buslatches_setbyte_def)
  ultimately show ?thesis by (simp add: pass_ok_def MAILBOX_DIAG_RESET_def)
qed

end
