(* ===== verification/PruMain_Props.thy ===== *)
theory PruMain_Props
  imports PruMain_Lemmas PruArb_Props
begin

unbundle bit_operations_syntax

text \<open>
  Properties of the main loop: the bus lines follow the state machines in every reachable
  state, and a cancelled DMA request never reaches the bus.
\<close>

section \<open>Runs of the firmware\<close>

text \<open>
  Between two passes the ARM may write what it likes to the shared mailbox, with two
  exceptions: it does not set bus latches by hand (\<open>ARM2PRU_BUSLATCH_SET\<close> is for tests of
  the hardware), and it leaves the block of a running DMA alone.
\<close>

definition arm_turn :: "pru \<Rightarrow> pru \<Rightarrow> bool" where
  "arm_turn s t \<longleftrightarrow>
     cur_reg_val t = cur_reg_val s \<and> latch_out t = latch_out s \<and>
     grant_bbsy_ssyn_wait_grant_mask t = grant_bbsy_ssyn_wait_grant_mask s \<and>
     arbitrator_grant_mask t = arbitrator_grant_mask s \<and> cur_wordsleft t = cur_wordsleft s \<and>
     sm_data_master_state t = sm_data_master_state s \<and> sm_data_slave_state t = sm_data_slave_state s \<and>
     sm_intr_slave_state t = sm_intr_slave_state s \<and>
     ucast (arm2pru_req t) \<noteq> ARM2PRU_BUSLATCH_SET \<and> dma_block_stands t (sm_data_master_state t)"

inductive fw_reachable :: "bus_lines \<Rightarrow> pru \<Rightarrow> bool" for bus where
  start: "fw_reachable bus (main_init s)"
| pass: "fw_reachable bus s \<Longrightarrow> arm_turn s t \<Longrightarrow> main_pass bus t = Some u \<Longrightarrow> fw_reachable bus u"

lemma reachable_pass_ok: "fw_reachable bus s \<Longrightarrow> pass_ok s"
proof (induction rule: fw_reachable.induct)
  case (start s)
  show ?case by (rule main_init_ok)
next
  case (pass s t u)
  then have "pass_ok t" by (simp add: arm_turn_def pass_ok_def)
  then show ?case using pass by (auto simp: arm_turn_def intro: main_pass_ok)
qed

section \<open>Bus lines\<close>

text \<open>C35.
  In every state the main loop reaches, whatever the other cards do on the bus and whatever
  the ARM writes to its mailbox - except that it sets no latches by hand and leaves the block of a
  running DMA alone (\<open>arm_turn\<close>): BBSY is asserted exactly while a DMA or an interrupt holds
  the bus, MSYN only while a DMA waits for its answer, INTR exactly while an interrupt
  vector is offered, SSYN only while the board answers a cycle or takes an interrupt, and
  SACK only between a grant and the last word of the transfer. The cache of the four
  latches with single lines is what the latches hold, and grants are on the five grant lines.
\<close>

theorem bus_lines_follow_states:
  assumes "fw_reachable bus s"
  defines "m \<equiv> sm_data_master_state s"
  shows "(bit (latch_out s 1) 6 \<longleftrightarrow> m \<in> {Some Dma_1, Some Dma_11, Some Dma_21, Some Dma_99, Some Intr_1, Some Intr_2}) \<and>
    (bit (latch_out s 4) 4 \<longrightarrow> m \<in> {Some Dma_11, Some Dma_21}) \<and>
    (bit (latch_out s 7) 0 \<longleftrightarrow> m = Some Intr_2) \<and>
    (bit (latch_out s 4) 5 \<longrightarrow> sm_data_slave_state s \<in> {Some Slave_10, Some Slave_20} \<or>
      sm_intr_slave_state s = Some Intr_slave_1) \<and>
    (bit (latch_out s 1) 5 \<longrightarrow> grant_bbsy_ssyn_wait_grant_mask s \<noteq> 0 \<or>
      m \<in> {Some Dma_start, Some Dma_1, Some Intr_start, Some Intr_1} \<or>
      m \<in> {Some Dma_11, Some Dma_21, Some Dma_99} \<and> cur_wordsleft s \<noteq> 1) \<and>
    (\<forall>r \<in> {0, 1, 4, 7}. latch_out s r = cur_reg_val s r) \<and>
    (\<forall>k. bit (grant_bbsy_ssyn_wait_grant_mask s) k \<or> bit (arbitrator_grant_mask s) k \<longrightarrow> k < 5)"
  using reachable_pass_ok[OF assms(1)] unfolding m_def
  by (simp add: pass_ok_def lines_ok_def owns_bus_def may_hold_sack_def grant_lines_def)

text \<open>The loop turns once on an idle bus and takes the DMA command of the ARM.\<close>

definition dma_request :: pru where
  "dma_request = blank_pru\<lparr>arm2pru_req := ucast ARM2PRU_DMA, dma_wordcount := 1\<rparr>"

lemma blank_pru_reachable: "fw_reachable bus blank_pru"
  unfolding blank_pru_def by (rule fw_reachable.start)

definition silent :: bus_lines where "silent n out r = 0"

lemma blank_pru_more_fields:
  "power_signals_cur blank_pru = 0" "init_signal_cur blank_pru = 0" "cpu_request blank_pru = 0" "dma_cpu_access blank_pru = 0"
  "grant_bbsy_ssyn_wait_grant_mask blank_pru = 0" "device_request_mask blank_pru = 0" "device_forwarded_grant_mask blank_pru = 0"
  by (simp_all add: blank_pru_def main_init_def Let_def timeout_init_def iopageregisters_init_def buslatches_reset_def
      sm_arb_reset_def MAILBOX_DIAG_RESET_def setbits_update buslatches_setbyte_def timeout_cleanup_def)

lemma silent_slave_pass: "sm_data_slave_state s = None \<Longrightarrow>
    slave_pass silent s = Some (s\<lparr>bus_reads := Suc (bus_reads s)\<rparr>)"
  by (simp add: slave_pass_def data_slave_loop.simps sm_data_slave_start_def buslatches_getbyte_def silent_def)

lemma silent_pass:
  obtains u where "main_pass silent dma_request = Some u" "bit (device_request_mask u) 4"
proof -
  have "\<exists>u. main_pass silent dma_request = Some u \<and> bit (device_request_mask u) 4"
    by (simp add: main_pass_def bus_pass_def silent_slave_pass dma_request_def blank_pru_more_fields
        do_event_initializationsignals_def power_event_def init_event_def buslatches_getbyte_def silent_def
        arbitration_pass_def forward_grants_def setbits_update EVENT_IS_ACKED_def device_worker_def sm_arb_worker_device_def
        sm_arb_cpu_access_def sm_arb_wait_grant_def start_master_def intr_slave_pass_def process_arm2pru_def
        arm2pru_command_def ARM2PRU_NOP_def ARM2PRU_ARB_MODE_NONE_def ARM2PRU_ARB_MODE_CLIENT_def ARM2PRU_DMA_def
        cmd_dma_def NP_bit bit_or_iff Let_def)
  then show ?thesis using that by blast
qed

theorem bus_lines_follow_states_witness:
  "\<exists>u. fw_reachable silent u \<and> bit (device_request_mask u) 4 \<and> (bit (latch_out u 7) 0 \<longleftrightarrow> sm_data_master_state u = Some Intr_2)"
proof -
  obtain u where u: "main_pass silent dma_request = Some u" "bit (device_request_mask u) 4" by (rule silent_pass)
  have "arm_turn blank_pru dma_request"
    by (simp add: arm_turn_def dma_request_def ARM2PRU_DMA_def ARM2PRU_BUSLATCH_SET_def dma_block_stands_def)
  from fw_reachable.pass[OF blank_pru_reachable this u(1)] have "fw_reachable silent u" .
  with bus_lines_follow_states[OF this] u(2) show ?thesis by blast
qed

section \<open>Cancelling a DMA\<close>

text \<open>No request of a DMA is on its way: neither raised nor granted.\<close>

definition no_dma_request :: "'a pru_scheme \<Rightarrow> bool" where
  "no_dma_request s \<longleftrightarrow> cpu_request s = 0 \<and> \<not> bit (device_request_mask s) 4 \<and> \<not> bit (grant_bbsy_ssyn_wait_grant_mask s) 4"

text \<open>Passes of the arbitration while nothing holds the bus.\<close>

fun idle_passes :: "bus_lines \<Rightarrow> nat \<Rightarrow> 'a pru_scheme \<Rightarrow> 'a pru_scheme" where
  "idle_passes bus 0 s = s"
| "idle_passes bus (Suc n) s =
     (if sm_data_master_state s = None then idle_passes bus n (arbitration_pass bus s) else s)"

lemma forward_no_dma: "no_dma_request (snd (forward_grants bus s)) = no_dma_request s"
  by (simp add: no_dma_request_def forward_grants_def buslatches_getbyte_def Let_def setbits_update)

lemma worker_cpu_no_dma: "no_dma_request (snd (sm_arb_worker_cpu bus s)) = no_dma_request s"
  by (simp add: no_dma_request_def sm_arb_worker_cpu_def buslatches_getbyte_def Let_def setbits_update sm_arb_arbitrate_def
      sm_arb_grant_intr_def timeout_set_def timeout_cleanup_def timeout_reached_def split_def)

lemma device_worker_no_dma:
  assumes "no_dma_request s"
  shows "no_dma_request (snd (device_worker bus g s))" "\<not> bit (fst (device_worker bus g s)) 4"
proof -
  have "no_dma_request (snd (sm_arb_worker_device bus g s)) \<and> \<not> bit (fst (sm_arb_worker_device bus g s)) 4"
    using assms by (auto simp: no_dma_request_def sm_arb_worker_device_def sm_arb_cpu_access_def sm_arb_wait_grant_def
        sm_arb_wait_bus_def buslatches_getbyte_def Let_def setbits_update bit_and_iff bit_not_iff)
  moreover have "no_dma_request (snd (sm_arb_worker_none g s)) \<and> \<not> bit (fst (sm_arb_worker_none g s)) 4"
    using assms by (auto simp: no_dma_request_def sm_arb_worker_none_def Let_def setbits_update and_NP)
  ultimately show "no_dma_request (snd (device_worker bus g s))" "\<not> bit (fst (device_worker bus g s)) 4"
    by (simp_all add: device_worker_def split: arb_worker.split)
qed

lemma arbitration_no_dma:
  assumes "no_dma_request s" "sm_data_master_state s \<noteq> Some Dma_start"
  shows "no_dma_request (arbitration_pass bus s)" "sm_data_master_state (arbitration_pass bus s) \<noteq> Some Dma_start"
proof -
  have start: "no_dma_request (start_master g t) \<and> sm_data_master_state (start_master g t) \<noteq> Some Dma_start"
    if "no_dma_request t" "\<not> bit g 4" "sm_data_master_state t \<noteq> Some Dma_start" for g and t :: "'a pru_scheme"
    using that by (auto simp: start_master_def and_NP no_dma_request_def Let_def)
  have master: "sm_data_master_state (snd (device_worker bus g t)) = sm_data_master_state t" for g and t :: "'a pru_scheme"
    by (simp add: device_worker_def worker_master_none split: arb_worker.split)
  define f where "f = (if \<not> emulate_cpu s then forward_grants bus s else (0, s))"
  define u where "u = (snd f)\<lparr>diag_arbitration_passes := diag_arbitration_passes (snd f) + 1\<rparr>"
  define c where "c = (if emulate_cpu u then sm_arb_worker_cpu bus u else (fst f, u))"
  have f: "no_dma_request (snd f)" "sm_data_master_state (snd f) \<noteq> Some Dma_start"
    using assms by (simp_all add: f_def forward_no_dma worker_master_none)
  then have u: "no_dma_request u" "sm_data_master_state u \<noteq> Some Dma_start"
    by (simp_all add: u_def no_dma_request_def)
  then have c: "no_dma_request (snd c)" "sm_data_master_state (snd c) \<noteq> Some Dma_start"
    by (simp_all add: c_def worker_cpu_no_dma worker_master_none)
  have "arbitration_pass bus s = (if EVENT_IS_ACKED (ev_deviceregister (snd f))
      then start_master (fst (device_worker bus (fst c) (snd c))) (snd (device_worker bus (fst c) (snd c))) else snd f)"
    by (simp add: arbitration_pass_def f_def u_def c_def Let_def split_def)
  then show "no_dma_request (arbitration_pass bus s)" "sm_data_master_state (arbitration_pass bus s) \<noteq> Some Dma_start"
    using start[OF device_worker_no_dma[OF c(1)]] c(2) f master by auto
qed

lemma idle_passes_no_dma:
  "no_dma_request s \<Longrightarrow> sm_data_master_state s \<noteq> Some Dma_start \<Longrightarrow>
    sm_data_master_state (idle_passes bus n s) \<noteq> Some Dma_start"
  by (induction n arbitrary: s) (simp_all add: arbitration_no_dma)

text \<open>C36.
  Cancelling a DMA that still waits for the bus reports it as cancelled, withdraws the
  request, gives back a grant that was already accepted (SACK is released), and no later
  arbitration starts a DMA, whatever is granted, until the ARM asks for one again. Once
  the transfer holds the bus, or no request waits, cancelling changes nothing.
\<close>

theorem dma_cancel_withdraws:
  assumes own: "if dma_cpu_access s \<noteq> 0 then \<not> bit (device_request_mask s) 4 \<and> \<not> bit (grant_bbsy_ssyn_wait_grant_mask s) 4
     else cpu_request s = 0"
  defines "s' \<equiv> cmd_dma_cancel s"
  shows "if sm_data_master_state s = None \<and> dma_cur_status s = DMA_STATE_ARBITRATING
    then dma_cur_status s' = DMA_STATE_CANCELED \<and> no_dma_request s' \<and>
      (bit (grant_bbsy_ssyn_wait_grant_mask s) 4 \<longrightarrow> \<not> bit (latch_out s' 1) 5) \<and>
      (\<forall>bus n. sm_data_master_state (idle_passes bus n s') \<noteq> Some Dma_start)
    else s' = s"
proof (cases "sm_data_master_state s = None \<and> dma_cur_status s = DMA_STATE_ARBITRATING")
  case True
  have "no_dma_request s'" "sm_data_master_state s' = None" "dma_cur_status s' = DMA_STATE_CANCELED"
    "bit (grant_bbsy_ssyn_wait_grant_mask s) 4 \<longrightarrow> \<not> bit (latch_out s' 1) 5"
    using True own
    by (simp_all add: s'_def cmd_dma_cancel_def no_dma_request_def Let_def and_NP NP_bit bit_and_iff bit_not_iff setbits_update
        bit_merge_bits and_BIT)
  then show ?thesis using True idle_passes_no_dma[of s'] by simp
next
  case False
  then show ?thesis by (simp only: s'_def cmd_dma_cancel_def if_False)
qed

theorem dma_cancel_withdraws_witness:
  "dma_cur_status (cmd_dma_cancel (blank_pru\<lparr>dma_cur_status := 1, device_request_mask := 0x10\<rparr>)) = DMA_STATE_CANCELED"
  using dma_cancel_withdraws[of "blank_pru\<lparr>dma_cur_status := 1, device_request_mask := 0x10\<rparr>"]
  by (simp add: DMA_STATE_ARBITRATING_def blank_pru_more_fields)

end
