(* ===== verification/QbusBoard.thy ===== *)
theory QbusBoard
  imports PruArbitration
begin

unbundle bit_operations_syntax

text \<open>
  The firmware of the QBUS board (\<open>10.01_base/2_src/pru1_q\<close>), a second program beside the
  UNIBUS one: what bus cycles are answered from (\<open>pru1_iopageregisters.c\<close>), the latches
  (\<open>pru1_buslatches.c\<close>), the timeouts (\<open>pru1_timeouts.h\<close>) and the diagnostic counters
  (\<open>pru1_diag.c\<close>). The structs and macros of \<open>shared\<close> are the ones of \<open>PruMemory\<close>, and the
  macros that set and get a latch, of masks, delays and levels read the same in both programs, so
  they are used from \<open>PruLatches\<close>, \<open>PruTimeouts\<close> and \<open>PruArbitration\<close>; \<open>address_overlay\<close> and the
  UNIBUS map stay unused. Names of this program carry the prefix
  \<open>q_\<close> or, for its structs, \<open>qbus_\<close>.

  The registers: 0 to 2 are DAL (with BS7 in bit 6 of 2, and SYNC in bit 7 when read),
  3 takes commands to the address latch, 4 is SYNC, DIN, DOUT, RPLY, WTBT, BS7, REF, INIT,
  5 is INIT, HALT, POK, DCOK, 6 is IRQ4 to IRQ7, DMR, IAKI, DMGI, SACK, and 7 the decoded
  grants.
\<close>

section \<open>Bus cycles to emulated addresses\<close>

text \<open>An address has BS7, the signal of the I/O page, as bit 22.\<close>

definition QUNIBUS_IOPAGE_ADDR_BITMASK :: u32 where "QUNIBUS_IOPAGE_ADDR_BITMASK = push_bit 22 1"

text \<open>
  The C result is 0 for no answer, 1 for memory, 2 for a device register, which may want
  the attention of the ARM. A read answers a pair; with 0 the value is left alone in C and no
  caller looks at it, it is 0 here.
\<close>

definition q_emulated_addr_read :: "u32 \<Rightarrow> 'a mailbox_event_deviceregister_t_scheme \<Rightarrow>
    (u8 \<times> u16) \<times> 'a mailbox_event_deviceregister_t_scheme" where
  "q_emulated_addr_read addr s =
    (let in0 = DDRMEM_ADDR_IN_SLOT s addr 0; in1 = DDRMEM_ADDR_IN_SLOT s addr 1 in
     if in0 \<or> in1 then
       (let (v, s) = DDRMEM_MEMGET_W addr s in ((1, v), DDRMEM_COUNT_READ in0 in1 s))
     else if addr AND QUNIBUS_IOPAGE_ADDR_BITMASK \<noteq> 0 then
       (let reghandle = IOPAGE_REGISTER_ENTRY s addr in
        if reghandle = 0 then ((0, 0), s)
        else if reghandle = IOPAGE_REGISTER_HANDLE_ROM then
          (let (v, s) = DDRMEM_MEMGET_W (iopage_start_addr s + (addr AND 0x1FFF)) s in
           ((1, v), s\<lparr>rom_access_count := rom_access_count s + 1\<rparr>))
        else
          (let reg = registers s (unat reghandle); v = reg_value reg in
           ((2, v), if reg_event_flags reg AND IOPAGEREGISTER_EVENT_FLAG_DATI \<noteq> 0
                    then DO_EVENT_DEVICEREGISTER reg QUNIBUS_CYCLE_DATI addr v s else s)))
     else ((0, 0), s))"

definition q_emulated_addr_write_w :: "u32 \<Rightarrow> u16 \<Rightarrow> 'a mailbox_event_deviceregister_t_scheme \<Rightarrow>
    u8 \<times> 'a mailbox_event_deviceregister_t_scheme" where
  "q_emulated_addr_write_w addr w s =
    (let in0 = DDRMEM_ADDR_IN_SLOT s addr 0; in1 = DDRMEM_ADDR_IN_SLOT s addr 1 in
     if in0 \<or> in1 then (1, DDRMEM_COUNT_WRITE in0 in1 (DDRMEM_MEMSET_W addr w s))
     else if addr AND QUNIBUS_IOPAGE_ADDR_BITMASK \<noteq> 0 then
       (let reghandle = IOPAGE_REGISTER_ENTRY s addr in
        if reghandle = 0 then (0, s)
        else if reghandle = IOPAGE_REGISTER_HANDLE_ROM then (0, s)
        else
          (let reg = registers s (unat reghandle);
               reg_val = (reg_value reg AND NOT (reg_writable_bits reg)) OR (w AND reg_writable_bits reg);
               s = s\<lparr>registers := (registers s)(unat reghandle := reg\<lparr>reg_value := reg_val\<rparr>)\<rparr> in
           (2, if reg_event_flags reg AND IOPAGEREGISTER_EVENT_FLAG_DATO \<noteq> 0
               then DO_EVENT_DEVICEREGISTER reg QUNIBUS_CYCLE_DATO addr reg_val s else s)))
     else (0, s))"

definition q_emulated_addr_write_b :: "u32 \<Rightarrow> u8 \<Rightarrow> 'a mailbox_event_deviceregister_t_scheme \<Rightarrow>
    u8 \<times> 'a mailbox_event_deviceregister_t_scheme" where
  "q_emulated_addr_write_b addr b s =
    (let in0 = DDRMEM_ADDR_IN_SLOT s addr 0; in1 = DDRMEM_ADDR_IN_SLOT s addr 1 in
     if in0 \<or> in1 then (1, DDRMEM_COUNT_WRITE in0 in1 (DDRMEM_MEMSET_B addr b s))
     else if addr AND QUNIBUS_IOPAGE_ADDR_BITMASK \<noteq> 0 then
       (let reghandle = IOPAGE_REGISTER_ENTRY s addr in
        if reghandle = 0 then (0, s)
        else if reghandle = IOPAGE_REGISTER_HANDLE_ROM then (0, s)
        else
          (let reg = registers s (unat reghandle); v = reg_value reg; wr = reg_writable_bits reg;
               reg_val = (if addr AND 1 \<noteq> 0
                 then (v AND 0x00FF) OR (v AND NOT wr AND 0xFF00) OR (push_bit 8 (ucast b) AND wr)
                 else (v AND 0xFF00) OR (v AND NOT wr AND 0x00FF) OR (ucast b AND wr));
               s = s\<lparr>registers := (registers s)(unat reghandle := reg\<lparr>reg_value := reg_val\<rparr>)\<rparr> in
           (2, if reg_event_flags reg AND IOPAGEREGISTER_EVENT_FLAG_DATO \<noteq> 0
               then DO_EVENT_DEVICEREGISTER reg QUNIBUS_CYCLE_DATOB addr reg_val s else s)))
     else (0, s))"

section \<open>Latches\<close>

definition q_BUSLATCHES_REG_IS_BYTE :: "nat \<Rightarrow> bool" where
  "q_BUSLATCHES_REG_IS_BYTE reg_sel \<longleftrightarrow> reg_sel \<le> 2"

definition q_buslatches_reset :: "'a buslatches_t_scheme \<Rightarrow> 'a buslatches_t_scheme" where
  "q_buslatches_reset s =
    (let s = buslatches_setbyte 0 0x00 s;
         s = buslatches_setbyte 1 0x00 s;
         s = buslatches_setbits 2 0xFF 0x00 s;
         s = buslatches_setbyte 3 0x03 s;
         s = buslatches_setbits 4 0xFF 0x00 s;
         s = buslatches_setbits 5 0xFF 0x18 s;
         s = buslatches_setbits 6 0xFF 0x00 s
     in buslatches_setbits 7 0xFF 0x00 s)"

section \<open>Timeouts\<close>

text \<open>
  Target values of a counter that runs all the time. When it reaches its maximum the
  hardware stops it (and clears \<open>CTR_EN\<close>); the next operation on any timeout that sees
  it there starts it again from 0.
\<close>

record qbus_timeouts_t = buslatches_t +
  q_target_cycles :: "nat \<Rightarrow> u32"         \<comment> \<open>\<open>TIMEOUT_COUNT\<close> = 4 entries\<close>
  q_roll_over :: "nat \<Rightarrow> bool"
  q_cycle :: u32                          \<comment> \<open>\<open>PRU1_CTRL.CYCLE\<close>\<close>
  q_ctr_en :: bool                        \<comment> \<open>\<open>PRU1_CTRL.CTRL_bit.CTR_EN\<close>\<close>

definition Q_TIMEOUT_DMA :: nat where "Q_TIMEOUT_DMA = 0"
definition Q_TIMEOUT_SACK :: nat where "Q_TIMEOUT_SACK = 1"
definition Q_TIMEOUT_QBUS_INIT :: nat where "Q_TIMEOUT_QBUS_INIT = 2"

definition q_cycles_pass :: "nat \<Rightarrow> 'a qbus_timeouts_t_scheme \<Rightarrow> 'a qbus_timeouts_t_scheme" where
  "q_cycles_pass n s =
     (if q_ctr_en s
      then (let c = min (unat (q_cycle s) + n) 0xFFFFFFFF
            in s\<lparr>q_cycle := of_nat c, q_ctr_en := (c < 0xFFFFFFFF)\<rparr>)
      else s)"

text \<open>The two macros begin alike: \<open>_cycles\<close>, and the restart of a counter that has stopped.\<close>

definition q_cycles_now :: "'a qbus_timeouts_t_scheme \<Rightarrow> u32 \<times> 'a qbus_timeouts_t_scheme" where
  "q_cycles_now s =
     (let c = q_cycle s + 1 in (c, if c = 0 then s\<lparr>q_cycle := 0, q_ctr_en := True\<rparr> else s))"

definition q_TIMEOUT_SET :: "nat \<Rightarrow> u32 \<Rightarrow> 'a qbus_timeouts_t_scheme \<Rightarrow> 'a qbus_timeouts_t_scheme" where
  "q_TIMEOUT_SET idx delay_ticks s =
     (let (c, s) = q_cycles_now s in
      s\<lparr>q_target_cycles := (q_target_cycles s)(idx := c + delay_ticks),
        q_roll_over := (q_roll_over s)(idx := c + delay_ticks < c)\<rparr>)"

definition q_TIMEOUT_REACHED :: "nat \<Rightarrow> 'a qbus_timeouts_t_scheme \<Rightarrow> bool \<times> 'a qbus_timeouts_t_scheme" where
  "q_TIMEOUT_REACHED idx s =
     (let (c, s) = q_cycles_now s in
      (if q_roll_over s idx \<and> c > 0x80000000 then False else c \<ge> q_target_cycles s idx, s))"

definition q_timeout_init :: "'a qbus_timeouts_t_scheme \<Rightarrow> 'a qbus_timeouts_t_scheme" where
  "q_timeout_init s = s\<lparr>q_ctr_en := True\<rparr>"

section \<open>Diagnostic counters\<close>

record qbus_diag_trace_entry_t =
  trc_ts :: u32
  trc_l4 :: u8
  trc_l6 :: u8
  trc_l7 :: u8
  trc_arb_state :: u8

record qbus_diag_t = qbus_timeouts_t +
  qd_magic :: u32
  qd_layout_version :: u32
  qd_trace_entries :: u32
  qd_bus_activity :: u32
  qd_intr_answered :: u32
  qd_iak_abandoned :: u32
  qd_orphan_rescued :: u32
  qd_dma_grant_refused :: u32
  qd_dma_abandoned :: u32
  qd_timeout_dal_lo :: u32
  qd_timeout_dal_hi :: u32
  qd_timeout_dal_ext :: u32
  qd_timeout_l4 :: u32
  qd_timeout_l6 :: u32
  qd_timeout_addr :: u32
  qd_trace_frozen :: u32
  qd_trace_count :: u32
  qd_trace :: "nat \<Rightarrow> qbus_diag_trace_entry_t"   \<comment> \<open>one unused entry without \<open>QBUS_BUS_TRACE\<close>\<close>

definition QBUS_DIAG_MAGIC :: u32 where "QBUS_DIAG_MAGIC = 0x51444941"
definition QBUS_DIAG_LAYOUT_VERSION :: u32 where "QBUS_DIAG_LAYOUT_VERSION = 1"
definition QBUS_DIAG_TRACE_ENTRIES :: nat where "QBUS_DIAG_TRACE_ENTRIES = 1"

definition qbus_diag_init :: "'a qbus_diag_t_scheme \<Rightarrow> 'a qbus_diag_t_scheme" where
  "qbus_diag_init s = s\<lparr>qd_magic := QBUS_DIAG_MAGIC, qd_layout_version := QBUS_DIAG_LAYOUT_VERSION,
     qd_trace_entries := 0, qd_bus_activity := 0, qd_intr_answered := 0, qd_iak_abandoned := 0,
     qd_orphan_rescued := 0, qd_dma_grant_refused := 0, qd_dma_abandoned := 0,
     qd_timeout_dal_lo := 0, qd_timeout_dal_hi := 0, qd_timeout_dal_ext := 0, qd_timeout_l4 := 0,
     qd_timeout_l6 := 0, qd_timeout_addr := 0, qd_trace_frozen := 0, qd_trace_count := 0,
     qd_trace := (\<lambda>i. if i < QBUS_DIAG_TRACE_ENTRIES
       then \<lparr>trc_ts = 0, trc_l4 = 0, trc_l6 = 0, trc_l7 = 0, trc_arb_state = 0\<rparr> else qd_trace s i)\<rparr>"

text \<open>The snapshot of the lines that a failing DMA cycle leaves.\<close>

definition qbus_diag_timeout :: "bus_lines \<Rightarrow> u32 \<Rightarrow> 'a qbus_diag_t_scheme \<Rightarrow> 'a qbus_diag_t_scheme" where
  "qbus_diag_timeout bus addr s =
    (let (l0, s) = buslatches_getbyte bus 0 s; s = s\<lparr>qd_timeout_dal_lo := ucast l0\<rparr>;
         (l1, s) = buslatches_getbyte bus 1 s; s = s\<lparr>qd_timeout_dal_hi := ucast l1\<rparr>;
         (l2, s) = buslatches_getbyte bus 2 s; s = s\<lparr>qd_timeout_dal_ext := ucast l2\<rparr>;
         (l4, s) = buslatches_getbyte bus 4 s; s = s\<lparr>qd_timeout_l4 := ucast l4\<rparr>;
         (l6, s) = buslatches_getbyte bus 6 s; s = s\<lparr>qd_timeout_l6 := ucast l6\<rparr>
     in s\<lparr>qd_timeout_addr := addr\<rparr>)"

section \<open>Latch exerciser\<close>

text \<open>
  \<open>exerciser_latch_set\<close> keeps BS7 between a write to register 4 and the next to register 2, and
  ignores 3 and 7; \<open>execerciser_latch_get\<close> opens the latch of the address lines first. The flag
  \<open>exerciser_bs7\<close> is a global of the firmware.
\<close>

definition q_exerciser_latch_set :: "u8 \<Rightarrow> u8 \<Rightarrow> bool \<times> 'a buslatches_t_scheme \<Rightarrow> bool \<times> 'a buslatches_t_scheme" where
  "q_exerciser_latch_set addr val p =
    (let (bs7, s) = p in
     if addr = 0 \<or> addr = 1 then (bs7, buslatches_setbyte (unat addr) val s)
     else if addr = 2 then (bs7, buslatches_setbyte 2 (if bs7 then val OR 0x40 else val) s)
     else if addr = 4 then (val AND 0x20 \<noteq> 0, buslatches_setbits 4 0xFF val s)
     else if addr = 5 \<or> addr = 6 then (bs7, buslatches_setbits (unat addr) 0xFF val s)
     else (bs7, s))"

definition q_execerciser_latch_get :: "bus_lines \<Rightarrow> u8 \<Rightarrow> 'a buslatches_t_scheme \<Rightarrow> u8 \<times> 'a buslatches_t_scheme" where
  "q_execerciser_latch_get bus addr s =
    (let s = (if addr \<le> 2 then buslatches_setbyte 3 0x01 s else s) in buslatches_getbyte bus (unat addr) s)"

datatype q_exerciser_access = QSet nat | QGet nat

definition q_exerciser_accesses :: "u8 \<Rightarrow> q_exerciser_access list" where
  "q_exerciser_accesses pat =
    (if pat mod 3 = 0 then
       [QSet 0, QSet 1, QSet 2, QSet 3, QSet 4, QSet 5, QSet 6, QSet 7,
        QGet 0, QGet 1, QGet 2, QGet 3, QGet 4, QGet 5, QGet 6, QGet 7]
     else if pat mod 3 = 1 then
       [QSet 0, QGet 0, QSet 1, QGet 1, QSet 2, QGet 2, QSet 3, QGet 3,
        QSet 4, QGet 4, QSet 5, QGet 5, QSet 6, QGet 6, QSet 7, QGet 7]
     else
       [QSet 0, QSet 1, QSet 2, QSet 3, QGet 0, QSet 4, QGet 1, QSet 5, QGet 2, QSet 6, QGet 3, QSet 7,
        QGet 4, QGet 5, QGet 6, QGet 7])"

fun q_exerciser_run :: "bus_lines \<Rightarrow> q_exerciser_access list \<Rightarrow> (nat \<Rightarrow> u8) \<Rightarrow> (nat \<Rightarrow> u8) \<Rightarrow>
    bool \<times> 'a buslatches_t_scheme \<Rightarrow> (nat \<Rightarrow> u8) \<times> bool \<times> 'a buslatches_t_scheme" where
  "q_exerciser_run bus [] addr val p = (val, p)"
| "q_exerciser_run bus (QSet i # xs) addr val p =
     q_exerciser_run bus xs addr val (q_exerciser_latch_set (addr i) (val i) p)"
| "q_exerciser_run bus (QGet i # xs) addr val p =
     (let (v, s) = q_execerciser_latch_get bus (addr i) (snd p) in q_exerciser_run bus xs addr (val(i := v)) (fst p, s))"

definition q_buslatches_exerciser :: "bus_lines \<Rightarrow> mailbox_buslatch_exerciser_t \<Rightarrow> bool \<times> 'a buslatches_t_scheme \<Rightarrow>
    mailbox_buslatch_exerciser_t \<times> bool \<times> 'a buslatches_t_scheme" where
  "q_buslatches_exerciser bus ex p =
    (let (val, p) = q_exerciser_run bus (q_exerciser_accesses (ex_pattern ex)) (ex_addr ex) (ex_writeval ex) p
     in (ex\<lparr>ex_readval := val\<rparr>, p))"

end
