(* ===== verification/QbusArbitration.thy ===== *)
theory QbusArbitration
  imports QbusBoard
begin

unbundle bit_operations_syntax

text \<open>
  Arbitration on the QBUS (\<open>pru1_q/pru1_statemachine_arbitration.c\<close>) and the watch over INIT,
  POK and DCOK (\<open>pru1_statemachine_initialization.c\<close>). The worker puts the requests of the
  emulated devices on IRQ4 to IRQ7 and DMR, accepts grants, and answers an interrupt
  acknowledge itself; a DMA is left to the state machine of \<open>QbusDma\<close>. The IEP counter is
  the hardware's: it stands still within an operation and moves between them.
\<close>

section \<open>State\<close>

datatype sm_arbitration_states =
    State_grant_check | State_dma_grant_rply_sync_wait | State_intr_vector | State_intr_complete
  | State_orphan_vector | State_orphan_complete | State_arbitration_noop

record qbus_arbitration_t = qbus_diag_t +
  qa_state :: sm_arbitration_states
  qa_device_request_mask :: u8
  qa_device_request_signalled_mask :: u8
  qa_canceled_request_mask :: u8
  qa_dmr_holdoff_start :: u32
  qa_dmr_holdoff_active :: bool
  qa_dmr_committed :: bool
  qa_device_forwarded_grant_mask :: u8
  qa_device_grant_mask :: u8
  qa_intr_level_index :: nat
  qa_cpu_request :: u8
  qa_arbitrator_grant_mask :: u8
  qa_cpu_bus_inhibit_dmr_mask :: u8
  qa_pending_intr_register_handle :: "nat \<Rightarrow> u8"     \<comment> \<open>4 entries\<close>
  qa_pending_intr_register_value :: "nat \<Rightarrow> u16"

text \<open>The part of the mailbox that arbitration uses.\<close>

record qbus_mailbox_intr_t = qbus_arbitration_t +
  qm_intr_vector :: "nat \<Rightarrow> u16"                   \<comment> \<open>4 entries, IRQ4 to IRQ7\<close>
  qm_ev_intr_master :: "nat \<Rightarrow> event_channel"
  qm_ifs_priority_level :: u8
  qm_ifs_intr_arbitration_pending :: u8

definition ARB_IAK_DMR_HOLDOFF_TICKS :: u32 where "ARB_IAK_DMR_HOLDOFF_TICKS = 10000"
definition ARB_CPU_BUS_INHIBIT_DMR_ARM :: u8 where "ARB_CPU_BUS_INHIBIT_DMR_ARM = 0x01"
definition PRIORITY_ARBITRATION_BIT_B4 :: u8 where "PRIORITY_ARBITRATION_BIT_B4 = 0x01"
definition PRIORITY_ARBITRATION_BIT_B5 :: u8 where "PRIORITY_ARBITRATION_BIT_B5 = 0x02"
definition PRIORITY_ARBITRATION_BIT_B6 :: u8 where "PRIORITY_ARBITRATION_BIT_B6 = 0x04"
definition PRIORITY_ARBITRATION_BIT_B7 :: u8 where "PRIORITY_ARBITRATION_BIT_B7 = 0x08"

definition q_sm_arb_reset :: "'a qbus_arbitration_t_scheme \<Rightarrow> 'a qbus_arbitration_t_scheme" where
  "q_sm_arb_reset s =
    (buslatches_setbits 6 (PRIORITY_ARBITRATION_BIT_MASK OR BIT 7) 0 s)
      \<lparr>qa_device_request_mask := 0, qa_device_forwarded_grant_mask := 0, qa_device_request_signalled_mask := 0,
       qa_canceled_request_mask := 0, qa_dmr_holdoff_start := iep_tmr_cnt s, qa_dmr_holdoff_active := False,
       qa_dmr_committed := False, qa_intr_level_index := 0, qa_cpu_request := 0, qa_arbitrator_grant_mask := 0,
       qa_cpu_bus_inhibit_dmr_mask := 0,
       qa_pending_intr_register_handle := (\<lambda>i. if i < 4 then 0 else qa_pending_intr_register_handle s i)\<rparr>"

section \<open>Request lines\<close>

definition q_arb_line_pattern :: "u8 \<Rightarrow> u8" where
  "q_arb_line_pattern request_mask =
    (if request_mask AND (PRIORITY_ARBITRATION_BIT_B5 OR PRIORITY_ARBITRATION_BIT_B6 OR PRIORITY_ARBITRATION_BIT_B7) \<noteq> 0
     then (let bus_lines = request_mask OR PRIORITY_ARBITRATION_BIT_B4 in
           if bus_lines AND PRIORITY_ARBITRATION_BIT_B7 \<noteq> 0 then bus_lines OR PRIORITY_ARBITRATION_BIT_B6 else bus_lines)
     else request_mask)"

text \<open>No DMR while an interrupt acknowledge runs (IAKI) and for a while after it.\<close>

definition q_dmr_holdoff :: "bus_lines \<Rightarrow> 'a qbus_arbitration_t_scheme \<Rightarrow> 'a qbus_arbitration_t_scheme" where
  "q_dmr_holdoff bus s =
    (let (l6, s) = buslatches_getbyte bus 6 s;
         s = (if l6 AND BIT 5 \<noteq> 0
              then s\<lparr>qa_dmr_holdoff_start := iep_tmr_cnt s, qa_dmr_holdoff_active := True, qa_dmr_committed := False\<rparr>
              else s)
     in if qa_dmr_holdoff_active s \<and> iep_tmr_cnt s - qa_dmr_holdoff_start s \<ge> ARB_IAK_DMR_HOLDOFF_TICKS
        then s\<lparr>qa_dmr_holdoff_active := False\<rparr> else s)"

text \<open>A request for DMA is committed to the bus once, when no holdoff is on.\<close>

definition q_dmr_commit :: "u8 \<Rightarrow> u8 \<Rightarrow> 'a qbus_arbitration_t_scheme \<Rightarrow> u8 \<times> 'a qbus_arbitration_t_scheme" where
  "q_dmr_commit granted_requests_mask bus_lines s =
    (if qa_device_request_mask s AND PRIORITY_ARBITRATION_BIT_NP \<noteq> 0 then
       (let s = (if \<not> qa_dmr_committed s \<and> \<not> qa_dmr_holdoff_active s then s\<lparr>qa_dmr_committed := True\<rparr> else s) in
        if \<not> qa_dmr_committed s then
          (bus_lines AND NOT PRIORITY_ARBITRATION_BIT_NP,
           if granted_requests_mask AND PRIORITY_ARBITRATION_BIT_NP \<noteq> 0
           then s\<lparr>qd_dma_grant_refused := qd_dma_grant_refused s + 1\<rparr> else s)
        else (bus_lines, s))
     else (bus_lines, s\<lparr>qa_dmr_committed := False\<rparr>))"

text \<open>
  The deferred write to a device's interrupt register, for one level: it happens when
  the request is on the bus.
\<close>

definition q_pending_register :: "nat \<Rightarrow> 'a qbus_arbitration_t_scheme \<Rightarrow> 'a qbus_arbitration_t_scheme" where
  "q_pending_register idx s =
    (let h = unat (qa_pending_intr_register_handle s idx) in
     if h \<noteq> 0 \<and> qa_device_request_mask s AND BIT idx \<noteq> 0 then
       (if h < MAX_IOPAGE_REGISTER_COUNT
        then s\<lparr>registers := (registers s)(h := (registers s h)\<lparr>reg_value := qa_pending_intr_register_value s idx\<rparr>)\<rparr>
        else s\<lparr>array_oob := True\<rparr>)
       \<lparr>qa_pending_intr_register_handle := (qa_pending_intr_register_handle s)(idx := 0)\<rparr>
     else s)"

section \<open>States of the worker\<close>

text \<open>
  The orphan rescue: an acknowledge that no request of the board answers any more and that was
  not passed on gets the vector of the level that was withdrawn.
\<close>

definition q_orphan_rescue :: "bus_lines \<Rightarrow> u8 \<Rightarrow> 'a qbus_arbitration_t_scheme \<Rightarrow> 'a qbus_arbitration_t_scheme" where
  "q_orphan_rescue bus granted_requests_mask s =
    (let (l6, s) = buslatches_getbyte bus 6 s in
     if l6 AND BIT 5 \<noteq> 0 then
       (let decoded = granted_requests_mask AND PRIORITY_ARBITRATION_INTR_MASK;
            rescue_mask = (if decoded \<noteq> 0 then decoded AND NOT (qa_device_forwarded_grant_mask s)
                           else qa_canceled_request_mask s AND PRIORITY_ARBITRATION_INTR_MASK) in
        if rescue_mask \<noteq> 0 then
          (let idx = PRIORITY_ARBITRATION_INTR_BIT2IDX rescue_mask in
           s\<lparr>qa_intr_level_index := idx, qa_canceled_request_mask := qa_canceled_request_mask s AND NOT (BIT idx),
             qd_orphan_rescued := qd_orphan_rescued s + 1, qa_state := State_orphan_vector\<rparr>)
        else s)
     else s)"

definition q_grant_check :: "bus_lines \<Rightarrow> u8 \<Rightarrow> 'a qbus_arbitration_t_scheme \<Rightarrow> 'a qbus_arbitration_t_scheme" where
  "q_grant_check bus granted_requests_mask s =
    (let bus_lines = q_arb_line_pattern (qa_device_request_mask s);
         s = q_dmr_holdoff bus s;
         (bus_lines, s) = q_dmr_commit granted_requests_mask bus_lines s;
         bus_lines = (if qa_cpu_bus_inhibit_dmr_mask s \<noteq> 0 then bus_lines OR PRIORITY_ARBITRATION_BIT_NP else bus_lines);
         s = buslatches_setbits 6 PRIORITY_ARBITRATION_BIT_MASK bus_lines s;
         s = fold q_pending_register [0, 1, 2, 3] s;
         s = s\<lparr>qa_device_request_signalled_mask := qa_device_request_mask s\<rparr>;
         s = s\<lparr>qa_device_grant_mask := granted_requests_mask AND qa_device_request_mask s
                 AND NOT (qa_device_forwarded_grant_mask s)\<rparr>;
         s = (if \<not> qa_dmr_committed s
              then s\<lparr>qa_device_grant_mask := qa_device_grant_mask s AND NOT PRIORITY_ARBITRATION_BIT_NP\<rparr> else s)
     in if qa_device_grant_mask s AND PRIORITY_ARBITRATION_INTR_MASK \<noteq> 0 then s\<lparr>qa_state := State_intr_vector\<rparr>
        else if qa_device_grant_mask s AND PRIORITY_ARBITRATION_BIT_NP \<noteq> 0
        then s\<lparr>qa_state := State_dma_grant_rply_sync_wait\<rparr>
        else q_orphan_rescue bus granted_requests_mask s)"

definition q_dma_grant_rply_sync_wait :: "bus_lines \<Rightarrow> 'a qbus_arbitration_t_scheme \<Rightarrow> u8 \<times> 'a qbus_arbitration_t_scheme" where
  "q_dma_grant_rply_sync_wait bus s =
    (let (l6, s) = buslatches_getbyte bus 6 s in
     if l6 AND BIT 6 = 0 then (0, s\<lparr>qa_state := State_grant_check\<rparr>)
     else let (l4, s) = buslatches_getbyte bus 4 s in
     if l4 AND (BIT 0 + BIT 3) \<noteq> 0 then (0, s)
     else
       let s = buslatches_setbits 6 (PRIORITY_ARBITRATION_BIT_NP OR BIT 7) (BIT 7) s
       in (PRIORITY_ARBITRATION_BIT_NP,
           s\<lparr>qa_device_request_mask := qa_device_request_mask s AND NOT PRIORITY_ARBITRATION_BIT_NP,
             qa_dmr_committed := False, qa_state := State_grant_check\<rparr>))"

text \<open>The vector on DAL, little endian.\<close>

definition q_put_vector :: "u16 \<Rightarrow> 'a buslatches_t_scheme \<Rightarrow> 'a buslatches_t_scheme" where
  "q_put_vector v s = buslatches_setbyte 1 (ucast (drop_bit 8 v AND 0xFF)) (buslatches_setbyte 0 (ucast (v AND 0xFF)) s)"

definition q_intr_vector :: "bus_lines \<Rightarrow> 'a qbus_mailbox_intr_t_scheme \<Rightarrow> 'a qbus_mailbox_intr_t_scheme" where
  "q_intr_vector bus s =
    (let (l6, s) = buslatches_getbyte bus 6 s in
     if l6 AND BIT 5 = 0 then s\<lparr>qd_iak_abandoned := qd_iak_abandoned s + 1, qa_state := State_grant_check\<rparr>
     else let (l4, s) = buslatches_getbyte bus 4 s in
     if l4 AND BIT 1 = 0 then s
     else
       let s = s\<lparr>qa_device_request_mask := qa_device_request_mask s AND NOT (qa_device_grant_mask s),
                 qa_dmr_committed := False\<rparr>;
           s = buslatches_setbits 6 (PRIORITY_ARBITRATION_INTR_MASK OR PRIORITY_ARBITRATION_BIT_NP)
                 (q_arb_line_pattern (qa_device_request_mask s) AND PRIORITY_ARBITRATION_INTR_MASK) s;
           s = buslatches_setbits 4 (BIT 3) (BIT 3) s;
           idx = PRIORITY_ARBITRATION_INTR_BIT2IDX (qa_device_grant_mask s);
           s = (if idx < 4 then s else s\<lparr>array_oob := True\<rparr>);
           s = q_put_vector (qm_intr_vector s idx) s
       in s\<lparr>qa_intr_level_index := idx, qa_state := State_intr_complete\<rparr>)"

definition q_intr_complete :: "bus_lines \<Rightarrow> 'a qbus_mailbox_intr_t_scheme \<Rightarrow> u8 \<times> 'a qbus_mailbox_intr_t_scheme" where
  "q_intr_complete bus s =
    (let (l6, s) = buslatches_getbyte bus 6 s in
     if l6 AND BIT 5 \<noteq> 0 then (0, s)
     else
       let s = buslatches_setbits 4 (BIT 3) 0 s;
           s = buslatches_setbyte 1 0 (buslatches_setbyte 0 0 s);
           s = s\<lparr>qa_dmr_holdoff_start := iep_tmr_cnt s, qa_dmr_holdoff_active := True,
                 qd_intr_answered := qd_intr_answered s + 1\<rparr>;
           idx = qa_intr_level_index s;
           s = s\<lparr>qm_ev_intr_master := (qm_ev_intr_master s)(idx := EVENT_SIGNAL (qm_ev_intr_master s idx))\<rparr>;
           s = PRU2ARM_INTERRUPT s
       in (qa_device_request_signalled_mask s AND PRIORITY_ARBITRATION_INTR_MASK, s\<lparr>qa_state := State_grant_check\<rparr>))"

definition q_orphan_vector :: "bus_lines \<Rightarrow> 'a qbus_mailbox_intr_t_scheme \<Rightarrow> 'a qbus_mailbox_intr_t_scheme" where
  "q_orphan_vector bus s =
    (let (l6, s) = buslatches_getbyte bus 6 s in
     if l6 AND BIT 5 = 0 then s\<lparr>qd_iak_abandoned := qd_iak_abandoned s + 1, qa_state := State_grant_check\<rparr>
     else let (l4, s) = buslatches_getbyte bus 4 s in
     if l4 AND BIT 1 = 0 then s
     else
       let s = buslatches_setbits 4 (BIT 3) (BIT 3) s
       in (q_put_vector (qm_intr_vector s (qa_intr_level_index s)) s)\<lparr>qa_state := State_orphan_complete\<rparr>)"

definition q_orphan_complete :: "bus_lines \<Rightarrow> 'a qbus_arbitration_t_scheme \<Rightarrow> 'a qbus_arbitration_t_scheme" where
  "q_orphan_complete bus s =
    (let (l6, s) = buslatches_getbyte bus 6 s in
     if l6 AND BIT 5 \<noteq> 0 then s
     else
       let s = buslatches_setbits 4 (BIT 3) 0 s;
           s = buslatches_setbyte 1 0 (buslatches_setbyte 0 0 s)
       in s\<lparr>qa_dmr_holdoff_start := iep_tmr_cnt s, qa_dmr_holdoff_active := True, qa_state := State_grant_check\<rparr>)"

text \<open>No arbitration: grants pass, and a request for DMA starts at once.\<close>

definition q_arbitration_noop :: "u8 \<Rightarrow> 'a qbus_arbitration_t_scheme \<Rightarrow> u8 \<times> 'a qbus_arbitration_t_scheme" where
  "q_arbitration_noop granted_requests_mask s =
    (let s = buslatches_setbits 7 PRIORITY_ARBITRATION_BIT_MASK granted_requests_mask s;
         s = buslatches_setbits 6 (BIT 4) (if qa_cpu_bus_inhibit_dmr_mask s \<noteq> 0 then BIT 4 else 0) s
     in if qa_device_request_mask s AND PRIORITY_ARBITRATION_BIT_NP \<noteq> 0
        then (PRIORITY_ARBITRATION_BIT_NP,
              s\<lparr>qa_device_request_mask := qa_device_request_mask s AND NOT PRIORITY_ARBITRATION_BIT_NP\<rparr>)
        else (0, s))"

definition q_sm_arb_worker_device :: "bus_lines \<Rightarrow> u8 \<Rightarrow> 'a qbus_mailbox_intr_t_scheme \<Rightarrow>
    u8 \<times> 'a qbus_mailbox_intr_t_scheme" where
  "q_sm_arb_worker_device bus granted_requests_mask s =
    (case qa_state s of
       State_grant_check \<Rightarrow> (0, q_grant_check bus granted_requests_mask s)
     | State_dma_grant_rply_sync_wait \<Rightarrow> q_dma_grant_rply_sync_wait bus s
     | State_intr_vector \<Rightarrow> (0, q_intr_vector bus s)
     | State_intr_complete \<Rightarrow> q_intr_complete bus s
     | State_orphan_vector \<Rightarrow> (0, q_orphan_vector bus s)
     | State_orphan_complete \<Rightarrow> (0, q_orphan_complete bus s)
     | State_arbitration_noop \<Rightarrow> q_arbitration_noop granted_requests_mask s)"

section \<open>Arbitrator of an emulated CPU\<close>

text \<open>Written for the UNIBUS lines; the main loop of this firmware never enables it.\<close>

definition q_sm_arb_arbitrate :: "u8 \<Rightarrow> 'a qbus_mailbox_intr_t_scheme \<Rightarrow> 'a qbus_mailbox_intr_t_scheme" where
  "q_sm_arb_arbitrate latch1val s =
    (let intr_request_mask = latch1val AND PRIORITY_ARBITRATION_INTR_MASK in
     if latch1val AND BIT 5 \<noteq> 0 then s\<lparr>qa_arbitrator_grant_mask := 0\<rparr>
     else if latch1val AND PRIORITY_ARBITRATION_BIT_NP \<noteq> 0 then
       (if qa_arbitrator_grant_mask s = 0
        then q_TIMEOUT_SET Q_TIMEOUT_SACK (MILLISECS ARB_MASTER_SACK_TIMOUT_MS)
               (s\<lparr>qa_arbitrator_grant_mask := PRIORITY_ARBITRATION_BIT_NP\<rparr>)
        else s)
     else if qm_ifs_intr_arbitration_pending s \<noteq> 0 \<and> intr_request_mask \<noteq> 0 then
       (if qa_arbitrator_grant_mask s = 0 then
          (let level = requested_intr_level intr_request_mask in
           if level > qm_ifs_priority_level s \<and> level \<noteq> CPU_PRIORITY_LEVEL_FETCHING
           then q_TIMEOUT_SET Q_TIMEOUT_SACK (MILLISECS ARB_MASTER_SACK_TIMOUT_MS)
                  (s\<lparr>qa_arbitrator_grant_mask := BIT (unat (level - 4))\<rparr>)
           else s)
        else s)
     else
       (let (reached, s) = q_TIMEOUT_REACHED Q_TIMEOUT_SACK s in
        if qa_arbitrator_grant_mask s \<noteq> 0 \<and> reached then s\<lparr>qa_arbitrator_grant_mask := 0\<rparr> else s))"

definition q_sm_arb_worker_cpu :: "bus_lines \<Rightarrow> 'a qbus_mailbox_intr_t_scheme \<Rightarrow> u8 \<times> 'a qbus_mailbox_intr_t_scheme" where
  "q_sm_arb_worker_cpu bus s =
    (let (latch1val, s) = buslatches_getbyte bus 1 s;
         s = q_sm_arb_arbitrate latch1val s;
         s = buslatches_setbits 0 PRIORITY_ARBITRATION_BIT_MASK (NOT (qa_arbitrator_grant_mask s)) s;
         s = s\<lparr>qm_ifs_intr_arbitration_pending := 0\<rparr>
     in (qa_arbitrator_grant_mask s, s))"

section \<open>INIT, POK and DCOK\<close>

definition Q_INITIALIZATIONSIGNAL_INIT :: u8 where "Q_INITIALIZATIONSIGNAL_INIT = BIT 0"
definition Q_INITIALIZATIONSIGNAL_HALT :: u8 where "Q_INITIALIZATIONSIGNAL_HALT = BIT 1"
definition Q_INITIALIZATIONSIGNAL_POK :: u8 where "Q_INITIALIZATIONSIGNAL_POK = BIT 3"
definition Q_INITIALIZATIONSIGNAL_DCOK :: u8 where "Q_INITIALIZATIONSIGNAL_DCOK = BIT 4"
definition Q_INITIALIZATIONSIGNAL_ANY :: u8 where
  "Q_INITIALIZATIONSIGNAL_ANY = Q_INITIALIZATIONSIGNAL_INIT OR Q_INITIALIZATIONSIGNAL_HALT OR
     Q_INITIALIZATIONSIGNAL_POK OR Q_INITIALIZATIONSIGNAL_DCOK"

datatype sm_initialization_states = State_init_idle | State_init_asserted | State_init_negated

record qbus_initialization_t = qbus_mailbox_intr_t +
  qi_state :: sm_initialization_states
  qi_bussignals_cur :: u8
  qm_ev_init :: event_channel
  qm_ev_power :: event_channel
  qm_power_signals_prev :: u8
  qm_power_signals_cur :: u8
  qm_init_signal_cur :: u8

definition q_sm_initialization_reset :: "bus_lines \<Rightarrow> 'a qbus_initialization_t_scheme \<Rightarrow> 'a qbus_initialization_t_scheme" where
  "q_sm_initialization_reset bus s =
    (let s = s\<lparr>qi_state := State_init_idle\<rparr>; (l5, s) = buslatches_getbyte bus 5 s
     in s\<lparr>qi_bussignals_cur := l5 AND Q_INITIALIZATIONSIGNAL_ANY\<rparr>)"

definition q_power_event :: "'a qbus_initialization_t_scheme \<Rightarrow> 'a qbus_initialization_t_scheme" where
  "q_power_event s =
    (let prev = qm_power_signals_cur s; m = Q_INITIALIZATIONSIGNAL_DCOK OR Q_INITIALIZATIONSIGNAL_POK in
     if (prev XOR qi_bussignals_cur s) AND m \<noteq> 0
     then PRU2ARM_INTERRUPT (s\<lparr>qm_power_signals_prev := prev, qm_power_signals_cur := qi_bussignals_cur s AND m,
            qm_ev_power := EVENT_SIGNAL (qm_ev_power s)\<rparr>)
     else s)"

definition q_init_event :: "'a qbus_initialization_t_scheme \<Rightarrow> 'a qbus_initialization_t_scheme" where
  "q_init_event s =
    (case qi_state s of
       State_init_idle \<Rightarrow>
         if qi_bussignals_cur s AND Q_INITIALIZATIONSIGNAL_INIT \<noteq> 0 then
           (let s = s\<lparr>qm_init_signal_cur := 1\<rparr>;
                s = iopageregisters_reset_values s;
                s = s\<lparr>qm_ev_init := EVENT_SIGNAL (qm_ev_init s)\<rparr>
            in (PRU2ARM_INTERRUPT s)\<lparr>qi_state := State_init_asserted\<rparr>)
         else s
     | State_init_asserted \<Rightarrow>
         (let (ready, s) = (if EVENT_IS_ACKED (qm_ev_init s) then (True, s)
                            else q_TIMEOUT_REACHED Q_TIMEOUT_QBUS_INIT s)
          in if ready \<and> qi_bussignals_cur s AND Q_INITIALIZATIONSIGNAL_INIT = 0
             then s\<lparr>qi_state := State_init_idle\<rparr> else s)
     | State_init_negated \<Rightarrow> s)"

definition q_sm_initialization_func :: "bus_lines \<Rightarrow> 'a qbus_initialization_t_scheme \<Rightarrow> 'a qbus_initialization_t_scheme" where
  "q_sm_initialization_func bus s =
    (let (l5, s) = buslatches_getbyte bus 5 s;
         s = s\<lparr>qi_bussignals_cur := l5 AND Q_INITIALIZATIONSIGNAL_ANY\<rparr>;
         s = (if qi_bussignals_cur s AND Q_INITIALIZATIONSIGNAL_INIT \<noteq> 0 then s\<lparr>qa_device_request_mask := 0\<rparr> else s)
     in q_init_event (q_power_event s))"

end
