(* ===== verification/QbusDma.thy ===== *)
theory QbusDma
  imports QbusArbitration PruMaster
begin

unbundle bit_operations_syntax

text \<open>
  DMA on the QBUS (\<open>pru1_q/pru1_statemachine_dma.c\<close>): an address portion with SYNC, then data
  portions with DIN or DOUT, up to eight words in one block, and the step between two words.
  A state function returns the next one or \<open>None\<close> for \<open>NULL\<close>, as in \<open>PruMaster\<close>, which has the
  constants of \<open>mailbox.h\<close>. Delays are left out.
\<close>

section \<open>State\<close>

datatype q_dma_state =
    Sm_dma_start | Sm_dma_state_addr | Sm_dma_state_din_start | Sm_dma_state_din_complete
  | Sm_dma_state_dout_start | Sm_dma_state_dout_complete | Sm_dma_state_99

record qbus_mailbox_dma_t = qbus_initialization_t +
  qm_dma_cur_status :: u8
  qm_dma_buscycle :: u8
  qm_dma_wordcount :: u16
  qm_dma_cpu_access :: u8
  qm_dma_cur_addr :: u32
  qm_dma_startaddr :: u32
  qm_dma_words :: "nat \<Rightarrow> u16"             \<comment> \<open>\<open>PRU_MAX_DMA_WORDCOUNT\<close> entries\<close>
  qm_ev_dma :: event_channel

text \<open>\<open>dataptr\<close> points into \<open>mailbox.dma.words\<close>: it is kept as the index.\<close>

record qbus_statemachine_dma_t = qbus_mailbox_dma_t +
  qs_state_timeout :: bool
  qs_dataptr :: nat
  qs_words_left :: u16
  qs_block_end_addr :: u32
  qs_block_data_state_func :: "q_dma_state option"
  qs_first_data_portion :: bool

definition Q_QUNIBUS_TIMEOUT_PERIOD_US :: u32 where "Q_QUNIBUS_TIMEOUT_PERIOD_US = 8"

definition q_dataptr_get :: "'a qbus_statemachine_dma_t_scheme \<Rightarrow> u16 \<times> 'a qbus_statemachine_dma_t_scheme" where
  "q_dataptr_get s = (if qs_dataptr s < PRU_MAX_DMA_WORDCOUNT then (qm_dma_words s (qs_dataptr s), s)
                      else (0, s\<lparr>array_oob := True\<rparr>))"

definition q_dataptr_put :: "u16 \<Rightarrow> 'a qbus_statemachine_dma_t_scheme \<Rightarrow> 'a qbus_statemachine_dma_t_scheme" where
  "q_dataptr_put w s =
    (if qs_dataptr s < PRU_MAX_DMA_WORDCOUNT then s\<lparr>qm_dma_words := (qm_dma_words s)(qs_dataptr s := w)\<rparr>
     else s\<lparr>array_oob := True\<rparr>)"

section \<open>Address portion\<close>

definition q_sm_dma_start :: "'a qbus_statemachine_dma_t_scheme \<Rightarrow> q_dma_state option \<times> 'a qbus_statemachine_dma_t_scheme" where
  "q_sm_dma_start s =
    (Some Sm_dma_state_addr,
     s\<lparr>qm_dma_cur_addr := qm_dma_startaddr s, qs_dataptr := 0, qs_words_left := qm_dma_wordcount s,
       qm_dma_cur_status := DMA_STATE_RUNNING\<rparr>)"

text \<open>The end of a request: the ARM gets an event, and an interrupt if it is not the CPU's.\<close>

definition q_dma_signal :: "u8 \<Rightarrow> 'a qbus_statemachine_dma_t_scheme \<Rightarrow> 'a qbus_statemachine_dma_t_scheme" where
  "q_dma_signal status s =
    (let s = s\<lparr>qm_dma_cur_status := status, qm_ev_dma := EVENT_SIGNAL (qm_ev_dma s)\<rparr>
     in if qm_dma_cpu_access s = 0 then PRU2ARM_INTERRUPT s else s)"

definition q_sm_dma_abandon :: "'a qbus_statemachine_dma_t_scheme \<Rightarrow> q_dma_state option \<times> 'a qbus_statemachine_dma_t_scheme" where
  "q_sm_dma_abandon s =
    (let s = s\<lparr>qd_dma_abandoned := qd_dma_abandoned s + 1\<rparr>;
         s = buslatches_setbits 6 (BIT 7) 0 s;
         s = buslatches_setbits 4 (BIT 0 + BIT 5) 0 s
     in (None, q_dma_signal DMA_STATE_TIMEOUTSTOP s))"

text \<open>A block has at most eight words and stays within 32 bytes.\<close>

definition q_block_end :: "u32 \<Rightarrow> u16 \<Rightarrow> u32" where
  "q_block_end addr words_left =
     min (addr + 2 * (ucast (min words_left 8) - 1)) (addr OR 0x1E)"

definition q_sm_dma_state_addr :: "'a qbus_statemachine_dma_t_scheme \<Rightarrow>
    q_dma_state option \<times> 'a qbus_statemachine_dma_t_scheme" where
  "q_sm_dma_state_addr s =
    (let addr = qm_dma_cur_addr s; buscycle = qm_dma_buscycle s in
     if qm_dma_cur_status s \<noteq> DMA_STATE_RUNNING \<or> qm_dma_wordcount s = 0 then q_sm_dma_abandon s
     else
       let s = s\<lparr>qs_state_timeout := False\<rparr>;
           s = buslatches_setbyte 0 (ucast (addr AND 0xFF)) s;
           s = buslatches_setbyte 1 (ucast (drop_bit 8 addr)) s;
           s = buslatches_setbyte 2 (ucast (drop_bit 16 addr)) s;
           tmp = (if addr AND QUNIBUS_IOPAGE_ADDR_BITMASK \<noteq> 0 then BIT 5 else 0);
           tmp = (if QUNIBUS_CYCLE_IS_DATO buscycle then tmp OR BIT 4 else tmp);
           s = buslatches_setbits 4 (BIT 4 + BIT 5) tmp s;
           s = s\<lparr>qs_block_end_addr := q_block_end addr (qs_words_left s), qs_first_data_portion := True\<rparr>;
           s = buslatches_setbits 4 (BIT 0) (BIT 0) s;
           next = (if QUNIBUS_CYCLE_IS_DATO buscycle then Sm_dma_state_dout_start else Sm_dma_state_din_start)
       in (Some next, s\<lparr>qs_block_data_state_func := Some next\<rparr>))"

section \<open>Data portions\<close>

definition q_sm_dma_state_din_start :: "'a qbus_statemachine_dma_t_scheme \<Rightarrow>
    q_dma_state option \<times> 'a qbus_statemachine_dma_t_scheme" where
  "q_sm_dma_state_din_start s =
    (let addr = qm_dma_cur_addr s;
         s = (if addr \<noteq> qs_block_end_addr s then buslatches_setbits 4 (BIT 5 + BIT 1) 0xFF s
              else buslatches_setbits 4 (BIT 5 + BIT 1) (BIT 1) s);
         s = (if qs_first_data_portion s then buslatches_setbyte 3 0x03 (s\<lparr>qs_first_data_portion := False\<rparr>) else s);
         ((res, d), s) = q_emulated_addr_read addr s
     in if res \<noteq> 0 then
          (let s = buslatches_setbyte 0 (ucast (d AND 0xFF)) s;
               s = buslatches_setbyte 1 (ucast (drop_bit 8 d)) s;
               s = buslatches_setbits 4 (BIT 3) (BIT 3) s;
               s = q_dataptr_put d s;
               s = buslatches_setbits 4 (BIT 1 + BIT 3) 0 s;
               s = buslatches_setbyte 3 0x02 s;
               s = (if addr = qs_block_end_addr s then s\<lparr>qs_block_data_state_func := None\<rparr> else s)
           in (Some Sm_dma_state_99, s))
        else (Some Sm_dma_state_din_complete, q_TIMEOUT_SET Q_TIMEOUT_DMA (MICROSECS Q_QUNIBUS_TIMEOUT_PERIOD_US) s))"

definition q_sm_dma_state_dout_start :: "'a qbus_statemachine_dma_t_scheme \<Rightarrow>
    q_dma_state option \<times> 'a qbus_statemachine_dma_t_scheme" where
  "q_sm_dma_state_dout_start s =
    (let addr = qm_dma_cur_addr s; is_datob = (qm_dma_buscycle s = QUNIBUS_CYCLE_DATOB);
         (d, s) = q_dataptr_get s;
         s = buslatches_setbyte 0 (ucast (d AND 0xFF)) s;
         s = buslatches_setbyte 1 (ucast (drop_bit 8 d)) s;
         s = (if qs_first_data_portion s
              then buslatches_setbits 4 (BIT 4 + BIT 5) (if is_datob then BIT 4 else 0)
                     ((buslatches_setbyte 2 0 s)\<lparr>qs_first_data_portion := False\<rparr>)
              else s);
         s = buslatches_setbits 4 (BIT 2) (BIT 2) s;
         (internal, s) =
           (if is_datob
            then q_emulated_addr_write_b addr (if addr AND 1 \<noteq> 0 then ucast (drop_bit 8 d) else ucast (d AND 0xFF)) s
            else q_emulated_addr_write_w addr d s)
     in if internal \<noteq> 0 then
          (let s = buslatches_setbits 4 (BIT 3) (BIT 3) s;
               s = buslatches_setbits 4 (BIT 2) 0 s;
               s = buslatches_setbyte 3 0x02 s;
               s = buslatches_setbits 4 (BIT 3) 0 s;
               s = (if addr = qs_block_end_addr s then s\<lparr>qs_block_data_state_func := None\<rparr> else s)
           in (Some Sm_dma_state_99, s))
        else (Some Sm_dma_state_dout_complete, q_TIMEOUT_SET Q_TIMEOUT_DMA (MICROSECS Q_QUNIBUS_TIMEOUT_PERIOD_US) s))"

text \<open>
  The wait for the RPLY of an external slave, which both directions begin with. The flag
  says to wait on; after a timeout the lines are recorded and the cycle goes to its end.
\<close>

definition q_dma_wait_rply :: "bus_lines \<Rightarrow> u32 \<Rightarrow> 'a qbus_statemachine_dma_t_scheme \<Rightarrow>
    bool \<times> 'a qbus_statemachine_dma_t_scheme" where
  "q_dma_wait_rply bus addr s =
    (let (l4, s) = buslatches_getbyte bus 4 s in
     if l4 AND BIT 3 = 0 then
       (let (reached, s) = q_TIMEOUT_REACHED Q_TIMEOUT_DMA s; s = s\<lparr>qs_state_timeout := reached\<rparr>
        in if \<not> reached then (True, s) else (False, qbus_diag_timeout bus addr s))
     else (False, s))"

text \<open>The end of a block: the last address, or a slave that does not assert REF.\<close>

definition q_dma_block_ends :: "bus_lines \<Rightarrow> u32 \<Rightarrow> 'a qbus_statemachine_dma_t_scheme \<Rightarrow>
    bool \<times> 'a qbus_statemachine_dma_t_scheme" where
  "q_dma_block_ends bus addr s =
    (if addr = qs_block_end_addr s then (True, s)
     else let (l4, s) = buslatches_getbyte bus 4 s in (l4 AND BIT 6 = 0, s))"

definition q_sm_dma_state_din_complete :: "bus_lines \<Rightarrow> 'a qbus_statemachine_dma_t_scheme \<Rightarrow>
    q_dma_state option \<times> 'a qbus_statemachine_dma_t_scheme" where
  "q_sm_dma_state_din_complete bus s =
    (let addr = qm_dma_cur_addr s; (wait, s) = q_dma_wait_rply bus addr s in
     if wait then (Some Sm_dma_state_din_complete, s)
     else
       let (l0, s) = buslatches_getbyte bus 0 s;
           (l1, s) = buslatches_getbyte bus 1 s;
           s = q_dataptr_put (ucast l0 OR push_bit 8 (ucast l1)) s;
           (stop, s) = q_dma_block_ends bus addr s;
           s = (if stop then s\<lparr>qs_block_data_state_func := None\<rparr> else s);
           s = buslatches_setbits 4 (BIT 1) 0 s
       in (Some Sm_dma_state_99, s))"

definition q_sm_dma_state_dout_complete :: "bus_lines \<Rightarrow> 'a qbus_statemachine_dma_t_scheme \<Rightarrow>
    q_dma_state option \<times> 'a qbus_statemachine_dma_t_scheme" where
  "q_sm_dma_state_dout_complete bus s =
    (let addr = qm_dma_cur_addr s; (wait, s) = q_dma_wait_rply bus addr s in
     if wait then (Some Sm_dma_state_dout_complete, s)
     else
       let s = buslatches_setbits 4 (BIT 2) 0 s;
           (stop, s) = q_dma_block_ends bus addr s;
           s = (if stop then buslatches_setbits 4 (BIT 4) 0
                  (buslatches_setbyte 3 0x02 (s\<lparr>qs_block_data_state_func := None\<rparr>)) else s)
       in (Some Sm_dma_state_99, s))"

section \<open>Between two words\<close>

text \<open>SACK, SYNC and BS7 are negated and the ARM is told.\<close>

definition q_sm_dma_end :: "u8 \<Rightarrow> 'a qbus_statemachine_dma_t_scheme \<Rightarrow>
    q_dma_state option \<times> 'a qbus_statemachine_dma_t_scheme" where
  "q_sm_dma_end final_dma_state s =
    (let s = buslatches_setbits 6 (BIT 7) 0 s;
         s = buslatches_setbits 4 (BIT 0 + BIT 5) 0 s
     in (None, q_dma_signal final_dma_state s))"

definition q_sm_dma_state_99 :: "bus_lines \<Rightarrow> 'a qbus_statemachine_dma_t_scheme \<Rightarrow>
    q_dma_state option \<times> 'a qbus_statemachine_dma_t_scheme" where
  "q_sm_dma_state_99 bus s =
    (if qs_state_timeout s then q_sm_dma_end DMA_STATE_TIMEOUTSTOP (s\<lparr>qd_trace_frozen := 1\<rparr>)
     else
       let s = s\<lparr>qs_dataptr := qs_dataptr s + 1, qs_words_left := qs_words_left s - 1\<rparr> in
       if qs_words_left s = 0 then q_sm_dma_end DMA_STATE_READY s
       else let (l5, s) = buslatches_getbyte bus 5 s in
       if l5 AND BIT 0 \<noteq> 0 then q_sm_dma_end DMA_STATE_INITSTOP s
       else
         let s = s\<lparr>qm_dma_cur_addr := qm_dma_cur_addr s + 2\<rparr> in
         case qs_block_data_state_func s of
           Some st \<Rightarrow> (Some st, s)
         | None \<Rightarrow> (Some Sm_dma_state_addr, buslatches_setbits 4 (BIT 0 + BIT 5) 0 s))"

definition q_dma_step :: "bus_lines \<Rightarrow> q_dma_state \<Rightarrow> 'a qbus_statemachine_dma_t_scheme \<Rightarrow>
    q_dma_state option \<times> 'a qbus_statemachine_dma_t_scheme" where
  "q_dma_step bus st s =
    (case st of
       Sm_dma_start \<Rightarrow> q_sm_dma_start s
     | Sm_dma_state_addr \<Rightarrow> q_sm_dma_state_addr s
     | Sm_dma_state_din_start \<Rightarrow> q_sm_dma_state_din_start s
     | Sm_dma_state_din_complete \<Rightarrow> q_sm_dma_state_din_complete bus s
     | Sm_dma_state_dout_start \<Rightarrow> q_sm_dma_state_dout_start s
     | Sm_dma_state_dout_complete \<Rightarrow> q_sm_dma_state_dout_complete bus s
     | Sm_dma_state_99 \<Rightarrow> q_sm_dma_state_99 bus s)"

end
