(* ===== verification/QbusSlave.thy ===== *)
theory QbusSlave
  imports QbusDma
begin

unbundle bit_operations_syntax

text \<open>
  Data cycles of other bus masters (\<open>pru1_q/pru1_statemachine_data_slave.c\<close>): the address
  comes with SYNC, then any number of DIN and DOUT portions follow, each answered with RPLY.
  \<open>sm_data_slave_func\<close> is a loop around a switch: one turn of it either goes on in a state
  (\<open>Goto\<close>) or returns one (\<open>Return\<close>). The loop waits for the bus without a bound and is a
  partial function. The detection of the console microcode is not built (\<open>tuning.h\<close>).
\<close>

section \<open>State\<close>

datatype states_data_slave =
    State_data_slave_stop | State_data_slave_start | State_data_slave_dindout_start
  | State_data_slave_din_single_complete | State_data_slave_dout_single_complete
  | State_data_slave_din_block_complete | State_data_slave_dout_block_complete

record qbus_data_slave_t = qbus_statemachine_dma_t +
  qsl_state :: states_data_slave
  qsl_addr :: u32

datatype slave_turn = Goto states_data_slave | Return states_data_slave

section \<open>Turns of the loop\<close>

definition q_slave_start :: "bus_lines \<Rightarrow> 'a qbus_data_slave_t_scheme \<Rightarrow> slave_turn \<times> 'a qbus_data_slave_t_scheme" where
  "q_slave_start bus s =
    (let (l2, s) = buslatches_getbyte bus 2 s in
     if l2 AND BIT 7 = 0 then (Return State_data_slave_stop, s)
     else
       let (l0, s) = buslatches_getbyte bus 0 s;
           (l1, s) = buslatches_getbyte bus 1 s
       in (Goto State_data_slave_dindout_start,
           s\<lparr>qsl_addr := ucast l0 OR push_bit 8 (ucast l1) OR push_bit 16 (ucast (l2 AND 0x7F))\<rparr>))"

definition q_slave_din :: "'a qbus_data_slave_t_scheme \<Rightarrow> slave_turn \<times> 'a qbus_data_slave_t_scheme" where
  "q_slave_din s =
    (let ((res, v), s) = q_emulated_addr_read (qsl_addr s) s in
     if res = 0 then (Return State_data_slave_stop, s)
     else
       let s = buslatches_setbyte 0 (ucast (v AND 0xFF)) s;
           s = buslatches_setbyte 1 (ucast (drop_bit 8 v AND 0xFF)) s;
           s = buslatches_setbits 4 (BIT 3 + BIT 6) 0xFF s
       in ((if res = 1 then Goto else Return) State_data_slave_din_single_complete, s))"

definition q_slave_dout :: "bus_lines \<Rightarrow> u8 \<Rightarrow> 'a qbus_data_slave_t_scheme \<Rightarrow> slave_turn \<times> 'a qbus_data_slave_t_scheme" where
  "q_slave_dout bus latch4val s =
    (let addr = qsl_addr s;
         s = buslatches_setbyte 3 (BIT 0) s;
         (res, s) =
           (if latch4val AND BIT 4 \<noteq> 0 then
              (let (b, s) = buslatches_getbyte bus (if addr AND 1 \<noteq> 0 then 1 else 0) s
               in q_emulated_addr_write_b addr b s)
            else
              (let (l0, s) = buslatches_getbyte bus 0 s; (l1, s) = buslatches_getbyte bus 1 s
               in q_emulated_addr_write_w addr (ucast l0 OR push_bit 8 (ucast l1)) s))
     in if res = 0 then (Return State_data_slave_stop, s)
        else
          let s = buslatches_setbits 4 (BIT 3 + BIT 6) 0xFF s
          in ((if res = 1 then Goto else Return) State_data_slave_dout_single_complete, s))"

definition q_slave_dindout_start :: "bus_lines \<Rightarrow> 'a qbus_data_slave_t_scheme \<Rightarrow> slave_turn \<times> 'a qbus_data_slave_t_scheme" where
  "q_slave_dindout_start bus s =
    (let (l4, s) = buslatches_getbyte bus 4 s in
     if l4 AND BIT 0 = 0 \<or> l4 AND BIT 3 \<noteq> 0 \<or> l4 AND BIT 7 \<noteq> 0 then (Return State_data_slave_stop, s)
     else if l4 AND BIT 1 \<noteq> 0 then q_slave_din s
     else if l4 AND BIT 2 \<noteq> 0 then q_slave_dout bus l4 s
     else (Goto State_data_slave_dindout_start, s))"

definition q_slave_din_single_complete :: "bus_lines \<Rightarrow> 'a qbus_data_slave_t_scheme \<Rightarrow> slave_turn \<times> 'a qbus_data_slave_t_scheme" where
  "q_slave_din_single_complete bus s =
    (let (l4, s) = buslatches_getbyte bus 4 s in
     if l4 AND BIT 1 \<noteq> 0 then (Goto State_data_slave_din_single_complete, s)
     else if \<not> EVENT_IS_ACKED (ev_deviceregister s) then (Return State_data_slave_din_single_complete, s)
     else
       let s = buslatches_setbits 4 (BIT 3 + BIT 6) 0 s;
           s = buslatches_setbyte 3 (BIT 1) s
       in (Goto State_data_slave_din_block_complete, s))"

definition q_slave_dout_single_complete :: "bus_lines \<Rightarrow> 'a qbus_data_slave_t_scheme \<Rightarrow> slave_turn \<times> 'a qbus_data_slave_t_scheme" where
  "q_slave_dout_single_complete bus s =
    (let (l4, s) = buslatches_getbyte bus 4 s in
     if l4 AND BIT 2 \<noteq> 0 then (Goto State_data_slave_dout_single_complete, s)
     else if \<not> EVENT_IS_ACKED (ev_deviceregister s) then (Return State_data_slave_dout_single_complete, s)
     else (Goto State_data_slave_dout_block_complete, buslatches_setbits 4 (BIT 3 + BIT 6) 0 s))"

definition q_slave_din_block_complete :: "bus_lines \<Rightarrow> 'a qbus_data_slave_t_scheme \<Rightarrow> slave_turn \<times> 'a qbus_data_slave_t_scheme" where
  "q_slave_din_block_complete bus s =
    (let (l4, s) = buslatches_getbyte bus 4 s in
     if l4 AND BIT 0 = 0 \<or> l4 AND BIT 7 \<noteq> 0 then (Return State_data_slave_stop, s)
     else if l4 AND BIT 2 \<noteq> 0 then (Goto State_data_slave_dindout_start, s)
     else if l4 AND BIT 1 \<noteq> 0 then (Goto State_data_slave_dindout_start, s\<lparr>qsl_addr := qsl_addr s + 2\<rparr>)
     else (Goto State_data_slave_din_block_complete, s))"

definition q_slave_dout_block_complete :: "bus_lines \<Rightarrow> 'a qbus_data_slave_t_scheme \<Rightarrow> slave_turn \<times> 'a qbus_data_slave_t_scheme" where
  "q_slave_dout_block_complete bus s =
    (let (l4, s) = buslatches_getbyte bus 4 s in
     if l4 AND BIT 0 = 0 \<or> l4 AND BIT 7 \<noteq> 0 then (Return State_data_slave_stop, s)
     else if l4 AND BIT 2 \<noteq> 0 then (Goto State_data_slave_dindout_start, s\<lparr>qsl_addr := qsl_addr s + 2\<rparr>)
     else (Goto State_data_slave_dout_block_complete, s))"

definition q_slave_turn :: "bus_lines \<Rightarrow> states_data_slave \<Rightarrow> 'a qbus_data_slave_t_scheme \<Rightarrow>
    slave_turn \<times> 'a qbus_data_slave_t_scheme" where
  "q_slave_turn bus st s =
    (case st of
       State_data_slave_stop \<Rightarrow> q_slave_start bus s
     | State_data_slave_start \<Rightarrow> q_slave_start bus s
     | State_data_slave_dindout_start \<Rightarrow> q_slave_dindout_start bus s
     | State_data_slave_din_single_complete \<Rightarrow> q_slave_din_single_complete bus s
     | State_data_slave_dout_single_complete \<Rightarrow> q_slave_dout_single_complete bus s
     | State_data_slave_din_block_complete \<Rightarrow> q_slave_din_block_complete bus s
     | State_data_slave_dout_block_complete \<Rightarrow> q_slave_dout_block_complete bus s)"

partial_function (option) q_sm_data_slave_func :: "bus_lines \<Rightarrow> states_data_slave \<Rightarrow> 'a qbus_data_slave_t_scheme \<Rightarrow>
    (states_data_slave \<times> 'a qbus_data_slave_t_scheme) option" where
  "q_sm_data_slave_func bus st s =
    (case q_slave_turn bus st s of (turn, s) \<Rightarrow>
      (case turn of Return st \<Rightarrow> Some (st, s) | Goto st \<Rightarrow> q_sm_data_slave_func bus st s))"

end
