(* ===== verification/QbusMain.thy ===== *)
theory QbusMain
  imports QbusSlave PruMain
begin

unbundle bit_operations_syntax

text \<open>
  The main loop of the QBUS firmware (\<open>pru1_q/pru1_main_qbus.c\<close>). A pass serves the data
  slave, watches INIT and the power lines, forwards and arbitrates grants, or runs one state of
  a DMA; then it takes one command of the ARM. The request codes are those of \<open>PruMain\<close>.
  The trace ring is not built; the local \<open>emulate_cpu\<close> is never set, since the
  command for it is not built either.
\<close>

section \<open>State\<close>

record qpru = qbus_data_slave_t +
  qp_arm2pru_req :: u32
  qp_union :: "nat \<Rightarrow> u32"               \<comment> \<open>the union at the end of the mailbox, as in \<open>PruMain\<close>\<close>
  qp_intr_priority_arbitration_bit :: u8
  qp_intr_level_index :: u8
  qp_intr_iopage_register_value :: u16
  qp_intr_iopage_register_handle :: u8
  qp_diag_magic :: u32
  qp_diag_loop_passes :: u32
  qp_diag_arbitration_passes :: u32
  qp_diag_master_passes :: u32
  qp_sm_data_master_state :: "q_dma_state option"
  qp_trace_last_l4 :: u8
  qp_emulate_cpu :: bool
  qp_halted :: bool                      \<comment> \<open>\<open>__halt()\<close> was reached\<close>

definition ARM2PRU_CPU_BUS_ACCESS :: u8 where "ARM2PRU_CPU_BUS_ACCESS = 20"

section \<open>Commands of the ARM\<close>

definition q_cmd_dma :: "'a qpru_scheme \<Rightarrow> 'a qpru_scheme" where
  "q_cmd_dma s =
    (let s = (if qm_dma_cpu_access s \<noteq> 0 then s\<lparr>qa_cpu_request := 1\<rparr>
              else s\<lparr>qa_device_request_mask := qa_device_request_mask s OR PRIORITY_ARBITRATION_BIT_NP\<rparr>)
     in s\<lparr>qm_dma_cur_status := DMA_STATE_ARBITRATING\<rparr>)"

definition q_cmd_dma_cancel :: "'a qpru_scheme \<Rightarrow> 'a qpru_scheme" where
  "q_cmd_dma_cancel s =
    (if qp_sm_data_master_state s = None \<and> qm_dma_cur_status s = DMA_STATE_ARBITRATING then
       (let s = (if qm_dma_cpu_access s \<noteq> 0 then s\<lparr>qa_cpu_request := 0\<rparr>
                 else s\<lparr>qa_device_request_mask := qa_device_request_mask s AND NOT PRIORITY_ARBITRATION_BIT_NP,
                        qa_device_grant_mask := qa_device_grant_mask s AND NOT PRIORITY_ARBITRATION_BIT_NP,
                        qa_dmr_committed := False,
                        qa_state := (if qa_state s = State_dma_grant_rply_sync_wait then State_grant_check
                                     else qa_state s)\<rparr>)
        in s\<lparr>qm_dma_cur_status := DMA_STATE_CANCELED\<rparr>)
     else s)"

definition q_cmd_intr :: "'a qpru_scheme \<Rightarrow> 'a qpru_scheme" where
  "q_cmd_intr s =
    (let s = s\<lparr>qa_device_request_mask := qa_device_request_mask s OR qp_intr_priority_arbitration_bit s,
               qa_canceled_request_mask := qa_canceled_request_mask s AND NOT (qp_intr_priority_arbitration_bit s)\<rparr>;
         i = unat (qp_intr_level_index s) in
     if i < 4
     then s\<lparr>qa_pending_intr_register_handle := (qa_pending_intr_register_handle s)(i := qp_intr_iopage_register_handle s),
            qa_pending_intr_register_value := (qa_pending_intr_register_value s)(i := qp_intr_iopage_register_value s)\<rparr>
     else s\<lparr>array_oob := True\<rparr>)"

definition q_cmd_intr_cancel :: "'a qpru_scheme \<Rightarrow> 'a qpru_scheme" where
  "q_cmd_intr_cancel s =
     s\<lparr>qa_canceled_request_mask := qa_canceled_request_mask s OR
         (qa_device_request_signalled_mask s AND qp_intr_priority_arbitration_bit s AND PRIORITY_ARBITRATION_INTR_MASK),
       qa_device_request_mask := qa_device_request_mask s AND NOT (qp_intr_priority_arbitration_bit s)\<rparr>"

definition q_cmd_initializationsignal_set :: "'a qpru_scheme \<Rightarrow> 'a qpru_scheme" where
  "q_cmd_initializationsignal_set s =
    (let id = ucast (qp_union s 0) :: u16; val = ucast (drop_bit 16 (qp_union s 0)) :: u16;
         put = (\<lambda>sig. buslatches_setbits 5 sig (if val \<noteq> 0 then sig else 0) s) in
     if id = ucast Q_INITIALIZATIONSIGNAL_POK then put Q_INITIALIZATIONSIGNAL_POK
     else if id = ucast Q_INITIALIZATIONSIGNAL_DCOK then put Q_INITIALIZATIONSIGNAL_DCOK
     else if id = ucast Q_INITIALIZATIONSIGNAL_INIT then put Q_INITIALIZATIONSIGNAL_INIT
     else if id = ucast Q_INITIALIZATIONSIGNAL_HALT then put Q_INITIALIZATIONSIGNAL_HALT
     else s)"

definition q_cmd_buslatch_get :: "bus_lines \<Rightarrow> 'a qpru_scheme \<Rightarrow> 'a qpru_scheme" where
  "q_cmd_buslatch_get bus s =
    (let (v, s) = buslatches_getbyte bus (unat (qp_union s 0 AND 7)) s
     in s\<lparr>qp_union := (qp_union s)(2 := ucast v)\<rparr>)"

definition q_cmd_buslatch_set :: "bus_lines \<Rightarrow> 'a qpru_scheme \<Rightarrow> 'a qpru_scheme" where
  "q_cmd_buslatch_set bus s =
     q_cmd_buslatch_get bus
       (buslatches_setbits (unat (qp_union s 0 AND 7)) (ucast (qp_union s 1)) (ucast (qp_union s 2)) s)"

definition q_cmd_cpu_bus_access :: "'a qpru_scheme \<Rightarrow> 'a qpru_scheme" where
  "q_cmd_cpu_bus_access s =
     s\<lparr>qa_cpu_bus_inhibit_dmr_mask :=
        (if qp_union s 0 = 0 then qa_cpu_bus_inhibit_dmr_mask s OR ARB_CPU_BUS_INHIBIT_DMR_ARM
         else qa_cpu_bus_inhibit_dmr_mask s AND NOT ARB_CPU_BUS_INHIBIT_DMR_ARM)\<rparr>"

definition q_arm2pru_command :: "bus_lines \<Rightarrow> 'a qpru_scheme \<Rightarrow> 'a qpru_scheme option" where
  "q_arm2pru_command bus s =
    (let req = ucast (qp_arm2pru_req s) in
     if req = ARM2PRU_DMA then Some (q_cmd_dma s)
     else if req = ARM2PRU_DMA_CANCEL then Some (q_cmd_dma_cancel s)
     else if req = ARM2PRU_INTR then Some (q_cmd_intr s)
     else if req = ARM2PRU_INTR_CANCEL then Some (q_cmd_intr_cancel s)
     else if req = ARM2PRU_ARB_GRANT_INTR_REQUESTS
     then Some (if qp_emulate_cpu s then s\<lparr>qm_ifs_intr_arbitration_pending := 1\<rparr> else s)
     else if req = ARM2PRU_INITALIZATIONSIGNAL_SET then Some (q_cmd_initializationsignal_set s)
     else if req = ARM2PRU_BUSLATCH_SET then Some (q_cmd_buslatch_set bus s)
     else if req = ARM2PRU_BUSLATCH_GET then Some (q_cmd_buslatch_get bus s)
     else if req = ARM2PRU_NOP then Some s
     else if req = ARM2PRU_ARB_MODE_NONE then Some (s\<lparr>qa_state := State_arbitration_noop\<rparr>)
     else if req = ARM2PRU_ARB_MODE_CLIENT then Some (s\<lparr>qa_state := State_grant_check\<rparr>)
     else if req = ARM2PRU_CPU_BUS_ACCESS then Some (q_cmd_cpu_bus_access s)
     else if req = ARM2PRU_HALT then Some (s\<lparr>qp_halted := True\<rparr>)
     else None)"

definition q_process_arm2pru :: "bus_lines \<Rightarrow> 'a qpru_scheme \<Rightarrow> 'a qpru_scheme" where
  "q_process_arm2pru bus s =
    (case q_arm2pru_command bus s of
       None \<Rightarrow> s
     | Some s \<Rightarrow> s\<lparr>qp_arm2pru_req := ucast ARM2PRU_NONE\<rparr>)"

section \<open>The passes of the main loop\<close>

partial_function (option) q_slave_loop :: "bus_lines \<Rightarrow> 'a qbus_data_slave_t_scheme \<Rightarrow>
    'a qbus_data_slave_t_scheme option" where
  "q_slave_loop bus s =
    Option.bind (q_sm_data_slave_func bus (qsl_state s) s) (\<lambda>(st, s).
      let s = s\<lparr>qsl_state := st\<rparr> in
      if st \<noteq> State_data_slave_stop \<and> EVENT_IS_ACKED (ev_deviceregister s) then q_slave_loop bus s
      else Some s)"

definition q_bus_activity :: "bus_lines \<Rightarrow> 'a qpru_scheme \<Rightarrow> 'a qpru_scheme" where
  "q_bus_activity bus s =
    (let (l4, s) = buslatches_getbyte bus 4 s;
         s = (if l4 \<noteq> qp_trace_last_l4 s then s\<lparr>qd_bus_activity := qd_bus_activity s + 1\<rparr> else s)
     in s\<lparr>qp_trace_last_l4 := l4\<rparr>)"

text \<open>Grants that answer no signalled request are passed on to the next slot.\<close>

definition q_forward_grants :: "bus_lines \<Rightarrow> 'a qpru_scheme \<Rightarrow> u8 \<times> 'a qpru_scheme" where
  "q_forward_grants bus s =
    (let (l7, s) = buslatches_getbyte bus 7 s;
         cpu_grant_mask = l7 AND PRIORITY_ARBITRATION_BIT_MASK;
         s = s\<lparr>qa_device_forwarded_grant_mask := cpu_grant_mask AND NOT (qa_device_request_signalled_mask s)\<rparr>
     in (cpu_grant_mask,
         buslatches_setbits 7 PRIORITY_ARBITRATION_BIT_MASK (qa_device_forwarded_grant_mask s) s))"

definition q_arbitration_pass :: "bus_lines \<Rightarrow> 'a qpru_scheme \<Rightarrow> 'a qpru_scheme" where
  "q_arbitration_pass bus s =
    (let (cpu_grant_mask, s) = (if \<not> qp_emulate_cpu s then q_forward_grants bus s else (0, s)) in
     if EVENT_IS_ACKED (ev_deviceregister s) then
       (let s = s\<lparr>qp_diag_arbitration_passes := qp_diag_arbitration_passes s + 1\<rparr>;
            (cpu_grant_mask, s) = (if qp_emulate_cpu s then q_sm_arb_worker_cpu bus s else (cpu_grant_mask, s));
            (granted_request, s) = q_sm_arb_worker_device bus cpu_grant_mask s
        in if granted_request AND PRIORITY_ARBITRATION_BIT_NP \<noteq> 0
           then s\<lparr>qp_sm_data_master_state := Some Sm_dma_start\<rparr> else s)
     else s)"

definition q_bus_pass :: "bus_lines \<Rightarrow> 'a qpru_scheme \<Rightarrow> 'a qpru_scheme option" where
  "q_bus_pass bus s =
    (case qp_sm_data_master_state s of
       None \<Rightarrow>
         map_option (\<lambda>s. q_arbitration_pass bus (q_bus_activity bus (q_sm_initialization_func bus s)))
           (q_slave_loop bus s)
     | Some st \<Rightarrow>
         (let (st, s) = q_dma_step bus st (s\<lparr>qp_diag_master_passes := qp_diag_master_passes s + 1\<rparr>)
          in Some (s\<lparr>qp_sm_data_master_state := st\<rparr>)))"

text \<open>One pass. \<open>None\<close>: the slave waits on the bus forever. A halted core does nothing.\<close>

definition q_main_pass :: "bus_lines \<Rightarrow> 'a qpru_scheme \<Rightarrow> 'a qpru_scheme option" where
  "q_main_pass bus s =
    (if qp_halted s then Some s
     else map_option (q_process_arm2pru bus)
       (q_bus_pass bus (s\<lparr>qp_diag_loop_passes := qp_diag_loop_passes s + 1\<rparr>)))"

text \<open>What \<open>main\<close> does before the loop.\<close>

definition q_main_init :: "bus_lines \<Rightarrow> 'a qpru_scheme \<Rightarrow> 'a qpru_scheme" where
  "q_main_init bus s =
    (let s = s\<lparr>qp_sm_data_master_state := None, qa_state := State_grant_check, qsl_state := State_data_slave_stop,
               qp_emulate_cpu := False, qp_halted := False\<rparr>;
         s = q_timeout_init s;
         s = iopageregisters_init s;
         s = q_buslatches_reset s;
         s = q_sm_initialization_reset bus s;
         s = q_sm_arb_reset s;
         s = qbus_diag_init s
     in s\<lparr>qp_diag_loop_passes := 0, qp_diag_arbitration_passes := 0, qp_diag_master_passes := 0,
          qp_diag_magic := MAILBOX_DIAG_MAGIC\<rparr>)"

end
