(* ===== verification/QbusDma_Lemmas.thy ===== *)
theory QbusDma_Lemmas
  imports QbusMain PruDma_Lemmas
begin

unbundle bit_operations_syntax

text \<open>
  Runs of the QBUS DMA on the board's own memory card: one data portion, the step to the next
  word, whole requests, and the division into blocks.
\<close>

lemma BIT_add [simp]: "i \<noteq> j \<Longrightarrow> BIT i + BIT j = BIT i OR BIT j"
  by (rule disjunctive_add) simp

section \<open>Frames\<close>

text \<open>What the latches and the counters of the memory leave alone.\<close>

lemma q_frame_setbits [simp]:
  fixes s :: "'a qbus_statemachine_dma_t_scheme"
  shows "memory_start_addr (buslatches_setbits r m v s) = memory_start_addr s"
    "memory_limit_addr (buslatches_setbits r m v s) = memory_limit_addr s"
    "ddr_words (buslatches_setbits r m v s) = ddr_words s"
    "qm_dma_cur_status (buslatches_setbits r m v s) = qm_dma_cur_status s"
    "qm_dma_buscycle (buslatches_setbits r m v s) = qm_dma_buscycle s"
    "qm_dma_wordcount (buslatches_setbits r m v s) = qm_dma_wordcount s"
    "qm_dma_cpu_access (buslatches_setbits r m v s) = qm_dma_cpu_access s"
    "qm_dma_cur_addr (buslatches_setbits r m v s) = qm_dma_cur_addr s"
    "qm_dma_startaddr (buslatches_setbits r m v s) = qm_dma_startaddr s"
    "qm_dma_words (buslatches_setbits r m v s) = qm_dma_words s"
    "qm_ev_dma (buslatches_setbits r m v s) = qm_ev_dma s"
    "qs_state_timeout (buslatches_setbits r m v s) = qs_state_timeout s"
    "qs_dataptr (buslatches_setbits r m v s) = qs_dataptr s"
    "qs_words_left (buslatches_setbits r m v s) = qs_words_left s"
    "qs_block_end_addr (buslatches_setbits r m v s) = qs_block_end_addr s"
    "qs_block_data_state_func (buslatches_setbits r m v s) = qs_block_data_state_func s"
    "qs_first_data_portion (buslatches_setbits r m v s) = qs_first_data_portion s"
  by (simp_all add: setbits_update)

lemma q_frame_setbyte [simp]:
  fixes s :: "'a qbus_statemachine_dma_t_scheme"
  shows "memory_start_addr (buslatches_setbyte r v s) = memory_start_addr s"
    "memory_limit_addr (buslatches_setbyte r v s) = memory_limit_addr s"
    "ddr_words (buslatches_setbyte r v s) = ddr_words s"
    "qm_dma_cur_status (buslatches_setbyte r v s) = qm_dma_cur_status s"
    "qm_dma_buscycle (buslatches_setbyte r v s) = qm_dma_buscycle s"
    "qm_dma_wordcount (buslatches_setbyte r v s) = qm_dma_wordcount s"
    "qm_dma_cpu_access (buslatches_setbyte r v s) = qm_dma_cpu_access s"
    "qm_dma_cur_addr (buslatches_setbyte r v s) = qm_dma_cur_addr s"
    "qm_dma_startaddr (buslatches_setbyte r v s) = qm_dma_startaddr s"
    "qm_dma_words (buslatches_setbyte r v s) = qm_dma_words s"
    "qm_ev_dma (buslatches_setbyte r v s) = qm_ev_dma s"
    "qs_state_timeout (buslatches_setbyte r v s) = qs_state_timeout s"
    "qs_dataptr (buslatches_setbyte r v s) = qs_dataptr s"
    "qs_words_left (buslatches_setbyte r v s) = qs_words_left s"
    "qs_block_end_addr (buslatches_setbyte r v s) = qs_block_end_addr s"
    "qs_block_data_state_func (buslatches_setbyte r v s) = qs_block_data_state_func s"
    "qs_first_data_portion (buslatches_setbyte r v s) = qs_first_data_portion s"
  by (simp_all add: buslatches_setbyte_def)

lemma q_frame_count_read [simp]:
  fixes s :: "'a qbus_statemachine_dma_t_scheme"
  shows "memory_start_addr (DDRMEM_COUNT_READ p q s) = memory_start_addr s"
    "memory_limit_addr (DDRMEM_COUNT_READ p q s) = memory_limit_addr s"
    "ddr_words (DDRMEM_COUNT_READ p q s) = ddr_words s"
    "qm_dma_cur_status (DDRMEM_COUNT_READ p q s) = qm_dma_cur_status s"
    "qm_dma_buscycle (DDRMEM_COUNT_READ p q s) = qm_dma_buscycle s"
    "qm_dma_wordcount (DDRMEM_COUNT_READ p q s) = qm_dma_wordcount s"
    "qm_dma_cpu_access (DDRMEM_COUNT_READ p q s) = qm_dma_cpu_access s"
    "qm_dma_cur_addr (DDRMEM_COUNT_READ p q s) = qm_dma_cur_addr s"
    "qm_dma_startaddr (DDRMEM_COUNT_READ p q s) = qm_dma_startaddr s"
    "qm_dma_words (DDRMEM_COUNT_READ p q s) = qm_dma_words s"
    "qm_ev_dma (DDRMEM_COUNT_READ p q s) = qm_ev_dma s"
    "qs_state_timeout (DDRMEM_COUNT_READ p q s) = qs_state_timeout s"
    "qs_dataptr (DDRMEM_COUNT_READ p q s) = qs_dataptr s"
    "qs_words_left (DDRMEM_COUNT_READ p q s) = qs_words_left s"
    "qs_block_end_addr (DDRMEM_COUNT_READ p q s) = qs_block_end_addr s"
    "qs_block_data_state_func (DDRMEM_COUNT_READ p q s) = qs_block_data_state_func s"
    "qs_first_data_portion (DDRMEM_COUNT_READ p q s) = qs_first_data_portion s"
    "cur_reg_val (DDRMEM_COUNT_READ p q s) = cur_reg_val s"
    "latch_out (DDRMEM_COUNT_READ p q s) = latch_out s"
  by (simp_all add: DDRMEM_COUNT_READ_def)

lemma q_frame_count_write [simp]:
  fixes s :: "'a qbus_statemachine_dma_t_scheme"
  shows "memory_start_addr (DDRMEM_COUNT_WRITE p q s) = memory_start_addr s"
    "memory_limit_addr (DDRMEM_COUNT_WRITE p q s) = memory_limit_addr s"
    "ddr_words (DDRMEM_COUNT_WRITE p q s) = ddr_words s"
    "qm_dma_cur_status (DDRMEM_COUNT_WRITE p q s) = qm_dma_cur_status s"
    "qm_dma_buscycle (DDRMEM_COUNT_WRITE p q s) = qm_dma_buscycle s"
    "qm_dma_wordcount (DDRMEM_COUNT_WRITE p q s) = qm_dma_wordcount s"
    "qm_dma_cpu_access (DDRMEM_COUNT_WRITE p q s) = qm_dma_cpu_access s"
    "qm_dma_cur_addr (DDRMEM_COUNT_WRITE p q s) = qm_dma_cur_addr s"
    "qm_dma_startaddr (DDRMEM_COUNT_WRITE p q s) = qm_dma_startaddr s"
    "qm_dma_words (DDRMEM_COUNT_WRITE p q s) = qm_dma_words s"
    "qm_ev_dma (DDRMEM_COUNT_WRITE p q s) = qm_ev_dma s"
    "qs_state_timeout (DDRMEM_COUNT_WRITE p q s) = qs_state_timeout s"
    "qs_dataptr (DDRMEM_COUNT_WRITE p q s) = qs_dataptr s"
    "qs_words_left (DDRMEM_COUNT_WRITE p q s) = qs_words_left s"
    "qs_block_end_addr (DDRMEM_COUNT_WRITE p q s) = qs_block_end_addr s"
    "qs_block_data_state_func (DDRMEM_COUNT_WRITE p q s) = qs_block_data_state_func s"
    "qs_first_data_portion (DDRMEM_COUNT_WRITE p q s) = qs_first_data_portion s"
    "cur_reg_val (DDRMEM_COUNT_WRITE p q s) = cur_reg_val s"
    "latch_out (DDRMEM_COUNT_WRITE p q s) = latch_out s"
  by (simp_all add: DDRMEM_COUNT_WRITE_def)

section \<open>The memory card\<close>

definition q_card :: "u32 \<Rightarrow> u32 \<Rightarrow> 'a ddrmem_t_scheme \<Rightarrow> bool" where
  "q_card lo hi s \<longleftrightarrow> memory_start_addr s 0 = lo \<and> memory_limit_addr s 0 = hi"

lemma q_card_in_slot: "q_card lo hi s \<Longrightarrow> a \<in> card_cells lo hi \<Longrightarrow> DDRMEM_ADDR_IN_SLOT s a 0"
  by (simp add: q_card_def card_cells_def DDRMEM_ADDR_IN_SLOT_def)

lemma q_card_read:
  assumes "q_card lo hi s" "a \<in> card_cells lo hi"
  shows "q_emulated_addr_read a s = ((1, ddr_words s (unat (a div 2))), DDRMEM_COUNT_READ True (DDRMEM_ADDR_IN_SLOT s a 1) s)"
  using q_card_in_slot[OF assms] card_in_ddr[OF assms(2)]
  by (simp add: q_emulated_addr_read_def Let_def DDRMEM_MEMGET_W_def ddrmem_word_def in_ddr_def)

lemma q_card_write:
  assumes "q_card lo hi s" "a \<in> card_cells lo hi"
  shows "q_emulated_addr_write_w a w s =
    (1, DDRMEM_COUNT_WRITE True (DDRMEM_ADDR_IN_SLOT s a 1) (s\<lparr>ddr_words := (ddr_words s)(unat (a div 2) := w)\<rparr>))"
  using q_card_in_slot[OF assms] card_in_ddr[OF assms(2)]
  by (simp add: q_emulated_addr_write_w_def Let_def MEMSET_in)

text \<open>The card is a store of words for this firmware too, so its block transfers hold here as well.\<close>

definition q_rd :: "u32 \<Rightarrow> 'a mailbox_event_deviceregister_t_scheme \<Rightarrow> u16 option \<times> 'a mailbox_event_deviceregister_t_scheme" where
  "q_rd a s = (let ((res, v), s) = q_emulated_addr_read a s in (if res \<noteq> 0 then Some v else None, s))"

definition q_wr :: "u32 \<Rightarrow> u16 \<Rightarrow> 'a mailbox_event_deviceregister_t_scheme \<Rightarrow> bool \<times> 'a mailbox_event_deviceregister_t_scheme" where
  "q_wr a w s = (let (res, s) = q_emulated_addr_write_w a w s in (res \<noteq> 0, s))"

lemma q_card_counted [simp]:
  "q_card lo hi (DDRMEM_COUNT_READ p q s) = q_card lo hi s" "q_card lo hi (DDRMEM_COUNT_WRITE p q s) = q_card lo hi s"
  "q_card lo hi (s\<lparr>ddr_words := m\<rparr>) = q_card lo hi s" "ddr_words (DDRMEM_COUNT_READ p q s) = ddr_words s"
  "ddr_words (DDRMEM_COUNT_WRITE p q s) = ddr_words s"
  for s :: "'a mailbox_event_deviceregister_t_scheme"
  by (simp_all add: q_card_def DDRMEM_COUNT_READ_def DDRMEM_COUNT_WRITE_def)

lemma q_rd_card: "q_card lo hi s \<Longrightarrow> a \<in> card_cells lo hi \<Longrightarrow>
    q_rd a s = (Some (ddr_words s (unat (a div 2))), DDRMEM_COUNT_READ True (DDRMEM_ADDR_IN_SLOT s a 1) s)"
  by (simp add: q_rd_def q_card_read)

lemma q_wr_card: "q_card lo hi s \<Longrightarrow> a \<in> card_cells lo hi \<Longrightarrow> fst (q_wr a w s) \<and> q_card lo hi (snd (q_wr a w s)) \<and>
    ddr_words (snd (q_wr a w s)) = (ddr_words s)(unat (a div 2) := w)"
  by (simp add: q_wr_def q_card_write)

interpretation q_store: word_store q_rd q_wr "q_card lo hi" "card_cells lo hi" for lo hi :: u32
proof (unfold_locales, goal_cases)
  case (4 s a b w)
  note wr = q_wr_card[OF 4(1,2), of w]
  have "unat (b div 2) = unat (a div 2) \<longleftrightarrow> b = a"
    using card_half_inj[OF 4(3,2)] by (simp add: unat_half_eq)
  then show ?case using 4 wr by (simp add: q_rd_card[of lo hi])
qed (simp_all add: q_rd_card q_wr_card)

section \<open>Blocks\<close>

text \<open>The number of words of a block: what is left, at most eight, up to the next multiple of 32.\<close>

definition q_block_words :: "u32 \<Rightarrow> nat \<Rightarrow> nat" where
  "q_block_words a n = min (min n 8) (16 - (unat a div 2) mod 16)"

lemma bit_1E: "bit (0x1E :: u32) n \<longleftrightarrow> 1 \<le> n \<and> n < 5"
proof -
  have "(0x1E :: u32) = push_bit 1 (mask 4)" by (simp add: mask_eq_exp_minus_1)
  have "n < 5 \<Longrightarrow> n < LENGTH(32)" by simp
  then show ?thesis
    unfolding \<open>0x1E = push_bit 1 (mask 4)\<close> bit_push_bit_iff bit_mask_iff by auto
qed

lemma or_1E: "unat ((a :: u32) OR 0x1E) = unat a + 2 * (15 - (unat a div 2) mod 16)"
proof -
  have split: "unat x = 32 * unat (drop_bit 5 x) + unat (take_bit 5 x)" for x :: u32
    by (simp add: drop_bit_eq_div take_bit_eq_mod unat_div unat_mod)
  have "drop_bit 5 (a OR 0x1E) = drop_bit 5 a"
    by (rule bit_word_eqI) (simp add: bit_drop_bit_eq bit_or_iff bit_1E)
  moreover have "take_bit 5 (a OR 0x1E) = (if odd a then 31 else 30)"
  proof -
    have "(31 :: u32) = mask 5" by (simp add: mask_eq_exp_minus_1)
    then have b: "bit (31 :: u32) n \<longleftrightarrow> n < 5" for n
      unfolding \<open>31 = mask 5\<close> bit_mask_iff by auto
    have "bit (take_bit 5 (a OR 0x1E)) n = bit (if odd a then 31 else 0x1E :: u32) n" for n
    proof (cases "n = 0")
      case True
      then show ?thesis unfolding bit_take_bit_iff bit_or_iff bit_1E if_distrib[of "\<lambda>x. bit x n"] b by (simp add: bit_0)
    next
      case False
      then show ?thesis unfolding bit_take_bit_iff bit_or_iff bit_1E if_distrib[of "\<lambda>x. bit x n"] b by auto
    qed
    then show ?thesis by (intro bit_word_eqI) simp
  qed
  moreover have "odd a \<longleftrightarrow> odd (unat a)" using even_unat_iff[of a] by simp
  ultimately have "unat (a OR 0x1E) = 32 * (unat a div 32) + (if odd (unat a) then 31 else 30)"
    using split[of "a OR 0x1E"] by (simp add: drop_bit_eq_div unat_div)
  moreover have "32 * (u div 32) + (if odd u then 31 else 30) = u + 2 * (15 - (u div 2) mod 16)" for u :: nat
  proof -
    define k where "k = (u div 2) mod 16"
    have "u mod 32 = 2 * k + u mod 2" using mod_mult2_eq[of u 2 16] by (simp add: k_def)
    moreover have "u = 32 * (u div 32) + u mod 32" by simp
    moreover have "2 * k + 2 * (15 - k) = 30" using mod_less_divisor[of 16 "u div 2"] by (simp add: k_def)
    ultimately have "32 * (u div 32) + u mod 2 + 30 = u + 2 * (15 - k)" by linarith
    moreover have "(if odd u then 31 else 30) = u mod 2 + 30" by presburger
    ultimately show ?thesis unfolding k_def by linarith
  qed
  ultimately show ?thesis by simp
qed

lemma q_block_end_eq:
  assumes "0 < unat words" "unat a + 32 < 2 ^ 32"
  shows "unat (q_block_end a words) = unat a + 2 * (q_block_words a (unat words) - 1)"
proof -
  define m where "m = unat (min words 8)"
  have m: "m = min (unat words) 8" "0 < m" "m \<le> 8"
    using assms(1) by (auto simp: m_def min_def word_le_nat_alt)
  have u: "unat (ucast (min words 8) :: u32) = m" using m(3) by (simp add: unsigned_ucast_eq m_def take_bit_nat_eq_self)
  then have "unat (ucast (min words 8) - 1 :: u32) = m - 1"
    using m by (simp add: unat_sub_if' word_le_nat_alt)
  then have "unat (2 * (ucast (min words 8) - 1) :: u32) = 2 * (m - 1)"
    using unat_word_ariths(2)[of 2 "ucast (min words 8) - 1 :: u32"] m(3) by (simp only:) simp
  then have first: "unat (a + 2 * (ucast (min words 8) - 1)) = unat a + 2 * (m - 1)"
    using unat_word_ariths(1)[of a "2 * (ucast (min words 8) - 1)"] m(3) assms(2) by (simp only:) simp
  have "unat (q_block_end a words) = min (unat a + 2 * (m - 1)) (unat a + 2 * (15 - (unat a div 2) mod 16))"
    unfolding q_block_end_def using first or_1E[of a] by (auto simp: min_def word_le_nat_alt)
  then show ?thesis
    unfolding q_block_words_def m(1)[symmetric] using m(2)
    by (simp add: min_def) (rule conjI; rule impI; arith)
qed

section \<open>Runs\<close>

primrec q_dma_run :: "nat \<Rightarrow> bus_lines \<Rightarrow> q_dma_state \<Rightarrow> 'a qbus_statemachine_dma_t_scheme \<Rightarrow>
    q_dma_state option \<times> 'a qbus_statemachine_dma_t_scheme" where
  "q_dma_run 0 bus st s = (Some st, s)"
| "q_dma_run (Suc k) bus st s =
    (case q_dma_step bus st s of (None, s) \<Rightarrow> (None, s) | (Some st, s) \<Rightarrow> q_dma_run k bus st s)"

text \<open>What one word of a request does to the memory and the buffer.\<close>

definition q_copy_word :: "bool \<Rightarrow> (nat \<Rightarrow> u32) \<Rightarrow> nat \<Rightarrow> (nat \<Rightarrow> u16) \<times> (nat \<Rightarrow> u16) \<Rightarrow> (nat \<Rightarrow> u16) \<times> (nat \<Rightarrow> u16)" where
  "q_copy_word dato a j p =
    (if dato then ((fst p)(unat (a j div 2) := snd p j), snd p) else (fst p, (snd p)(j := fst p (unat (a j div 2)))))"

definition q_dato :: "'a qbus_statemachine_dma_t_scheme \<Rightarrow> bool" where
  "q_dato s \<longleftrightarrow> qm_dma_buscycle s = QUNIBUS_CYCLE_DATO"

definition q_data_state :: "'a qbus_statemachine_dma_t_scheme \<Rightarrow> q_dma_state" where
  "q_data_state s = (if q_dato s then Sm_dma_state_dout_start else Sm_dma_state_din_start)"

text \<open>The request itself, which no state changes, and the memory it works on.\<close>

definition q_kept :: "'a qbus_statemachine_dma_t_scheme \<Rightarrow> 'a qbus_statemachine_dma_t_scheme \<Rightarrow> bool" where
  "q_kept s t \<longleftrightarrow> memory_start_addr t = memory_start_addr s \<and> memory_limit_addr t = memory_limit_addr s \<and>
     qm_dma_startaddr t = qm_dma_startaddr s \<and> qm_dma_wordcount t = qm_dma_wordcount s \<and>
     qm_dma_buscycle t = qm_dma_buscycle s"

text \<open>A request of \<open>n\<close> words is about to move word \<open>i\<close>.\<close>

definition q_between :: "u32 \<Rightarrow> u32 \<Rightarrow> nat \<Rightarrow> nat \<Rightarrow> 'a qbus_statemachine_dma_t_scheme \<Rightarrow> bool" where
  "q_between lo hi n i s \<longleftrightarrow> q_card lo hi s \<and> qm_dma_cur_status s = DMA_STATE_RUNNING \<and> qm_dma_wordcount s \<noteq> 0 \<and>
     qm_dma_buscycle s \<in> {QUNIBUS_CYCLE_DATI, QUNIBUS_CYCLE_DATO} \<and> qs_dataptr s = i \<and>
     qs_words_left s = of_nat (n - i) \<and> i < n \<and> n \<le> PRU_MAX_DMA_WORDCOUNT \<and>
     qm_dma_cur_addr s = qm_dma_startaddr s + 2 * of_nat i"

text \<open>In the data state of a block: no timeout, and WTBT is negated or about to be.\<close>

definition q_in_block :: "'a qbus_statemachine_dma_t_scheme \<Rightarrow> bool" where
  "q_in_block s \<longleftrightarrow> \<not> qs_state_timeout s \<and> qs_block_data_state_func s = Some (q_data_state s) \<and>
     (bit (cur_reg_val s 4) 4 \<longrightarrow> q_dato s \<and> qs_first_data_portion s)"

lemma dato_consts [simp]:
  "QUNIBUS_CYCLE_IS_DATO QUNIBUS_CYCLE_DATO" "\<not> QUNIBUS_CYCLE_IS_DATO QUNIBUS_CYCLE_DATI"
  "QUNIBUS_CYCLE_DATO \<noteq> QUNIBUS_CYCLE_DATOB" "QUNIBUS_CYCLE_DATI \<noteq> QUNIBUS_CYCLE_DATO"
  by (simp_all add: QUNIBUS_CYCLE_IS_DATO_def QUNIBUS_CYCLE_DATO_def QUNIBUS_CYCLE_DATI_def QUNIBUS_CYCLE_DATOB_def)

lemma q_addr_portion:
  assumes "q_between lo hi n i s"
  obtains t where "q_dma_step bus Sm_dma_state_addr s = (Some (q_data_state s), t)" "q_between lo hi n i t" "q_in_block t"
    "q_kept s t" "ddr_words t = ddr_words s" "qm_dma_words t = qm_dma_words s" "qm_ev_dma t = qm_ev_dma s"
    "qs_block_end_addr t = q_block_end (qm_dma_cur_addr s) (of_nat (n - i))"
proof -
  let ?r = "q_sm_dma_state_addr s"
  have run: "\<not> (qm_dma_cur_status s \<noteq> DMA_STATE_RUNNING \<or> qm_dma_wordcount s = 0)"
    using assms by (simp add: q_between_def)
  have "fst ?r = Some (q_data_state s) \<and> q_between lo hi n i (snd ?r) \<and> q_in_block (snd ?r) \<and> q_kept s (snd ?r) \<and>
    ddr_words (snd ?r) = ddr_words s \<and> qm_dma_words (snd ?r) = qm_dma_words s \<and> qm_ev_dma (snd ?r) = qm_ev_dma s \<and>
    qs_block_end_addr (snd ?r) = q_block_end (qm_dma_cur_addr s) (of_nat (n - i))"
    using assms run unfolding q_sm_dma_state_addr_def Let_def
    by (auto simp: setbits_update buslatches_setbyte_def q_between_def q_in_block_def q_kept_def q_data_state_def q_dato_def
        q_card_def bit_merge_bits bit_or_iff)
  then show ?thesis using that[of "snd ?r"] by (simp add: q_dma_step_def prod_eq_iff)
qed

text \<open>The data portion, up to the state between two words.\<close>

definition q_after_word :: "'a qbus_statemachine_dma_t_scheme \<Rightarrow> bool" where
  "q_after_word s \<longleftrightarrow> \<not> bit (cur_reg_val s 4) (if q_dato s then 2 else 1) \<and> \<not> bit (cur_reg_val s 4) 3 \<and>
     \<not> bit (cur_reg_val s 4) 4"

lemma dataptr_in_buffer: "q_between lo hi n i s \<Longrightarrow> qs_dataptr s < PRU_MAX_DMA_WORDCOUNT"
  by (auto simp: q_between_def)

lemma q_data_portion:
  assumes I: "q_between lo hi n i s" "q_in_block s" and cell: "qm_dma_cur_addr s \<in> card_cells lo hi"
  obtains t where "q_dma_step bus (q_data_state s) s = (Some Sm_dma_state_99, t)" "q_between lo hi n i t"
    "\<not> qs_state_timeout t" "q_kept s t" "q_after_word t" "qm_ev_dma t = qm_ev_dma s"
    "qs_block_data_state_func t = (if qm_dma_cur_addr s = qs_block_end_addr s then None else Some (q_data_state s))"
    "(ddr_words t, qm_dma_words t) =
       q_copy_word (q_dato s) (\<lambda>j. qm_dma_startaddr s + 2 * of_nat j) i (ddr_words s, qm_dma_words s)"
proof -
  let ?r = "q_dma_step bus (q_data_state s) s"
  have card: "q_card lo hi s" using I by (simp add: q_between_def)
  note ptr = dataptr_in_buffer[OF I(1)]
  have "fst ?r = Some Sm_dma_state_99 \<and> q_between lo hi n i (snd ?r) \<and> \<not> qs_state_timeout (snd ?r) \<and> q_kept s (snd ?r) \<and>
    q_after_word (snd ?r) \<and> qm_ev_dma (snd ?r) = qm_ev_dma s \<and>
    qs_block_data_state_func (snd ?r) = (if qm_dma_cur_addr s = qs_block_end_addr s then None else Some (q_data_state s)) \<and>
    (ddr_words (snd ?r), qm_dma_words (snd ?r)) =
       q_copy_word (q_dato s) (\<lambda>j. qm_dma_startaddr s + 2 * of_nat j) i (ddr_words s, qm_dma_words s)"
  proof (cases "q_dato s")
    case True
    then have "qm_dma_buscycle s = QUNIBUS_CYCLE_DATO" "q_data_state s = Sm_dma_state_dout_start"
      by (simp_all add: q_dato_def q_data_state_def)
    then show ?thesis
      using I card cell ptr
      by (cases "qs_first_data_portion s"; simp add: q_dma_step_def q_sm_dma_state_dout_start_def Let_def q_dataptr_get_def
          q_card_write[of lo hi] q_card_def)
       (simp_all add: q_between_def q_in_block_def q_kept_def q_after_word_def q_dato_def q_data_state_def q_card_def
          bit_merge_bits bit_or_iff q_copy_word_def)
  next
    case False
    then have "qm_dma_buscycle s = QUNIBUS_CYCLE_DATI" "q_data_state s = Sm_dma_state_din_start"
      using I by (auto simp: q_dato_def q_data_state_def q_between_def)
    then show ?thesis
      using I card cell ptr
      by (cases "qs_first_data_portion s"; simp add: q_dma_step_def q_sm_dma_state_din_start_def Let_def q_dataptr_put_def
          q_card_read[of lo hi] q_card_def)
       (simp_all add: q_between_def q_in_block_def q_kept_def q_after_word_def q_dato_def q_data_state_def q_card_def
          bit_merge_bits bit_or_iff q_copy_word_def)
  qed
  then show ?thesis using that[of "snd ?r"] by (simp add: prod_eq_iff)
qed

text \<open>Between two words, on a bus without INIT: the end of the request, or the next word.\<close>

definition q_no_init :: "bus_lines \<Rightarrow> bool" where
  "q_no_init bus \<longleftrightarrow> (\<forall>n out. \<not> bit (bus n out 5) 0)"

definition q_released :: "'a qbus_statemachine_dma_t_scheme \<Rightarrow> bool" where
  "q_released s \<longleftrightarrow> \<not> bit (latch_out s 6) 7 \<and> \<not> bit (latch_out s 4) 0 \<and> \<not> bit (latch_out s 4) 3 \<and>
     \<not> bit (latch_out s 4) 4 \<and> \<not> bit (latch_out s 4) 5 \<and> \<not> bit (latch_out s 4) (if q_dato s then 2 else 1)"

lemma q_signal_fields:
  fixes s :: "'a qbus_statemachine_dma_t_scheme"
  shows "qm_dma_cur_status (q_dma_signal st s) = st" "qm_ev_dma (q_dma_signal st s) = EVENT_SIGNAL (qm_ev_dma s)"
    "ddr_words (q_dma_signal st s) = ddr_words s" "qm_dma_words (q_dma_signal st s) = qm_dma_words s"
    "latch_out (q_dma_signal st s) = latch_out s" "q_dato (q_dma_signal st s) = q_dato s"
    "qm_dma_cur_addr (q_dma_signal st s) = qm_dma_cur_addr s" "q_kept s (q_dma_signal st s)"
    "arm_interrupts (q_dma_signal st s) = arm_interrupts s + (if qm_dma_cpu_access s = 0 then 1 else 0)"
  by (simp_all add: q_dma_signal_def Let_def PRU2ARM_INTERRUPT_def q_dato_def q_kept_def)

lemma q_last_word:
  assumes "q_between lo hi n i s" "\<not> qs_state_timeout s" "q_after_word s" "Suc i = n"
  obtains t where "q_dma_step bus Sm_dma_state_99 s = (None, t)" "q_released t" "qm_dma_cur_status t = DMA_STATE_READY"
    "qm_ev_dma t = EVENT_SIGNAL (qm_ev_dma s)" "ddr_words t = ddr_words s" "qm_dma_words t = qm_dma_words s"
    "qm_dma_cur_addr t = qm_dma_startaddr s + 2 * of_nat (n - 1)"
proof -
  let ?u = "buslatches_setbits 4 (BIT 0 + BIT 5) 0 (buslatches_setbits 6 (BIT 7) 0
      (s\<lparr>qs_dataptr := qs_dataptr s + 1, qs_words_left := qs_words_left s - 1\<rparr>))"
  have "qs_words_left s = 1" using assms by (auto simp: q_between_def)
  then have "q_dma_step bus Sm_dma_state_99 s = (None, q_dma_signal DMA_STATE_READY ?u)"
    using assms(2) by (simp add: q_dma_step_def q_sm_dma_state_99_def q_sm_dma_end_def Let_def)
  moreover define w where "w = q_dma_signal DMA_STATE_READY ?u"
  moreover have dato: "q_dato w = q_dato s"
    unfolding w_def q_signal_fields(6) by (simp add: q_dato_def)
  moreover have "latch_out w = latch_out ?u" by (simp add: w_def q_signal_fields)
  then have "q_released w"
    using assms(3) by (simp add: q_released_def q_after_word_def dato bit_merge_bits bit_or_iff)
  ultimately show ?thesis
    using assms(1,4) by (intro that[of w]) (auto simp: q_signal_fields q_between_def)
qed

lemma q_next_word:
  assumes "q_between lo hi n i s" "\<not> qs_state_timeout s" "q_after_word s" "Suc i < n" "q_no_init bus"
    and "qs_block_data_state_func s \<in> {None, Some (q_data_state s)}"
  obtains st t where "q_dma_step bus Sm_dma_state_99 s = (Some st, t)" "q_between lo hi n (Suc i) t" "q_kept s t"
    "st = Sm_dma_state_addr \<or> st = q_data_state s \<and> q_in_block t" "qm_ev_dma t = qm_ev_dma s"
    "ddr_words t = ddr_words s" "qm_dma_words t = qm_dma_words s"
proof -
  let ?v = "s\<lparr>qs_dataptr := qs_dataptr s + 1, qs_words_left := qs_words_left s - 1\<rparr>"
  let ?u = "(snd (buslatches_getbyte bus 5 ?v))\<lparr>qm_dma_cur_addr := qm_dma_cur_addr s + 2\<rparr>"
  have left: "qs_words_left s - 1 = of_nat (n - Suc i)"
  proof -
    have "n - i = Suc (n - Suc i)" using assms(4) by simp
    then show ?thesis using assms(1) by (simp add: q_between_def)
  qed
  have small: "k < 65536 \<Longrightarrow> unat (of_nat k :: u16) = k" for k
    by (simp add: unat_of_nat take_bit_nat_eq_self)
  have "n \<le> 4096" using assms(1) by (simp add: q_between_def PRU_MAX_DMA_WORDCOUNT_def)
  then have "unat (of_nat (n - Suc i) :: u16) = n - Suc i" by (intro small) linarith
  then have "of_nat (n - Suc i) \<noteq> (0 :: u16)" using assms(4) by (metis unat_0 zero_less_diff less_irrefl)
  then have more: "qs_words_left s \<noteq> 1" using left by (metis right_minus_eq)
  have "buslatches_getbyte bus 5 ?v = (fst (buslatches_getbyte bus 5 ?v), snd (buslatches_getbyte bus 5 ?v))" by simp
  moreover have "fst (buslatches_getbyte bus 5 ?v) AND BIT 0 = 0"
    using assms(5) by (simp add: buslatches_getbyte_def and_BIT q_no_init_def)
  ultimately have step: "q_dma_step bus Sm_dma_state_99 s = (case qs_block_data_state_func s of
       Some st \<Rightarrow> (Some st, ?u) | None \<Rightarrow> (Some Sm_dma_state_addr, buslatches_setbits 4 (BIT 0 + BIT 5) 0 ?u))"
    using assms(2) more
    by (simp add: q_dma_step_def q_sm_dma_state_99_def Let_def buslatches_getbyte_def split: option.split)
  have I: "q_between lo hi n (Suc i) ?u" "q_kept s ?u" "qm_ev_dma ?u = qm_ev_dma s" "ddr_words ?u = ddr_words s"
    "qm_dma_words ?u = qm_dma_words s" "q_data_state ?u = q_data_state s"
    using assms(1,4) left by (auto simp: q_between_def buslatches_getbyte_def q_card_def q_kept_def q_data_state_def q_dato_def
        algebra_simps)
  have lat: "q_between lo hi n (Suc i) (buslatches_setbits r m v w) = q_between lo hi n (Suc i) w"
    "q_kept s (buslatches_setbits r m v w) = q_kept s w" for r m v w
    by (simp_all add: q_between_def q_card_def q_kept_def)
  show ?thesis
  proof (cases "qs_block_data_state_func s")
    case None
    show ?thesis by (rule that[OF step[unfolded None option.case]]) (use I in \<open>simp_all add: lat\<close>)
  next
    case (Some st)
    then have st: "st = q_data_state s" using assms(6) by simp
    have "q_in_block ?u"
      using assms(2,3) Some st I(6) by (simp add: q_in_block_def buslatches_getbyte_def q_after_word_def q_data_state_def q_dato_def)
    then show ?thesis by (intro that[OF step[unfolded Some option.case]]) (use I st in simp_all)
  qed
qed

lemma q_kept_trans: "q_kept s t \<Longrightarrow> q_kept t u \<Longrightarrow> q_kept s u"
  by (simp add: q_kept_def)

lemma q_kept_dato: "q_kept s t \<Longrightarrow> q_dato t = q_dato s \<and> q_data_state t = q_data_state s \<and> qm_dma_startaddr t = qm_dma_startaddr s"
  by (simp add: q_kept_def q_dato_def q_data_state_def)

lemma q_copy_fold_Cons:
  "i < n \<Longrightarrow> fold (q_copy_word d a) [i..<n] p = fold (q_copy_word d a) [Suc i..<n] (q_copy_word d a i p)"
  by (simp add: upt_conv_Cons)

definition q_moved :: "nat \<Rightarrow> nat \<Rightarrow> 'a qbus_statemachine_dma_t_scheme \<Rightarrow> 'a qbus_statemachine_dma_t_scheme \<Rightarrow> bool" where
  "q_moved i n s t \<longleftrightarrow> (ddr_words t, qm_dma_words t) =
     fold (q_copy_word (q_dato s) (\<lambda>j. qm_dma_startaddr s + 2 * of_nat j)) [i..<n] (ddr_words s, qm_dma_words s)"

definition q_finished :: "nat \<Rightarrow> 'a qbus_statemachine_dma_t_scheme \<Rightarrow> 'a qbus_statemachine_dma_t_scheme \<Rightarrow> bool" where
  "q_finished n s t \<longleftrightarrow> q_released t \<and> qm_dma_cur_status t = DMA_STATE_READY \<and> qm_ev_dma t = EVENT_SIGNAL (qm_ev_dma s) \<and>
     qm_dma_cur_addr t = qm_dma_startaddr s + 2 * of_nat (n - 1)"

lemma q_words_run:
  assumes "q_between lo hi n i s" "q_no_init bus"
    and "\<And>j. j < n \<Longrightarrow> qm_dma_startaddr s + 2 * of_nat j \<in> card_cells lo hi"
    and "st = Sm_dma_state_addr \<or> st = q_data_state s \<and> q_in_block s"
  shows "\<exists>k t. k \<le> 3 * (n - i) \<and> q_dma_run k bus st s = (None, t) \<and> q_moved i n s t \<and> q_finished n s t"
  using assms
proof (induction "n - i" arbitrary: i s st rule: less_induct)
  case less
  \<comment> \<open>the address portion, if the block starts here\<close>
  obtain u b where u: "b \<le> 1" "\<And>k. q_dma_run (k + b) bus st s = q_dma_run k bus (q_data_state s) u"
    "q_between lo hi n i u" "q_in_block u" "q_kept s u" "ddr_words u = ddr_words s" "qm_dma_words u = qm_dma_words s"
    "qm_ev_dma u = qm_ev_dma s"
  proof (cases "st = Sm_dma_state_addr")
    case True
    from q_addr_portion[OF less.prems(1), of bus] obtain t where
      "q_dma_step bus Sm_dma_state_addr s = (Some (q_data_state s), t)" "q_between lo hi n i t" "q_in_block t"
      "q_kept s t" "ddr_words t = ddr_words s" "qm_dma_words t = qm_dma_words s" "qm_ev_dma t = qm_ev_dma s" by metis
    then show ?thesis using that[of 1 t] True by simp
  next
    case False
    then show ?thesis using that[of 0 s] less.prems(1,4) by (simp add: q_kept_def)
  qed
  note same = q_kept_dato[OF u(5)]
  have cell: "qm_dma_cur_addr u \<in> card_cells lo hi"
    using less.prems(3)[of i] u(3) same by (simp add: q_between_def)
  from q_data_portion[OF u(3,4) cell, of bus] obtain w where
    w: "q_dma_step bus (q_data_state u) u = (Some Sm_dma_state_99, w)" "q_between lo hi n i w" "\<not> qs_state_timeout w"
      "q_kept u w" "q_after_word w" "qm_ev_dma w = qm_ev_dma u"
      "qs_block_data_state_func w \<in> {None, Some (q_data_state w)}"
      "(ddr_words w, qm_dma_words w) =
         q_copy_word (q_dato u) (\<lambda>j. qm_dma_startaddr u + 2 * of_nat j) i (ddr_words u, qm_dma_words u)"
    by (metis (no_types, lifting) insertCI q_kept_dato)
  note same' = q_kept_dato[OF w(4)]
  have run: "q_dma_run (Suc (Suc k + b)) bus st s =
      (case q_dma_step bus Sm_dma_state_99 w of (None, s) \<Rightarrow> (None, s) | (Some st, s) \<Rightarrow> q_dma_run k bus st s)" for k
    using u(2)[of "Suc (Suc k)"] w(1) same by simp
  have "i < n" using less.prems(1) by (simp add: q_between_def)
  show ?case
  proof (cases "Suc i = n")
    case True
    from q_last_word[OF w(2,3,5) True, of bus] obtain t where
      t: "q_dma_step bus Sm_dma_state_99 w = (None, t)" "q_released t" "qm_dma_cur_status t = DMA_STATE_READY"
        "qm_ev_dma t = EVENT_SIGNAL (qm_ev_dma w)" "ddr_words t = ddr_words w" "qm_dma_words t = qm_dma_words w"
        "qm_dma_cur_addr t = qm_dma_startaddr w + 2 * of_nat (n - 1)" by metis
    have "q_moved i n s t"
      using w(8) t(5,6) u(6,7) same True by (simp add: q_moved_def flip: True)
    moreover have "q_finished n s t" using t w(6) u(8) same same' by (simp add: q_finished_def)
    moreover have "q_dma_run (Suc (Suc 0 + b)) bus st s = (None, t)" using run[of 0] t(1) by simp
    ultimately show ?thesis using u(1) True by (intro exI[of _ "Suc (Suc 0 + b)"] exI[of _ t]) auto
  next
    case False
    then have "Suc i < n" using \<open>i < n\<close> by simp
    from q_next_word[OF w(2,3,5) this less.prems(2) w(7)] obtain st' v where
      v: "q_dma_step bus Sm_dma_state_99 w = (Some st', v)" "q_between lo hi n (Suc i) v" "q_kept w v"
        "st' = Sm_dma_state_addr \<or> st' = q_data_state w \<and> q_in_block v" "qm_ev_dma v = qm_ev_dma w"
        "ddr_words v = ddr_words w" "qm_dma_words v = qm_dma_words w" by metis
    note same'' = q_kept_dato[OF v(3)]
    have "n - Suc i < n - i" using \<open>Suc i < n\<close> by linarith
    moreover have "qm_dma_startaddr v + 2 * of_nat j \<in> card_cells lo hi" if "j < n" for j
      using less.prems(3)[OF that] same same' same'' by simp
    moreover have "st' = Sm_dma_state_addr \<or> st' = q_data_state v \<and> q_in_block v" using v(4) same'' by simp
    ultimately obtain k t where
      t: "k \<le> 3 * (n - Suc i)" "q_dma_run k bus st' v = (None, t)" "q_moved (Suc i) n v t" "q_finished n v t"
      using less.hyps[OF _ v(2) less.prems(2)] by blast
    have "q_moved i n s t"
      using t(3) w(8) v(6,7) u(6,7) same same' same'' \<open>i < n\<close>
      by (simp add: q_moved_def q_copy_fold_Cons)
    moreover have "q_finished n s t"
      using t(4) v(5) w(6) u(8) same same' same'' by (simp add: q_finished_def)
    moreover have "q_dma_run (Suc (Suc k + b)) bus st s = (None, t)" using run[of k] v(1) t(2) by simp
    ultimately show ?thesis
      using u(1) t(1) \<open>Suc i < n\<close> by (intro exI[of _ "Suc (Suc k + b)"] exI[of _ t]) auto
  qed
qed

text \<open>The words one by one.\<close>

lemma q_copy_dati: "fold (q_copy_word False a) [0..<n] (m, p) = (m, \<lambda>j. if j < n then m (unat (a j div 2)) else p j)"
  by (induction n) (auto simp: q_copy_word_def)

lemma q_copy_dato:
  assumes "\<And>i j. i < n \<Longrightarrow> j < n \<Longrightarrow> i \<noteq> j \<Longrightarrow> unat (a i div 2) \<noteq> unat (a j div 2)"
  obtains m' where "fold (q_copy_word True a) [0..<n] (m, p) = (m', p)" "\<And>j. j < n \<Longrightarrow> m' (unat (a j div 2)) = p j"
    "\<And>k. (\<forall>j < n. k \<noteq> unat (a j div 2)) \<Longrightarrow> m' k = m k"
  using assms
proof (induction n arbitrary: thesis)
  case 0
  show ?case by (rule 0(1)[of m]) simp_all
next
  case (Suc n)
  show ?case
  proof (rule Suc.IH)
    fix m' assume m': "fold (q_copy_word True a) [0..<n] (m, p) = (m', p)" "\<And>j. j < n \<Longrightarrow> m' (unat (a j div 2)) = p j"
      "\<And>k. (\<forall>j < n. k \<noteq> unat (a j div 2)) \<Longrightarrow> m' k = m k"
    show thesis
    proof (rule Suc.prems(1)[of "m'(unat (a n div 2) := p n)"])
      show "fold (q_copy_word True a) [0..<Suc n] (m, p) = (m'(unat (a n div 2) := p n), p)"
        using m'(1) by (simp add: q_copy_word_def)
    qed (use m'(2,3) Suc.prems(2) in \<open>auto simp: less_Suc_eq\<close>)
  qed (use Suc.prems(2) in simp)
qed

lemma q_dma_start_between:
  assumes "q_card lo hi s" "qm_dma_buscycle s \<in> {QUNIBUS_CYCLE_DATI, QUNIBUS_CYCLE_DATO}"
    and "0 < unat (qm_dma_wordcount s)" "unat (qm_dma_wordcount s) \<le> PRU_MAX_DMA_WORDCOUNT"
  obtains v where "q_dma_step bus Sm_dma_start s = (Some Sm_dma_state_addr, v)"
    "q_between lo hi (unat (qm_dma_wordcount s)) 0 v" "q_kept s v" "ddr_words v = ddr_words s"
    "qm_dma_words v = qm_dma_words s" "qm_ev_dma v = qm_ev_dma s"
proof -
  have "qm_dma_wordcount s \<noteq> 0" using assms(3) by auto
  then show ?thesis
    using assms that[of "snd (q_sm_dma_start s)"]
    by (auto simp: q_dma_step_def q_sm_dma_start_def q_between_def q_card_def q_kept_def)
qed

end
