(* ===== verification/QbusArb_Lemmas.thy ===== *)
theory QbusArb_Lemmas
  imports QbusDma_Lemmas
begin

unbundle bit_operations_syntax

text \<open>Arbitration on the QBUS: grants, the start of a DMA, and the acknowledge of an interrupt.\<close>

section \<open>Frames\<close>

lemma q_arb_setbits [simp]:
  fixes s :: "'a qbus_mailbox_intr_t_scheme"
  shows "qa_state (buslatches_setbits r m v s) = qa_state s"
    "qa_device_request_mask (buslatches_setbits r m v s) = qa_device_request_mask s"
    "qa_device_request_signalled_mask (buslatches_setbits r m v s) = qa_device_request_signalled_mask s"
    "qa_canceled_request_mask (buslatches_setbits r m v s) = qa_canceled_request_mask s"
    "qa_device_forwarded_grant_mask (buslatches_setbits r m v s) = qa_device_forwarded_grant_mask s"
    "qa_device_grant_mask (buslatches_setbits r m v s) = qa_device_grant_mask s"
    "qa_intr_level_index (buslatches_setbits r m v s) = qa_intr_level_index s"
    "qa_dmr_committed (buslatches_setbits r m v s) = qa_dmr_committed s"
    "qm_intr_vector (buslatches_setbits r m v s) = qm_intr_vector s"
    "qm_ev_intr_master (buslatches_setbits r m v s) = qm_ev_intr_master s"
    "array_oob (buslatches_setbits r m v s) = array_oob s"
    "arm_interrupts (buslatches_setbits r m v s) = arm_interrupts s"
  by (simp_all add: setbits_update)

lemma q_arb_setbyte [simp]:
  fixes s :: "'a qbus_mailbox_intr_t_scheme"
  shows "qa_state (buslatches_setbyte r v s) = qa_state s"
    "qa_device_request_mask (buslatches_setbyte r v s) = qa_device_request_mask s"
    "qa_device_request_signalled_mask (buslatches_setbyte r v s) = qa_device_request_signalled_mask s"
    "qa_canceled_request_mask (buslatches_setbyte r v s) = qa_canceled_request_mask s"
    "qa_device_grant_mask (buslatches_setbyte r v s) = qa_device_grant_mask s"
    "qa_intr_level_index (buslatches_setbyte r v s) = qa_intr_level_index s"
    "qm_intr_vector (buslatches_setbyte r v s) = qm_intr_vector s"
    "qm_ev_intr_master (buslatches_setbyte r v s) = qm_ev_intr_master s"
    "array_oob (buslatches_setbyte r v s) = array_oob s"
    "arm_interrupts (buslatches_setbyte r v s) = arm_interrupts s"
  by (simp_all add: buslatches_setbyte_def)

lemma q_arb_count [simp]:
  fixes s :: "'a qbus_mailbox_intr_t_scheme"
  shows "latch_out (s\<lparr>bus_reads := n\<rparr>) = latch_out s" "cur_reg_val (s\<lparr>bus_reads := n\<rparr>) = cur_reg_val s"
  by simp_all

lemma q_reads [simp]:
  "fst (buslatches_getbyte bus r s) = bus (bus_reads s) (latch_out s) r"
  "snd (buslatches_getbyte bus r s) = s\<lparr>bus_reads := Suc (bus_reads s)\<rparr>"
  by (simp_all add: buslatches_getbyte_def)

lemma intr_and_NP: "(x AND PRIORITY_ARBITRATION_INTR_MASK) AND PRIORITY_ARBITRATION_BIT_NP = 0"
  by (simp add: and_NP intr_mask_bits)

lemma intr_mask_bit: "bit PRIORITY_ARBITRATION_INTR_MASK n \<longleftrightarrow> n < 4"
  using intr_mask_bits[of "- 1" n] by (auto dest: bit_imp_le_length)

section \<open>The start of a DMA\<close>

section \<open>Grants\<close>

lemma q_pending_register_fields [simp]:
  fixes s :: "'a qbus_mailbox_intr_t_scheme"
  shows "qa_device_request_mask (q_pending_register i s) = qa_device_request_mask s"
    "qa_device_forwarded_grant_mask (q_pending_register i s) = qa_device_forwarded_grant_mask s"
    "qa_dmr_committed (q_pending_register i s) = qa_dmr_committed s"
    "latch_out (q_pending_register i s) = latch_out s"
    "cur_reg_val (q_pending_register i s) = cur_reg_val s"
    "qa_state (q_pending_register i s) = qa_state s"
    "qa_canceled_request_mask (q_pending_register i s) = qa_canceled_request_mask s"
    "qm_intr_vector (q_pending_register i s) = qm_intr_vector s"
    "qm_ev_intr_master (q_pending_register i s) = qm_ev_intr_master s"
  by (simp_all add: q_pending_register_def Let_def)

lemma q_holdoff_fields [simp]:
  fixes s :: "'a qbus_mailbox_intr_t_scheme"
  shows "qa_device_request_mask (q_dmr_holdoff bus s) = qa_device_request_mask s"
    "qa_device_forwarded_grant_mask (q_dmr_holdoff bus s) = qa_device_forwarded_grant_mask s"
    "latch_out (q_dmr_holdoff bus s) = latch_out s"
    "cur_reg_val (q_dmr_holdoff bus s) = cur_reg_val s"
    "qa_state (q_dmr_holdoff bus s) = qa_state s"
    "qa_canceled_request_mask (q_dmr_holdoff bus s) = qa_canceled_request_mask s"
    "qm_intr_vector (q_dmr_holdoff bus s) = qm_intr_vector s"
    "qm_ev_intr_master (q_dmr_holdoff bus s) = qm_ev_intr_master s"
    "qa_cpu_bus_inhibit_dmr_mask (q_dmr_holdoff bus s) = qa_cpu_bus_inhibit_dmr_mask s"
  by (simp_all add: q_dmr_holdoff_def Let_def split_def)

lemma q_commit_fields [simp]:
  fixes s :: "'a qbus_mailbox_intr_t_scheme"
  shows "qa_device_request_mask (snd (q_dmr_commit g b s)) = qa_device_request_mask s"
    "qa_device_forwarded_grant_mask (snd (q_dmr_commit g b s)) = qa_device_forwarded_grant_mask s"
    "latch_out (snd (q_dmr_commit g b s)) = latch_out s"
    "cur_reg_val (snd (q_dmr_commit g b s)) = cur_reg_val s"
    "qa_state (snd (q_dmr_commit g b s)) = qa_state s"
    "qa_canceled_request_mask (snd (q_dmr_commit g b s)) = qa_canceled_request_mask s"
    "qm_intr_vector (snd (q_dmr_commit g b s)) = qm_intr_vector s"
    "qm_ev_intr_master (snd (q_dmr_commit g b s)) = qm_ev_intr_master s"
    "qa_cpu_bus_inhibit_dmr_mask (snd (q_dmr_commit g b s)) = qa_cpu_bus_inhibit_dmr_mask s"
    "qa_dmr_committed (snd (q_dmr_commit g b s)) \<longleftrightarrow>
       bit (qa_device_request_mask s) 4 \<and> (qa_dmr_committed s \<or> \<not> qa_dmr_holdoff_active s)"
  by (auto simp: q_dmr_commit_def Let_def and_NP)

text \<open>Which DMR the worker drives: that of a committed request, or the one that keeps the CPU off the bus.\<close>

lemma q_commit_line: "bit (fst (q_dmr_commit g b s)) 4 \<longleftrightarrow>
    bit b 4 \<and> (bit (qa_device_request_mask s) 4 \<longrightarrow> qa_dmr_committed s \<or> \<not> qa_dmr_holdoff_active s)"
  by (auto simp: q_dmr_commit_def Let_def NP_bit and_BIT bit_and_iff bit_not_iff)

lemma q_commit_other: "k \<noteq> 4 \<Longrightarrow> bit (fst (q_dmr_commit g b s)) k = bit b k"
  by (auto simp: q_dmr_commit_def Let_def NP_bit and_BIT bit_and_iff bit_not_iff dest: bit_imp_le_length)

lemma q_line_pattern_NP: "bit (q_arb_line_pattern m) 4 = bit m 4"
  by (auto simp: q_arb_line_pattern_def Let_def bit_or_iff PRIORITY_ARBITRATION_BIT_B4_def PRIORITY_ARBITRATION_BIT_B6_def)

lemma q_rescue_fields [simp]:
  fixes s :: "'a qbus_mailbox_intr_t_scheme"
  shows "qa_device_request_mask (q_orphan_rescue bus g s) = qa_device_request_mask s"
    "qa_device_request_signalled_mask (q_orphan_rescue bus g s) = qa_device_request_signalled_mask s"
    "qa_device_forwarded_grant_mask (q_orphan_rescue bus g s) = qa_device_forwarded_grant_mask s"
    "qa_device_grant_mask (q_orphan_rescue bus g s) = qa_device_grant_mask s"
    "qa_dmr_committed (q_orphan_rescue bus g s) = qa_dmr_committed s"
    "latch_out (q_orphan_rescue bus g s) = latch_out s"
    "cur_reg_val (q_orphan_rescue bus g s) = cur_reg_val s"
    "qm_intr_vector (q_orphan_rescue bus g s) = qm_intr_vector s"
    "qm_ev_intr_master (q_orphan_rescue bus g s) = qm_ev_intr_master s"
  by (simp_all add: q_orphan_rescue_def Let_def split_def)

definition q_pending_registers :: "'a qbus_mailbox_intr_t_scheme \<Rightarrow> 'a qbus_mailbox_intr_t_scheme" where
  "q_pending_registers s = fold q_pending_register [0, 1, 2, 3] s"

lemma q_pending_all [simp]:
  "qa_device_request_mask (q_pending_registers s) = qa_device_request_mask s"
  "qa_device_forwarded_grant_mask (q_pending_registers s) = qa_device_forwarded_grant_mask s"
  "qa_dmr_committed (q_pending_registers s) = qa_dmr_committed s"
  "latch_out (q_pending_registers s) = latch_out s"
  "cur_reg_val (q_pending_registers s) = cur_reg_val s"
  "qa_state (q_pending_registers s) = qa_state s"
  "qa_canceled_request_mask (q_pending_registers s) = qa_canceled_request_mask s"
  "qm_intr_vector (q_pending_registers s) = qm_intr_vector s"
  "qm_ev_intr_master (q_pending_registers s) = qm_ev_intr_master s"
  by (simp_all add: q_pending_registers_def)

text \<open>The state of the worker before it looks which kind of grant it has.\<close>

definition q_granted :: "bus_lines \<Rightarrow> u8 \<Rightarrow> 'a qbus_mailbox_intr_t_scheme \<Rightarrow> 'a qbus_mailbox_intr_t_scheme" where
  "q_granted bus g s =
    (let c = q_dmr_commit g (q_arb_line_pattern (qa_device_request_mask s)) (q_dmr_holdoff bus s);
         l = (if qa_cpu_bus_inhibit_dmr_mask (snd c) \<noteq> 0 then fst c OR PRIORITY_ARBITRATION_BIT_NP else fst c);
         u = q_pending_registers (buslatches_setbits 6 PRIORITY_ARBITRATION_BIT_MASK l (snd c));
         m = g AND qa_device_request_mask u AND NOT (qa_device_forwarded_grant_mask u);
         m = (if \<not> qa_dmr_committed u then m AND NOT PRIORITY_ARBITRATION_BIT_NP else m)
     in u\<lparr>qa_device_request_signalled_mask := qa_device_request_mask u, qa_device_grant_mask := m\<rparr>)"

lemma q_grant_check_granted:
  fixes s :: "'a qbus_mailbox_intr_t_scheme" and g :: u8 and bus :: bus_lines
  defines "u \<equiv> q_granted bus g s"
  shows "q_grant_check bus g s =
    (if qa_device_grant_mask u AND PRIORITY_ARBITRATION_INTR_MASK \<noteq> 0 then u\<lparr>qa_state := State_intr_vector\<rparr>
     else if bit (qa_device_grant_mask u) 4 then u\<lparr>qa_state := State_dma_grant_rply_sync_wait\<rparr>
     else q_orphan_rescue bus g u)"
proof -
  define c where "c = q_dmr_commit g (q_arb_line_pattern (qa_device_request_mask s)) (q_dmr_holdoff bus s)"
  define w where "w = q_pending_registers (buslatches_setbits 6 PRIORITY_ARBITRATION_BIT_MASK
    (if qa_cpu_bus_inhibit_dmr_mask (snd c) \<noteq> 0 then fst c OR PRIORITY_ARBITRATION_BIT_NP else fst c) (snd c))"
  show ?thesis
    unfolding q_grant_check_def u_def q_granted_def Let_def split_def and_NP q_pending_registers_def[symmetric]
      c_def[symmetric] w_def[symmetric]
    by (cases "qa_dmr_committed w") simp_all
qed

lemma q_granted_masks:
  fixes s :: "'a qbus_mailbox_intr_t_scheme" and g :: u8 and bus :: bus_lines
  defines "t \<equiv> q_granted bus g s"
  shows "qa_device_request_mask t = qa_device_request_mask s"
    "qa_device_request_signalled_mask t = qa_device_request_mask s"
    "qa_device_forwarded_grant_mask t = qa_device_forwarded_grant_mask s"
    "r \<noteq> 6 \<Longrightarrow> latch_out t r = latch_out s r"
    "bit (qa_device_grant_mask t) k \<longleftrightarrow> bit g k \<and> bit (qa_device_request_mask s) k \<and>
       \<not> bit (qa_device_forwarded_grant_mask s) k \<and> (k = 4 \<longrightarrow> qa_dmr_committed t)"
    "qa_dmr_committed t \<longrightarrow> bit (qa_device_request_mask s) 4"
    "bit (latch_out t 6) 4 \<longleftrightarrow> qa_dmr_committed t \<or> qa_cpu_bus_inhibit_dmr_mask s \<noteq> 0"
    "qa_state t = qa_state s" "qa_canceled_request_mask t = qa_canceled_request_mask s"
    "qm_intr_vector t = qm_intr_vector s" "qm_ev_intr_master t = qm_ev_intr_master s"
  by (auto simp: t_def q_granted_def Let_def bit_merge_bits bit_or_iff bit_and_iff bit_not_iff q_commit_line q_line_pattern_NP
      NP_bit dest: bit_imp_le_length)

lemma q_grant_check_masks:
  fixes s :: "'a qbus_mailbox_intr_t_scheme" and g :: u8 and bus :: bus_lines
  defines "t \<equiv> q_grant_check bus g s"
  shows "qa_device_request_mask t = qa_device_request_mask s"
    "qa_device_request_signalled_mask t = qa_device_request_mask s"
    "qa_device_forwarded_grant_mask t = qa_device_forwarded_grant_mask s"
    "r \<noteq> 6 \<Longrightarrow> latch_out t r = latch_out s r"
    "bit (qa_device_grant_mask t) k \<longleftrightarrow> bit g k \<and> bit (qa_device_request_mask s) k \<and>
       \<not> bit (qa_device_forwarded_grant_mask s) k \<and> (k = 4 \<longrightarrow> qa_dmr_committed t)"
    "qa_dmr_committed t \<longrightarrow> bit (qa_device_request_mask s) 4"
    "bit (latch_out t 6) 4 \<longleftrightarrow> qa_dmr_committed t \<or> qa_cpu_bus_inhibit_dmr_mask s \<noteq> 0"
    "qa_state t = State_dma_grant_rply_sync_wait \<longrightarrow> qa_state s = State_dma_grant_rply_sync_wait \<or> bit (qa_device_grant_mask t) 4"
    "qa_state t = State_intr_vector \<longrightarrow> qa_state s = State_intr_vector \<or> any_request (qa_device_grant_mask t)"
proof -
  have res: "qa_state (q_orphan_rescue bus g u) = qa_state u \<or> qa_state (q_orphan_rescue bus g u) = State_orphan_vector"
    for u :: "'a qbus_mailbox_intr_t_scheme" by (simp add: q_orphan_rescue_def Let_def split_def)
  note m = q_granted_masks[where bus = bus and g = g and s = s]
  show "qa_device_request_mask t = qa_device_request_mask s"
    "qa_device_request_signalled_mask t = qa_device_request_mask s"
    "qa_device_forwarded_grant_mask t = qa_device_forwarded_grant_mask s"
    "r \<noteq> 6 \<Longrightarrow> latch_out t r = latch_out s r"
    "bit (qa_device_grant_mask t) k \<longleftrightarrow> bit g k \<and> bit (qa_device_request_mask s) k \<and>
       \<not> bit (qa_device_forwarded_grant_mask s) k \<and> (k = 4 \<longrightarrow> qa_dmr_committed t)"
    "qa_dmr_committed t \<longrightarrow> bit (qa_device_request_mask s) 4"
    "bit (latch_out t 6) 4 \<longleftrightarrow> qa_dmr_committed t \<or> qa_cpu_bus_inhibit_dmr_mask s \<noteq> 0"
    by (simp_all add: t_def q_grant_check_granted m(1-7))
  show "qa_state t = State_dma_grant_rply_sync_wait \<longrightarrow> qa_state s = State_dma_grant_rply_sync_wait \<or> bit (qa_device_grant_mask t) 4"
    "qa_state t = State_intr_vector \<longrightarrow> qa_state s = State_intr_vector \<or> any_request (qa_device_grant_mask t)"
    using res[of "q_granted bus g s"] by (auto simp: t_def q_grant_check_granted m(8) intr_mask_nonzero)
qed

text \<open>The records above the arbitration are not its business.\<close>

lemma q_more_latch [simp]:
  "qbus_mailbox_intr_t.more (buslatches_setbits r m v s) = qbus_mailbox_intr_t.more s"
  "qbus_mailbox_intr_t.more (buslatches_setbyte r x s) = qbus_mailbox_intr_t.more s"
  by (simp_all add: setbits_update buslatches_setbyte_def)

lemma q_grant_check_more: "qbus_mailbox_intr_t.more (q_grant_check bus g s) = qbus_mailbox_intr_t.more s"
proof -
  have "qbus_mailbox_intr_t.more (q_pending_register i u) = qbus_mailbox_intr_t.more u" for i and u :: "'a qbus_mailbox_intr_t_scheme"
    by (simp add: q_pending_register_def Let_def)
  then have "qbus_mailbox_intr_t.more (q_pending_registers u) = qbus_mailbox_intr_t.more u" for u :: "'a qbus_mailbox_intr_t_scheme"
    by (simp add: q_pending_registers_def)
  moreover have "qbus_mailbox_intr_t.more (q_dmr_holdoff bus u) = qbus_mailbox_intr_t.more u"
    "qbus_mailbox_intr_t.more (snd (q_dmr_commit g b u)) = qbus_mailbox_intr_t.more u"
    "qbus_mailbox_intr_t.more (q_orphan_rescue bus g u) = qbus_mailbox_intr_t.more u" for b and u :: "'a qbus_mailbox_intr_t_scheme"
    by (simp_all add: q_dmr_holdoff_def q_dmr_commit_def q_orphan_rescue_def Let_def split_def)
  ultimately show ?thesis
    by (simp add: q_grant_check_granted q_granted_def Let_def)
qed

lemma q_upper_frame:
  fixes s t :: "'a qpru_scheme"
  assumes "qbus_mailbox_intr_t.more t = qbus_mailbox_intr_t.more s"
  shows "qp_sm_data_master_state t = qp_sm_data_master_state s" "qsl_state t = qsl_state s"
    "qp_arm2pru_req t = qp_arm2pru_req s" "qp_halted t = qp_halted s" "qp_emulate_cpu t = qp_emulate_cpu s"
    "qs_block_data_state_func t = qs_block_data_state_func s"
  using assms by (cases s, cases t, simp)+

section \<open>The acknowledge of an interrupt\<close>

lemma lmbd_BIT: "i < 8 \<Longrightarrow> lmbd (BIT i) = i"
  by (auto simp: lmbd_def less_Suc_eq numeral_eq_Suc)

lemma ucast_low: "ucast (x AND 0xFF) = (ucast x :: u8)" for x :: u16
proof -
  have "(0xFF :: u16) = mask 8" by (simp add: mask_eq_exp_minus_1)
  show ?thesis
    unfolding \<open>0xFF = mask 8\<close> by (intro bit_word_eqI) (auto simp: bit_ucast_iff bit_and_iff bit_mask_iff)
qed

text \<open>What the two steps of the acknowledge do.\<close>

lemma q_intr_vector_step:
  fixes s :: "'a qbus_mailbox_intr_t_scheme" and bus :: bus_lines
  assumes "qa_device_grant_mask s = BIT i" "i < 4" "bit (bus (bus_reads s) (latch_out s) 6) 5"
    and "bit (bus (Suc (bus_reads s)) (latch_out s) 4) 1"
  defines "t \<equiv> q_intr_vector bus s"
  shows "bit (latch_out t 4) 3" "latch_out t 0 = ucast (qm_intr_vector s i)" "latch_out t 1 = ucast (drop_bit 8 (qm_intr_vector s i))"
    "bit (qa_device_request_mask t) k \<longleftrightarrow> bit (qa_device_request_mask s) k \<and> k \<noteq> i" "\<not> bit (latch_out t 6) 4"
    "qa_intr_level_index t = i" "qa_state t = State_intr_complete" "array_oob t = array_oob s"
    "qm_ev_intr_master t = qm_ev_intr_master s" "arm_interrupts t = arm_interrupts s"
    "qa_device_request_signalled_mask t = qa_device_request_signalled_mask s" "qm_intr_vector t = qm_intr_vector s"
  using assms
  by (auto simp: t_def q_intr_vector_def q_put_vector_def Let_def split_def and_BIT PRIORITY_ARBITRATION_INTR_BIT2IDX_def lmbd_BIT
      ucast_low bit_merge_bits bit_and_iff bit_or_iff bit_not_iff intr_mask_bit NP_bit dest: bit_imp_le_length)

lemma q_intr_complete_step:
  fixes s :: "'a qbus_mailbox_intr_t_scheme" and bus :: bus_lines
  assumes "\<not> bit (bus (bus_reads s) (latch_out s) 6) 5"
  defines "t \<equiv> snd (q_intr_complete bus s)"
  shows "\<not> bit (latch_out t 4) 3" "latch_out t 0 = 0" "latch_out t 1 = 0" "arm_interrupts t = arm_interrupts s + 1"
    "qm_ev_intr_master t = (qm_ev_intr_master s)(qa_intr_level_index s := EVENT_SIGNAL (qm_ev_intr_master s (qa_intr_level_index s)))"
    "qa_device_request_mask t = qa_device_request_mask s" "qa_dmr_holdoff_active t" "qa_state t = State_grant_check"
    "array_oob t = array_oob s" "\<not> bit (fst (q_intr_complete bus s)) 4"
  using assms
  by (simp_all add: t_def q_intr_complete_def Let_def split_def and_BIT PRU2ARM_INTERRUPT_def bit_merge_bits intr_mask_bits)

section \<open>Withdrawn interrupts\<close>

lemma BIT_nonzero: "i < 8 \<Longrightarrow> BIT i \<noteq> 0"
  by (metis bit_BIT bit_0_eq bot_apply bot_bool_def)

lemma q_orphan_rescue_hit:
  assumes "bit (bus (bus_reads u) (latch_out u) 6) 5" "i < 8"
    and "(if g AND PRIORITY_ARBITRATION_INTR_MASK \<noteq> 0
      then (g AND PRIORITY_ARBITRATION_INTR_MASK) AND NOT (qa_device_forwarded_grant_mask u)
      else qa_canceled_request_mask u AND PRIORITY_ARBITRATION_INTR_MASK) = BIT i"
  shows "q_orphan_rescue bus g u = u\<lparr>bus_reads := Suc (bus_reads u), qa_intr_level_index := i,
      qa_canceled_request_mask := qa_canceled_request_mask u AND NOT (BIT i),
      qd_orphan_rescued := qd_orphan_rescued u + 1, qa_state := State_orphan_vector\<rparr>"
  using assms BIT_nonzero[OF assms(2)]
  by (cases "g AND PRIORITY_ARBITRATION_INTR_MASK = 0")
    (simp_all add: q_orphan_rescue_def Let_def split_def and_BIT PRIORITY_ARBITRATION_INTR_BIT2IDX_def lmbd_BIT)

lemma q_orphan_check_step:
  fixes s :: "'a qbus_mailbox_intr_t_scheme" and bus :: bus_lines
  assumes iak: "\<And>n out. bit (bus n out 6) 5" and free: "g AND qa_device_request_mask s = 0" and i: "i < 4"
    and why: "g AND PRIORITY_ARBITRATION_INTR_MASK = BIT i \<and> \<not> bit (qa_device_forwarded_grant_mask s) i \<or>
      g AND PRIORITY_ARBITRATION_INTR_MASK = 0 \<and> qa_canceled_request_mask s AND PRIORITY_ARBITRATION_INTR_MASK = BIT i"
  defines "t \<equiv> q_grant_check bus g s"
  shows "qa_state t = State_orphan_vector" "qa_intr_level_index t = i"
    "\<not> bit (qa_canceled_request_mask t) i" "qa_device_request_mask t = qa_device_request_mask s"
    "qm_intr_vector t = qm_intr_vector s" "qm_ev_intr_master t = qm_ev_intr_master s"
proof -
  define u where "u = q_granted bus g s"
  note m = q_granted_masks[where bus = bus and g = g and s = s, folded u_def]
  have "\<not> bit (qa_device_grant_mask u) k" for k
    using free unfolding m(5) by (metis bit_0_eq bit_and_iff bot_apply bot_bool_def)
  then have "\<not> any_request (qa_device_grant_mask u)" "\<not> bit (qa_device_grant_mask u) 4" by (simp_all add: any_request_def)
  then have t: "t = q_orphan_rescue bus g u"
    by (simp add: t_def q_grant_check_granted u_def[symmetric] intr_mask_nonzero)
  let ?r = "if g AND PRIORITY_ARBITRATION_INTR_MASK \<noteq> 0
    then (g AND PRIORITY_ARBITRATION_INTR_MASK) AND NOT (qa_device_forwarded_grant_mask u)
    else qa_canceled_request_mask u AND PRIORITY_ARBITRATION_INTR_MASK"
  have nz: "BIT i \<noteq> 0" using i by (simp add: BIT_nonzero)
  have r: "?r = BIT i"
  proof (cases "g AND PRIORITY_ARBITRATION_INTR_MASK = 0")
    case True
    then show ?thesis using why nz m(9) by auto
  next
    case False
    then have "g AND PRIORITY_ARBITRATION_INTR_MASK = BIT i" "\<not> bit (qa_device_forwarded_grant_mask u) i" using why m(3) by auto
    moreover have "BIT i AND NOT f = BIT i" if "\<not> bit f i" for f
      using that i by (intro bit_word_eqI) (auto simp: bit_and_iff bit_not_iff)
    ultimately show ?thesis using False by simp
  qed
  have "t = u\<lparr>bus_reads := Suc (bus_reads u), qa_intr_level_index := i,
      qa_canceled_request_mask := qa_canceled_request_mask u AND NOT (BIT i),
      qd_orphan_rescued := qd_orphan_rescued u + 1, qa_state := State_orphan_vector\<rparr>"
    unfolding t by (rule q_orphan_rescue_hit) (use i r iak in simp_all)
  then show "qa_state t = State_orphan_vector" "qa_intr_level_index t = i"
    "\<not> bit (qa_canceled_request_mask t) i" "qa_device_request_mask t = qa_device_request_mask s"
    "qm_intr_vector t = qm_intr_vector s" "qm_ev_intr_master t = qm_ev_intr_master s"
    using i m by (simp_all add: bit_and_iff bit_not_iff)
qed

lemma q_orphan_steps:
  fixes s :: "'a qbus_mailbox_intr_t_scheme" and bus :: bus_lines
  shows "bit (bus (bus_reads s) (latch_out s) 6) 5 \<Longrightarrow> bit (bus (Suc (bus_reads s)) (latch_out s) 4) 1 \<Longrightarrow>
      q_orphan_vector bus s = (q_put_vector (qm_intr_vector s (qa_intr_level_index s))
        (buslatches_setbits 4 (BIT 3) (BIT 3) (s\<lparr>bus_reads := Suc (Suc (bus_reads s))\<rparr>)))\<lparr>qa_state := State_orphan_complete\<rparr>"
    "\<not> bit (bus (bus_reads s) (latch_out s) 6) 5 \<Longrightarrow>
      q_orphan_complete bus s = (buslatches_setbyte 1 0 (buslatches_setbyte 0 0
        (buslatches_setbits 4 (BIT 3) 0 (s\<lparr>bus_reads := Suc (bus_reads s)\<rparr>))))
          \<lparr>qa_dmr_holdoff_start := iep_tmr_cnt s, qa_dmr_holdoff_active := True, qa_state := State_grant_check\<rparr>"
  by (simp_all add: q_orphan_vector_def q_orphan_complete_def Let_def split_def and_BIT setbits_update buslatches_setbyte_def)

end
