(* ===== verification/QbusMain_Lemmas.thy ===== *)
theory QbusMain_Lemmas
  imports QbusArb_Lemmas PruFrames
begin

unbundle bit_operations_syntax

text \<open>The invariant of the main loop: which lines the board drives in which state.\<close>

section \<open>Frames\<close>

lemma q_memory_more [simp]:
  "mailbox_event_deviceregister_t.more (snd (q_emulated_addr_read a s)) = mailbox_event_deviceregister_t.more s"
  "mailbox_event_deviceregister_t.more (snd (q_emulated_addr_write_w a w s)) = mailbox_event_deviceregister_t.more s"
  "mailbox_event_deviceregister_t.more (snd (q_emulated_addr_write_b a b s)) = mailbox_event_deviceregister_t.more s"
  by (simp_all add: q_emulated_addr_read_def q_emulated_addr_write_w_def q_emulated_addr_write_b_def Let_def split_def
      DDRMEM_COUNT_READ_def DDRMEM_COUNT_WRITE_def DDRMEM_MEMGET_W_def DDRMEM_MEMSET_W_def DDRMEM_MEMSET_B_def ddrmem_set_word_def
      DO_EVENT_DEVICEREGISTER_def PRU2ARM_INTERRUPT_def)

lemma q_dma_frame:
  fixes s t :: "'a qbus_statemachine_dma_t_scheme"
  assumes "mailbox_event_deviceregister_t.more t = mailbox_event_deviceregister_t.more s"
  shows "cur_reg_val t = cur_reg_val s" "latch_out t = latch_out s" "qa_state t = qa_state s"
    "qs_block_data_state_func t = qs_block_data_state_func s" "qs_block_end_addr t = qs_block_end_addr s"
    "qbus_statemachine_dma_t.more t = qbus_statemachine_dma_t.more s"
  using assms by (cases s, cases t, simp)+

lemmas q_memory_frame [simp] = q_dma_frame[OF q_memory_more(1)] q_dma_frame[OF q_memory_more(2)] q_dma_frame[OF q_memory_more(3)]

lemma q_timeout_frame [simp]:
  fixes s :: "'a qbus_statemachine_dma_t_scheme"
  shows "cur_reg_val (q_TIMEOUT_SET i d s) = cur_reg_val s" "latch_out (q_TIMEOUT_SET i d s) = latch_out s"
    "qa_state (q_TIMEOUT_SET i d s) = qa_state s" "qs_block_data_state_func (q_TIMEOUT_SET i d s) = qs_block_data_state_func s"
    "qbus_statemachine_dma_t.more (q_TIMEOUT_SET i d s) = qbus_statemachine_dma_t.more s"
    "cur_reg_val (snd (q_TIMEOUT_REACHED i s)) = cur_reg_val s" "latch_out (snd (q_TIMEOUT_REACHED i s)) = latch_out s"
    "qa_state (snd (q_TIMEOUT_REACHED i s)) = qa_state s"
    "qs_block_data_state_func (snd (q_TIMEOUT_REACHED i s)) = qs_block_data_state_func s"
    "qbus_statemachine_dma_t.more (snd (q_TIMEOUT_REACHED i s)) = qbus_statemachine_dma_t.more s"
  by (simp_all add: q_TIMEOUT_SET_def q_TIMEOUT_REACHED_def q_cycles_now_def Let_def)

lemma q_diag_frame [simp]:
  fixes s :: "'a qbus_statemachine_dma_t_scheme"
  shows "cur_reg_val (qbus_diag_timeout bus a s) = cur_reg_val s" "latch_out (qbus_diag_timeout bus a s) = latch_out s"
    "qa_state (qbus_diag_timeout bus a s) = qa_state s"
    "qs_block_data_state_func (qbus_diag_timeout bus a s) = qs_block_data_state_func s"
    "qbus_statemachine_dma_t.more (qbus_diag_timeout bus a s) = qbus_statemachine_dma_t.more s"
  by (simp_all add: qbus_diag_timeout_def Let_def split_def)

lemma q_latch_frame [simp]:
  fixes s :: "'a qbus_statemachine_dma_t_scheme"
  shows "qbus_statemachine_dma_t.more (buslatches_setbits r m v s) = qbus_statemachine_dma_t.more s"
    "qbus_statemachine_dma_t.more (buslatches_setbyte r x s) = qbus_statemachine_dma_t.more s"
    "qa_state (buslatches_setbits r m v s) = qa_state s" "qa_state (buslatches_setbyte r x s) = qa_state s"
  by (simp_all add: setbits_update buslatches_setbyte_def)

lemma q_buffer_frame [simp]:
  fixes s :: "'a qbus_statemachine_dma_t_scheme"
  shows "cur_reg_val (q_dataptr_put w s) = cur_reg_val s" "latch_out (q_dataptr_put w s) = latch_out s"
    "qa_state (q_dataptr_put w s) = qa_state s" "qs_block_data_state_func (q_dataptr_put w s) = qs_block_data_state_func s"
    "qbus_statemachine_dma_t.more (q_dataptr_put w s) = qbus_statemachine_dma_t.more s"
    "cur_reg_val (snd (q_dataptr_get s)) = cur_reg_val s" "latch_out (snd (q_dataptr_get s)) = latch_out s"
    "qa_state (snd (q_dataptr_get s)) = qa_state s"
    "qs_block_data_state_func (snd (q_dataptr_get s)) = qs_block_data_state_func s"
    "qbus_statemachine_dma_t.more (snd (q_dataptr_get s)) = qbus_statemachine_dma_t.more s"
  by (simp_all add: q_dataptr_put_def q_dataptr_get_def)

lemma q_signal_frame [simp]:
  fixes s :: "'a qbus_statemachine_dma_t_scheme"
  shows "cur_reg_val (q_dma_signal st s) = cur_reg_val s" "latch_out (q_dma_signal st s) = latch_out s"
    "qa_state (q_dma_signal st s) = qa_state s" "qs_block_data_state_func (q_dma_signal st s) = qs_block_data_state_func s"
    "qbus_statemachine_dma_t.more (q_dma_signal st s) = qbus_statemachine_dma_t.more s"
  by (simp_all add: q_dma_signal_def Let_def PRU2ARM_INTERRUPT_def)

section \<open>The lines\<close>

text \<open>
  Latch 4 has SYNC in bit 0, DIN in 1, DOUT in 2, RPLY in 3, BS7 in 5, latch 6 has SACK in bit 7. \<open>m\<close> is the state
  of the bus master, \<open>f\<close> its data state, \<open>sl\<close> the slave's and \<open>a\<close> the arbitration's.
\<close>

definition q_in_cycle :: "q_dma_state option \<Rightarrow> bool" where
  "q_in_cycle m \<longleftrightarrow> m \<noteq> None \<and> m \<noteq> Some Sm_dma_start \<and> m \<noteq> Some Sm_dma_state_addr"

definition q_lines_ok :: "(nat \<Rightarrow> u8) \<Rightarrow> (nat \<Rightarrow> u8) \<Rightarrow> q_dma_state option \<Rightarrow> q_dma_state option \<Rightarrow> states_data_slave \<Rightarrow>
    sm_arbitration_states \<Rightarrow> bool" where
  "q_lines_ok cur out m f sl a \<longleftrightarrow> out 4 = cur 4 \<and> out 6 = cur 6 \<and>
     (bit (cur 4) 0 \<longleftrightarrow> q_in_cycle m) \<and>
     (bit (cur 4) 1 \<longleftrightarrow> m = Some Sm_dma_state_din_complete) \<and>
     (bit (cur 4) 2 \<longleftrightarrow> m = Some Sm_dma_state_dout_complete) \<and>
     (bit (cur 4) 3 \<longrightarrow> sl \<in> {State_data_slave_din_single_complete, State_data_slave_dout_single_complete} \<or>
        a \<in> {State_intr_complete, State_orphan_complete}) \<and>
     (bit (cur 4) 5 \<longrightarrow> q_in_cycle m) \<and> (bit (cur 6) 7 \<longrightarrow> m \<noteq> None) \<and>
     (q_in_cycle m \<longrightarrow> f \<in> {None, Some Sm_dma_state_din_start, Some Sm_dma_state_dout_start})"

abbreviation q_state_ok :: "'a qbus_statemachine_dma_t_scheme \<Rightarrow> q_dma_state option \<Rightarrow> states_data_slave \<Rightarrow> bool" where
  "q_state_ok s m sl \<equiv> q_lines_ok (cur_reg_val s) (latch_out s) m (qs_block_data_state_func s) sl (qa_state s)"

lemmas q_ok_simps = q_lines_ok_def q_in_cycle_def bit_merge_bits bit_or_iff

lemma q_dma_wait_frame:
  "cur_reg_val (snd (q_dma_wait_rply bus a s)) = cur_reg_val s" "latch_out (snd (q_dma_wait_rply bus a s)) = latch_out s"
  "qa_state (snd (q_dma_wait_rply bus a s)) = qa_state s"
  "qs_block_data_state_func (snd (q_dma_wait_rply bus a s)) = qs_block_data_state_func s"
  "qbus_statemachine_dma_t.more (snd (q_dma_wait_rply bus a s)) = qbus_statemachine_dma_t.more s"
  "cur_reg_val (snd (q_dma_block_ends bus a s)) = cur_reg_val s" "latch_out (snd (q_dma_block_ends bus a s)) = latch_out s"
  "qa_state (snd (q_dma_block_ends bus a s)) = qa_state s"
  "qs_block_data_state_func (snd (q_dma_block_ends bus a s)) = qs_block_data_state_func s"
  "qbus_statemachine_dma_t.more (snd (q_dma_block_ends bus a s)) = qbus_statemachine_dma_t.more s"
  by (simp_all add: q_dma_wait_rply_def q_dma_block_ends_def Let_def split_def)

text \<open>The state functions of the bus master.\<close>

lemma q_master_lines:
  assumes "q_state_ok s (Some st) sl"
  shows "q_state_ok (snd (q_dma_step bus st s)) (fst (q_dma_step bus st s)) sl"
proof (cases st)
  case Sm_dma_start
  then show ?thesis using assms by (simp add: q_dma_step_def q_sm_dma_start_def q_ok_simps)
next
  case Sm_dma_state_addr
  then show ?thesis using assms
    by (auto simp: q_dma_step_def q_sm_dma_state_addr_def q_sm_dma_abandon_def Let_def q_ok_simps)
next
  case Sm_dma_state_din_start
  then show ?thesis using assms
    by (auto simp: q_dma_step_def q_sm_dma_state_din_start_def Let_def split_def q_ok_simps)
next
  case Sm_dma_state_din_complete
  then show ?thesis using assms
    by (auto simp: q_dma_step_def q_sm_dma_state_din_complete_def Let_def split_def q_dma_wait_frame q_ok_simps)
next
  case Sm_dma_state_dout_start
  then show ?thesis using assms
    by (auto simp: q_dma_step_def q_sm_dma_state_dout_start_def Let_def split_def q_ok_simps)
next
  case Sm_dma_state_dout_complete
  then show ?thesis using assms
    by (auto simp: q_dma_step_def q_sm_dma_state_dout_complete_def Let_def split_def q_dma_wait_frame q_ok_simps)
next
  case Sm_dma_state_99
  then show ?thesis using assms
    by (auto simp: q_dma_step_def q_sm_dma_state_99_def q_sm_dma_end_def Let_def split_def q_ok_simps split: option.split)
qed

lemma q_master_more:
  "qbus_statemachine_dma_t.more (snd (q_dma_step bus st s)) = qbus_statemachine_dma_t.more s"
  "qa_state (snd (q_dma_step bus st s)) = qa_state s"
  by (cases st; simp add: q_dma_step_def q_sm_dma_start_def q_sm_dma_state_addr_def q_sm_dma_abandon_def
      q_sm_dma_state_din_start_def q_sm_dma_state_din_complete_def q_sm_dma_state_dout_start_def
      q_sm_dma_state_dout_complete_def q_sm_dma_state_99_def q_sm_dma_end_def Let_def split_def q_dma_wait_frame
      split: option.split)+

section \<open>The slave\<close>

lemma q_slave_turn_lines:
  fixes s :: "'a qbus_data_slave_t_scheme"
  assumes "q_state_ok s m st"
  shows "q_state_ok (snd (q_slave_turn bus st s)) m (case fst (q_slave_turn bus st s) of Goto st' \<Rightarrow> st' | Return st' \<Rightarrow> st')"
    "qbus_data_slave_t.more (snd (q_slave_turn bus st s)) = qbus_data_slave_t.more s"
    "qa_state (snd (q_slave_turn bus st s)) = qa_state s"
proof -
  have more: "qbus_data_slave_t.more t = qbus_data_slave_t.more s" if "qbus_statemachine_dma_t.more t = qbus_statemachine_dma_t.more s"
    for s t :: "'a qbus_data_slave_t_scheme" using that by (cases s, cases t) simp
  note more' = q_memory_frame(6,12,18)[THEN more] q_latch_frame(1,2)[THEN more]
  show "q_state_ok (snd (q_slave_turn bus st s)) m (case fst (q_slave_turn bus st s) of Goto st' \<Rightarrow> st' | Return st' \<Rightarrow> st')"
    using assms
    by (cases st) (auto simp: q_slave_turn_def q_slave_start_def q_slave_dindout_start_def q_slave_din_def q_slave_dout_def
      q_slave_din_single_complete_def q_slave_dout_single_complete_def q_slave_din_block_complete_def
      q_slave_dout_block_complete_def Let_def split_def q_ok_simps)
  show "qbus_data_slave_t.more (snd (q_slave_turn bus st s)) = qbus_data_slave_t.more s"
    "qa_state (snd (q_slave_turn bus st s)) = qa_state s"
    by (cases st; simp add: q_slave_turn_def q_slave_start_def q_slave_dindout_start_def q_slave_din_def q_slave_dout_def
      q_slave_din_single_complete_def q_slave_dout_single_complete_def q_slave_din_block_complete_def
      q_slave_dout_block_complete_def Let_def split_def more')+
qed

lemma q_slave_func_lines:
  fixes s :: "'a qbus_data_slave_t_scheme"
  assumes "q_sm_data_slave_func bus st s = Some (st', t)" "q_state_ok s m st"
  shows "q_state_ok t m st' \<and> qbus_data_slave_t.more t = qbus_data_slave_t.more s \<and> qa_state t = qa_state s"
proof -
  have "q_state_ok s m st \<longrightarrow> q_state_ok (snd r) m (fst r) \<and> qbus_data_slave_t.more (snd r) = qbus_data_slave_t.more s \<and>
      qa_state (snd r) = qa_state s" if "q_sm_data_slave_func bus st s = Some r" for r
  proof (rule q_sm_data_slave_func.raw_induct[where P = "\<lambda>bus st s r. q_state_ok s m st \<longrightarrow> q_state_ok (snd r) m (fst r) \<and>
      qbus_data_slave_t.more (snd r) = qbus_data_slave_t.more s \<and> qa_state (snd r) = qa_state s", OF _ that], goal_cases)
    case (1 func bus st s r)
    obtain tr u where tr: "q_slave_turn bus st s = (tr, u)" by (cases "q_slave_turn bus st s")
    note keep = q_slave_turn_lines[of s m st bus, unfolded tr]
    show ?case
    proof (cases tr)
      case (Goto st')
      then have "func bus st' u = Some r" using 1(2) tr by simp
      from 1(1)[OF this] keep Goto show ?thesis by auto
    next
      case (Return st')
      then have "r = (st', u)" using 1(2) tr by simp
      then show ?thesis using keep Return by simp
    qed
  qed
  from this[OF assms(1)] assms(2) show ?thesis unfolding fst_conv snd_conv by blast
qed

lemma q_slave_loop_lines:
  fixes s :: "'a qbus_data_slave_t_scheme"
  assumes "q_slave_loop bus s = Some t" "q_state_ok s m (qsl_state s)"
  shows "q_state_ok t m (qsl_state t) \<and> qbus_data_slave_t.more t = qbus_data_slave_t.more s \<and> qa_state t = qa_state s"
proof -
  have "q_state_ok s m (qsl_state s) \<longrightarrow> q_state_ok t m (qsl_state t) \<and>
      qbus_data_slave_t.more t = qbus_data_slave_t.more s \<and> qa_state t = qa_state s"
  proof (rule q_slave_loop.raw_induct[where P = "\<lambda>bus s t. q_state_ok s m (qsl_state s) \<longrightarrow> q_state_ok t m (qsl_state t) \<and>
      qbus_data_slave_t.more t = qbus_data_slave_t.more s \<and> qa_state t = qa_state s", OF _ assms(1)], goal_cases)
    case (1 loop bus s t)
    from 1(2) obtain st u where u: "q_sm_data_slave_func bus (qsl_state s) s = Some (st, u)" by (auto simp: bind_eq_Some_conv)
    note keep = q_slave_func_lines[OF u]
    let ?v = "u\<lparr>qsl_state := st\<rparr>"
    show ?case
    proof (cases "st \<noteq> State_data_slave_stop \<and> EVENT_IS_ACKED (ev_deviceregister u)")
      case True
      then have "loop bus ?v = Some t" using 1(2) u by simp
      from 1(1)[OF this] keep show ?thesis by auto
    next
      case False
      then have "t = ?v" using 1(2) u by (auto split: if_splits)
      show ?thesis
      proof
        assume "q_state_ok s m (qsl_state s)"
        then have k: "q_state_ok u m st" "qbus_data_slave_t.more u = qbus_data_slave_t.more s" "qa_state u = qa_state s"
          using keep by blast+
        then show "q_state_ok t m (qsl_state t) \<and> qbus_data_slave_t.more t = qbus_data_slave_t.more s \<and> qa_state t = qa_state s"
          using \<open>t = ?v\<close> by (intro conjI; simp)
      qed
    qed
  qed
  then show ?thesis using assms(2) by blast
qed

section \<open>INIT and power\<close>

lemma q_init_lines:
  fixes s :: "'a qpru_scheme" and bus :: bus_lines
  defines "t \<equiv> q_sm_initialization_func bus s"
  shows "cur_reg_val t = cur_reg_val s" "latch_out t = latch_out s" "qa_state t = qa_state s"
    "qs_block_data_state_func t = qs_block_data_state_func s"
    "qbus_statemachine_dma_t.more t = qbus_statemachine_dma_t.more s"
  unfolding t_def
  by (simp_all add: q_sm_initialization_func_def q_init_event_def q_power_event_def Let_def split_def PRU2ARM_INTERRUPT_def
      q_dma_frame[OF reset_values_more] split: sm_initialization_states.split)

lemma q_top_frame:
  fixes s t :: "'a qpru_scheme"
  assumes "qbus_statemachine_dma_t.more t = qbus_statemachine_dma_t.more s"
  shows "qsl_state t = qsl_state s" "qp_sm_data_master_state t = qp_sm_data_master_state s"
    "qp_arm2pru_req t = qp_arm2pru_req s" "qbus_data_slave_t.more t = qbus_data_slave_t.more s"
  using assms by (cases s, cases t, simp)+

lemma q_qpru_frame:
  fixes s t :: "'a qpru_scheme"
  assumes "qbus_data_slave_t.more t = qbus_data_slave_t.more s"
  shows "qp_sm_data_master_state t = qp_sm_data_master_state s" "qp_arm2pru_req t = qp_arm2pru_req s"
  using assms by (cases s, cases t, simp)+

section \<open>Arbitration\<close>

lemma q_grant_check_lines:
  fixes s :: "'a qbus_mailbox_intr_t_scheme" and g :: u8 and bus :: bus_lines
  defines "t \<equiv> q_grant_check bus g s"
  shows "cur_reg_val t 4 = cur_reg_val s 4" "latch_out t 4 = latch_out s 4" "latch_out t 6 = cur_reg_val t 6"
    "bit (cur_reg_val t 6) 7 \<longleftrightarrow> bit (cur_reg_val s 6) 7"
    "qa_state t \<in> {qa_state s, State_intr_vector, State_dma_grant_rply_sync_wait, State_orphan_vector}"
proof -
  have u: "cur_reg_val (q_granted bus g s) 4 = cur_reg_val s 4" "latch_out (q_granted bus g s) 4 = latch_out s 4"
    "latch_out (q_granted bus g s) 6 = cur_reg_val (q_granted bus g s) 6"
    "bit (cur_reg_val (q_granted bus g s) 6) 7 \<longleftrightarrow> bit (cur_reg_val s 6) 7"
    by (simp_all add: q_granted_def Let_def bit_merge_bits)
  have "qa_state (q_orphan_rescue bus g u) \<in> {qa_state u, State_orphan_vector}" for u :: "'a qbus_mailbox_intr_t_scheme"
    by (simp add: q_orphan_rescue_def Let_def split_def)
  from this[of "q_granted bus g s"]
  show "cur_reg_val t 4 = cur_reg_val s 4" "latch_out t 4 = latch_out s 4" "latch_out t 6 = cur_reg_val t 6"
    "bit (cur_reg_val t 6) 7 \<longleftrightarrow> bit (cur_reg_val s 6) 7"
    "qa_state t \<in> {qa_state s, State_intr_vector, State_dma_grant_rply_sync_wait, State_orphan_vector}"
    by (auto simp: t_def q_grant_check_granted u q_granted_masks(8))
qed

text \<open>No acknowledge of an interrupt is under way.\<close>

definition q_no_ack :: "sm_arbitration_states \<Rightarrow> bool" where
  "q_no_ack a \<longleftrightarrow> a \<notin> {State_intr_vector, State_intr_complete, State_orphan_vector, State_orphan_complete}"

lemma q_worker_lines:
  fixes s :: "'a qpru_scheme" and g :: u8 and bus :: bus_lines
  assumes "q_state_ok s None sl"
  defines "r \<equiv> q_sm_arb_worker_device bus g s"
  shows "q_state_ok (snd r) (if bit (fst r) 4 then Some Sm_dma_start else None) sl"
    "q_no_ack (qa_state s) \<Longrightarrow> qa_state (snd r) \<notin> {State_intr_complete, State_orphan_complete}"
    "qbus_mailbox_intr_t.more (snd r) = qbus_mailbox_intr_t.more s"
proof -
  have "q_state_ok (snd r) (if bit (fst r) 4 then Some Sm_dma_start else None) sl \<and>
    (q_no_ack (qa_state s) \<longrightarrow> qa_state (snd r) \<notin> {State_intr_complete, State_orphan_complete}) \<and>
    qbus_mailbox_intr_t.more (snd r) = qbus_mailbox_intr_t.more s"
  proof (cases "qa_state s")
    case State_grant_check
    then show ?thesis
      using assms(1) q_grant_check_lines[of bus g s]
      by (auto simp: r_def q_sm_arb_worker_device_def q_grant_check_more q_lines_ok_def q_in_cycle_def q_no_ack_def)
  next
    case State_dma_grant_rply_sync_wait
    then show ?thesis
      using assms(1)
      by (auto simp: r_def q_sm_arb_worker_device_def q_dma_grant_rply_sync_wait_def Let_def split_def NP_bit q_ok_simps q_no_ack_def)
  next
    case State_intr_vector
    then show ?thesis
      using assms(1)
      by (auto simp: r_def q_sm_arb_worker_device_def q_intr_vector_def q_put_vector_def Let_def split_def NP_bit intr_mask_bit
          q_ok_simps q_no_ack_def)
  next
    case State_intr_complete
    then show ?thesis
      using assms(1)
      by (auto simp: r_def q_sm_arb_worker_device_def q_intr_complete_def Let_def split_def PRU2ARM_INTERRUPT_def intr_mask_bits
          q_ok_simps q_no_ack_def)
  next
    case State_orphan_vector
    then show ?thesis
      using assms(1)
      by (auto simp: r_def q_sm_arb_worker_device_def q_orphan_vector_def q_put_vector_def Let_def split_def
          q_ok_simps q_no_ack_def)
  next
    case State_orphan_complete
    then show ?thesis
      using assms(1)
      by (auto simp: r_def q_sm_arb_worker_device_def q_orphan_complete_def Let_def split_def q_ok_simps q_no_ack_def)
  next
    case State_arbitration_noop
    then show ?thesis
      using assms(1)
      by (auto simp: r_def q_sm_arb_worker_device_def q_arbitration_noop_def Let_def split_def NP_bit and_BIT q_ok_simps q_no_ack_def)
  qed
  then show "q_state_ok (snd r) (if bit (fst r) 4 then Some Sm_dma_start else None) sl"
    "q_no_ack (qa_state s) \<Longrightarrow> qa_state (snd r) \<notin> {State_intr_complete, State_orphan_complete}"
    "qbus_mailbox_intr_t.more (snd r) = qbus_mailbox_intr_t.more s" by auto
qed

lemma q_worker_cpu_frame:
  fixes s :: "'a qpru_scheme" and bus :: bus_lines
  defines "t \<equiv> snd (q_sm_arb_worker_cpu bus s)"
  shows "cur_reg_val t 4 = cur_reg_val s 4" "cur_reg_val t 6 = cur_reg_val s 6" "latch_out t 4 = latch_out s 4"
    "latch_out t 6 = latch_out s 6" "qa_state t = qa_state s" "qbus_mailbox_intr_t.more t = qbus_mailbox_intr_t.more s"
proof -
  have more: "qbus_mailbox_intr_t.more (q_TIMEOUT_SET i d u) = qbus_mailbox_intr_t.more u"
    "qbus_mailbox_intr_t.more (snd (q_TIMEOUT_REACHED i u)) = qbus_mailbox_intr_t.more u"
    for i d and u :: "'b qbus_mailbox_intr_t_scheme"
    by (simp_all add: q_TIMEOUT_SET_def q_TIMEOUT_REACHED_def q_cycles_now_def Let_def)
  have arb: "cur_reg_val (q_sm_arb_arbitrate l u) = cur_reg_val u" "latch_out (q_sm_arb_arbitrate l u) = latch_out u"
    "qa_state (q_sm_arb_arbitrate l u) = qa_state u"
    "qbus_mailbox_intr_t.more (q_sm_arb_arbitrate l u) = qbus_mailbox_intr_t.more u" for l and u :: "'a qpru_scheme"
    by (simp_all add: q_sm_arb_arbitrate_def Let_def split_def more)
  show "cur_reg_val t 4 = cur_reg_val s 4" "cur_reg_val t 6 = cur_reg_val s 6" "latch_out t 4 = latch_out s 4"
    "latch_out t 6 = latch_out s 6" "qa_state t = qa_state s" "qbus_mailbox_intr_t.more t = qbus_mailbox_intr_t.more s"
    by (simp_all add: t_def q_sm_arb_worker_cpu_def Let_def split_def arb)
qed

lemma q_forward_frame:
  fixes s :: "'a qpru_scheme" and bus :: bus_lines
  defines "t \<equiv> snd (q_forward_grants bus s)"
  shows "cur_reg_val t 4 = cur_reg_val s 4" "cur_reg_val t 6 = cur_reg_val s 6" "latch_out t 4 = latch_out s 4"
    "latch_out t 6 = latch_out s 6" "qa_state t = qa_state s" "qbus_mailbox_intr_t.more t = qbus_mailbox_intr_t.more s"
  by (simp_all add: t_def q_forward_grants_def Let_def split_def)

abbreviation q_ok :: "'a qpru_scheme \<Rightarrow> bool" where
  "q_ok s \<equiv> q_state_ok s (qp_sm_data_master_state s) (qsl_state s)"

lemma q_arbitration_lines:
  fixes s :: "'a qpru_scheme" and bus :: bus_lines
  assumes "q_ok s" "qp_sm_data_master_state s = None"
  defines "t \<equiv> q_arbitration_pass bus s"
  shows "q_ok t \<and> (q_no_ack (qa_state s) \<longrightarrow> qa_state t \<notin> {State_intr_complete, State_orphan_complete}) \<and>
    qp_arm2pru_req t = qp_arm2pru_req s"
proof -
  define f where "f = (if \<not> qp_emulate_cpu s then q_forward_grants bus s else (0, s))"
  define u where "u = (snd f)\<lparr>qp_diag_arbitration_passes := qp_diag_arbitration_passes (snd f) + 1\<rparr>"
  define c where "c = (if qp_emulate_cpu u then q_sm_arb_worker_cpu bus u else (fst f, u))"
  define r where "r = q_sm_arb_worker_device bus (fst c) (snd c)"
  define like where "like x \<longleftrightarrow>
      q_lines_ok (cur_reg_val x) (latch_out x) None (qs_block_data_state_func x) (qsl_state s) (qa_state s) \<and> qsl_state x = qsl_state s \<and>
      qp_sm_data_master_state x = None \<and> qp_arm2pru_req x = qp_arm2pru_req s \<and> qa_state x = qa_state s" for x :: "'a qpru_scheme"
  have "like (snd (q_forward_grants bus s))" "like s"
    using assms(1,2) q_forward_frame[of bus s] q_upper_frame[OF q_forward_frame(6)[of bus s]]
    by (simp_all add: like_def q_lines_ok_def q_in_cycle_def)
  then have f: "like (snd f)" by (simp add: f_def)
  then have u: "like u" by (simp add: like_def u_def)
  then have "like (snd (q_sm_arb_worker_cpu bus u))"
    using q_worker_cpu_frame[of bus u] q_upper_frame[OF q_worker_cpu_frame(6)[of bus u]]
    by (simp add: like_def q_lines_ok_def q_in_cycle_def)
  with u have c: "like (snd c)" by (simp add: c_def)
  then have "q_state_ok (snd c) None (qsl_state (snd c))" by (simp add: like_def)
  note w = q_worker_lines[OF this, of bus "fst c", folded r_def]
  note same = q_upper_frame[OF w(3)]
  have t: "t = (if EVENT_IS_ACKED (ev_deviceregister (snd f))
      then (if bit (fst r) 4 then (snd r)\<lparr>qp_sm_data_master_state := Some Sm_dma_start\<rparr> else snd r) else snd f)"
    by (simp add: t_def q_arbitration_pass_def f_def u_def c_def r_def Let_def split_def and_NP)
  show ?thesis
  proof (cases "EVENT_IS_ACKED (ev_deviceregister (snd f))")
    case True
    then show ?thesis
      using w(1,2) same(1-3) c unfolding t by (cases "bit (fst r) 4") (simp_all add: like_def)
  next
    case False
    then show ?thesis using f unfolding t by (auto simp: like_def q_no_ack_def)
  qed
qed

section \<open>Passes\<close>

lemma q_bus_pass_lines:
  fixes s :: "'a qpru_scheme"
  assumes ok: "q_ok s" and "q_bus_pass bus s = Some t"
  shows "q_ok t \<and> (q_no_ack (qa_state s) \<longrightarrow> qa_state t \<notin> {State_intr_complete, State_orphan_complete}) \<and>
    qp_arm2pru_req t = qp_arm2pru_req s"
proof (cases "qp_sm_data_master_state s")
  case None
  then obtain u where u: "q_slave_loop bus s = Some u"
    "t = q_arbitration_pass bus (q_bus_activity bus (q_sm_initialization_func bus u))"
    using assms(2) by (auto simp: q_bus_pass_def)
  note l = q_slave_loop_lines[OF u(1) ok] q_qpru_frame[of u s]
  let ?v = "q_sm_initialization_func bus u"
  note i = q_init_lines[of bus u] q_top_frame[OF q_init_lines(5)[of bus u]]
  let ?w = "q_bus_activity bus ?v"
  have a: "cur_reg_val ?w = cur_reg_val ?v" "latch_out ?w = latch_out ?v" "qa_state ?w = qa_state ?v"
    "qs_block_data_state_func ?w = qs_block_data_state_func ?v" "qsl_state ?w = qsl_state ?v"
    "qp_sm_data_master_state ?w = qp_sm_data_master_state ?v" "qp_arm2pru_req ?w = qp_arm2pru_req ?v"
    by (simp_all add: q_bus_activity_def Let_def split_def)
  have m: "qp_sm_data_master_state u = None" "qp_arm2pru_req u = qp_arm2pru_req s" "qa_state u = qa_state s"
    "q_state_ok u None (qsl_state u)"
    using l None by auto
  have "q_ok ?w" "qp_sm_data_master_state ?w = None" "qa_state ?w = qa_state s" "qp_arm2pru_req ?w = qp_arm2pru_req s"
    using m by (simp_all add: a i)
  from q_arbitration_lines[OF this(1,2), of bus] this(3,4) show ?thesis unfolding u(2) by simp
next
  case (Some st)
  let ?u = "s\<lparr>qp_diag_master_passes := qp_diag_master_passes s + 1\<rparr>"
  have t: "t = (snd (q_dma_step bus st ?u))\<lparr>qp_sm_data_master_state := fst (q_dma_step bus st ?u)\<rparr>"
    using Some assms(2) by (auto simp: q_bus_pass_def Let_def split_def)
  have "q_state_ok ?u (Some st) (qsl_state s)" using ok Some by simp
  note w = q_master_lines[OF this, of bus] q_master_more[of bus st ?u]
  note same = q_top_frame[OF w(2)]
  show ?thesis
    using w(1) w(3) same unfolding t by (auto simp: q_no_ack_def)
qed

section \<open>Commands\<close>

lemma q_ok_latch: "r \<noteq> 4 \<Longrightarrow> r \<noteq> 6 \<Longrightarrow> q_ok (buslatches_setbits r m v s) = q_ok (s :: 'a qpru_scheme)"
  by (simp add: setbits_update q_lines_ok_def)

lemma q_ok_init_signal:
  fixes s :: "'a qpru_scheme"
  assumes "q_ok s"
  shows "q_ok (q_cmd_initializationsignal_set s)"
proof -
  have "q_cmd_initializationsignal_set s = s \<or> (\<exists>m v. q_cmd_initializationsignal_set s = buslatches_setbits 5 m v s)"
    unfolding q_cmd_initializationsignal_set_def Let_def by (simp split: if_split) blast
  then show ?thesis using assms q_ok_latch[of 5 _ _ s] by (elim disjE exE) simp_all
qed

lemma q_ok_dma_cancel:
  fixes s :: "'a qpru_scheme"
  assumes "q_ok s"
  shows "q_ok (q_cmd_dma_cancel s)"
proof -
  let ?t = "q_cmd_dma_cancel s"
  have "cur_reg_val ?t = cur_reg_val s \<and> latch_out ?t = latch_out s \<and> qs_block_data_state_func ?t = qs_block_data_state_func s \<and>
    qsl_state ?t = qsl_state s \<and> qp_sm_data_master_state ?t = qp_sm_data_master_state s"
    by (simp add: q_cmd_dma_cancel_def Let_def)
  moreover have "qa_state ?t = qa_state s \<or> qa_state s = State_dma_grant_rply_sync_wait"
    by (simp add: q_cmd_dma_cancel_def Let_def)
  ultimately show ?thesis using assms by (auto simp: q_lines_ok_def)
qed

lemma if_Some_all:
  assumes "c \<Longrightarrow> P a" "\<not> c \<Longrightarrow> \<forall>u. x = Some u \<longrightarrow> P u"
  shows "\<forall>u. (if c then Some a else x) = Some u \<longrightarrow> P u"
  using assms by auto

lemma q_command_lines:
  fixes s :: "'a qpru_scheme"
  assumes ok: "q_ok s" and latch: "ucast (qp_arm2pru_req s) \<noteq> ARM2PRU_BUSLATCH_SET"
    and mode: "ucast (qp_arm2pru_req s) \<in> {ARM2PRU_ARB_MODE_NONE, ARM2PRU_ARB_MODE_CLIENT} \<longrightarrow>
      qa_state s \<notin> {State_intr_complete, State_orphan_complete}"
    and cmd: "q_arm2pru_command bus s = Some t"
  shows "q_ok t"
proof -
  let ?r = "ucast (qp_arm2pru_req s) :: u8"
  have simple: "q_ok (q_cmd_dma s)" "q_ok (q_cmd_intr_cancel s)"
    "q_ok (s\<lparr>qm_ifs_intr_arbitration_pending := 1\<rparr>)" "q_ok (q_cmd_buslatch_get bus s)"
    "q_ok (q_cmd_cpu_bus_access s)" "q_ok (s\<lparr>qp_halted := True\<rparr>)"
    using ok by (simp_all add: q_cmd_dma_def q_cmd_intr_cancel_def q_cmd_buslatch_get_def q_cmd_cpu_bus_access_def Let_def split_def)
  note cancel = q_ok_dma_cancel[OF ok]
  have intr: "q_ok (q_cmd_intr s)" using ok by (simp add: q_cmd_intr_def Let_def)
  have "q_ok (s\<lparr>qa_state := a\<rparr>)" if "qa_state s \<notin> {State_intr_complete, State_orphan_complete}" for a
    using ok that by (auto simp: q_lines_ok_def)
  then have mode': "q_ok (s\<lparr>qa_state := a\<rparr>)" if "?r = ARM2PRU_ARB_MODE_NONE \<or> ?r = ARM2PRU_ARB_MODE_CLIENT" for a
    using mode that by blast
  have pending: "q_ok (if qp_emulate_cpu s then s\<lparr>qm_ifs_intr_arbitration_pending := 1\<rparr> else s)"
    using ok simple(3) by (cases "qp_emulate_cpu s") simp_all
  have "\<forall>u. q_arm2pru_command bus s = Some u \<longrightarrow> q_ok u"
    unfolding q_arm2pru_command_def Let_def
    by (intro if_Some_all[where P = "\<lambda>u. q_ok u"]) (simp_all only: simple cancel intr pending mode' latch ok q_ok_init_signal[OF ok] option.distinct simp_thms)
  then show ?thesis using cmd by blast
qed

section \<open>Runs of the firmware\<close>

text \<open>
  Between two passes the ARM may write what it likes to the shared mailbox, with two exceptions: it does not set bus
  latches by hand (\<open>ARM2PRU_BUSLATCH_SET\<close> is for tests of the hardware), and it does not switch the mode of
  the arbitration while an interrupt acknowledge is under way.
\<close>

definition q_arm_turn :: "qpru \<Rightarrow> qpru \<Rightarrow> bool" where
  "q_arm_turn s t \<longleftrightarrow> cur_reg_val t = cur_reg_val s \<and> latch_out t = latch_out s \<and> qa_state t = qa_state s \<and>
     qs_block_data_state_func t = qs_block_data_state_func s \<and> qsl_state t = qsl_state s \<and>
     qp_sm_data_master_state t = qp_sm_data_master_state s \<and> ucast (qp_arm2pru_req t) \<noteq> ARM2PRU_BUSLATCH_SET \<and>
     (ucast (qp_arm2pru_req t) \<in> {ARM2PRU_ARB_MODE_NONE, ARM2PRU_ARB_MODE_CLIENT} \<longrightarrow> q_no_ack (qa_state t))"

inductive q_fw_reachable :: "bus_lines \<Rightarrow> qpru \<Rightarrow> bool" for bus where
  start: "q_fw_reachable bus (q_main_init bus s)"
| pass: "q_fw_reachable bus s \<Longrightarrow> q_arm_turn s t \<Longrightarrow> q_main_pass bus t = Some u \<Longrightarrow> q_fw_reachable bus u"

lemma q_main_pass_lines:
  fixes s :: "'a qpru_scheme"
  assumes ok: "q_ok s" and latch: "ucast (qp_arm2pru_req s) \<noteq> ARM2PRU_BUSLATCH_SET"
    and mode: "ucast (qp_arm2pru_req s) \<in> {ARM2PRU_ARB_MODE_NONE, ARM2PRU_ARB_MODE_CLIENT} \<longrightarrow> q_no_ack (qa_state s)"
    and pass: "q_main_pass bus s = Some t"
  shows "q_ok t"
proof (cases "qp_halted s")
  case True
  then show ?thesis using pass ok by (simp add: q_main_pass_def)
next
  case False
  let ?s = "s\<lparr>qp_diag_loop_passes := qp_diag_loop_passes s + 1\<rparr>"
  obtain u where u: "q_bus_pass bus ?s = Some u" "t = q_process_arm2pru bus u"
    using False pass by (auto simp: q_main_pass_def)
  have "q_ok ?s" using ok by simp
  note k = q_bus_pass_lines[OF this u(1)]
  show ?thesis
  proof (cases "q_arm2pru_command bus u")
    case None
    then show ?thesis using k u(2) by (simp add: q_process_arm2pru_def)
  next
    case (Some v)
    have "q_ok v" by (rule q_command_lines[OF _ _ _ Some]) (use k latch mode in auto)
    then show ?thesis using Some u(2) by (simp add: q_process_arm2pru_def)
  qed
qed

lemma q_main_init_ok: "q_ok (q_main_init bus s)"
proof -
  define u where "u = iopageregisters_init (q_timeout_init (s\<lparr>qp_sm_data_master_state := None, qa_state := State_grant_check,
    qsl_state := State_data_slave_stop, qp_emulate_cpu := False, qp_halted := False\<rparr>))"
  have u: "qp_sm_data_master_state u = None" "qsl_state u = State_data_slave_stop"
    by (simp_all add: u_def iopageregisters_init_def q_timeout_init_def)
  have "q_main_init bus s =
    (let s = q_buslatches_reset u; s = q_sm_initialization_reset bus s; s = q_sm_arb_reset s; s = qbus_diag_init s
     in s\<lparr>qp_diag_loop_passes := 0, qp_diag_arbitration_passes := 0, qp_diag_master_passes := 0,
          qp_diag_magic := MAILBOX_DIAG_MAGIC\<rparr>)"
    by (simp add: q_main_init_def u_def Let_def)
  then show ?thesis
    using u by (simp add: Let_def q_buslatches_reset_def q_sm_initialization_reset_def q_sm_arb_reset_def qbus_diag_init_def
        setbits_update buslatches_setbyte_def split_def q_lines_ok_def q_in_cycle_def bit_merge_bits)
qed

lemma q_reachable_ok: "q_fw_reachable bus s \<Longrightarrow> q_ok s"
proof (induction rule: q_fw_reachable.induct)
  case (start s)
  show ?case by (rule q_main_init_ok)
next
  case (pass s t u)
  then have "q_ok t" by (simp add: q_arm_turn_def)
  then show ?case
    by (rule q_main_pass_lines[OF _ _ _ pass(3)]) (use pass(2) in \<open>auto simp: q_arm_turn_def\<close>)
qed

end
