(* ===== verification/QbusSlave_Lemmas.thy ===== *)
theory QbusSlave_Lemmas
  imports QbusArb_Lemmas
begin

unbundle bit_operations_syntax

text \<open>Block mode transfers of another bus master to the memory card of the board.\<close>

section \<open>Turns\<close>

text \<open>Turns of the slave from a state, the \<open>j\<close>-th one on the lines \<open>b j\<close>. A state it returns is the one it goes on in.\<close>

primrec q_slave_turns :: "nat \<Rightarrow> (nat \<Rightarrow> bus_lines) \<Rightarrow> states_data_slave \<Rightarrow> 'a qbus_data_slave_t_scheme \<Rightarrow>
    states_data_slave \<times> 'a qbus_data_slave_t_scheme" where
  "q_slave_turns 0 b st s = (st, s)"
| "q_slave_turns (Suc j) b st s =
    (let (st, s) = q_slave_turns j b st s; (turn, s) = q_slave_turn (b j) st s
     in (case turn of Goto st \<Rightarrow> st | Return st \<Rightarrow> st, s))"

text \<open>The lines of latch 4 a bus shows for sure: \<open>on\<close> asserted, \<open>off\<close> negated.\<close>

definition q_shows :: "bus_lines \<Rightarrow> nat set \<Rightarrow> nat set \<Rightarrow> bool" where
  "q_shows bus on off \<longleftrightarrow> (\<forall>n out. (\<forall>i \<in> on. bit (bus n out 4) i) \<and> (\<forall>i \<in> off. \<not> bit (bus n out 4) i))"

definition q_carries :: "bus_lines \<Rightarrow> u16 \<Rightarrow> bool" where
  "q_carries bus w \<longleftrightarrow> (\<forall>n out. bus n out 0 = ucast w \<and> bus n out 1 = ucast (drop_bit 8 w))"

text \<open>
  The turns of a block of \<open>n\<close> words: SYNC stands, and for each word the strobe - DIN is line 1, DOUT line 2 - is
  asserted, negated, and asserted for the next.
\<close>

definition q_block_bus :: "nat \<Rightarrow> nat \<Rightarrow> (nat \<Rightarrow> bus_lines) \<Rightarrow> bool" where
  "q_block_bus strobe n b \<longleftrightarrow> (\<forall>k < n. q_shows (b (3 * k)) {0, strobe} ({1, 2, 3, 4, 7} - {strobe}) \<and>
     q_shows (b (3 * k + 1)) {0} {strobe, 7} \<and> q_shows (b (3 * k + 2)) {0, strobe} ({1, 2, 7} - {strobe}))"

lemma join_bytes: "ucast (ucast w :: u8) OR push_bit 8 (ucast (ucast (drop_bit 8 w) :: u8)) = (w :: u16)"
  by (rule bit_word_eqI) (auto simp: bit_or_iff bit_ucast_iff bit_push_bit_iff bit_drop_bit_eq)

definition q_ready :: "u32 \<Rightarrow> u32 \<Rightarrow> 'a qbus_data_slave_t_scheme \<Rightarrow> bool" where
  "q_ready lo hi s \<longleftrightarrow> q_card lo hi s \<and> EVENT_IS_ACKED (ev_deviceregister s)"

lemma q_dout_portion:
  fixes s :: "'a qbus_data_slave_t_scheme"
  assumes s: "q_ready lo hi s" "qsl_addr s \<in> card_cells lo hi"
    and b1: "q_shows b1 {0, 2} {1, 3, 4, 7}" "q_carries b1 w" and b2: "q_shows b2 {0} {2, 7}" and b3: "q_shows b3 {0, 2} {1, 7}"
  obtains u v t where "q_slave_turn b1 State_data_slave_dindout_start s = (Goto State_data_slave_dout_single_complete, u)"
    "q_slave_turn b2 State_data_slave_dout_single_complete u = (Goto State_data_slave_dout_block_complete, v)"
    "q_slave_turn b3 State_data_slave_dout_block_complete v = (Goto State_data_slave_dindout_start, t)"
    "bit (latch_out u 4) 3" "bit (latch_out u 4) 6" "\<not> bit (latch_out v 4) 3"
    "q_ready lo hi t" "qsl_addr t = qsl_addr s + 2" "ddr_words t = (ddr_words s)(unat (qsl_addr s div 2) := w)"
proof -
  define u where "u = snd (q_slave_turn b1 State_data_slave_dindout_start s)"
  define v where "v = snd (q_slave_turn b2 State_data_slave_dout_single_complete u)"
  define t where "t = snd (q_slave_turn b3 State_data_slave_dout_block_complete v)"
  have b: "\<And>n out. bit (b1 n out 4) 0" "\<And>n out. bit (b1 n out 4) 2" "\<And>n out. \<not> bit (b1 n out 4) 1"
    "\<And>n out. \<not> bit (b1 n out 4) 3" "\<And>n out. \<not> bit (b1 n out 4) 4" "\<And>n out. \<not> bit (b1 n out 4) 7"
    "\<And>n out. \<not> bit (b2 n out 4) 2" "\<And>n out. bit (b3 n out 4) 0" "\<And>n out. bit (b3 n out 4) 2" "\<And>n out. \<not> bit (b3 n out 4) 7"
    using b1(1) b2 b3 by (simp_all add: q_shows_def)
  have d: "\<And>n out. b1 n out 0 = ucast w" "\<And>n out. b1 n out (Suc 0) = ucast (drop_bit 8 w)"
    using b1(2) by (simp_all add: q_carries_def)
  have fin: "fst (q_slave_turn b1 State_data_slave_dindout_start s) = Goto State_data_slave_dout_single_complete \<and>
    bit (latch_out u 4) 3 \<and> bit (latch_out u 4) 6 \<and> q_ready lo hi u \<and> qsl_addr u = qsl_addr s \<and>
    ddr_words u = (ddr_words s)(unat (qsl_addr s div 2) := w)"
    using s b d by (simp add: u_def q_slave_turn_def q_slave_dindout_start_def q_slave_dout_def Let_def split_def and_BIT
        q_card_write[of lo hi] q_ready_def q_card_def setbits_update buslatches_setbyte_def DDRMEM_COUNT_WRITE_def
        join_bytes bit_merge_bits bit_or_iff)
  moreover have "fst (q_slave_turn b2 State_data_slave_dout_single_complete u) = Goto State_data_slave_dout_block_complete \<and>
    \<not> bit (latch_out v 4) 3 \<and> q_ready lo hi v \<and> qsl_addr v = qsl_addr u \<and> ddr_words v = ddr_words u"
    using fin b by (simp add: v_def q_slave_turn_def q_slave_dout_single_complete_def Let_def split_def and_BIT
        q_ready_def q_card_def setbits_update bit_merge_bits bit_or_iff)
  moreover then have "fst (q_slave_turn b3 State_data_slave_dout_block_complete v) = Goto State_data_slave_dindout_start \<and>
    q_ready lo hi t \<and> qsl_addr t = qsl_addr v + 2 \<and> ddr_words t = ddr_words v"
    using b by (simp add: t_def q_slave_turn_def q_slave_dout_block_complete_def Let_def split_def and_BIT
        q_ready_def q_card_def)
  ultimately show ?thesis using that[of u v t] unfolding u_def v_def t_def by (simp add: prod_eq_iff)
qed

lemma q_din_portion:
  fixes s :: "'a qbus_data_slave_t_scheme"
  assumes s: "q_ready lo hi s" "qsl_addr s \<in> card_cells lo hi"
    and b1: "q_shows b1 {0, 1} {2, 3, 4, 7}" and b2: "q_shows b2 {0} {1, 7}" and b3: "q_shows b3 {0, 1} {2, 7}"
  obtains u v t where "q_slave_turn b1 State_data_slave_dindout_start s = (Goto State_data_slave_din_single_complete, u)"
    "q_slave_turn b2 State_data_slave_din_single_complete u = (Goto State_data_slave_din_block_complete, v)"
    "q_slave_turn b3 State_data_slave_din_block_complete v = (Goto State_data_slave_dindout_start, t)"
    "bit (latch_out u 4) 3" "bit (latch_out u 4) 6" "\<not> bit (latch_out v 4) 3"
    "latch_out u 0 = ucast (ddr_words s (unat (qsl_addr s div 2)))"
    "latch_out u 1 = ucast (drop_bit 8 (ddr_words s (unat (qsl_addr s div 2))))"
    "q_ready lo hi t" "qsl_addr t = qsl_addr s + 2" "ddr_words t = ddr_words s"
proof -
  define u where "u = snd (q_slave_turn b1 State_data_slave_dindout_start s)"
  define v where "v = snd (q_slave_turn b2 State_data_slave_din_single_complete u)"
  define t where "t = snd (q_slave_turn b3 State_data_slave_din_block_complete v)"
  have b: "\<And>n out. bit (b1 n out 4) 0" "\<And>n out. bit (b1 n out 4) 1"
    "\<And>n out. \<not> bit (b1 n out 4) 3" "\<And>n out. \<not> bit (b1 n out 4) 7" "\<And>n out. \<not> bit (b2 n out 4) 1"
    "\<And>n out. bit (b3 n out 4) 0" "\<And>n out. bit (b3 n out 4) 1" "\<And>n out. \<not> bit (b3 n out 4) 2" "\<And>n out. \<not> bit (b3 n out 4) 7"
    using b1 b2 b3 by (simp_all add: q_shows_def)
  have one: "\<And>n out. bit (b1 n out 4) (Suc 0)" "\<And>n out. \<not> bit (b2 n out 4) (Suc 0)" "\<And>n out. bit (b3 n out 4) (Suc 0)"
    using b(2,5,7) by simp_all
  have fin: "fst (q_slave_turn b1 State_data_slave_dindout_start s) = Goto State_data_slave_din_single_complete \<and>
    bit (latch_out u 4) 3 \<and> bit (latch_out u 4) 6 \<and> q_ready lo hi u \<and> qsl_addr u = qsl_addr s \<and> ddr_words u = ddr_words s \<and>
    latch_out u 0 = ucast (ddr_words s (unat (qsl_addr s div 2))) \<and>
    latch_out u 1 = ucast (drop_bit 8 (ddr_words s (unat (qsl_addr s div 2))))"
    using s b one by (simp add: u_def q_slave_turn_def q_slave_dindout_start_def q_slave_din_def Let_def split_def and_BIT
        q_card_read[of lo hi] q_ready_def q_card_def setbits_update buslatches_setbyte_def DDRMEM_COUNT_READ_def
        bit_merge_bits bit_or_iff ucast_low)
  moreover have "fst (q_slave_turn b2 State_data_slave_din_single_complete u) = Goto State_data_slave_din_block_complete \<and>
    \<not> bit (latch_out v 4) 3 \<and> q_ready lo hi v \<and> qsl_addr v = qsl_addr u \<and> ddr_words v = ddr_words u"
    using fin b one by (simp add: v_def q_slave_turn_def q_slave_din_single_complete_def Let_def split_def and_BIT
        q_ready_def q_card_def setbits_update buslatches_setbyte_def bit_merge_bits bit_or_iff)
  moreover then have "fst (q_slave_turn b3 State_data_slave_din_block_complete v) = Goto State_data_slave_dindout_start \<and>
    q_ready lo hi t \<and> qsl_addr t = qsl_addr v + 2 \<and> ddr_words t = ddr_words v"
    using b one by (simp add: t_def q_slave_turn_def q_slave_din_block_complete_def Let_def split_def and_BIT
        q_ready_def q_card_def)
  ultimately show ?thesis using that[of u v t] unfolding u_def v_def t_def by (simp add: prod_eq_iff)
qed

section \<open>Blocks\<close>

lemma q_slave_turns_3:
  assumes "q_slave_turns j b st s = (st1, s1)" "q_slave_turn (b j) st1 s1 = (Goto st2, s2)"
    "q_slave_turn (b (j + 1)) st2 s2 = (Goto st3, s3)" "q_slave_turn (b (j + 2)) st3 s3 = (Goto st4, s4)"
  shows "q_slave_turns (j + 1) b st s = (st2, s2)" "q_slave_turns (j + 2) b st s = (st3, s3)" "q_slave_turns (j + 3) b st s = (st4, s4)"
  using assms by (simp_all add: numeral_3_eq_3 numeral_2_eq_2)

lemma q_block_bus_less: "q_block_bus x n b \<Longrightarrow> m \<le> n \<Longrightarrow> q_block_bus x m b"
  by (simp add: q_block_bus_def)

lemma q_slave_writes:
  fixes s :: "'a qbus_data_slave_t_scheme"
  assumes s: "q_ready lo hi s" and b: "q_block_bus 2 n b" "\<And>k. k < n \<Longrightarrow> q_carries (b (3 * k)) (w k)"
    and cells: "\<And>k. k < n \<Longrightarrow> qsl_addr s + 2 * of_nat k \<in> card_cells lo hi"
  shows "\<exists>t. q_slave_turns (3 * n) b State_data_slave_dindout_start s = (State_data_slave_dindout_start, t) \<and>
    q_ready lo hi t \<and> qsl_addr t = qsl_addr s + 2 * of_nat n \<and>
    (ddr_words t, w) = fold (q_copy_word True (\<lambda>k. qsl_addr s + 2 * of_nat k)) [0..<n] (ddr_words s, w) \<and>
    (\<forall>k < n. bit (latch_out (snd (q_slave_turns (3 * k + 1) b State_data_slave_dindout_start s)) 4) 3)"
  using b cells
proof (induction n)
  case 0
  show ?case using s by simp
next
  case (Suc n)
  from Suc.IH[OF q_block_bus_less[OF Suc.prems(1)]] Suc.prems(2,3) obtain t where
    t: "q_slave_turns (3 * n) b State_data_slave_dindout_start s = (State_data_slave_dindout_start, t)" "q_ready lo hi t"
      "qsl_addr t = qsl_addr s + 2 * of_nat n"
      "(ddr_words t, w) = fold (q_copy_word True (\<lambda>k. qsl_addr s + 2 * of_nat k)) [0..<n] (ddr_words s, w)"
      "\<forall>k < n. bit (latch_out (snd (q_slave_turns (3 * k + 1) b State_data_slave_dindout_start s)) 4) 3"
    by auto
  have p: "q_shows (b (3 * n)) {0, 2} {1, 3, 4, 7}" "q_shows (b (3 * n + 1)) {0} {2, 7}" "q_shows (b (3 * n + 2)) {0, 2} {1, 7}"
    using Suc.prems(1) by (auto simp: q_block_bus_def q_shows_def)
  have cell: "qsl_addr t \<in> card_cells lo hi" using Suc.prems(3)[of n] t(3) by simp
  from q_dout_portion[OF t(2) cell p(1) Suc.prems(2) p(2,3)] obtain u v r where
    r: "q_slave_turn (b (3 * n)) State_data_slave_dindout_start t = (Goto State_data_slave_dout_single_complete, u)"
      "q_slave_turn (b (3 * n + 1)) State_data_slave_dout_single_complete u = (Goto State_data_slave_dout_block_complete, v)"
      "q_slave_turn (b (3 * n + 2)) State_data_slave_dout_block_complete v = (Goto State_data_slave_dindout_start, r)"
      "bit (latch_out u 4) 3" "q_ready lo hi r" "qsl_addr r = qsl_addr t + 2"
      "ddr_words r = (ddr_words t)(unat (qsl_addr t div 2) := w n)"
    by (metis lessI)
  note run = q_slave_turns_3[OF t(1) r(1-3)]
  have "(ddr_words r, w) = fold (q_copy_word True (\<lambda>k. qsl_addr s + 2 * of_nat k)) [0..<Suc n] (ddr_words s, w)"
    using r(7) t(3) by (simp add: q_copy_word_def flip: t(4))
  moreover have "3 * Suc n = 3 * n + 3" by simp
  ultimately show ?case
    using run r(4-6) t(3,5) by (intro exI[of _ r]) (auto simp: less_Suc_eq algebra_simps)
qed

lemma q_slave_reads:
  fixes s :: "'a qbus_data_slave_t_scheme"
  assumes s: "q_ready lo hi s" and b: "q_block_bus 1 n b"
    and cells: "\<And>k. k < n \<Longrightarrow> qsl_addr s + 2 * of_nat k \<in> card_cells lo hi"
  defines "word k \<equiv> ddr_words s (unat ((qsl_addr s + 2 * of_nat k) div 2))"
  shows "\<exists>t. q_slave_turns (3 * n) b State_data_slave_dindout_start s = (State_data_slave_dindout_start, t) \<and>
    q_ready lo hi t \<and> qsl_addr t = qsl_addr s + 2 * of_nat n \<and> ddr_words t = ddr_words s \<and>
    (\<forall>k < n. let u = snd (q_slave_turns (3 * k + 1) b State_data_slave_dindout_start s) in
      bit (latch_out u 4) 3 \<and> latch_out u 0 = ucast (word k) \<and> latch_out u 1 = ucast (drop_bit 8 (word k)))"
  using b cells
proof (induction n)
  case 0
  show ?case using s by simp
next
  case (Suc n)
  from Suc.IH[OF q_block_bus_less[OF Suc.prems(1)]] Suc.prems(2) obtain t where
    t: "q_slave_turns (3 * n) b State_data_slave_dindout_start s = (State_data_slave_dindout_start, t)" "q_ready lo hi t"
      "qsl_addr t = qsl_addr s + 2 * of_nat n" "ddr_words t = ddr_words s"
      "\<forall>k < n. let u = snd (q_slave_turns (3 * k + 1) b State_data_slave_dindout_start s) in
        bit (latch_out u 4) 3 \<and> latch_out u 0 = ucast (word k) \<and> latch_out u 1 = ucast (drop_bit 8 (word k))"
    by auto
  have p: "q_shows (b (3 * n)) {0, 1} {2, 3, 4, 7}" "q_shows (b (3 * n + 1)) {0} {1, 7}" "q_shows (b (3 * n + 2)) {0, 1} {2, 7}"
    using Suc.prems(1) by (auto simp: q_block_bus_def q_shows_def)
  have cell: "qsl_addr t \<in> card_cells lo hi" using Suc.prems(2)[of n] t(3) by simp
  from q_din_portion[OF t(2) cell p] obtain u v r where
    r: "q_slave_turn (b (3 * n)) State_data_slave_dindout_start t = (Goto State_data_slave_din_single_complete, u)"
      "q_slave_turn (b (3 * n + 1)) State_data_slave_din_single_complete u = (Goto State_data_slave_din_block_complete, v)"
      "q_slave_turn (b (3 * n + 2)) State_data_slave_din_block_complete v = (Goto State_data_slave_dindout_start, r)"
      "bit (latch_out u 4) 3" "latch_out u 0 = ucast (ddr_words t (unat (qsl_addr t div 2)))"
      "latch_out u 1 = ucast (drop_bit 8 (ddr_words t (unat (qsl_addr t div 2))))"
      "q_ready lo hi r" "qsl_addr r = qsl_addr t + 2" "ddr_words r = ddr_words t" by metis
  note run = q_slave_turns_3[OF t(1) r(1-3)]
  have "ddr_words t (unat (qsl_addr t div 2)) = word n" using t(3,4) by (simp add: word_def)
  with r(5,6) have "latch_out u 0 = ucast (word n)" "latch_out u 1 = ucast (drop_bit 8 (word n))" by simp_all
  moreover have "3 * Suc n = 3 * n + 3" by simp
  ultimately show ?case
    using run r(4,7-9) t(3-5) by (intro exI[of _ r]) (auto simp: less_Suc_eq algebra_simps Let_def)
qed

section \<open>Addresses\<close>

text \<open>The address portion of a cycle: DAL carries the address, and latch 2 has SYNC in bit 7.\<close>

definition q_addresses :: "bus_lines \<Rightarrow> u32 \<Rightarrow> bool" where
  "q_addresses bus a \<longleftrightarrow> (\<forall>n out. bus n out 0 = ucast a \<and> bus n out 1 = ucast (drop_bit 8 a) \<and>
     bus n out 2 = ucast (drop_bit 16 a) OR BIT 7)"

lemma q_slave_addressed:
  fixes s :: "'a qbus_data_slave_t_scheme"
  assumes "q_addresses bus a" "unat a < 2 ^ 23"
  defines "t \<equiv> s\<lparr>bus_reads := bus_reads s + 3, qsl_addr := a\<rparr>"
  shows "q_slave_turn bus State_data_slave_stop s = (Goto State_data_slave_dindout_start, t)"
proof -
  have m: "(0x7F :: u8) = mask 7" by (simp add: mask_eq_exp_minus_1)
  have high: "n < 23" if "bit a n" for n
    using assms(2) that unat_lt_exp_iff[of a 23] by (meson not_le)
  let ?l0 = "ucast a :: u8" and ?l1 = "ucast (drop_bit 8 a) :: u8" and ?l2 = "ucast (drop_bit 16 a) OR BIT 7 :: u8"
  have "ucast ?l0 OR push_bit 8 (ucast ?l1) OR push_bit 16 (ucast (?l2 AND 0x7F)) = a"
    unfolding m
    by (rule bit_word_eqI)
      (auto simp: bit_or_iff bit_and_iff bit_ucast_iff bit_push_bit_iff bit_drop_bit_eq bit_mask_iff dest: high)
  moreover have "bit ?l2 7" by (simp add: bit_or_iff)
  ultimately show ?thesis
    using assms(1) by (simp add: t_def q_slave_turn_def q_slave_start_def q_addresses_def Let_def split_def and_BIT numeral_3_eq_3)
qed

text \<open>What a block of writes leaves in the memory, word by word.\<close>

lemma q_slave_block_writes:
  fixes s :: "'a qbus_data_slave_t_scheme"
  assumes s: "q_ready lo hi s" and b: "q_block_bus 2 n b" "\<And>k. k < n \<Longrightarrow> q_carries (b (3 * k)) (w k)" and n: "n \<le> 0x1000"
    and cells: "\<And>k. k < n \<Longrightarrow> qsl_addr s + 2 * of_nat k \<in> card_cells lo hi"
  defines "addr \<equiv> \<lambda>k. qsl_addr s + 2 * of_nat k"
  obtains t where "q_slave_turns (3 * n) b State_data_slave_dindout_start s = (State_data_slave_dindout_start, t)"
    "q_ready lo hi t" "qsl_addr t = addr n" "\<And>k. k < n \<Longrightarrow> ddr_words t (unat (addr k div 2)) = w k"
    "\<And>j. (\<forall>k < n. j \<noteq> unat (addr k div 2)) \<Longrightarrow> ddr_words t j = ddr_words s j"
    "\<And>k. k < n \<Longrightarrow> bit (latch_out (snd (q_slave_turns (3 * k + 1) b State_data_slave_dindout_start s)) 4) 3"
proof -
  from q_slave_writes[OF s b cells] obtain t where
    t: "q_slave_turns (3 * n) b State_data_slave_dindout_start s = (State_data_slave_dindout_start, t)"
      "q_ready lo hi t" "qsl_addr t = addr n" "(ddr_words t, w) = fold (q_copy_word True addr) [0..<n] (ddr_words s, w)"
      "\<forall>k < n. bit (latch_out (snd (q_slave_turns (3 * k + 1) b State_data_slave_dindout_start s)) 4) 3"
    unfolding addr_def by blast
  have "unat (addr i div 2) \<noteq> unat (addr j div 2)" if "i < n" "j < n" "i \<noteq> j" for i j
    using cell_distinct[OF cells cells, of i j] that n by (simp add: addr_def)
  then obtain m where "fold (q_copy_word True addr) [0..<n] (ddr_words s, w) = (m, w)"
    "\<And>j. j < n \<Longrightarrow> m (unat (addr j div 2)) = w j"
    "\<And>k. (\<forall>j < n. k \<noteq> unat (addr j div 2)) \<Longrightarrow> m k = ddr_words s k"
    using q_copy_dato[of n addr "ddr_words s" w] by blast
  with t show ?thesis using that[of t] by simp
qed

end
