(* ===== verification/Qbus_Props.thy ===== *)
theory Qbus_Props
  imports QbusMain_Lemmas QbusSlave_Lemmas
begin

unbundle bit_operations_syntax

text \<open>
  Properties of the QBUS firmware: its timeouts, grants, interrupts, DMA and slave cycles, and
  the bus lines in every state of the main loop.
\<close>

section \<open>A machine to try things on\<close>

text \<open>The state after start-up, from cleared memory and without a memory card.\<close>

definition q_silent :: bus_lines where "q_silent n out r = 0"

definition q_blank :: qpru where
  "q_blank = q_main_init q_silent \<lparr>memory_start_addr = \<lambda>_. 0, memory_limit_addr = \<lambda>_. 0,
     memory_read_count = \<lambda>_. 0, memory_write_count = \<lambda>_. 0, rom_access_count = 0,
     map_refused_count = 0, map_byte_offset_count = 0, iopage_start_addr = 0,
     register_handles = \<lambda>_. 0,
     registers = (\<lambda>_. \<lparr>reg_value = 0, reg_reset_value = 0, reg_writable_bits = 0,
       reg_event_register_handle = 0, reg_event_flags = 0\<rparr>),
     ddr_words = (\<lambda>_. 0), unibus_map = (\<lambda>_. 0), unibus_map_active = 0, array_oob = False,
     ev_deviceregister = \<lparr>signaled = 0, acked = 0\<rparr>, ev_unibus_control = 0, ev_register_handle = 0,
     ev_data = 0, ev_addr = 0, deviceregister_signal_cycle = 0, iep_tmr_cnt = 0, arm_interrupts = 0,
     cur_reg_val = \<lambda>_. 0, latch_out = \<lambda>_. 0, bus_reads = 0, address_overlay = 0,
     q_target_cycles = \<lambda>_. 0, q_roll_over = \<lambda>_. False, q_cycle = 0, q_ctr_en = False,
     qd_magic = 0, qd_layout_version = 0, qd_trace_entries = 0, qd_bus_activity = 0, qd_intr_answered = 0,
     qd_iak_abandoned = 0, qd_orphan_rescued = 0, qd_dma_grant_refused = 0, qd_dma_abandoned = 0,
     qd_timeout_dal_lo = 0, qd_timeout_dal_hi = 0, qd_timeout_dal_ext = 0, qd_timeout_l4 = 0, qd_timeout_l6 = 0,
     qd_timeout_addr = 0, qd_trace_frozen = 0, qd_trace_count = 0,
     qd_trace = \<lambda>_. \<lparr>trc_ts = 0, trc_l4 = 0, trc_l6 = 0, trc_l7 = 0, trc_arb_state = 0\<rparr>,
     qa_state = State_grant_check, qa_device_request_mask = 0, qa_device_request_signalled_mask = 0,
     qa_canceled_request_mask = 0, qa_dmr_holdoff_start = 0, qa_dmr_holdoff_active = False, qa_dmr_committed = False,
     qa_device_forwarded_grant_mask = 0, qa_device_grant_mask = 0, qa_intr_level_index = 0, qa_cpu_request = 0,
     qa_arbitrator_grant_mask = 0, qa_cpu_bus_inhibit_dmr_mask = 0, qa_pending_intr_register_handle = \<lambda>_. 0,
     qa_pending_intr_register_value = \<lambda>_. 0,
     qm_intr_vector = \<lambda>i. of_nat (0x100 + 4 * i), qm_ev_intr_master = \<lambda>_. \<lparr>signaled = 0, acked = 0\<rparr>,
     qm_ifs_priority_level = 7, qm_ifs_intr_arbitration_pending = 0,
     qi_state = State_init_idle, qi_bussignals_cur = 0, qm_ev_init = \<lparr>signaled = 0, acked = 0\<rparr>,
     qm_ev_power = \<lparr>signaled = 0, acked = 0\<rparr>, qm_power_signals_prev = 0, qm_power_signals_cur = 0, qm_init_signal_cur = 0,
     qm_dma_cur_status = 0, qm_dma_buscycle = 2, qm_dma_wordcount = 3, qm_dma_cpu_access = 0, qm_dma_cur_addr = 0,
     qm_dma_startaddr = 0x1000, qm_dma_words = \<lambda>i. of_nat (100 + i), qm_ev_dma = \<lparr>signaled = 0, acked = 0\<rparr>,
     qs_state_timeout = False, qs_dataptr = 0, qs_words_left = 0, qs_block_end_addr = 0,
     qs_block_data_state_func = None, qs_first_data_portion = False,
     qsl_state = State_data_slave_stop, qsl_addr = 0,
     qp_arm2pru_req = 0, qp_union = \<lambda>_. 0, qp_intr_priority_arbitration_bit = 0, qp_intr_level_index = 0,
     qp_intr_iopage_register_value = 0, qp_intr_iopage_register_handle = 0, qp_diag_magic = 0, qp_diag_loop_passes = 0,
     qp_diag_arbitration_passes = 0, qp_diag_master_passes = 0, qp_sm_data_master_state = None, qp_trace_last_l4 = 0,
     qp_emulate_cpu = False, qp_halted = False\<rparr>"

lemma q_blank_fields [simp]:
  "qp_sm_data_master_state q_blank = None" "qsl_state q_blank = State_data_slave_stop" "qa_state q_blank = State_grant_check"
  "\<not> qp_halted q_blank" "\<not> qp_emulate_cpu q_blank" "qi_state q_blank = State_init_idle"
  "qa_device_request_mask q_blank = 0" "qa_canceled_request_mask q_blank = 0" "qa_device_forwarded_grant_mask q_blank = 0"
  "qa_device_request_signalled_mask q_blank = 0" "qa_device_grant_mask q_blank = 0"
  "qm_power_signals_cur q_blank = 0" "ev_deviceregister q_blank = \<lparr>signaled = 0, acked = 0\<rparr>"
  "memory_start_addr q_blank 0 = 0" "qm_dma_buscycle q_blank = 2"
  "qm_dma_wordcount q_blank = 3" "qm_dma_startaddr q_blank = 0x1000" "qm_dma_words q_blank j = of_nat (100 + j)"
  "qm_intr_vector q_blank i = of_nat (0x100 + 4 * i)" "qm_dma_cpu_access q_blank = 0"
  "qa_pending_intr_register_handle q_blank 0 = 0" "q_cycle q_blank = 0" "q_ctr_en q_blank"
  by (simp_all add: q_blank_def q_main_init_def Let_def q_buslatches_reset_def q_sm_initialization_reset_def q_sm_arb_reset_def
      qbus_diag_init_def setbits_update buslatches_setbyte_def buslatches_getbyte_def iopageregisters_init_def q_timeout_init_def)

text \<open>The loop turns once on an idle bus and takes the DMA command of the ARM.\<close>

definition q_request :: qpru where "q_request = q_blank\<lparr>qp_arm2pru_req := ucast ARM2PRU_DMA\<rparr>"

lemma q_silent_loop: "qsl_state s = State_data_slave_stop \<Longrightarrow> q_slave_loop q_silent s = Some (s\<lparr>bus_reads := Suc (bus_reads s)\<rparr>)"
  by (simp add: q_slave_loop.simps q_sm_data_slave_func.simps q_slave_turn_def q_slave_start_def Let_def split_def q_silent_def)

lemma q_silent_pass:
  obtains u where "q_main_pass q_silent q_request = Some u" "qm_dma_cur_status u = DMA_STATE_ARBITRATING"
proof -
  let ?r = "q_request\<lparr>qp_diag_loop_passes := qp_diag_loop_passes q_request + 1\<rparr>"
  obtain u where u: "q_bus_pass q_silent ?r = Some u"
    by (simp add: q_bus_pass_def q_silent_loop q_request_def)
  have "q_ok ?r" using q_main_init_ok unfolding q_request_def q_blank_def by simp
  with u have "qp_arm2pru_req u = qp_arm2pru_req ?r" by (blast dest: q_bus_pass_lines)
  then have "ucast (qp_arm2pru_req u) = ARM2PRU_DMA" by (simp add: q_request_def ARM2PRU_DMA_def)
  then have "q_main_pass q_silent q_request = Some ((q_cmd_dma u)\<lparr>qp_arm2pru_req := ucast ARM2PRU_NONE\<rparr>)"
    using u by (simp add: q_main_pass_def q_process_arm2pru_def q_arm2pru_command_def) (simp add: q_request_def)
  then show ?thesis using that by (simp add: q_cmd_dma_def Let_def)
qed

section \<open>Bus lines\<close>

text \<open>C23.
  In every state the main loop reaches, whatever the other cards do on the bus and whatever
  the ARM writes to its mailbox - except that it sets no latches by hand and does not switch the
  mode of the arbitration during an acknowledge (\<open>q_arm_turn\<close>): SYNC is asserted exactly while a bus cycle of a DMA runs,
  DIN and DOUT exactly while it waits for the answer to one, BS7 only under SYNC, and
  SACK only while a DMA holds the bus; RPLY is asserted only while the board answers a
  cycle of another master or puts an interrupt vector on the bus. The cache of the two latches is what they
  hold.
\<close>

theorem q_bus_lines_follow_states:
  assumes "q_fw_reachable bus s"
  defines "m \<equiv> qp_sm_data_master_state s"
  shows "(bit (latch_out s 4) 0 \<longleftrightarrow> m \<in> {Some Sm_dma_state_din_start, Some Sm_dma_state_din_complete,
      Some Sm_dma_state_dout_start, Some Sm_dma_state_dout_complete, Some Sm_dma_state_99}) \<and>
    (bit (latch_out s 4) 1 \<longleftrightarrow> m = Some Sm_dma_state_din_complete) \<and>
    (bit (latch_out s 4) 2 \<longleftrightarrow> m = Some Sm_dma_state_dout_complete) \<and>
    (bit (latch_out s 4) 3 \<longrightarrow>
      qsl_state s \<in> {State_data_slave_din_single_complete, State_data_slave_dout_single_complete} \<or>
      qa_state s \<in> {State_intr_complete, State_orphan_complete}) \<and>
    (bit (latch_out s 4) 5 \<longrightarrow> bit (latch_out s 4) 0) \<and> (bit (latch_out s 6) 7 \<longrightarrow> m \<noteq> None) \<and>
    latch_out s 4 = cur_reg_val s 4 \<and> latch_out s 6 = cur_reg_val s 6"
  using q_reachable_ok[OF assms(1)] unfolding m_def q_lines_ok_def q_in_cycle_def
  by (cases "qp_sm_data_master_state s"; cases "the (qp_sm_data_master_state s)"; simp)

theorem q_bus_lines_follow_states_witness:
  "\<exists>u. q_fw_reachable q_silent u \<and> qm_dma_cur_status u = DMA_STATE_ARBITRATING \<and> latch_out u 6 = cur_reg_val u 6"
proof -
  obtain u where u: "q_main_pass q_silent q_request = Some u" "qm_dma_cur_status u = DMA_STATE_ARBITRATING" by (rule q_silent_pass)
  have "q_fw_reachable q_silent q_blank" unfolding q_blank_def by (rule q_fw_reachable.start)
  moreover have "q_arm_turn q_blank q_request"
    by (simp add: q_arm_turn_def q_request_def ARM2PRU_DMA_def ARM2PRU_BUSLATCH_SET_def ARM2PRU_ARB_MODE_NONE_def
        ARM2PRU_ARB_MODE_CLIENT_def)
  ultimately have "q_fw_reachable q_silent u" using u(1) by (rule q_fw_reachable.pass)
  with q_bus_lines_follow_states[OF this] u(2) show ?thesis by blast
qed

section \<open>DMA\<close>

text \<open>C5.
  A DMA to the board's own memory card, cut into blocks as the QBUS demands, moves every
  word of the request to or from its address and changes no other word. It ends READY after at most three
  state functions a word, with the address of the last word, SACK, SYNC, the data strobe, RPLY, WTBT and BS7
  released, and the ARM has one event.
\<close>

theorem q_dma_block_transfer:
  fixes s :: "'a qbus_statemachine_dma_t_scheme"
  assumes card: "q_card lo hi s" and cyc: "qm_dma_buscycle s \<in> {QUNIBUS_CYCLE_DATI, QUNIBUS_CYCLE_DATO}"
    and count: "0 < unat (qm_dma_wordcount s)" "unat (qm_dma_wordcount s) \<le> PRU_MAX_DMA_WORDCOUNT"
    and quiet: "q_no_init bus"
    and cells: "\<And>j. j < unat (qm_dma_wordcount s) \<Longrightarrow> qm_dma_startaddr s + 2 * of_nat j \<in> card_cells lo hi"
  defines "n \<equiv> unat (qm_dma_wordcount s)" and "addr \<equiv> \<lambda>j. qm_dma_startaddr s + 2 * of_nat j"
  shows "\<exists>k t. k \<le> 3 * n + 1 \<and> q_dma_run k bus Sm_dma_start s = (None, t) \<and>
    (if qm_dma_buscycle s = QUNIBUS_CYCLE_DATO
     then (\<forall>j < n. ddr_words t (unat (addr j div 2)) = qm_dma_words s j) \<and>
       (\<forall>k. (\<forall>j < n. k \<noteq> unat (addr j div 2)) \<longrightarrow> ddr_words t k = ddr_words s k)
     else (\<forall>j. qm_dma_words t j = (if j < n then ddr_words s (unat (addr j div 2)) else qm_dma_words s j)) \<and>
       ddr_words t = ddr_words s) \<and>
    qm_dma_cur_status t = DMA_STATE_READY \<and> qm_dma_cur_addr t = addr (n - 1) \<and> qm_ev_dma t = EVENT_SIGNAL (qm_ev_dma s) \<and>
    q_released t"
proof -
  from q_dma_start_between[OF card cyc count, of bus] obtain v where
    v: "q_dma_step bus Sm_dma_start s = (Some Sm_dma_state_addr, v)" "q_between lo hi n 0 v" "q_kept s v"
      "ddr_words v = ddr_words s" "qm_dma_words v = qm_dma_words s" "qm_ev_dma v = qm_ev_dma s"
    unfolding n_def by metis
  note same = q_kept_dato[OF v(3)]
  have "qm_dma_startaddr v + 2 * of_nat j \<in> card_cells lo hi" if "j < n" for j
    using cells that same by (simp add: n_def)
  from q_words_run[OF v(2) quiet this disjI1[OF refl]] obtain k t where
    t: "k \<le> 3 * n" "q_dma_run k bus Sm_dma_state_addr v = (None, t)" "q_moved 0 n v t" "q_finished n v t" by auto
  have "q_dma_run (k + 1) bus Sm_dma_start s = (None, t)" using v(1) t(2) by simp
  moreover have moved: "(ddr_words t, qm_dma_words t) = fold (q_copy_word (q_dato s) addr) [0..<n] (ddr_words s, qm_dma_words s)"
    using t(3) v(4,5) same by (simp add: q_moved_def addr_def)
  have "if qm_dma_buscycle s = QUNIBUS_CYCLE_DATO
     then (\<forall>j < n. ddr_words t (unat (addr j div 2)) = qm_dma_words s j) \<and>
       (\<forall>k. (\<forall>j < n. k \<noteq> unat (addr j div 2)) \<longrightarrow> ddr_words t k = ddr_words s k)
     else (\<forall>j. qm_dma_words t j = (if j < n then ddr_words s (unat (addr j div 2)) else qm_dma_words s j)) \<and>
       ddr_words t = ddr_words s"
  proof (cases "q_dato s")
    case True
    have "unat (addr i div 2) \<noteq> unat (addr j div 2)" if "i < n" "j < n" "i \<noteq> j" for i j
      using cell_distinct[OF cells cells, of i j] that count(2) by (simp add: n_def addr_def PRU_MAX_DMA_WORDCOUNT_def)
    then obtain m where "fold (q_copy_word True addr) [0..<n] (ddr_words s, qm_dma_words s) = (m, qm_dma_words s)"
      "\<And>j. j < n \<Longrightarrow> m (unat (addr j div 2)) = qm_dma_words s j"
      "\<And>k. (\<forall>j < n. k \<noteq> unat (addr j div 2)) \<Longrightarrow> m k = ddr_words s k"
      using q_copy_dato[of n addr "ddr_words s" "qm_dma_words s"] by blast
    then show ?thesis using moved True by (auto simp: q_dato_def)
  next
    case False
    then show ?thesis using moved unfolding q_dato_def by (simp add: q_copy_dati)
  qed
  ultimately show ?thesis
    using t(1,4) v(6) same by (intro exI[of _ "k + 1"] exI[of _ t]) (simp add: q_finished_def addr_def)
qed

definition q_machine :: qpru where "q_machine = q_blank\<lparr>memory_limit_addr := (\<lambda>i. if i = 0 then 0x20000 else 0)\<rparr>"

lemma q_machine_card: "q_card 0 0x20000 q_machine"
  by (simp add: q_card_def q_machine_def)

lemma q_machine_cells: "j < 3 \<Longrightarrow> (0x1000 :: u32) + 2 * of_nat j \<in> card_cells 0 0x20000"
  by (auto simp: less_Suc_eq numeral_3_eq_3 card_cells_def)

theorem q_dma_block_transfer_witness:
  "\<exists>k t. q_dma_run k q_silent Sm_dma_start q_machine = (None, t) \<and> ddr_words t 0x802 = 102 \<and> qm_dma_cur_addr t = 0x1004"
proof -
  have "qm_dma_startaddr q_machine + 2 * of_nat j \<in> card_cells 0 0x20000" if "j < unat (qm_dma_wordcount q_machine)" for j
    using that q_machine_cells by (simp add: q_machine_def)
  from q_dma_block_transfer[OF q_machine_card _ _ _ _ this, of q_silent] obtain k t where
    "q_dma_run k q_silent Sm_dma_start q_machine = (None, t)" "qm_dma_cur_addr t = 0x1004"
    "\<forall>j < 3. ddr_words t (unat ((0x1000 + 2 * of_nat j :: u32) div 2)) = of_nat (100 + j)"
    by (auto simp: q_machine_def QUNIBUS_CYCLE_DATO_def PRU_MAX_DMA_WORDCOUNT_def q_no_init_def q_silent_def)
  moreover from this(3)[rule_format, of 2] have "ddr_words t 0x802 = 102" by simp
  ultimately show ?thesis by blast
qed

section \<open>Grants\<close>

text \<open>C21.
  One pass of the arbitration passes a grant on to the next card exactly when the board has not signalled a request
  for it, and accepts it exactly when it has and the request still stands, so a grant is never both passed and
  accepted; a grant for DMA counts only for a request that was put on the bus. DMR
  is driven exactly for such a request or to keep the CPU off the bus. Accepting a grant does not start the DMA yet.
\<close>

theorem q_grants_passed_or_accepted:
  fixes s :: "'a qpru_scheme" and bus :: bus_lines
  assumes phys: "\<not> qp_emulate_cpu s" and ev: "EVENT_IS_ACKED (ev_deviceregister s)" and st: "qa_state s = State_grant_check"
  defines "l \<equiv> bus (bus_reads s) (latch_out s) 7" and "t \<equiv> q_arbitration_pass bus s"
  shows "(\<forall>k < 5. bit (latch_out t 7) k = (bit l k \<and> \<not> bit (qa_device_request_signalled_mask s) k)) \<and>
    (\<forall>k < 5. bit (qa_device_grant_mask t) k =
       (bit l k \<and> bit (qa_device_request_signalled_mask s) k \<and> bit (qa_device_request_mask s) k \<and> (k = 4 \<longrightarrow> qa_dmr_committed t))) \<and>
    (qa_dmr_committed t \<longrightarrow> bit (qa_device_request_mask s) 4) \<and>
    (bit (latch_out t 6) 4 = (qa_dmr_committed t \<or> qa_cpu_bus_inhibit_dmr_mask s \<noteq> 0)) \<and>
    (qa_state t = State_dma_grant_rply_sync_wait \<longrightarrow> bit (qa_device_grant_mask t) 4) \<and>
    (qa_state t = State_intr_vector \<longrightarrow> any_request (qa_device_grant_mask t)) \<and>
    qp_sm_data_master_state t = qp_sm_data_master_state s"
proof -
  let ?g = "l AND PRIORITY_ARBITRATION_BIT_MASK"
  let ?u = "snd (q_forward_grants bus s)\<lparr>qp_diag_arbitration_passes := qp_diag_arbitration_passes s + 1\<rparr>"
  have fwd: "fst (q_forward_grants bus s) = ?g"
    "qp_diag_arbitration_passes (snd (q_forward_grants bus s)) = qp_diag_arbitration_passes s"
    "\<not> qp_emulate_cpu (snd (q_forward_grants bus s))" "ev_deviceregister (snd (q_forward_grants bus s)) = ev_deviceregister s"
    using phys by (simp_all add: q_forward_grants_def Let_def split_def l_def setbits_update)
  have u: "qa_state ?u = State_grant_check" "qa_device_request_mask ?u = qa_device_request_mask s"
    "qa_device_forwarded_grant_mask ?u = ?g AND NOT (qa_device_request_signalled_mask s)"
    "qa_cpu_bus_inhibit_dmr_mask ?u = qa_cpu_bus_inhibit_dmr_mask s"
    "latch_out ?u 7 = merge_bits (cur_reg_val s 7) (?g AND NOT (qa_device_request_signalled_mask s)) PRIORITY_ARBITRATION_BIT_MASK"
    "qp_sm_data_master_state ?u = qp_sm_data_master_state s"
    using st by (simp_all add: q_forward_grants_def Let_def split_def l_def setbits_update)
  have t: "t = q_grant_check bus ?g ?u"
    using fwd ev u(1) phys
    by (simp add: t_def q_arbitration_pass_def Let_def split_def q_sm_arb_worker_device_def)
  have master: "qp_sm_data_master_state t = qp_sm_data_master_state ?u"
    unfolding t by (rule q_upper_frame(1)[OF q_grant_check_more])
  note m = q_grant_check_masks[where bus = bus and g = ?g and s = ?u, folded t, unfolded u]
  show ?thesis
    using m(4)[of 7] m(8,9) master u(5,6)
    by (auto simp: m(1-3,5-7) bit_merge_bits bit_and_iff bit_not_iff dest: bit_imp_le_length)
qed

definition q_dmg_bus :: bus_lines where "q_dmg_bus n out r = (if r = 7 then 0x10 else if r = 6 then 0x40 else 0)"

theorem q_grants_passed_or_accepted_witness:
  "bit (latch_out (q_arbitration_pass q_dmg_bus q_blank) 7) 4 \<and> \<not> bit (qa_device_grant_mask (q_arbitration_pass q_dmg_bus q_blank)) 4"
  using q_grants_passed_or_accepted[of q_blank q_dmg_bus]
  by (simp add: EVENT_IS_ACKED_def q_dmg_bus_def)

text \<open>C22.
  While the board arbitrates, the worker starts a DMA only after a grant it accepted, with DMGI
  still asserted and SYNC and RPLY of the former master negated; it then holds SACK, has taken DMR back, and
  of the requests exactly that for DMA is gone.
\<close>

theorem q_dma_starts_as_master:
  assumes np: "fst (q_sm_arb_worker_device bus g s) AND PRIORITY_ARBITRATION_BIT_NP \<noteq> 0"
    and arb: "qa_state s \<noteq> State_arbitration_noop"
  defines "t \<equiv> snd (q_sm_arb_worker_device bus g s)"
  shows "qa_state s = State_dma_grant_rply_sync_wait \<and> bit (bus (bus_reads s) (latch_out s) 6) 6 \<and>
    \<not> bit (bus (Suc (bus_reads s)) (latch_out s) 4) 0 \<and> \<not> bit (bus (Suc (bus_reads s)) (latch_out s) 4) 3 \<and>
    bit (latch_out t 6) 7 \<and> \<not> bit (latch_out t 6) 4 \<and>
    (\<forall>k. bit (qa_device_request_mask t) k = (k \<noteq> 4 \<and> bit (qa_device_request_mask s) k)) \<and>
    qa_state t = State_grant_check"
proof -
  have wait: "qa_state s = State_dma_grant_rply_sync_wait"
    using np arb by (cases "qa_state s") (auto simp: q_sm_arb_worker_device_def q_intr_complete_def Let_def split_def intr_and_NP split: if_splits)
  have l4: "l AND (BIT 0 OR BIT 3) = 0 \<longleftrightarrow> \<not> bit l 0 \<and> \<not> bit l 3" for l :: u8
    by (simp add: word8_eq_iff bit_or_iff bit_and_iff)
  show ?thesis
    using np wait
    by (auto simp: t_def q_sm_arb_worker_device_def q_dma_grant_rply_sync_wait_def Let_def split_def and_BIT l4 NP_bit
        bit_merge_bits bit_or_iff bit_and_iff bit_not_iff split: if_splits dest: bit_imp_le_length)
qed

theorem q_dma_starts_as_master_witness:
  "bit (latch_out (snd (q_sm_arb_worker_device q_dmg_bus 0 (q_blank\<lparr>qa_state := State_dma_grant_rply_sync_wait\<rparr>))) 6) 7"
  using q_dma_starts_as_master[of q_dmg_bus 0 "q_blank\<lparr>qa_state := State_dma_grant_rply_sync_wait\<rparr>"]
  by (simp add: q_sm_arb_worker_device_def q_dma_grant_rply_sync_wait_def Let_def split_def q_dmg_bus_def and_BIT and_NP NP_bit
      bit.conj_disj_distrib word8_eq_iff bit_and_iff bit_or_iff)

section \<open>Interrupts\<close>

text \<open>C8.
  When the processor acknowledges an interrupt request and asserts DIN, the board answers with RPLY and the vector of the
  granted level on DAL and takes back exactly that request, and no DMR disturbs the acknowledge. When the
  acknowledge ends, RPLY and the vector go, the event channel of that level - and no other - has one event more, and
  the worker looks for grants again. No DMA starts in between.
\<close>

theorem q_interrupt_handshake:
  fixes s :: "'a qbus_mailbox_intr_t_scheme" and i :: nat and bus bus' :: bus_lines and g g' :: u8
  assumes st: "qa_state s = State_intr_vector" "qa_device_grant_mask s = BIT i" "i < 4"
    and iak: "\<And>n out. bit (bus n out 6) 5" and din: "\<And>n out. bit (bus n out 4) 1"
    and off: "\<And>n out. \<not> bit (bus' n out 6) 5"
  defines "v \<equiv> qm_intr_vector s i" and "s' \<equiv> snd (q_sm_arb_worker_device bus g s)"
  defines "t \<equiv> snd (q_sm_arb_worker_device bus' g' s')"
  shows "bit (latch_out s' 4) 3 \<and> latch_out s' 0 = ucast v \<and> latch_out s' 1 = ucast (drop_bit 8 v) \<and>
    (\<forall>k. bit (qa_device_request_mask s') k = (bit (qa_device_request_mask s) k \<and> k \<noteq> i)) \<and>
    \<not> bit (latch_out s' 6) 4 \<and>
    \<not> bit (latch_out t 4) 3 \<and> latch_out t 0 = 0 \<and> latch_out t 1 = 0 \<and>
    qm_ev_intr_master t = (qm_ev_intr_master s)(i := EVENT_SIGNAL (qm_ev_intr_master s i)) \<and>
    arm_interrupts t = arm_interrupts s + 1 \<and> qa_device_request_mask t = qa_device_request_mask s' \<and>
    qa_dmr_holdoff_active t \<and> qa_state t = State_grant_check \<and> array_oob t = array_oob s \<and>
    fst (q_sm_arb_worker_device bus g s) = 0 \<and> \<not> bit (fst (q_sm_arb_worker_device bus' g' s')) 4"
  using q_intr_vector_step[OF st(2,3), of bus] q_intr_complete_step[of bus' s'] st iak din off
  by (simp add: s'_def t_def v_def q_sm_arb_worker_device_def)

definition q_iak_bus :: bus_lines where "q_iak_bus n out r = (if r = 6 then 0x20 else if r = 4 then 2 else 0)"

lemma q_iak_bus_lines [simp]: "bit (q_iak_bus n out 6) 5" "bit (q_iak_bus n out 4) 1" "bit (q_iak_bus n out 4) (Suc 0)" "\<not> bit (q_silent n out r) k"
  by (simp_all add: q_iak_bus_def q_silent_def)

theorem q_interrupt_handshake_witness:
  "let s = q_blank\<lparr>qa_state := State_intr_vector, qa_device_grant_mask := BIT 1\<rparr>;
       t = snd (q_sm_arb_worker_device q_iak_bus 0 s)
   in latch_out t 0 = 4 \<and> latch_out t 1 = 1 \<and> bit (latch_out t 4) 3"
  using q_interrupt_handshake[where s = "q_blank\<lparr>qa_state := State_intr_vector, qa_device_grant_mask := BIT 1\<rparr>"
      and i = 1 and bus = q_iak_bus and bus' = q_silent and g = 0 and g' = 0]
  by (simp add: Let_def)

text \<open>C24.
  An acknowledge that meets no request of the board any more, because the device has withdrawn it, is not left
  without an answer: the board takes it over and gives the vector of the level that was withdrawn, and
  afterwards the worker is as before, with no event for the ARM and no other request touched.
\<close>

theorem q_withdrawn_interrupt_answered:
  fixes s :: "'a qbus_mailbox_intr_t_scheme" and i :: nat and bus bus' :: bus_lines and g g' :: u8
  assumes st: "qa_state s = State_grant_check" "g AND qa_device_request_mask s = 0" "i < 4"
    and why: "g AND PRIORITY_ARBITRATION_INTR_MASK = BIT i \<and> \<not> bit (qa_device_forwarded_grant_mask s) i \<or>
      g AND PRIORITY_ARBITRATION_INTR_MASK = 0 \<and> qa_canceled_request_mask s AND PRIORITY_ARBITRATION_INTR_MASK = BIT i"
    and iak: "\<And>n out. bit (bus n out 6) 5" and din: "\<And>n out. bit (bus n out 4) 1"
    and off: "\<And>n out. \<not> bit (bus' n out 6) 5"
  defines "v \<equiv> qm_intr_vector s i" and "u \<equiv> snd (q_sm_arb_worker_device bus g s)"
  defines "w \<equiv> snd (q_sm_arb_worker_device bus g u)"
  defines "t \<equiv> snd (q_sm_arb_worker_device bus' g' w)"
  shows "bit (latch_out w 4) 3 \<and> latch_out w 0 = ucast v \<and> latch_out w 1 = ucast (drop_bit 8 v) \<and>
    \<not> bit (latch_out t 4) 3 \<and> latch_out t 0 = 0 \<and> latch_out t 1 = 0 \<and>
    \<not> bit (qa_canceled_request_mask t) i \<and> qm_ev_intr_master t = qm_ev_intr_master s \<and>
    qa_device_request_mask t = qa_device_request_mask s \<and> qa_dmr_holdoff_active t \<and> qa_state t = State_grant_check"
proof -
  note c = q_orphan_check_step[where bus = bus and g = g and s = s and i = i, OF iak st(2,3) why]
  have u: "u = q_grant_check bus g s" by (simp add: u_def q_sm_arb_worker_device_def st(1))
  have w: "w = q_orphan_vector bus u" by (simp add: w_def q_sm_arb_worker_device_def c(1) u)
  note w' = q_orphan_steps(1)[where bus = bus and s = u, OF iak din, folded w]
  have "qa_state w = State_orphan_complete" by (simp add: w')
  then have t: "t = q_orphan_complete bus' w" by (simp add: t_def q_sm_arb_worker_device_def)
  note t' = q_orphan_steps(2)[where bus = bus' and s = w, OF off, folded t]
  have lv: "qm_intr_vector u (qa_intr_level_index u) = v" using c(2,5) u by (simp add: v_def)
  have keep: "qa_canceled_request_mask w = qa_canceled_request_mask u" "qm_ev_intr_master w = qm_ev_intr_master u"
    "qa_device_request_mask w = qa_device_request_mask u"
    by (simp_all add: w' q_put_vector_def)
  show ?thesis
    using c u keep unfolding t' by (simp add: w' lv v_def q_put_vector_def bit_merge_bits ucast_low)
qed

theorem q_withdrawn_interrupt_answered_witness:
  "let s = q_blank\<lparr>qa_canceled_request_mask := BIT 2\<rparr>;
       t = snd (q_sm_arb_worker_device q_iak_bus 0 (snd (q_sm_arb_worker_device q_iak_bus 0 s)))
   in latch_out t 0 = 8 \<and> latch_out t 1 = 1 \<and> bit (latch_out t 4) 3"
proof -
  have "BIT 2 AND PRIORITY_ARBITRATION_INTR_MASK = BIT 2"
    by (simp add: word8_eq_iff bit_and_iff intr_mask_bit)
  with q_withdrawn_interrupt_answered[where s = "q_blank\<lparr>qa_canceled_request_mask := BIT 2\<rparr>"
      and i = 2 and bus = q_iak_bus and bus' = q_silent and g = 0 and g' = 0]
  show ?thesis by (simp add: Let_def)
qed

section \<open>Slave cycles\<close>

text \<open>C30.
  Another master that writes words to the memory card in one block (DATBO) and reads the same addresses
  in one block (DATBI) gets every word back. Every word of either block is answered with RPLY, each strobe moves
  the address on by one word, and no word outside the block changes.
\<close>

theorem q_slave_block_roundtrip:
  fixes s :: "'a qbus_data_slave_t_scheme" and a :: u32 and lo hi :: u32 and n :: nat and b b' :: "nat \<Rightarrow> bus_lines"
  assumes s: "q_ready lo hi s" and n: "n \<le> 0x1000"
    and addr: "q_addresses a0 a" "q_addresses a1 a" "unat a < 2 ^ 23"
    and wr: "q_block_bus 2 n b" "\<And>k. k < n \<Longrightarrow> q_carries (b (3 * k)) (w k)" and rd: "q_block_bus 1 n b'"
    and cells: "\<And>k. k < n \<Longrightarrow> a + 2 * of_nat k \<in> card_cells lo hi"
  defines "s' \<equiv> snd (q_slave_turn a0 State_data_slave_stop s)"
  defines "t \<equiv> snd (q_slave_turns (3 * n) b State_data_slave_dindout_start s')"
  defines "t' \<equiv> snd (q_slave_turn a1 State_data_slave_stop t)"
  defines "v \<equiv> \<lambda>k. snd (q_slave_turns (3 * k + 1) b State_data_slave_dindout_start s')"
    and "u \<equiv> \<lambda>k. snd (q_slave_turns (3 * k + 1) b' State_data_slave_dindout_start t')"
  shows "(\<forall>k < n. bit (latch_out (v k) 4) 3) \<and>
    (\<forall>k < n. ddr_words t (unat ((a + 2 * of_nat k) div 2)) = w k) \<and>
    (\<forall>j. (\<forall>k < n. j \<noteq> unat ((a + 2 * of_nat k) div 2)) \<longrightarrow> ddr_words t j = ddr_words s j) \<and>
    (\<forall>k < n. bit (latch_out (u k) 4) 3 \<and> latch_out (u k) 0 = ucast (w k) \<and> latch_out (u k) 1 = ucast (drop_bit 8 (w k)))"
proof -
  have s': "s' = s\<lparr>bus_reads := bus_reads s + 3, qsl_addr := a\<rparr>"
    unfolding s'_def q_slave_addressed[OF addr(1,3)] by simp
  have ready: "q_ready lo hi s'" "qsl_addr s' = a" "ddr_words s' = ddr_words s"
    using s by (simp_all add: s' q_ready_def q_card_def)
  have "qsl_addr s' + 2 * of_nat k \<in> card_cells lo hi" if "k < n" for k using cells that ready by simp
  from q_slave_block_writes[OF ready(1) wr n this] have
    t: "q_ready lo hi t" "\<And>k. k < n \<Longrightarrow> ddr_words t (unat ((a + 2 * of_nat k) div 2)) = w k"
      "\<And>j. (\<forall>k < n. j \<noteq> unat ((a + 2 * of_nat k) div 2)) \<Longrightarrow> ddr_words t j = ddr_words s j"
      "\<And>k. k < n \<Longrightarrow> bit (latch_out (v k) 4) 3"
    unfolding t_def v_def ready(2,3) by (metis snd_conv)+
  have t': "t' = t\<lparr>bus_reads := bus_reads t + 3, qsl_addr := a\<rparr>"
    unfolding t'_def q_slave_addressed[OF addr(2,3)] by simp
  have ready': "q_ready lo hi t'" "qsl_addr t' = a" "ddr_words t' = ddr_words t"
    using t(1) by (simp_all add: t' q_ready_def q_card_def)
  have "qsl_addr t' + 2 * of_nat k \<in> card_cells lo hi" if "k < n" for k using cells that ready' by simp
  from q_slave_reads[OF ready'(1) rd this] have
    "\<forall>k < n. let x = u k in bit (latch_out x 4) 3 \<and> latch_out x 0 = ucast (ddr_words t (unat ((a + 2 * of_nat k) div 2))) \<and>
      latch_out x 1 = ucast (drop_bit 8 (ddr_words t (unat ((a + 2 * of_nat k) div 2))))"
    unfolding u_def ready'(2,3) by blast
  then show ?thesis using t by (simp add: Let_def)
qed

definition q_master_bus :: "u8 \<Rightarrow> u16 \<Rightarrow> bus_lines" where
  "q_master_bus l4 w n out r = (if r = 0 then ucast w else if r = 1 then ucast (drop_bit 8 w) else if r = 4 then l4 else 0)"

definition q_address_bus :: "u32 \<Rightarrow> bus_lines" where
  "q_address_bus a n out r = (if r = 0 then ucast a else if r = 1 then ucast (drop_bit 8 a)
     else if r = 2 then ucast (drop_bit 16 a) OR BIT 7 else 0)"

definition q_strobes :: "nat \<Rightarrow> (nat \<Rightarrow> u16) \<Rightarrow> nat \<Rightarrow> bus_lines" where
  "q_strobes strobe w j = (if j mod 3 = 1 then q_master_bus (BIT 0) 0 else q_master_bus (BIT 0 OR BIT strobe) (w (j div 3)))"

lemma q_strobes_block: "q_block_bus 2 n (q_strobes 2 w)" "q_block_bus 1 n (q_strobes 1 w)"
proof -
  have m: "(3 * k) mod 3 = 0" "(3 * k + 1) mod 3 = 1" "(3 * k + 2) mod 3 = 2" for k :: nat by presburger+
  show "q_block_bus 2 n (q_strobes 2 w)" "q_block_bus 1 n (q_strobes 1 w)"
    unfolding q_block_bus_def q_shows_def q_strobes_def q_master_bus_def m by (auto simp: bit_or_iff)
qed

theorem q_slave_block_roundtrip_witness:
  "let w = (\<lambda>k. of_nat (k + 7)); s = snd (q_slave_turn (q_address_bus 0x1000) State_data_slave_stop q_machine);
       t = snd (q_slave_turns (3 * 3) (q_strobes 2 w) State_data_slave_dindout_start s);
       t' = snd (q_slave_turn (q_address_bus 0x1000) State_data_slave_stop t)
   in latch_out (snd (q_slave_turns (3 * 2 + 1) (q_strobes 1 w) State_data_slave_dindout_start t')) 0 = 9"
proof -
  let ?w = "\<lambda>k. of_nat (k + 7) :: u16"
  have ready: "q_ready 0 0x20000 q_machine" using q_machine_card by (simp add: q_ready_def q_machine_def EVENT_IS_ACKED_def)
  have addr: "q_addresses (q_address_bus 0x1000) 0x1000" by (simp add: q_addresses_def q_address_bus_def)
  have data: "q_carries (q_strobes 2 ?w (3 * k)) (?w k)" if "k < 3" for k
    by (simp add: q_carries_def q_strobes_def q_master_bus_def)
  have bounds: "(3 :: nat) \<le> 0x1000" "unat (0x1000 :: u32) < 2 ^ 23" by simp_all
  note r = q_slave_block_roundtrip[OF ready bounds(1) addr addr bounds(2) q_strobes_block(1) data q_strobes_block(2) q_machine_cells]
  note r = r[THEN conjunct2, THEN conjunct2, THEN conjunct2, rule_format, of 2]
  show ?thesis unfolding Let_def by (subst r[THEN conjunct2, THEN conjunct1]) simp_all
qed

section \<open>Timeouts\<close>

lemma q_cycle_after:
  assumes "q_ctr_en s"
  shows "unat (q_cycle (q_cycles_pass n s)) = min (unat (q_cycle s) + n) 0xFFFFFFFF"
    "q_target_cycles (q_cycles_pass n s) = q_target_cycles s" "q_roll_over (q_cycles_pass n s) = q_roll_over s"
    "q_ctr_en (q_cycles_pass n s) \<longleftrightarrow> unat (q_cycle s) + n < 0xFFFFFFFF"
  using assms by (simp_all add: q_cycles_pass_def Let_def unat_of_nat take_bit_nat_eq_self min_def)

lemma unat_succ: "unat ((x :: u32) + 1) = (if unat x = 0xFFFFFFFF then 0 else unat x + 1)"
proof -
  have "unat x < 2 ^ 32" using unsigned_less[of x] by simp
  then show ?thesis by (auto simp: unat_word_ariths take_bit_eq_mod mod_if)
qed

lemma q_REACHED_iff:
  "fst (q_TIMEOUT_REACHED i s) \<longleftrightarrow>
     \<not> (q_roll_over s i \<and> unat (q_cycle s + 1) > 0x80000000) \<and> unat (q_target_cycles s i) \<le> unat (q_cycle s + 1)"
  by (simp add: q_TIMEOUT_REACHED_def q_cycles_now_def Let_def word_less_nat_alt word_le_nat_alt)

lemma q_SET_fields:
  assumes "unat (q_cycle s) < 0xFFFFFFFF"
  shows "q_target_cycles (q_TIMEOUT_SET i d s) i = q_cycle s + 1 + d"
    "q_roll_over (q_TIMEOUT_SET i d s) i \<longleftrightarrow> q_cycle s + 1 + d < q_cycle s + 1"
    "q_cycle (q_TIMEOUT_SET i d s) = q_cycle s" "q_ctr_en (q_TIMEOUT_SET i d s) = q_ctr_en s"
proof -
  have "q_cycle s + 1 \<noteq> 0" using assms by (metis unat_succ unat_0 Suc_eq_plus1 less_irrefl nat.distinct(1))
  then show "q_target_cycles (q_TIMEOUT_SET i d s) i = q_cycle s + 1 + d"
    "q_roll_over (q_TIMEOUT_SET i d s) i \<longleftrightarrow> q_cycle s + 1 + d < q_cycle s + 1"
    "q_cycle (q_TIMEOUT_SET i d s) = q_cycle s" "q_ctr_en (q_TIMEOUT_SET i d s) = q_ctr_en s"
    by (simp_all add: q_TIMEOUT_SET_def q_cycles_now_def Let_def)
qed

text \<open>C32.
  A timeout of less than half the range of the cycle counter is reached exactly when its delay has passed, as long as the counter has
  not run to its end. A poll that finds the counter stopped at its end starts it again at 0; it reports
  only a timeout that ends at the very last count, and any other is reported when the new count has come to
  the end of the timeout modulo the range - for a timeout that ended just before the stop, that is a full range later.
\<close>

theorem q_timeout_fires:
  fixes s :: "'a qbus_timeouts_t_scheme" and n i :: nat
  assumes run: "q_ctr_en s" "unat (q_cycle s) < 0xFFFFFFFF" and delay: "unat d < 2 ^ 31"
  defines "c \<equiv> unat (q_cycle s) + 1" and "t \<equiv> q_cycles_pass n (q_TIMEOUT_SET i d s)"
  defines "u \<equiv> snd (q_TIMEOUT_REACHED i t)"
  shows "(c + n < 2 ^ 32 \<longrightarrow> fst (q_TIMEOUT_REACHED i t) = (unat d \<le> n) \<and> u = t) \<and>
    (2 ^ 32 \<le> c + n \<longrightarrow> fst (q_TIMEOUT_REACHED i t) = (c + unat d = 2 ^ 32) \<and> q_cycle u = 0 \<and> q_ctr_en u \<and>
       (\<forall>m < 2 ^ 31. fst (q_TIMEOUT_REACHED i (q_cycles_pass m u)) = ((c + unat d) mod 2 ^ 32 \<le> m + 1)))"
proof -
  have c: "unat (q_cycle s + 1) = c" "0 < c" "c < 2 ^ 32" using run(2) by (simp_all add: unat_succ c_def)
  have tgt: "unat (q_cycle s + 1 + d) = (c + unat d) mod 2 ^ 32"
    using unat_word_ariths(1)[of "q_cycle s + 1" d] by (simp only: c(1)) simp
  have roll: "q_cycle s + 1 + d < q_cycle s + 1 \<longleftrightarrow> 2 ^ 32 \<le> c + unat d"
    using c unsigned_less[of d] delay by (auto simp: word_less_nat_alt tgt mod_if)
  note set = q_SET_fields[OF run(2), of i d]
  have en: "q_ctr_en (q_TIMEOUT_SET i d s)" using run(1) set by simp
  have t: "unat (q_cycle t) = min (c - 1 + n) 0xFFFFFFFF" "q_target_cycles t i = q_cycle s + 1 + d"
    "q_roll_over t i \<longleftrightarrow> 2 ^ 32 \<le> c + unat d" "q_ctr_en t \<longleftrightarrow> c - 1 + n < 0xFFFFFFFF"
    using q_cycle_after[OF en, of n] set roll by (simp_all add: t_def c_def)
  have early: "fst (q_TIMEOUT_REACHED i t) = (unat d \<le> n) \<and> u = t" if n: "c + n < 2 ^ 32"
  proof -
    have now: "unat (q_cycle t + 1) = c + n" using t(1) n c(2) by (auto simp: unat_succ)
    then have "q_cycle t + 1 \<noteq> 0" using c(2) by (metis unat_0 add_is_0 less_numeral_extra(3))
    then have "u = t" by (simp add: u_def q_TIMEOUT_REACHED_def q_cycles_now_def Let_def)
    then show ?thesis
      using n delay c unfolding q_REACHED_iff now t(2,3) tgt by (auto simp: mod_if)
  qed
  have late: "fst (q_TIMEOUT_REACHED i t) = (c + unat d = 2 ^ 32) \<and> q_cycle u = 0 \<and> q_ctr_en u \<and>
      q_target_cycles u i = q_cycle s + 1 + d \<and> q_roll_over u i = (2 ^ 32 \<le> c + unat d)" if n: "2 ^ 32 \<le> c + n"
  proof -
    have now: "unat (q_cycle t + 1) = 0" using t(1) n by (auto simp: unat_succ)
    then have "q_cycle t + 1 = 0" by (simp only: unat_eq_0)
    then have "q_cycle u = 0 \<and> q_ctr_en u \<and> q_target_cycles u i = q_target_cycles t i \<and> q_roll_over u i = q_roll_over t i"
      by (simp add: u_def q_TIMEOUT_REACHED_def q_cycles_now_def Let_def)
    moreover have "fst (q_TIMEOUT_REACHED i t) = (c + unat d = 2 ^ 32)"
      using c delay unfolding q_REACHED_iff now t(2,3) tgt by (auto simp: mod_if)
    ultimately show ?thesis using t(2,3) by simp
  qed
  have after: "fst (q_TIMEOUT_REACHED i (q_cycles_pass m u)) = ((c + unat d) mod 2 ^ 32 \<le> m + 1)"
    if "2 ^ 32 \<le> c + n" "m < 2 ^ 31" for m
  proof -
    note u = late[OF that(1)]
    have p: "unat (q_cycle (q_cycles_pass m u)) = m" "q_target_cycles (q_cycles_pass m u) i = q_cycle s + 1 + d"
      "q_roll_over (q_cycles_pass m u) i = (2 ^ 32 \<le> c + unat d)"
      using q_cycle_after[of u m] u that(2) by simp_all
    have now: "unat (q_cycle (q_cycles_pass m u) + 1) = m + 1" using p(1) that(2) by (simp add: unat_succ)
    show ?thesis
      using that(2) unfolding q_REACHED_iff now p(2,3) tgt by auto
  qed
  show ?thesis using early late after by blast
qed

theorem q_timeout_fires_witness:
  "fst (q_TIMEOUT_REACHED 0 (q_cycles_pass 100 (q_TIMEOUT_SET 0 100 q_blank))) \<and>
   \<not> fst (q_TIMEOUT_REACHED 0 (q_cycles_pass 99 (q_TIMEOUT_SET 0 100 q_blank)))"
  using q_timeout_fires[where s = q_blank and d = 100 and i = 0 and n = 100]
    q_timeout_fires[where s = q_blank and d = 100 and i = 0 and n = 99] by simp

end
