(* ===== verification/CpuOnBoard.thy ===== *)
theory CpuOnBoard
  imports KA11_Lemmas PruDma_Props
begin

unbundle bit_operations_syntax

text \<open>
  An emulated CPU on the emulated memory card. Its bus cycles are DMA transfers of one word
  that the firmware runs for it (\<open>dma.cpu_access\<close>), so a program passes through three
  components: the core, the DMA state machine, the memory. What the core needs of a memory
  is the locale \<open>cpu_memory\<close>; the board provides it.
\<close>

section \<open>What a core needs of its memory\<close>

locale cpu_memory = word_store rd wr ok cells
  for rd :: "u32 \<Rightarrow> 's \<Rightarrow> u16 option \<times> 's" and wr :: "u32 \<Rightarrow> u16 \<Rightarrow> 's \<Rightarrow> bool \<times> 's"
    and ok :: "'s \<Rightarrow> bool" and cells :: "u32 set" +
  fixes bus :: "'s bus_ops"
  assumes dati: "ok e \<Longrightarrow> a \<in> cells \<Longrightarrow> unibone_dati bus a e = (map_option ucast (fst (rd a e)), snd (rd a e))"
    and dato: "ok e \<Longrightarrow> a \<in> cells \<Longrightarrow> unibone_dato bus a w e = wr a w e"
    and level_ok: "ok e \<Longrightarrow> ok (unibone_prioritylevelchange bus l e)"
    and level_rd: "ok e \<Longrightarrow> a \<in> cells \<Longrightarrow> fst (rd a (unibone_prioritylevelchange bus l e)) = fst (rd a e)"

text \<open>An address of a program that is a word of the memory.\<close>

definition cpu_cell :: "u32 set \<Rightarrow> u16 \<Rightarrow> bool" where
  "cpu_cell cells a \<longleftrightarrow> \<not> ka_odd a \<and> a AND 0xFF00 \<noteq> 0xFF00 \<and> ubxt a \<in> cells"

lemma ubxt_low: "ucast (ubxt a) = a"
  by (rule bit_word_eqI) (auto simp: ubxt_def bit_simps numeral_eq_Suc less_Suc_eq)

lemma ubxt_inj: "ubxt a = ubxt b \<longleftrightarrow> a = b"
  by (metis ubxt_low)

lemma ubxt_even:
  assumes "\<not> ka_odd a"
  shows "ubxt a AND NOT 1 = ubxt a"
proof (rule bit_word_eqI)
  fix n assume "n < LENGTH(32)"
  have "\<not> bit a 0" using assms by (simp add: ka_odd_def and_one_eq mod_2_eq_odd bit_0)
  then have "\<not> bit (ubxt a) 0" by (simp add: ubxt_def bit_or_iff bit_ucast_iff)
  then show "bit (ubxt a AND NOT 1) n = bit (ubxt a) n"
    using \<open>n < LENGTH(32)\<close> by (cases "n = 0") (simp_all only: bit_and_iff bit_not_iff bit_1_iff, simp_all)
qed

lemma ucast_back: "ucast (ucast (w :: u16) :: u32) = w"
  by (rule bit_word_eqI) (simp add: bit_ucast_iff)

lemma psw_back: "ucast (ucast (p :: u8) :: u16) = p"
  by (rule bit_word_eqI) (simp add: bit_ucast_iff)

context cpu_memory
begin

lemma push:
  assumes "ok (ka_env s)" "cpu_cell cells a"
  shows "ka_OUT bus a d s = (False, s\<lparr>ka_ba := a, ka_bdata := d, ka_env := snd (wr (ubxt a) d (ka_env s)), ka_be := 0\<rparr>)"
  using assms dato[of "ka_env s" "ubxt a" d] wr_answers[of "ka_env s" "ubxt a" d]
  by (cases "wr (ubxt a) d (ka_env s)")
    (simp add: ka_OUT_def ka_dato_def cpu_cell_def ubxt_even[simplified] ubxt_even ka_cycle_ok_def Let_def)

lemma fetch:
  assumes "ok (ka_env s)" "cpu_cell cells (ka_ba s)" "fst (rd (ubxt (ka_ba s)) (ka_env s)) = Some w"
  shows "ka_dati bus False s = (False, s\<lparr>ka_env := snd (rd (ubxt (ka_ba s)) (ka_env s)), ka_bdata := w, ka_be := 0\<rparr>)"
  using assms dati[of "ka_env s" "ubxt (ka_ba s)"]
  by (simp add: ka_dati_def cpu_cell_def ubxt_even[simplified] ubxt_even ka_cycle_ok_def Let_def ucast_back)

text \<open>A trap through a vector of the memory.\<close>

lemma trap_enters:
  fixes s :: "'s ka_mach"
  defines "sp \<equiv> ka_r s 6" and "v \<equiv> ka_r s 10"
  assumes ok: "ok (ka_env s)"
    and cells: "cpu_cell cells (sp - 2)" "cpu_cell cells (sp - 4)" "cpu_cell cells v" "cpu_cell cells (v + 2)"
    and apart: "v \<notin> {sp - 2, sp - 4}" "v + 2 \<notin> {sp - 2, sp - 4}"
    and vec: "fst (rd (ubxt v) (ka_env s)) = Some pc" "fst (rd (ubxt (v + 2)) (ka_env s)) = Some ps"
  obtains t where "ka_trap_seq bus s = (KaReturn, t)" "ka_r t = (ka_r s)(6 := sp - 4, 7 := pc)" "ka_psw t = ucast ps"
    "ok (ka_env t)" "fst (rd (ubxt (sp - 2)) (ka_env t)) = Some (ucast (ka_psw s))"
    "fst (rd (ubxt (sp - 4)) (ka_env t)) = Some (ka_r s 7)"
    "\<And>b. b \<in> cells \<Longrightarrow> b \<notin> {ubxt (sp - 2), ubxt (sp - 4)} \<Longrightarrow> fst (rd b (ka_env t)) = fst (rd b (ka_env s))"
    "ka_external_intr t = ka_external_intr s"
    "\<exists>e. ka_env t = unibone_prioritylevelchange bus (drop_bit 5 (ucast ps)) e"
proof -
  have c: "ubxt (sp - 2) \<in> cells" "ubxt (sp - 4) \<in> cells" "ubxt v \<in> cells" "ubxt (v + 2) \<in> cells"
    using cells by (simp_all add: cpu_cell_def)
  have sp: "sp - 2 \<noteq> sp - 4" by simp
  define s1 where "s1 = ka_PUSH s"
  have s1: "ka_r s1 = (ka_r s)(6 := sp - 2)" "ka_psw s1 = ka_psw s" "ka_env s1 = ka_env s"
    by (simp_all add: s1_def ka_PUSH_def ka_set_r_def Let_def sp_def)
  define e1 where "e1 = snd (wr (ubxt (sp - 2)) (ucast (ka_psw s)) (ka_env s))"
  define s2 where "s2 = s1\<lparr>ka_ba := sp - 2, ka_bdata := ucast (ka_psw s), ka_env := e1, ka_be := 0\<rparr>"
  have o1: "ka_OUT bus (sp - 2) (ucast (ka_psw s)) s1 = (False, s2)"
    using push[of s1 "sp - 2" "ucast (ka_psw s)"] ok cells s1 by (simp add: s2_def e1_def)
  have e1: "ok e1" "\<And>b. b \<in> cells \<Longrightarrow> fst (rd b e1) = (if b = ubxt (sp - 2) then Some (ucast (ka_psw s)) else fst (rd b (ka_env s)))"
    using ok c by (simp_all add: e1_def wr_ok rd_wr)
  define s3 where "s3 = ka_PUSH s2"
  have s3: "ka_r s3 = (ka_r s)(6 := sp - 4)" "ka_psw s3 = ka_psw s" "ka_env s3 = e1"
    by (simp_all add: s3_def s2_def s1 ka_PUSH_def ka_set_r_def Let_def)
  define e2 where "e2 = snd (wr (ubxt (sp - 4)) (ka_r s 7) e1)"
  define s4 where "s4 = s3\<lparr>ka_ba := sp - 4, ka_bdata := ka_r s 7, ka_env := e2, ka_be := 0\<rparr>"
  have o2: "ka_OUT bus (sp - 4) (ka_r s 7) s3 = (False, s4)"
    using push[of s3 "sp - 4" "ka_r s 7"] e1(1) cells s3 by (simp add: s4_def e2_def)
  have e2: "ok e2" "\<And>b. b \<in> cells \<Longrightarrow> fst (rd b e2) = (if b = ubxt (sp - 4) then Some (ka_r s 7) else fst (rd b e1))"
    using e1 c by (simp_all add: e2_def wr_ok rd_wr)
  define e3 where "e3 = snd (rd (ubxt v) e2)"
  define s5 where "s5 = s4\<lparr>ka_ba := v, ka_env := e3, ka_bdata := pc, ka_be := 0\<rparr>"
  have "fst (rd (ubxt v) e2) = Some pc"
    using c apart vec by (simp add: e2(2) e1(2) ubxt_inj)
  then have i1: "ka_INA bus v s4 = (False, s5)"
    using fetch[of "s4\<lparr>ka_ba := v\<rparr>" pc] e2(1) cells by (simp add: ka_INA_def s5_def s4_def e3_def)
  have e3: "ok e3" "\<And>b. b \<in> cells \<Longrightarrow> fst (rd b e3) = fst (rd b e2)"
    using e2(1) c by (simp_all add: e3_def rd_ok rd_rd)
  define s6 where "s6 = ka_set_r 7 pc s5"
  have s6: "ka_r s6 = (ka_r s)(6 := sp - 4, 7 := pc)" "ka_env s6 = e3"
    by (simp_all add: s6_def s5_def s4_def s3 ka_set_r_def)
  define e4 where "e4 = snd (rd (ubxt (v + 2)) e3)"
  define s7 where "s7 = s6\<lparr>ka_ba := v + 2, ka_env := e4, ka_bdata := ps, ka_be := 0\<rparr>"
  have "fst (rd (ubxt (v + 2)) e3) = Some ps"
    using c apart vec by (simp add: e3(2) e2(2) e1(2) ubxt_inj)
  then have i2: "ka_INA bus (v + 2) s6 = (False, s7)"
    using fetch[of "s6\<lparr>ka_ba := v + 2\<rparr>" ps] e3(1) cells s6 by (simp add: ka_INA_def s7_def e4_def)
  have e4: "ok e4" "\<And>b. b \<in> cells \<Longrightarrow> fst (rd b e4) = fst (rd b e3)"
    using e3(1) c by (simp_all add: e4_def rd_ok rd_rd)
  let ?e = "unibone_prioritylevelchange bus (drop_bit 5 (ucast ps)) e4"
  define t where "t = s7\<lparr>ka_psw := ucast ps, ka_env := ?e, ka_oldpsw := ucast ps\<rparr>"
  have regs: "ka_r s3 6 = sp - 4" "ka_r s3 7 = ka_r s 7" "ka_r s1 6 = sp - 2" "ka_r s4 10 = v" "ka_r s6 10 = v"
    "ka_bdata s5 = pc" "ka_bdata s7 = ps" "ka_env s7 = e4"
    by (simp_all add: s4_def s3 s1 s6 v_def s5_def s7_def)
  have "ka_trap_seq bus s = (KaReturn, t)"
    unfolding ka_trap_seq_def ka_try_def Let_def s1_def[symmetric] regs s1(2) o1 fst_conv snd_conv if_False
      s3_def[symmetric] o2 i1 s6_def[symmetric] i2
    by (simp add: t_def ka_levelchange_def regs)
  moreover have "fst (rd (ubxt (sp - 2)) ?e) = Some (ucast (ka_psw s))" "fst (rd (ubxt (sp - 4)) ?e) = Some (ka_r s 7)" "ok ?e"
    using c e4 sp by (simp_all add: level_rd level_ok e3(2) e2(2) e1(2) ubxt_inj)
  moreover have "fst (rd b ?e) = fst (rd b (ka_env s))" if "b \<in> cells" "b \<notin> {ubxt (sp - 2), ubxt (sp - 4)}" for b
    using that e4 by (simp add: level_rd e3(2) e2(2) e1(2))
  moreover have "ka_external_intr t = ka_external_intr s"
    by (simp add: t_def s7_def s6_def s5_def s4_def s3_def s2_def s1_def ka_PUSH_def ka_set_r_def Let_def)
  ultimately show ?thesis
    using that[of t] by (auto simp: t_def s7_def s6)
qed

text \<open>A return from a frame on a stack in the memory.\<close>

lemma rti_returns:
  fixes u :: "'s ka_mach"
  defines "sp \<equiv> ka_r u 6"
  assumes ok: "ok (ka_env u)" and cells: "cpu_cell cells sp" "cpu_cell cells (sp + 2)"
    and frame: "fst (rd (ubxt sp) (ka_env u)) = Some pc" "fst (rd (ubxt (sp + 2)) (ka_env u)) = Some (ucast p)"
  obtains t where "ka_RTI bus u = (KaService, t)" "ka_r t = (ka_r u)(6 := sp + 4, 7 := pc)" "ka_psw t = p" "ok (ka_env t)"
    "ka_oldpsw t = ka_oldpsw u" "ka_traps t = ka_traps u" "\<exists>e. ka_env t = unibone_prioritylevelchange bus (drop_bit 5 p) e"
proof -
  have c: "ubxt sp \<in> cells" "ubxt (sp + 2) \<in> cells" using cells by (simp_all add: cpu_cell_def)
  define u1 where "u1 = ka_BA_SP_POP u"
  have u1: "ka_r u1 = (ka_r u)(6 := sp + 2)" "ka_ba u1 = sp" "ka_env u1 = ka_env u"
    by (simp_all add: u1_def ka_BA_SP_POP_def ka_set_r_def sp_def)
  define e1 where "e1 = snd (rd (ubxt sp) (ka_env u))"
  define u2 where "u2 = u1\<lparr>ka_env := e1, ka_bdata := pc, ka_be := 0\<rparr>"
  have f1: "ka_dati bus False u1 = (False, u2)"
    using fetch[of u1 pc] ok cells frame u1 by (simp add: u2_def e1_def)
  have e1: "ok e1" "fst (rd (ubxt (sp + 2)) e1) = Some (ucast p)"
    using ok c frame by (simp_all add: e1_def rd_ok rd_rd)
  define u3 where "u3 = ka_BA_SP_POP (ka_set_r 7 pc u2)"
  have u3: "ka_r u3 = (ka_r u)(6 := sp + 4, 7 := pc)" "ka_ba u3 = sp + 2" "ka_env u3 = e1"
    by (auto simp: u3_def ka_BA_SP_POP_def ka_set_r_def u2_def u1)
  have keep: "ka_oldpsw u3 = ka_oldpsw u" "ka_traps u3 = ka_traps u"
    by (simp_all add: u3_def u2_def u1_def ka_BA_SP_POP_def ka_set_r_def)
  define e2 where "e2 = snd (rd (ubxt (sp + 2)) e1)"
  define u4 where "u4 = u3\<lparr>ka_env := e2, ka_bdata := ucast p, ka_be := 0\<rparr>"
  have f2: "ka_dati bus False u3 = (False, u4)"
    using fetch[of u3 "ucast p"] e1 cells u3 by (simp add: u4_def e2_def)
  have e2: "ok e2" using e1 c by (simp add: e2_def rd_ok)
  let ?t = "u4\<lparr>ka_psw := p, ka_env := unibone_prioritylevelchange bus (drop_bit 5 p) e2\<rparr>"
  have d: "ka_bdata u2 = pc" by (simp add: u2_def)
  have "ka_RTI bus u = (KaService, ?t)"
    by (simp add: ka_RTI_def Let_def ka_try_def u1_def[symmetric] f1 d u3_def[symmetric] f2)
      (simp add: u4_def psw_back ka_levelchange_def ka_svc_def)
  then show ?thesis using that[of ?t] e2 by (auto simp: u4_def u3 level_ok keep)
qed

end

section \<open>The board\<close>

text \<open>
  The mailbox of a CPU transfer as \<open>qunibusadapter_c\<close> fills it: one word, \<open>cpu_access\<close>, and the
  word to write in the buffer.
\<close>

definition cpu_dma_request :: "u32 \<Rightarrow> u8 \<Rightarrow> u16 \<Rightarrow> 'a statemachine_intr_master_t_scheme \<Rightarrow> 'a statemachine_intr_master_t_scheme" where
  "cpu_dma_request a c w s =
    s\<lparr>dma_startaddr := a, dma_buscycle := c, dma_wordcount := 1, dma_cpu_access := 1,
      dma_words := (if QUNIBUS_CYCLE_IS_DATO c then (dma_words s)(0 := w) else dma_words s), dma_cur_status := 0\<rparr>"

text \<open>The firmware runs it; \<open>n\<close> bounds the state functions a transfer takes.\<close>

definition board_transfer :: "nat \<Rightarrow> bus_lines \<Rightarrow> u32 \<Rightarrow> u8 \<Rightarrow> u16 \<Rightarrow> 'a statemachine_intr_master_t_scheme \<Rightarrow>
    bool \<times> 'a statemachine_intr_master_t_scheme" where
  "board_transfer n lines a c w s =
    (case master_run n lines Dma_start (cpu_dma_request a c w s) of
       Some (None, t) \<Rightarrow> (dma_cur_status t = DMA_STATE_READY, t)
     | _ \<Rightarrow> (False, s))"

definition board_rd :: "nat \<Rightarrow> bus_lines \<Rightarrow> u32 \<Rightarrow> 'a statemachine_intr_master_t_scheme \<Rightarrow>
    u16 option \<times> 'a statemachine_intr_master_t_scheme" where
  "board_rd n lines a s =
    (let (ok, t) = board_transfer n lines a QUNIBUS_CYCLE_DATI 0 s in (if ok then Some (dma_words t 0) else None, t))"

definition board_wr :: "nat \<Rightarrow> bus_lines \<Rightarrow> u32 \<Rightarrow> u16 \<Rightarrow> 'a statemachine_intr_master_t_scheme \<Rightarrow>
    bool \<times> 'a statemachine_intr_master_t_scheme" where
  "board_wr n lines a w s = board_transfer n lines a QUNIBUS_CYCLE_DATO w s"

text \<open>The six functions of the adapter; a byte write, the grant of interrupts and INIT are not used here.\<close>

definition board_bus :: "nat \<Rightarrow> bus_lines \<Rightarrow> (u32 \<Rightarrow> u16 \<Rightarrow> 'a statemachine_intr_master_t_scheme \<Rightarrow> bool \<times> 'a statemachine_intr_master_t_scheme) \<Rightarrow>
    ('a statemachine_intr_master_t_scheme \<Rightarrow> 'a statemachine_intr_master_t_scheme) \<Rightarrow>
    ('a statemachine_intr_master_t_scheme \<Rightarrow> 'a statemachine_intr_master_t_scheme) \<Rightarrow> 'a statemachine_intr_master_t_scheme bus_ops" where
  "board_bus n lines datob grant init =
    \<lparr>unibone_dati = (\<lambda>a s. map_prod (map_option ucast) id (board_rd n lines a s)),
     unibone_dato = board_wr n lines,
     unibone_datob = datob,
     unibone_grant_interrupts = grant,
     unibone_prioritylevelchange = (\<lambda>l s. s\<lparr>ifs_priority_level := l\<rparr>),
     unibone_bus_init = init\<rparr>"

definition board_ok :: "u32 \<Rightarrow> u32 \<Rightarrow> 'a statemachine_intr_master_t_scheme \<Rightarrow> bool" where
  "board_ok lo hi s \<longleftrightarrow> card_ok lo hi s \<and> address_overlay s = 0"

lemma master_run_more: "master_run k bus st s = Some (None, t) \<Longrightarrow> master_run (k + j) bus st s = Some (None, t)"
  by (induction k arbitrary: st s) (auto split: option.splits prod.splits)

text \<open>One word, read or written.\<close>

lemma board_transfer_card:
  assumes "board_ok lo hi s" "a \<in> card_cells lo hi" "quiet_bus lines" "3 \<le> n" "c \<in> {QUNIBUS_CYCLE_DATI, QUNIBUS_CYCLE_DATO}"
  obtains t where "board_transfer n lines a c w s = (True, t)" "board_ok lo hi t"
    "c = QUNIBUS_CYCLE_DATI \<Longrightarrow> dma_words t 0 = ddr_read s a \<and> ddr_words t = ddr_words s"
    "c = QUNIBUS_CYCLE_DATO \<Longrightarrow> ddr_words t = (ddr_words s)(unat (a div 2) := w)"
proof -
  let ?r = "cpu_dma_request a c w s"
  have r: "card_ok lo hi ?r" "address_overlay ?r = 0" "dma_buscycle ?r = c" "unat (dma_wordcount ?r) = 1"
      "dma_startaddr ?r = a" "ddr_words ?r = ddr_words s"
    using assms(1) by (simp_all add: cpu_dma_request_def board_ok_def card_ok_def)
  have cells: "dma_startaddr ?r + 2 * of_nat j \<in> card_cells lo hi" if "j < unat (dma_wordcount ?r)" for j
    using that r assms(2) by simp
  from dma_run[OF r(1,2) _ _ _ assms(3) cells] obtain t where
    t: "master_run 3 lines Dma_start ?r = Some (None, t)" "block_moved 0 1 ?r t" "dma_cur_status t = DMA_STATE_READY"
      "same_config ?r t" "address_overlay t = 0"
    using assms(5) r by (auto simp: PRU_MAX_DMA_WORDCOUNT_def numeral_3_eq_3)
  have "master_run n lines Dma_start ?r = Some (None, t)"
    using master_run_more[OF t(1), of "n - 3"] assms(4) by simp
  then have "board_transfer n lines a c w s = (True, t)" by (simp add: board_transfer_def t(3))
  moreover have "board_ok lo hi t" using card_ok_config[OF t(4), of lo hi] r(1) t(5) by (simp add: board_ok_def)
  moreover have "dma_words t 0 = ddr_read s a \<and> ddr_words t = ddr_words s" if "c = QUNIBUS_CYCLE_DATI"
    using t(2) r that card_in_ddr[OF assms(2)]
    by (simp add: block_moved_def Let_def ddr_read_in QUNIBUS_CYCLE_IS_DATO_def QUNIBUS_CYCLE_DATI_def)
  moreover have "ddr_words t = (ddr_words s)(unat (a div 2) := w)" if "c = QUNIBUS_CYCLE_DATO"
  proof -
    have "dma_words ?r 0 = w" using that by (simp add: cpu_dma_request_def QUNIBUS_CYCLE_IS_DATO_def QUNIBUS_CYCLE_DATO_def)
    then show ?thesis
      using t(2) r that by (auto simp: block_moved_def Let_def QUNIBUS_CYCLE_IS_DATO_def QUNIBUS_CYCLE_DATO_def fun_eq_iff)
  qed
  ultimately show ?thesis using that by blast
qed

lemma board_rd_card:
  assumes "board_ok lo hi s" "a \<in> card_cells lo hi" "quiet_bus lines" "3 \<le> n"
  shows "fst (board_rd n lines a s) = Some (ddr_read s a)" "board_ok lo hi (snd (board_rd n lines a s))"
    "ddr_words (snd (board_rd n lines a s)) = ddr_words s"
  by (rule board_transfer_card[OF assms, of QUNIBUS_CYCLE_DATI 0]; simp add: board_rd_def)+

lemma board_wr_card:
  assumes "board_ok lo hi s" "a \<in> card_cells lo hi" "quiet_bus lines" "3 \<le> n"
  shows "fst (board_wr n lines a w s)" "board_ok lo hi (snd (board_wr n lines a w s))"
    "ddr_words (snd (board_wr n lines a w s)) = (ddr_words s)(unat (a div 2) := w)"
  by (rule board_transfer_card[OF assms, of QUNIBUS_CYCLE_DATO w]; simp add: board_wr_def)+

interpretation board: cpu_memory "board_rd (n + 3) lines" "board_wr (n + 3) lines" "\<lambda>s. board_ok lo hi s \<and> quiet_bus lines"
    "card_cells lo hi" "board_bus (n + 3) lines datob grant init"
  for n :: nat and lines :: bus_lines and lo hi :: u32 and datob grant init
proof (unfold_locales, goal_cases)
  case (4 s a b w)
  note wr = board_wr_card[of lo hi s a lines "n + 3" w]
  from 4 show ?case
    using card_half_inj[of b lo hi a] wr board_rd_card(1)[of lo hi "snd (board_wr (n + 3) lines a w s)" b lines "n + 3"]
      board_rd_card(1)[of lo hi s b lines "n + 3"]
    by (simp add: ddr_read_in card_in_ddr unat_half_eq)
next
  case (5 s a b)
  then show ?case
    using board_rd_card[of lo hi s a lines "n + 3"] board_rd_card(1)[of lo hi s b lines "n + 3"]
      board_rd_card(1)[of lo hi "snd (board_rd (n + 3) lines a s)" b lines "n + 3"]
    by (simp add: ddr_read_in card_in_ddr)
next
  case (8 s l)
  then show ?case by (simp add: board_bus_def board_ok_def card_ok_def)
next
  case (9 s a l)
  then have "board_ok lo hi (s\<lparr>ifs_priority_level := l\<rparr>)" by (simp add: board_ok_def card_ok_def)
  then show ?case
    using 9 board_rd_card(1)[of lo hi s a lines "n + 3"] board_rd_card(1)[of lo hi "s\<lparr>ifs_priority_level := l\<rparr>" a lines "n + 3"]
    by (simp add: board_bus_def ddr_read_in card_in_ddr)
qed (simp_all add: board_rd_card board_wr_card[where lo = lo and hi = hi] board_bus_def map_prod_def split: prod.split)

section \<open>An interrupt and its return\<close>

lemma ka_exec_RTI: "ka_ir s = 2 \<Longrightarrow> ka_exec bus s = ka_RTI bus s"
  by (simp add: ka_exec_def Let_def ka_unary_def ka_misc_def ka_operate_def)

lemma interrupt_step:
  assumes "ka_external_intr s"
    and "ka_trap_seq bus (ka_set_r 10 (ka_external_intrvec s)
      (s\<lparr>ka_inhov := False, ka_external_intr := False, ka_state := KA11_STATE_RUNNING\<rparr>)) = (KaReturn, t)"
  shows "ka_step (Suc (Suc k)) bus s = Some t"
  using assms by (simp add: ka_step_def ka_step_begin_def Let_def)

context cpu_memory
begin

lemma rti_step:
  fixes u :: "'s ka_mach"
  defines "sp \<equiv> ka_r u 6"
  assumes run: "\<not> ka_external_intr u" "ka_traps u = 0" "ka_psw u AND KA_PSW_T = 0"
    and ok: "ok (ka_env u)" and cells: "cpu_cell cells (ka_r u 7)" "cpu_cell cells sp" "cpu_cell cells (sp + 2)"
    and op: "fst (rd (ubxt (ka_r u 7)) (ka_env u)) = Some 2"
    and frame: "fst (rd (ubxt sp) (ka_env u)) = Some pc" "fst (rd (ubxt (sp + 2)) (ka_env u)) = Some (ucast p)"
  obtains w where "ka_step (Suc (Suc k)) bus u = Some w" "ka_r w = (ka_r u)(6 := sp + 4, 7 := pc)" "ka_psw w = p"
    "\<exists>e. ka_env w = unibone_prioritylevelchange bus (drop_bit 5 p) e"
proof -
  have c: "ubxt (ka_r u 7) \<in> cells" "ubxt sp \<in> cells" "ubxt (sp + 2) \<in> cells"
    using cells by (simp_all add: cpu_cell_def)
  define e where "e = snd (rd (ubxt (ka_r u 7)) (ka_env u))"
  have e: "ok e" "\<And>b. b \<in> cells \<Longrightarrow> fst (rd b e) = fst (rd b (ka_env u))"
    using ok c by (simp_all add: e_def rd_ok rd_rd)
  define q where "q = u\<lparr>ka_inhov := False, ka_oldpsw := ka_psw u, ka_ba := ka_r u 7, ka_env := e, ka_bdata := 2, ka_be := 0\<rparr>"
  have "ka_INA bus (ka_r u 7) (u\<lparr>ka_inhov := False, ka_oldpsw := ka_psw u\<rparr>) = (False, q)"
    using fetch[of "u\<lparr>ka_inhov := False, ka_oldpsw := ka_psw u, ka_ba := ka_r u 7\<rparr>" 2] ok cells op
    by (simp add: ka_INA_def q_def e_def)
  moreover define x where "x = ka_set_r 7 (ka_r u 7 + 2) (q\<lparr>ka_ir := 2\<rparr>)"
  ultimately have first: "ka_step_begin bus u = ka_RTI bus x"
    using run(1) by (simp add: ka_step_begin_def Let_def ka_try_def ka_exec_RTI x_def q_def ka_set_r_def)
  have x: "ka_r x = (ka_r u)(7 := ka_r u 7 + 2)" "ka_env x = e" "ka_oldpsw x = ka_psw u" "ka_traps x = ka_traps u"
    by (simp_all add: x_def q_def ka_set_r_def)
  have "ka_r x 6 = sp" by (simp add: x sp_def)
  then obtain w where w: "ka_RTI bus x = (KaService, w)" "ka_r w = (ka_r x)(6 := sp + 4, 7 := pc)" "ka_psw w = p"
    "ka_oldpsw w = ka_psw u" "ka_traps w = 0" "\<exists>e. ka_env w = unibone_prioritylevelchange bus (drop_bit 5 p) e"
    using rti_returns[of x pc p] e c cells frame run(2) by (metis x(2-4))
  have "ka_step (Suc (Suc k)) bus u = Some w"
    using w(4,5) run(3) by (simp add: ka_step_def first w(1) ka_service_def)
  moreover have "ka_r w = (ka_r u)(6 := sp + 4, 7 := pc)" by (simp add: w(2) x fun_upd_twist)
  ultimately show ?thesis using that w(3,6) by blast
qed

end

text \<open>C40.
  An interrupt on the running machine. The 11/20 core, with every bus cycle run by the
  firmware as a one-word DMA on the memory card, takes a pending interrupt by pushing PSW
  and PC on the stack on the card, loading PC and PSW from the vector on the card, and
  telling the arbitrator the new priority. When later an RTI is executed with the stack
  pointer and the two words of the frame as they were, the core continues the interrupted
  program with its PC, PSW and stack pointer, and the arbitrator grants at its priority
  again. Two rounds of the labels of \<open>step()\<close> and three state functions a cycle are enough.
\<close>

theorem interrupt_returns_on_board:
  fixes s :: "'a statemachine_intr_master_t_scheme ka_mach" and lo hi :: u32 and n :: nat and lines :: bus_lines
    and datob grant init
  defines "sp \<equiv> ka_r s 6" and "v \<equiv> ka_external_intrvec s" and "cell \<equiv> cpu_cell (card_cells lo hi)"
    and "word_at \<equiv> \<lambda>(u :: 'a statemachine_intr_master_t_scheme ka_mach) a. ddr_read (ka_env u) (ubxt a)"
  assumes intr: "ka_external_intr s"
    and board: "board_ok lo hi (ka_env s)" "quiet_bus lines"
    and cells: "cell (sp - 2)" "cell (sp - 4)" "cell v" "cell (v + 2)"
    and apart: "v \<notin> {sp - 2, sp - 4}" "v + 2 \<notin> {sp - 2, sp - 4}"
  defines "bus \<equiv> board_bus (n + 3) lines datob grant init"
  shows "\<exists>t. ka_step (k + 2) bus s = Some t \<and>
    ka_r t = (ka_r s)(10 := v, 6 := sp - 4, 7 := word_at s v) \<and> ka_psw t = ucast (word_at s (v + 2)) \<and>
    ifs_priority_level (ka_env t) = drop_bit 5 (ka_psw t) \<and> board_ok lo hi (ka_env t) \<and> \<not> ka_external_intr t \<and>
    word_at t (sp - 2) = ucast (ka_psw s) \<and> word_at t (sp - 4) = ka_r s 7 \<and>
    (\<forall>a. cell a \<and> a \<notin> {sp - 2, sp - 4} \<longrightarrow> word_at t a = word_at s a) \<and>
    (\<forall>u. \<not> ka_external_intr u \<and> ka_traps u = 0 \<and> ka_psw u AND KA_PSW_T = 0 \<and> board_ok lo hi (ka_env u) \<and>
       cell (ka_r u 7) \<and> word_at u (ka_r u 7) = 2 \<and> ka_r u 6 = sp - 4 \<and>
       word_at u (sp - 2) = word_at t (sp - 2) \<and> word_at u (sp - 4) = word_at t (sp - 4) \<longrightarrow>
       (\<exists>w. ka_step (k + 2) bus u = Some w \<and> ka_r w = (ka_r u)(6 := sp, 7 := ka_r s 7) \<and> ka_psw w = ka_psw s \<and>
          ifs_priority_level (ka_env w) = drop_bit 5 (ka_psw s)))"
proof -
  define p where "p = ka_set_r 10 v (s\<lparr>ka_inhov := False, ka_external_intr := False, ka_state := KA11_STATE_RUNNING\<rparr>)"
  have p: "ka_r p = (ka_r s)(10 := v)" "ka_env p = ka_env s" "ka_psw p = ka_psw s"
    by (simp_all add: p_def ka_set_r_def)
  have c: "a = sp - 2 \<or> a = sp - 4 \<or> a = v \<or> a = v + 2 \<or> cell a \<Longrightarrow> ubxt a \<in> card_cells lo hi" for a
    using cells by (auto simp: cell_def cpu_cell_def)
  have rd: "fst (board_rd (n + 3) lines (ubxt a) (ka_env u)) = Some (word_at u a)"
    if "board_ok lo hi (ka_env u)" "ubxt a \<in> card_cells lo hi" for u a
    using board_rd_card(1)[OF that board(2)] by (simp add: word_at_def)
  have level: "ifs_priority_level (unibone_prioritylevelchange bus l e) = l" for l e
    by (simp add: bus_def board_bus_def)
  have sps: "sp - 4 + 2 = sp - 2" "sp - 4 + 4 = sp" by simp_all
  let ?ok = "\<lambda>s. board_ok lo hi s \<and> quiet_bus lines"
  have vec: "fst (board_rd (n + 3) lines (ubxt v) (ka_env p)) = Some (word_at s v)"
    "fst (board_rd (n + 3) lines (ubxt (v + 2)) (ka_env p)) = Some (word_at s (v + 2))"
    using rd[of s] board(1) c by (simp_all add: p)
  obtain t where t: "ka_trap_seq bus p = (KaReturn, t)" "ka_r t = (ka_r p)(6 := sp - 4, 7 := word_at s v)"
      "ka_psw t = ucast (word_at s (v + 2))" "?ok (ka_env t)"
      "fst (board_rd (n + 3) lines (ubxt (sp - 2)) (ka_env t)) = Some (ucast (ka_psw s))"
      "fst (board_rd (n + 3) lines (ubxt (sp - 4)) (ka_env t)) = Some (ka_r s 7)"
      "\<And>b. b \<in> card_cells lo hi \<Longrightarrow> b \<notin> {ubxt (sp - 2), ubxt (sp - 4)} \<Longrightarrow>
         fst (board_rd (n + 3) lines b (ka_env t)) = fst (board_rd (n + 3) lines b (ka_env s))"
      "ka_external_intr t = ka_external_intr p"
      "\<exists>e. ka_env t = unibone_prioritylevelchange bus (drop_bit 5 (ucast (word_at s (v + 2)))) e"
    by (rule board.trap_enters[where s = p and lo = lo and hi = hi and n = n and lines = lines and datob = datob
        and grant = grant and init = init and pc = "word_at s v" and ps = "word_at s (v + 2)", folded bus_def cell_def];
        use board cells apart vec in \<open>simp add: p sp_def\<close>)
  have frame: "word_at t (sp - 2) = ucast (ka_psw s)" "word_at t (sp - 4) = ka_r s 7"
    using t(4-6) rd[of t] c by auto
  have "\<exists>w. ka_step (Suc (Suc k)) bus u = Some w \<and> ka_r w = (ka_r u)(6 := sp, 7 := ka_r s 7) \<and> ka_psw w = ka_psw s \<and>
          ifs_priority_level (ka_env w) = drop_bit 5 (ka_psw s)"
    if u: "\<not> ka_external_intr u" "ka_traps u = 0" "ka_psw u AND KA_PSW_T = 0" "board_ok lo hi (ka_env u)"
      "cell (ka_r u 7)" "word_at u (ka_r u 7) = 2" "ka_r u 6 = sp - 4"
      "word_at u (sp - 2) = word_at t (sp - 2)" "word_at u (sp - 4) = word_at t (sp - 4)" for u
  proof -
    have w: "fst (board_rd (n + 3) lines (ubxt (ka_r u 7)) (ka_env u)) = Some 2"
      "fst (board_rd (n + 3) lines (ubxt (sp - 4)) (ka_env u)) = Some (ka_r s 7)"
      "fst (board_rd (n + 3) lines (ubxt (sp - 2)) (ka_env u)) = Some (ucast (ka_psw s))"
      using rd[of u] u c frame by simp_all
    obtain w where "ka_step (Suc (Suc k)) bus u = Some w" "ka_r w = (ka_r u)(6 := sp, 7 := ka_r s 7)" "ka_psw w = ka_psw s"
      "\<exists>e. ka_env w = unibone_prioritylevelchange bus (drop_bit 5 (ka_psw s)) e"
      by (rule board.rti_step[where u = u and lo = lo and hi = hi and n = n and lines = lines and datob = datob
        and grant = grant and init = init and k = k and pc = "ka_r s 7" and p = "ka_psw s", folded bus_def cell_def];
        use u board(2) cells w in \<open>simp add: sps\<close>)
    then show ?thesis using level by auto
  qed
  moreover have "ka_step (Suc (Suc k)) bus s = Some t"
    using interrupt_step[OF intr, of bus t k] t(1) by (simp add: p_def v_def)
  moreover have "word_at t a = word_at s a" if "cell a" "a \<notin> {sp - 2, sp - 4}" for a
    using t(4) t(7)[of "ubxt a"] rd[of t a] rd[of s a] board(1) that c[of a] by (simp add: ubxt_inj)
  moreover have "\<not> ka_external_intr t" using t(8) by (simp add: p_def ka_set_r_def)
  ultimately show ?thesis
    using t(2-4,9) level frame by (auto simp: p)
qed

text \<open>The machine of the witness: a stack at 01000, vector 060 with PC 02000 and PSW 0340.\<close>

definition demo_card :: pru where
  "demo_card = demo_dma\<lparr>ddr_words := (ddr_words demo_dma)(0x18 := 0x400, 0x19 := 0xE0, 0x200 := 2)\<rparr>"

definition demo_machine :: "pru ka_mach" where
  "demo_machine =
    \<lparr>ka_r = (\<lambda>_. 0)(6 := 0x200, 7 := 0x300), ka_b = 0, ka_ba = 0, ka_bdata = 0, ka_ir = 0, ka_psw = 1, ka_traps = 0,
     ka_be = 0, ka_state = KA11_STATE_RUNNING, ka_external_intr = True, ka_external_intrvec = 0x30, ka_sw = 0,
     ka_swab_vbit = False, ka_oldpsw = 0, ka_inhov = False, ka_assert_failed = False, ka_env = demo_card\<rparr>"

lemma demo_card_ok: "board_ok 0 0x20000 demo_card"
  using demo_dma_ok(1,2) by (simp add: board_ok_def card_ok_def demo_card_def)

lemma demo_card_words: "ddr_read demo_card 0x30 = 0x400" "ddr_read demo_card 0x32 = 0xE0" "ddr_read demo_card 0x400 = 2"
  by (simp_all add: ddr_read_in demo_card_def in_ddr_def QUNIBUS_MAX_WORDCOUNT_def)

lemma demo_cells:
  "cpu_cell (card_cells 0 0x20000) 0x1FE" "cpu_cell (card_cells 0 0x20000) 0x1FC"
  "cpu_cell (card_cells 0 0x20000) 0x30" "cpu_cell (card_cells 0 0x20000) 0x32" "cpu_cell (card_cells 0 0x20000) 0x400"
  by (simp_all add: cpu_cell_def ka_odd_def ubxt_def card_cells_def)

theorem interrupt_returns_on_board_witness:
  "\<exists>t w. ka_step 2 (board_bus 3 idle_bus (\<lambda>_ _ s. (False, s)) id id) demo_machine = Some t \<and>
     ka_r t 7 = 0x400 \<and> ifs_priority_level (ka_env t) = 7 \<and>
     ka_step 2 (board_bus 3 idle_bus (\<lambda>_ _ s. (False, s)) id id) (t\<lparr>ka_traps := 0\<rparr>) = Some w \<and>
     ka_r w 7 = 0x300 \<and> ka_r w 6 = 0x200 \<and> ka_psw w = 1 \<and> ifs_priority_level (ka_env w) = 0"
proof -
  let ?bus = "board_bus 3 idle_bus (\<lambda>_ _ s. (False, s)) id id :: pru bus_ops"
  have r: "ka_r demo_machine 6 = 0x200" "ka_external_intrvec demo_machine = 0x30" "ka_external_intr demo_machine"
    "ka_env demo_machine = demo_card" "ka_r demo_machine 7 = 0x300" "ka_psw demo_machine = 1"
    by (simp_all add: demo_machine_def)
  have p: "ubxt 0x30 = 0x30" "ubxt 0x32 = 0x32" "ubxt 0x400 = 0x400" by (simp_all add: ubxt_def)
  note i = interrupt_returns_on_board[where s = demo_machine and lo = 0 and hi = "0x20000" and n = 0 and lines = idle_bus
      and datob = "\<lambda>_ _ s. (False, s)" and grant = id and init = id and k = 0]
  have ar: "0x200 - 2 = (0x1FE :: u16)" "0x200 - 4 = (0x1FC :: u16)" "0x30 + 2 = (0x32 :: u16)" by simp_all
  have two: "0 + 2 = (2 :: nat)" "0 + 3 = (3 :: nat)" by simp_all
  obtain t where t: "ka_step 2 ?bus demo_machine = Some t" "ka_r t = (ka_r demo_machine)(10 := 0x30, 6 := 0x1FC, 7 := 0x400)"
      "ka_psw t = 0xE0" "ifs_priority_level (ka_env t) = 7" "board_ok 0 0x20000 (ka_env t)" "\<not> ka_external_intr t"
      "ddr_read (ka_env t) 0x400 = 2"
    and ret: "\<forall>u. \<not> ka_external_intr u \<and> ka_traps u = 0 \<and> ka_psw u AND KA_PSW_T = 0 \<and> board_ok 0 0x20000 (ka_env u) \<and>
       cpu_cell (card_cells 0 0x20000) (ka_r u 7) \<and> ddr_read (ka_env u) (ubxt (ka_r u 7)) = 2 \<and> ka_r u 6 = 0x1FC \<and>
       ddr_read (ka_env u) (ubxt 0x1FE) = ddr_read (ka_env t) (ubxt 0x1FE) \<and>
       ddr_read (ka_env u) (ubxt 0x1FC) = ddr_read (ka_env t) (ubxt 0x1FC) \<longrightarrow>
       (\<exists>w. ka_step 2 ?bus u = Some w \<and> ka_r w = (ka_r u)(6 := 0x200, 7 := 0x300) \<and> ka_psw w = 1 \<and>
         ifs_priority_level (ka_env w) = 0)"
  proof (rule exE[OF i[unfolded two r ar]], goal_cases)
    case (10 t)
    have num: "ucast (0xE0 :: u16) = (0xE0 :: u8)" "drop_bit 5 (0xE0 :: u8) = 7" "drop_bit 5 (1 :: u8) = 0" by simp_all
    note c = 10(2)[unfolded p demo_card_words num]
    have "cpu_cell (card_cells 0 0x20000) 0x400 \<and> (0x400 :: u16) \<notin> {0x1FE, 0x1FC}" using demo_cells by simp
    then have "ddr_read (ka_env t) 0x400 = 2" using c p(3) demo_card_words(3) by metis
    then show ?case
      by (intro 10(1)[of t]) (use c in \<open>elim conjE, (assumption | simp)\<close>)+
  qed (use demo_card_ok demo_cells quiet_idle_bus in \<open>simp_all add: r(3)\<close>)
  have "\<exists>w. ka_step 2 ?bus (t\<lparr>ka_traps := 0\<rparr>) = Some w \<and> ka_r w = (ka_r t)(6 := 0x200, 7 := 0x300) \<and> ka_psw w = 1 \<and>
      ifs_priority_level (ka_env w) = 0"
    using ret[rule_format, of "t\<lparr>ka_traps := 0\<rparr>"] t demo_cells by (simp add: p KA_PSW_T_def)
  with t show ?thesis by auto
qed

end
