(* ===== verification/Spec2Isabelle.thy ===== *)
theory Spec2Isabelle
  imports KT11D_Props KD11EA_Props KA11_Props PruMemory_Props PruSlave_Props PruMain_Props Qbus_Props CpuOnBoard
begin

text \<open>
  \<^bold>\<open>QUniLator: the C code that runs a PDP-11 on a UNIBUS or QBUS adapter board.\<close>

  The program lives on a BeagleBone that is plugged into a PDP-11 backplane. A small core
  (a PRU, with 5 ns per instruction) drives and watches the lines of the UNIBUS or QBUS; the ARM
  runs Linux, the emulated devices and, if the backplane has no processor, an emulated CPU.
  The two sides share a mailbox and a block of memory (DDR) that holds the words of the
  emulated memory card. This development models the parts written in C that decide what
  happens on the bus and in the CPU, and proves what makes them correct.

  \<^bold>\<open>The program's parts and how they interact\<close>

  \<^item> The CPU cores \<open>cpu20/ka11.c\<close> (PDP-11/20) and \<open>cpu34/kd11ea.c\<close> (PDP-11/34), with the memory
    management \<open>cpu34/kt11d.c\<close> of the latter, all under \<open>10.02_devices/2_src\<close>. A core is called
    once per instruction (\<open>condstep\<close>) and does its bus cycles through the six functions of
    \<open>cpu_bus_adapter.h\<close>.
  \<^item> The firmware \<open>10.01_base/2_src/pru1_u\<close>. Its main loop serves data cycles of other bus masters
    from emulated memory and device registers, watches INIT and the power lines, arbitrates the
    bus, runs DMA and interrupt transfers, delivers interrupts to an emulated CPU, and takes one
    command of the ARM per pass. What it shares with the ARM is in
    \<open>10.01_base/2_src/shared\<close> (\<open>mailbox.h\<close>, \<open>ddrmem.h\<close>, \<open>iopageregister.h\<close>).
  \<^item> The firmware \<open>10.01_base/2_src/pru1_q\<close>, the same role on a QBUS backplane. The bus has other
    rules - address and data on the same lines, blocks of words, an interrupt acknowledge that
    the interrupting board answers as a slave - and so the program has other state machines. The
    processor is always a card on the bus.

  \<^bold>\<open>Theories\<close>

  \<^item> \<open>Prelude\<close>: the C integer types as words, masks and masked merges.
  \<^item> \<open>KT11D\<close>: the struct \<open>kt11d\<close> and its operations - page registers and the descriptors
    precomputed from them, relocation, aborts, MMR0 to MMR2, register decode. \<open>KT11D_Lemmas\<close>: the
    coherence invariant of the derived data, 32-bit arithmetic of the block check, the abort
    bookkeeping. \<open>KT11D_Props\<close>: C1 to C4, C6, C7.
  \<^item> \<open>CpuBus\<close>: the interface of a core to the bus, a record of functions over an arbitrary bus state.
  \<^item> \<open>KD11EA\<close> (state, PSW, bus cycles, addressing), \<open>KD11EA_Exec\<close> (double operand and extended
    instructions), \<open>KD11EA_Step\<close> (the other instructions, decode, the labels \<open>trap\<close>, \<open>be\<close>,
    \<open>service\<close>, and \<open>condstep\<close>): \<open>kd11ea.c\<close>. \<open>KD11EA_Inv\<close>: one preservation lemma per operation.
    \<open>KD11EA_Run\<close>: runs of entry points and concrete machines. \<open>KD11EA_Arith\<close>, \<open>KD11EA_Shift\<close>:
    arithmetic against the integers. \<open>KD11EA_Props\<close>: C9 to C16.
  \<^item> \<open>KA11\<close>, \<open>KA11_Step\<close>: \<open>ka11.c\<close>, in the same division. \<open>KA11_Lemmas\<close>: its invariant.
    \<open>Cores_Agree\<close>: the relation between the states of the two cores that every macro keeps.
    \<open>KA11_Props\<close>: C37 to C39.
  \<^item> \<open>PruMemory\<close>: \<open>pru1_iopageregisters.c\<close>, \<open>pru1_ddrmem.c\<close>, \<open>ddrmem.h\<close>, \<open>iopageregister.h\<close> - what a bus
    cycle to an emulated address does, with the UNIBUS adapter map and the register access
    events. \<open>PruMemory_Lemmas\<close>: where an address reaches (\<open>reaches\<close>) and whether that is in the memory
    (\<open>inside\<close>), the three cycles against it, the locale \<open>word_store\<close> of a store of words with its interpretation on the model.
    \<open>PruMemory_Props\<close>: C17 to C20.
  \<^item> \<open>PruLatches\<close> (\<open>pru1_buslatches.c\<close>), \<open>PruTimeouts\<close> (\<open>pru1_timeouts.c\<close>), \<open>PruArbitration\<close>
    (\<open>pru1_statemachine_arbitration.c\<close>), \<open>PruMaster\<close> (DMA and interrupt masters), \<open>PruSlave\<close> (data and
    interrupt slaves, INIT, ACLO, DCLO of \<open>pru1_utils.c\<close>), \<open>PruMain\<close> (\<open>pru1_main_unibus.c\<close>).
  \<^item> \<open>PruBus_Lemmas\<close> (latches, timers), \<open>PruArb_Lemmas\<close> (the arbitrator against a specification of the
    next grant), \<open>PruFrames\<close> (what an operation leaves alone), \<open>PruDma_Lemmas\<close> (runs of the DMA
    states), \<open>PruMain_Lemmas\<close> (the lines each state may drive, one lemma per operation of the
    loop). \<open>PruArb_Props\<close>: C25 to C28, \<open>PruDma_Props\<close>: C29 and C31, \<open>PruSlave_Props\<close>: C33 and C34,
    \<open>PruMain_Props\<close>: C35 and C36.
  \<^item> \<open>QbusBoard\<close> (\<open>pru1_iopageregisters.c\<close>, \<open>pru1_buslatches.c\<close>, \<open>pru1_timeouts.h\<close>, \<open>pru1_diag.c\<close>),
    \<open>QbusArbitration\<close> (\<open>pru1_statemachine_arbitration.c\<close>, \<open>pru1_statemachine_initialization.c\<close>),
    \<open>QbusDma\<close> (\<open>pru1_statemachine_dma.c\<close>), \<open>QbusSlave\<close> (\<open>pru1_statemachine_data_slave.c\<close>), \<open>QbusMain\<close>
    (\<open>pru1_main_qbus.c\<close>), all under \<open>pru1_q\<close>. \<open>QbusDma_Lemmas\<close>: the memory card as a
    \<open>word_store\<close> of this firmware, runs of the DMA states over blocks.
    \<open>QbusArb_Lemmas\<close>: the masks of the grant check and the steps of an acknowledge.
    \<open>QbusMain_Lemmas\<close>: the lines each state may drive, kept by every operation of the loop.
    \<open>QbusSlave_Lemmas\<close>: turns of the slave loop over a block. \<open>Qbus_Props\<close>: C5, C8, C21 to C24, C30, C32.
  \<^item> \<open>CpuOnBoard\<close>: the 11/20 core, the DMA state machine and the memory composed. The locale
    \<open>cpu_memory\<close> is what a core needs of its memory, the board is its interpretation. C40.

  \<^bold>\<open>How the model corresponds to the code\<close>

  A struct is a record with the fields of the source; where a function of the firmware reaches
  the state of several files, the records extend each other in the order of the files, up to
  \<open>pru\<close> and \<open>qpru\<close>, so that each component's operations are stated on its own part and apply to the whole.
  An operation takes the state and returns it updated; a C function with a result returns a
  pair; a function that does not answer returns \<open>None\<close> or \<open>False\<close>. A state of a state machine -
  a function pointer in C - is a constructor of \<open>master_state\<close>, \<open>slave_state\<close>, \<open>intr_slave_state\<close>
  or \<open>q_dma_state\<close>, with \<open>None\<close> for the null pointer. The names of the QBUS program carry the prefix
  \<open>q_\<close>, since both programs use the same names in C; what is the same text in both is defined once. A \<open>goto\<close> out of an instruction is a value of \<open>exit_to\<close>
  or \<open>ka_exit\<close>. Integers are words of their C width, register arrays are functions from
  indices, and an access outside an array sets the ghost flag \<open>array_oob\<close> (the firmware) or is
  excluded by a property (the cores); \<open>assert(0)\<close> sets a flag as well. Behind the emulated memory a bus
  cycle reads and writes what follows it in the packed struct \<open>ddrmem_t\<close>, the adapter's map first
  (\<open>ddrmem_word\<close>, \<open>ddrmem_set_word\<close>).

  Code that is not in C under \<open>src\<close> is a parameter. The bus of the firmware is
  a function \<open>bus n out r\<close>: what the \<open>n\<close>-th read of the board sees in register \<open>r\<close>
  while its own latches hold \<open>out\<close>, so other cards may change the lines between any two reads. The bus
  of a CPU core is the record \<open>bus_ops\<close>. The cycle counter advances by an explicit
  \<open>cycles_pass\<close> or \<open>q_cycles_pass\<close>. The ARM acts between the passes of the main loop (\<open>arm_turn\<close>, \<open>q_arm_turn\<close>).

  \<^bold>\<open>Loops and fuel\<close>

  The labels of \<open>step()\<close> jump to each other without a bound: they run on fuel, where \<open>None\<close>
  means that the fuel did not suffice. C11 shows that the 11/34 core really can loop for
  ever; C38 gives the fuel 5 that suffices for a double bus error of the 11/20 core.
  Two loops of the UNIBUS firmware wait for a bus line: they are partial functions into \<open>option\<close>, \<open>None\<close>
  means that they wait for ever, and \<open>ssyn_wait_terminates_iff\<close> says when the one inside a DMA does not.
  The data slave of the QBUS firmware waits for the master in the same way (\<open>q_sm_data_slave_func\<close>); C30 counts its
  turns one by one, so it speaks of no endless wait. The DMA theorems count the steps they need (C5, C29). Everything else is structurally recursive or has no loop.

  \<^bold>\<open>What is proved\<close>

  The memory management relocates as its registers define, its derived data stay
  coherent, an abort records its cause and freezes it, and the logs undo (C1 to C4, C6, C7). The 11/34
  core keeps its invariant and its arrays, computes arithmetic, shifts and branches as the
  integers do, and confines user programs (C9 to C16); the 11/20 core stays well formed,
  halts on a double bus error, and agrees with the 11/34 core on registers and PSW but for V after
  SWAB (C37 to C39). The memory of the board behaves as the map registers say (C17), a page frame
  too large reaches the map itself (C18), and inside the memory byte and word cycles agree and
  protected state is protected (C19, C20). Timers are counted right, the arbitrator grants by priority and at most once, grants are passed or
  accepted but never both (C25 to C28). A DMA moves exactly its block and
  a missing answer ends it in time (C29, C31). Interrupt vectors arrive, slave
  cycles follow the handshake (C33, C34). The whole loop asserts bus lines only in the
  states that own them, and a cancelled DMA never starts (C35, C36). On the composed machine
  an interrupt and its RTI bring the interrupted program and its priority back (C40).

  On the QBUS a DMA moves exactly its request although it runs in blocks (C5), and starts only as
  the master of a bus that is free (C22); grants are passed or accepted but never both (C21); an
  acknowledged interrupt gets its vector and exactly its own request and event (C8), and one that
  was withdrawn too late still gets an answer (C24). Blocks written by another master are read back
  (C30), a timeout is reached when its delay has passed (C32), and the whole loop asserts the lines of
  the bus only in the states that own them (C23).

  Where the code does not do what its comments promise the theorem states what it does: the
  undetected double bus error of the 11/34 core (C11), page frames outside the memory (C18), the byte
  offset of a map register, which is counted and not applied (\<open>byte_offset_not_applied\<close>), the SACK
  timeout that is not polled (C27), the QBUS timeout that ends just before the counter
  stops (C32), the grant for a DMA that is held off, which is neither passed nor accepted (C21), and the power-up priority of the 11/20 core that is not
  announced (\<open>pwrup_level_not_announced\<close>).

  \<^bold>\<open>Not modelled\<close>

  Trace and state dump output (text formatting), the mutex around the interrupt flag of the
  cores (the flag is read at instruction boundaries only), \<open>buslatches_test()\<close> and the test
  programs for the oscilloscope, the C++ device emulations and ARM libraries, the VAX (a
  third-party simulator with glue), the reference simulators under \<open>cpu20/pdp11-master\<close>
  (not linked), menus and utilities. Of the QBUS firmware: \<open>timeout_test()\<close>, and what is not built, the
  trace ring (\<open>QBUS_BUS_TRACE\<close>), the console detection (\<open>TUNING_ODT_HALT_DETECTION\<close>) and the blocks under
  \<open>TODO\<close> and \<open>OLD\<close>.
\<close>

end
